(* ===== verification/Text.thy ===== *)
theory Text
  imports Prelude
begin

text \<open>
  The text codecs of the standard library that the code uses: \<open>str(int)\<close> and \<open>int(str)\<close>,
  \<open>str.split\<close> and \<open>str.join\<close>, and the JSON encoding of the two kinds of list the job hash
  stores (a list of integers, a list of job ids). Strings are lists of (ASCII) characters.
\<close>

section \<open>Decimal integers\<close>

definition digit_char :: "nat \<Rightarrow> char" where
  "digit_char d = char_of (48 + d)"

definition is_digit :: "char \<Rightarrow> bool" where
  "is_digit c \<longleftrightarrow> 48 \<le> (of_char c :: nat) \<and> (of_char c :: nat) \<le> 57"

definition digit_val :: "char \<Rightarrow> nat" where
  "digit_val c = of_char c - 48"

lemma of_char_digit_char [simp]: "d < 10 \<Longrightarrow> of_char (digit_char d) = (48 + d :: nat)"
  by (simp add: digit_char_def of_char_of)

lemma is_digit_digit_char [simp]: "d < 10 \<Longrightarrow> is_digit (digit_char d)"
  by (simp add: is_digit_def)

lemma digit_val_digit_char [simp]: "d < 10 \<Longrightarrow> digit_val (digit_char d) = d"
  by (simp add: digit_val_def)

fun str_of_nat :: "nat \<Rightarrow> string" where
  "str_of_nat n = (if n < 10 then [digit_char n] else str_of_nat (n div 10) @ [digit_char (n mod 10)])"

declare str_of_nat.simps [simp del]

definition str_of_int :: "int \<Rightarrow> string" where
  "str_of_int i = (if i < 0 then CHR ''-'' # str_of_nat (nat (- i)) else str_of_nat (nat i))"

lemma str_of_nat_nonempty [simp]: "str_of_nat n \<noteq> []"
  by (subst str_of_nat.simps) simp

lemma str_of_nat_digits: "\<forall>c \<in> set (str_of_nat n). is_digit c"
proof (induction n rule: str_of_nat.induct)
  case (1 n)
  then show ?case by (subst str_of_nat.simps) auto
qed

lemma str_of_int_nonempty [simp]: "str_of_int i \<noteq> []"
  by (simp add: str_of_int_def)

text \<open>
  \<open>int(s)\<close>: surrounding white space is dropped, an optional sign is read, and the rest is decimal
  digits, with single underscores allowed between digits. \<open>None\<close> is ValueError.
\<close>

fun int_digits :: "nat \<Rightarrow> bool \<Rightarrow> string \<Rightarrow> nat option" where
  "int_digits acc d [] = (if d then Some acc else None)"
| "int_digits acc d (c # cs) =
     (if is_digit c then int_digits (acc * 10 + digit_val c) True cs
      else if c = CHR ''_'' \<and> d then int_digits acc False cs
      else None)"

definition is_space :: "char \<Rightarrow> bool" where
  "is_space c \<longleftrightarrow> of_char c \<in> {9, 10, 11, 12, 13, 28, 29, 30, 31, 32 :: nat}"

definition strip :: "string \<Rightarrow> string" where
  "strip s = rev (dropWhile is_space (rev (dropWhile is_space s)))"

definition int_of_str :: "string \<Rightarrow> int option" where
  "int_of_str s =
     (case strip s of
        [] \<Rightarrow> None
      | c # cs \<Rightarrow>
          if c = CHR ''-'' then map_option (\<lambda>n. - int n) (int_digits 0 False cs)
          else if c = CHR ''+'' then map_option int (int_digits 0 False cs)
          else map_option int (int_digits 0 False (c # cs)))"

lemma int_digits_append_digit:
  "int_digits acc d xs = Some n \<Longrightarrow> is_digit c \<Longrightarrow> int_digits acc d (xs @ [c]) = Some (n * 10 + digit_val c)"
  by (induction acc d xs rule: int_digits.induct) (auto split: if_splits)

lemma int_digits_str_of_nat: "int_digits 0 False (str_of_nat n) = Some n"
proof (induction n rule: str_of_nat.induct)
  case (1 n)
  show ?case
  proof (cases "n < 10")
    case True
    then show ?thesis by (subst str_of_nat.simps) simp
  next
    case False
    with 1 have "int_digits 0 False (str_of_nat (n div 10)) = Some (n div 10)" by simp
    then have "int_digits 0 False (str_of_nat (n div 10) @ [digit_char (n mod 10)])
        = Some (n div 10 * 10 + n mod 10)"
      by (simp add: int_digits_append_digit)
    with False show ?thesis by (subst str_of_nat.simps) simp
  qed
qed

lemma is_digit_not_space: "is_digit c \<Longrightarrow> \<not> is_space c"
  by (auto simp: is_digit_def is_space_def)

lemma minus_not_space [simp]: "\<not> is_space CHR ''-''"
  by (simp add: is_space_def)

lemma strip_no_space:
  assumes "\<forall>c \<in> set s. \<not> is_space c"
  shows "strip s = s"
proof -
  have "dropWhile is_space s = s" using assms by (cases s) auto
  moreover have "dropWhile is_space (rev s) = rev s" using assms by (cases "rev s") (auto simp: rev_eq_Cons_iff)
  ultimately show ?thesis by (simp add: strip_def)
qed

lemma str_of_nat_no_space: "\<forall>c \<in> set (str_of_nat n). \<not> is_space c"
  using str_of_nat_digits is_digit_not_space by blast

lemma str_of_nat_Cons: "\<exists>c cs. str_of_nat n = c # cs \<and> is_digit c"
  using str_of_nat_digits [of n] str_of_nat_nonempty [of n] by (cases "str_of_nat n") auto

lemma int_of_str_of_int [simp]: "int_of_str (str_of_int i) = Some i"
proof (cases "i < 0")
  case True
  have "\<forall>c \<in> set (CHR ''-'' # str_of_nat (nat (- i))). \<not> is_space c"
    using str_of_nat_no_space by simp
  then have "strip (CHR ''-'' # str_of_nat (nat (- i))) = CHR ''-'' # str_of_nat (nat (- i))"
    by (rule strip_no_space)
  with True show ?thesis by (simp add: int_of_str_def str_of_int_def int_digits_str_of_nat)
next
  case False
  obtain c cs where c: "str_of_nat (nat i) = c # cs" "is_digit c" using str_of_nat_Cons by blast
  have "c \<noteq> CHR ''-''" "c \<noteq> CHR ''+''" using c(2) by (auto simp: is_digit_def)
  moreover have "strip (str_of_nat (nat i)) = c # cs"
    using c(1) str_of_nat_no_space strip_no_space by metis
  moreover have "int_digits 0 False (c # cs) = Some (nat i)"
    using int_digits_str_of_nat [of "nat i"] c(1) by simp
  ultimately show ?thesis using False by (simp add: int_of_str_def str_of_int_def del: int_digits.simps)
qed

lemma str_of_int_inject [simp]: "str_of_int i = str_of_int j \<longleftrightarrow> i = j"
  by (metis int_of_str_of_int option.inject)

section \<open>Splitting and joining\<close>

text \<open>\<open>s.split(c)\<close> for a one-character separator, and \<open>sep.join(parts)\<close>.\<close>

fun split_on :: "char \<Rightarrow> string \<Rightarrow> string list" where
  "split_on c [] = [[]]"
| "split_on c (x # xs) =
     (if x = c then [] # split_on c xs
      else (case split_on c xs of [] \<Rightarrow> [[x]] | p # ps \<Rightarrow> (x # p) # ps))"

fun join :: "string \<Rightarrow> string list \<Rightarrow> string" where
  "join sep [] = []"
| "join sep [p] = p"
| "join sep (p # q # ps) = p @ sep @ join sep (q # ps)"

lemma split_on_nonempty [simp]: "split_on c s \<noteq> []"
  by (induction s) (auto split: list.splits)

lemma split_on_notin: "c \<notin> set s \<Longrightarrow> split_on c s = [s]"
  by (induction s) auto

lemma split_on_append: "c \<notin> set s \<Longrightarrow> split_on c (s @ c # t) = s # split_on c t"
  by (induction s) auto

lemma split_on_length: "length (split_on c s) = Suc (count_list s c)"
  by (induction s) (auto split: list.splits)

lemma split_on_join: "join [c] (split_on c s) = s"
proof (induction s)
  case (Cons x xs)
  obtain p ps where p: "split_on c xs = p # ps" by (cases "split_on c xs") auto
  with Cons show ?case by (cases ps) auto
qed simp

lemma join_split_on:
  "ps \<noteq> [] \<Longrightarrow> \<forall>p \<in> set ps. c \<notin> set p \<Longrightarrow> split_on c (join [c] ps) = ps"
  by (induction "[c]" ps rule: join.induct) (auto simp: split_on_append split_on_notin)

section \<open>JSON lists\<close>

text \<open>
  \<open>json.dumps\<close> and \<open>json.loads\<close> on a list of integers and on a list of strings. A string is
  written between quotes with the escapes of the standard encoder (\<open>ensure_ascii\<close>): backslash
  and quote, the five short control escapes, and four hexadecimal digits for everything else
  outside the printable ASCII range. The decoder accepts what the encoder writes and white space
  between tokens; a control character inside a string is an error, as it is for the strict decoder.
\<close>

definition hex_char :: "nat \<Rightarrow> char" where
  "hex_char d = (if d < 10 then digit_char d else char_of (87 + d))"

definition hex_val :: "char \<Rightarrow> nat option" where
  "hex_val c =
     (let n = of_char c :: nat in
      if 48 \<le> n \<and> n \<le> 57 then Some (n - 48)
      else if 97 \<le> n \<and> n \<le> 102 then Some (n - 87)
      else if 65 \<le> n \<and> n \<le> 70 then Some (n - 55)
      else None)"

lemma hex_val_hex_char [simp]: "d < 16 \<Longrightarrow> hex_val (hex_char d) = Some d"
  by (auto simp: hex_val_def hex_char_def Let_def of_char_of)

definition json_escape :: "char \<Rightarrow> string" where
  "json_escape c =
     (let n = of_char c :: nat in
      if n = 34 then [CHR 0x5C, CHR 0x22]
      else if n = 92 then [CHR 0x5C, CHR 0x5C]
      else if n = 10 then [CHR 0x5C, CHR ''n'']
      else if n = 13 then [CHR 0x5C, CHR ''r'']
      else if n = 9 then [CHR 0x5C, CHR ''t'']
      else if n = 8 then [CHR 0x5C, CHR ''b'']
      else if n = 12 then [CHR 0x5C, CHR ''f'']
      else if 32 \<le> n \<and> n \<le> 126 then [c]
      else [CHR 0x5C, CHR ''u'', CHR ''0'', CHR ''0'', hex_char (n div 16), hex_char (n mod 16)])"

definition json_str :: "string \<Rightarrow> string" where
  "json_str s = CHR 0x22 # concat (map json_escape s) @ [CHR 0x22]"

definition json_list :: "string list \<Rightarrow> string" where
  "json_list xs = CHR ''['' # join '', '' xs @ [CHR '']'']"

definition json_dumps_strs :: "string list \<Rightarrow> string" where
  "json_dumps_strs xs = json_list (map json_str xs)"

definition json_dumps_ints :: "int list \<Rightarrow> string" where
  "json_dumps_ints xs = json_list (map str_of_int xs)"

text \<open>\<open>unescape\<close> reads a string body up to its closing quote: the decoded text and the rest.\<close>

fun unescape :: "string \<Rightarrow> (string \<times> string) option" where
  "unescape [] = None"
| "unescape (c # cs) =
     (if c = CHR 0x22 then Some ([], cs)
      else if c = CHR 0x5C then
        (case cs of
           [] \<Rightarrow> None
         | e # ds \<Rightarrow>
             if e = CHR ''u'' then
               (case ds of
                  CHR ''0'' # CHR ''0'' # h # l # es \<Rightarrow>
                    (case (hex_val h, hex_val l) of
                       (Some a, Some b) \<Rightarrow> map_option (\<lambda>(s, r). (char_of (16 * a + b) # s, r)) (unescape es)
                     | _ \<Rightarrow> None)
                | _ \<Rightarrow> None)
             else
               (case map_of [(CHR 0x22, CHR 0x22), (CHR 0x5C, CHR 0x5C), (CHR ''/'', CHR ''/''),
                    (CHR ''n'', CHR 0x0A), (CHR ''r'', CHR 0x0D), (CHR ''t'', CHR 0x09),
                    (CHR ''b'', CHR 0x08), (CHR ''f'', CHR 0x0C)] e of
                  None \<Rightarrow> None
                | Some d \<Rightarrow> map_option (\<lambda>(s, r). (d # s, r)) (unescape ds)))
      else if (of_char c :: nat) < 32 then None
      else map_option (\<lambda>(s, r). (c # s, r)) (unescape cs))"

declare unescape.simps [simp del]


lemma of_char_inj: "of_char c = n \<Longrightarrow> of_char d = (n :: nat) \<Longrightarrow> c = d"
  by (metis char_of_char)

lemma unescape_escape:
  "unescape (json_escape c @ s) = map_option (\<lambda>(t, r). (c # t, r)) (unescape s)"
proof -
  let ?n = "of_char c :: nat"
  have n: "c = char_of ?n" and lt: "?n < 256" by simp_all
  consider "?n \<in> {34, 92, 10, 13, 9, 8, 12}" | "?n \<notin> {34, 92, 10, 13, 9, 8, 12}" "32 \<le> ?n" "?n \<le> 126"
    | "?n \<notin> {34, 92, 10, 13, 9, 8, 12}" "\<not> (32 \<le> ?n \<and> ?n \<le> 126)" by blast
  then show ?thesis
  proof cases
    case 1
    moreover have "c = d" if "?n = of_char d" for d using that by simp
    from this [of "CHR 0x22"] this [of "CHR 0x5C"] this [of "CHR 0x0A"] this [of "CHR 0x0D"]
      this [of "CHR 0x09"] this [of "CHR 0x08"] this [of "CHR 0x0C"]
    have "(?n = 34 \<longrightarrow> c = CHR 0x22) \<and> (?n = 92 \<longrightarrow> c = CHR 0x5C) \<and> (?n = 10 \<longrightarrow> c = CHR 0x0A)
        \<and> (?n = 13 \<longrightarrow> c = CHR 0x0D) \<and> (?n = 9 \<longrightarrow> c = CHR 0x09) \<and> (?n = 8 \<longrightarrow> c = CHR 0x08)
        \<and> (?n = 12 \<longrightarrow> c = CHR 0x0C)"
      by (simp del: of_char_eq_iff)
    ultimately consider "c = CHR 0x22" | "c = CHR 0x5C" | "c = CHR 0x0A" | "c = CHR 0x0D" | "c = CHR 0x09"
      | "c = CHR 0x08" | "c = CHR 0x0C"
      by blast
    then show ?thesis by cases (simp_all add: json_escape_def unescape.simps)
  next
    case 2
    then have "c \<noteq> CHR 0x22" "c \<noteq> CHR 0x5C" by auto
    with 2 show ?thesis by (simp add: json_escape_def unescape.simps)
  next
    case 3
    have "?n div 16 < 16" "?n mod 16 < 16" using lt by (simp_all add: less_mult_imp_div_less)
    moreover have "16 * (?n div 16) + ?n mod 16 = ?n" by simp
    ultimately show ?thesis using 3
      by (auto simp: json_escape_def Let_def unescape.simps split: option.splits)
  qed
qed

lemma unescape_string:
  "unescape (concat (map json_escape s) @ CHR 0x22 # r) = Some (s, r)"
proof (induction s)
  case (Cons c s)
  then show ?case by (simp add: unescape_escape)
qed (simp add: unescape.simps)

text \<open>
  The list decoders read an opening bracket, elements separated by commas, and the closing
  bracket; \<open>None\<close> is JSONDecodeError (or an element of another type).
\<close>

definition skip_ws :: "string \<Rightarrow> string" where
  "skip_ws = dropWhile (\<lambda>c. c \<in> {CHR '' '', CHR 0x09, CHR 0x0A, CHR 0x0D})"

definition read_str :: "string \<Rightarrow> (string \<times> string) option" where
  "read_str s = (case s of [] \<Rightarrow> None | c # cs \<Rightarrow> if c = CHR 0x22 then unescape cs else None)"

definition read_nat :: "string \<Rightarrow> (nat \<times> string) option" where
  "read_nat s = map_option (\<lambda>n. (n, dropWhile is_digit s)) (int_digits 0 False (takeWhile is_digit s))"

definition read_int :: "string \<Rightarrow> (int \<times> string) option" where
  "read_int s =
     (case s of
        [] \<Rightarrow> None
      | c # cs \<Rightarrow>
          if c = CHR ''-'' then map_option (\<lambda>(n, r). (- int n, r)) (read_nat cs)
          else map_option (\<lambda>(n, r). (int n, r)) (read_nat s))"

fun read_elems :: "char \<Rightarrow> nat \<Rightarrow> (string \<Rightarrow> ('a \<times> string) option) \<Rightarrow> string \<Rightarrow> ('a list \<times> string) option" where
  "read_elems close 0 rd s = None"
| "read_elems close (Suc fuel) rd s =
     (case rd (skip_ws s) of
        None \<Rightarrow> None
      | Some (x, r) \<Rightarrow>
          (case skip_ws r of
             [] \<Rightarrow> None
           | c # cs \<Rightarrow>
               if c = close then Some ([x], cs)
               else if c = CHR '','' then map_option (\<lambda>(xs, q). (x # xs, q)) (read_elems close fuel rd cs)
               else None))"

definition json_loads_list :: "(string \<Rightarrow> ('a \<times> string) option) \<Rightarrow> string \<Rightarrow> 'a list option" where
  "json_loads_list rd s =
     (case skip_ws s of
        [] \<Rightarrow> None
      | b # cs \<Rightarrow>
          if b \<noteq> CHR ''['' then None
          else (case skip_ws cs of
             [] \<Rightarrow> None
           | c # ds \<Rightarrow>
               if c = CHR '']'' then (if skip_ws ds = [] then Some [] else None)
               else (case read_elems CHR '']'' (length s) rd (c # ds) of
                  None \<Rightarrow> None
                | Some (xs, r) \<Rightarrow> if skip_ws r = [] then Some xs else None)))"

definition json_loads_strs :: "string \<Rightarrow> string list option" where
  "json_loads_strs s = json_loads_list read_str s"

definition json_loads_ints :: "string \<Rightarrow> int list option" where
  "json_loads_ints s = json_loads_list read_int s"

text \<open>
  One proof for all element types: \<open>elem_ok\<close> says that \<open>u\<close> starts with a character that is neither white
  space nor a closing bracket, and that \<open>rd\<close> reads the element \<open>x\<close> from it whatever follows, as long as that
  starts with a comma or the bracket that closes.
\<close>

definition elem_ok :: "char \<Rightarrow> (string \<Rightarrow> ('a \<times> string) option) \<Rightarrow> string \<Rightarrow> 'a \<Rightarrow> bool" where
  "elem_ok close rd u x \<longleftrightarrow>
     (\<forall>c r. c \<in> {CHR '','', close} \<longrightarrow> rd (u @ c # r) = Some (x, c # r)) \<and>
     (\<exists>c cs. u = c # cs \<and> c \<notin> {CHR '' '', CHR 0x09, CHR 0x0A, CHR 0x0D, CHR '']'', CHR ''}''})"

definition elem_codec :: "('a \<Rightarrow> string) \<Rightarrow> (string \<Rightarrow> ('a \<times> string) option) \<Rightarrow> bool" where
  "elem_codec w rd \<longleftrightarrow> (\<forall>x. elem_ok CHR '']'' rd (w x) x)"

lemma elem_codec_start:
  assumes "elem_codec w rd"
  obtains c cs where "w x = c # cs" "c \<notin> {CHR '' '', CHR 0x09, CHR 0x0A, CHR 0x0D, CHR '']''}"
  using assms unfolding elem_codec_def elem_ok_def by blast

lemma elem_ok_skip:
  assumes "elem_ok close rd u x"
  shows "skip_ws (u @ s) = u @ s"
proof -
  obtain c cs where "u = c # cs" "c \<notin> {CHR '' '', CHR 0x09, CHR 0x0A, CHR 0x0D, CHR '']'', CHR ''}''}"
    using assms unfolding elem_ok_def by blast
  then show ?thesis by (simp add: skip_ws_def)
qed

lemma read_elems_join:
  assumes "\<forall>x \<in> set xs. elem_ok close rd (w x) x" and "xs \<noteq> []" and "length xs \<le> fuel"
    and close: "close \<notin> {CHR '' '', CHR 0x09, CHR 0x0A, CHR 0x0D, CHR '',''}"
  shows "read_elems close fuel rd (join '', '' (map w xs) @ close # r) = Some (xs, r)"
  using assms(1-3)
proof (induction xs arbitrary: fuel)
  case (Cons x xs)
  obtain f where f: "fuel = Suc f" using Cons.prems by (cases fuel) auto
  have x: "elem_ok close rd (w x) x" using Cons.prems(1) by simp
  show ?case
  proof (cases xs)
    case Nil
    with f x elem_ok_skip [OF x] close show ?thesis
      by (simp add: elem_ok_def skip_ws_def)
  next
    case (Cons y ys)
    have IH: "read_elems close f rd (join '', '' (map w xs) @ close # r) = Some (xs, r)"
      using Cons.IH Cons.prems f Cons by simp
    have sp: "read_elems close f rd (CHR '' '' # t) = read_elems close f rd t" for t
      by (cases f) (simp_all add: skip_ws_def)
    have "rd (w x @ CHR '','' # t) = Some (x, CHR '','' # t)" for t
      using x by (simp add: elem_ok_def)
    moreover have "skip_ws (CHR '','' # t) = CHR '','' # t" for t by (simp add: skip_ws_def)
    moreover have "CHR '','' \<noteq> close" using close by blast
    ultimately show ?thesis using f Cons IH elem_ok_skip [OF x]
      by (simp add: sp)
  qed
qed simp

lemma join_Cons_start: "xs \<noteq> [] \<Longrightarrow> \<exists>t. join sep xs = hd xs @ t"
  by (cases xs rule: list.exhaust, simp, rename_tac y ys, case_tac ys) auto

lemma length_join: "\<forall>x \<in> set xs. x \<noteq> [] \<Longrightarrow> length xs \<le> length (join sep xs)"
proof (induction sep xs rule: join.induct)
  case (3 sep p q ps)
  then have "Suc 0 \<le> length p" by (cases p) auto
  with 3 show ?case by simp
next
  case (2 sep p)
  then show ?case by (cases p) auto
qed simp

lemma json_list_roundtrip:
  assumes c: "elem_codec w rd"
  shows "json_loads_list rd (json_list (map w xs)) = Some xs"
proof (cases xs)
  case Nil
  then show ?thesis by (simp add: json_loads_list_def json_list_def skip_ws_def)
next
  case (Cons y ys)
  have ne: "\<forall>x \<in> set (map w xs). x \<noteq> []"
  proof
    fix u
    assume "u \<in> set (map w xs)"
    then obtain x where u: "u = w x" by auto
    obtain d ds where "w x = d # ds" using c by (rule elem_codec_start)
    with u show "u \<noteq> []" by simp
  qed
  have "length xs \<le> length (join '', '' (map w xs))" using length_join [OF ne, of "'', ''"] by simp
  then have rd: "read_elems CHR '']'' (length (json_list (map w xs))) rd (join '', '' (map w xs) @ CHR '']'' # []) = Some (xs, [])"
    using Cons c by (intro read_elems_join) (simp_all add: json_list_def elem_codec_def)
  obtain t where t: "join '', '' (map w xs) = w y @ t"
    using join_Cons_start [of "map w xs"] Cons by auto
  obtain d ds where d: "w y = d # ds" "d \<notin> {CHR '' '', CHR 0x09, CHR 0x0A, CHR 0x0D, CHR '']''}"
    using c by (rule elem_codec_start)
  define body where "body = join '', '' (map w xs) @ [CHR '']'']"
  have open_br: "skip_ws (CHR ''['' # u) = CHR ''['' # u" for u by (simp add: skip_ws_def)
  have body: "body = d # ds @ t @ [CHR '']'']" "skip_ws body = body"
    using t d by (simp_all add: body_def skip_ws_def)
  have js: "json_list (map w xs) = CHR ''['' # body" by (simp add: json_list_def body_def)
  have "d \<noteq> CHR '']''" "skip_ws [] = []" using d by (simp_all add: skip_ws_def)
  then have "json_loads_list rd (CHR ''['' # body) =
      (case read_elems CHR '']'' (length (CHR ''['' # body)) rd body of
         None \<Rightarrow> None | Some (xs, r) \<Rightarrow> if skip_ws r = [] then Some xs else None)"
    unfolding json_loads_list_def open_br using body by simp
  also have "\<dots> = Some xs"
    using rd js \<open>skip_ws [] = []\<close> unfolding body_def by simp
  finally show ?thesis using js by simp
qed

lemma str_codec: "elem_codec json_str read_str"
  by (auto simp: elem_codec_def elem_ok_def json_str_def read_str_def unescape_string)

lemma is_digit_lit: "\<not> is_digit CHR '',''" "\<not> is_digit CHR '']''" "\<not> is_digit CHR ''-''"
  by (simp_all add: is_digit_def)

lemma read_nat_str_of_nat: "\<not> is_digit c \<Longrightarrow> read_nat (str_of_nat n @ c # r) = Some (n, c # r)"
  by (simp add: read_nat_def takeWhile_append_stop dropWhile_append_stop str_of_nat_digits
      int_digits_str_of_nat)

lemma read_int_str_of_int:
  assumes "\<not> is_digit c"
  shows "read_int (str_of_int i @ c # r) = Some (i, c # r)"
proof (cases "i < 0")
  case True
  with assms show ?thesis by (simp add: str_of_int_def read_int_def read_nat_str_of_nat)
next
  case False
  obtain d ds where d: "str_of_nat (nat i) = d # ds" "is_digit d" using str_of_nat_Cons by blast
  then have "d \<noteq> CHR ''-''" using is_digit_lit by auto
  moreover have "read_nat (d # ds @ c # r) = Some (nat i, c # r)"
    using read_nat_str_of_nat [OF assms, of "nat i"] d by simp
  ultimately show ?thesis using False d by (simp add: str_of_int_def read_int_def)
qed

lemma int_codec: "elem_codec str_of_int read_int"
proof -
  have rd: "read_int (str_of_int i @ c # r) = Some (i, c # r)" if "c \<in> {CHR '','', CHR '']''}" for i c r
    using that is_digit_lit by (auto intro: read_int_str_of_int)
  have st: "\<exists>c cs. str_of_int i = c # cs \<and> c \<notin> {CHR '' '', CHR 0x09, CHR 0x0A, CHR 0x0D, CHR '']'', CHR ''}''}" for i
  proof -
    obtain d ds where d: "str_of_nat (nat i) = d # ds" "is_digit d" using str_of_nat_Cons by blast
    then show ?thesis by (cases "i < 0") (auto simp: str_of_int_def is_digit_def)
  qed
  from rd st show ?thesis by (auto simp: elem_codec_def elem_ok_def)
qed

lemma json_strs_roundtrip [simp]: "json_loads_strs (json_dumps_strs xs) = Some xs"
  by (simp add: json_loads_strs_def json_dumps_strs_def json_list_roundtrip [OF str_codec])

lemma json_ints_roundtrip [simp]: "json_loads_ints (json_dumps_ints xs) = Some xs"
  by (simp add: json_loads_ints_def json_dumps_ints_def json_list_roundtrip [OF int_codec])

lemma json_dumps_nonempty [simp]: "json_dumps_strs xs \<noteq> []" "json_dumps_ints ns \<noteq> []"
  by (simp_all add: json_dumps_strs_def json_dumps_ints_def json_list_def)

end
