(* ===== verification/Redis.thy ===== *)
theory Redis
  imports Text
begin

text \<open>
  The Redis server and its client library are not part of the repository: the server is a
  parameter of the model. A value of type \<open>'s redis\<close> is a server with states of type \<open>'s\<close>: how a
  command changes a state (\<open>r_run\<close>) and what the reading commands return. The locale
  \<open>redis_server\<close> names what the code relies on: the documented effect of each command the library
  sends, stated as the change it makes to each reading. Nothing is assumed on the order of the
  members of a set or of the fields of a hash.

  Each reading has its own view of the keys: a list, set, sorted set, hash, string or stream. The
  key families of the library (theory \<open>Keys\<close>) use one type each, so the WRONGTYPE reply of a
  command on a key of another type does not occur and is not modelled. Time does not pass inside
  an operation: expiry is what EXPIRE records, and a command never drops an expired key itself.

  A pipeline is the list of the commands queued so far; \<open>run_all\<close> is its execution. \<open>mem_redis\<close> is a
  server kept in memory that satisfies the assumptions, used to show that they can hold.
\<close>

section \<open>Keys, scores, commands\<close>

type_synonym key = string
type_synonym fields = "(string \<times> string) list"

text \<open>Scores of sorted sets: the library sends whole numbers and \<open>+inf\<close>.\<close>

datatype score = Fin int | PInf

instantiation score :: linorder
begin
fun less_eq_score :: "score \<Rightarrow> score \<Rightarrow> bool" where
  "less_eq_score x PInf = True"
| "less_eq_score PInf (Fin y) = False"
| "less_eq_score (Fin x) (Fin y) = (x \<le> y)"
definition less_score :: "score \<Rightarrow> score \<Rightarrow> bool" where
  "less_score x y \<longleftrightarrow> \<not> y \<le> (x :: score)"
instance
proof
  fix x y z :: score
  show "x < y \<longleftrightarrow> x \<le> y \<and> \<not> y \<le> x"
    by (cases x; cases y) (auto simp: less_score_def)
  show "x \<le> x" by (cases x) auto
  show "x \<le> y \<Longrightarrow> y \<le> z \<Longrightarrow> x \<le> z" by (cases x; cases y; cases z) auto
  show "x \<le> y \<Longrightarrow> y \<le> x \<Longrightarrow> x = y" by (cases x; cases y) auto
  show "x \<le> y \<or> y \<le> x" by (cases x; cases y) auto
qed
end

lemma less_score_simps [simp]:
  "Fin x < Fin y \<longleftrightarrow> x < y" "Fin x < PInf" "\<not> PInf < s"
  by (simp_all add: less_score_def not_le)

text \<open>The flags of ZADD: none, XX (only update members) and NX (only add members).\<close>

datatype zflag = ZAny | ZXX | ZNX

datatype cmd =
    HSet key fields | HDel key string | HIncrBy key string int | HIncrByFloat key string int
  | LPush key string | RPush key string | LRem key string | LPop key | LMove key key | Rename key key
  | SAdd key string | SRem key "string list"
  | ZAdd zflag key string score | ZRem key "string list" | ZRemRangeByScore key int
  | SetStr key string | SetNX key string int
  | Del "key list" | Expire key int | Persist key
  | XAdd key fields

section \<open>The documented effects\<close>

text \<open>
  \<open>EXPIRE k n\<close> with \<open>n \<le> 0\<close> deletes the key. \<open>LREM k 1 v\<close> removes the first occurrence.
  \<open>LMOVE\<close> pops on the left and pushes on the right, the client library's default.
\<close>

definition wipe :: "key set \<Rightarrow> 'v \<Rightarrow> (key \<Rightarrow> 'v) \<Rightarrow> key \<Rightarrow> 'v" where
  "wipe ks e h = (\<lambda>k. if k \<in> ks then e else h k)"

fun eff_any :: "'v \<Rightarrow> cmd \<Rightarrow> (key \<Rightarrow> 'v) \<Rightarrow> key \<Rightarrow> 'v" where
  "eff_any e (Del ks) h = wipe (set ks) e h"
| "eff_any e (Expire k n) h = (if n \<le> 0 then wipe {k} e h else h)"
| "eff_any e (Rename a b) h = (h(b := h a))(a := e)"
| "eff_any e c h = h"

fun eff_list :: "cmd \<Rightarrow> (key \<Rightarrow> string list) \<Rightarrow> key \<Rightarrow> string list" where
  "eff_list (LPush k v) l = l(k := v # l k)"
| "eff_list (RPush k v) l = l(k := l k @ [v])"
| "eff_list (LRem k v) l = l(k := remove1 v (l k))"
| "eff_list (LPop k) l = l(k := tl (l k))"
| "eff_list (LMove a b) l = (case l a of [] \<Rightarrow> l | v # vs \<Rightarrow> (l(a := vs))(b := (l(a := vs)) b @ [v]))"
| "eff_list c l = eff_any [] c l"

fun eff_set :: "cmd \<Rightarrow> (key \<Rightarrow> string set) \<Rightarrow> key \<Rightarrow> string set" where
  "eff_set (SAdd k v) m = m(k := insert v (m k))"
| "eff_set (SRem k vs) m = m(k := m k - set vs)"
| "eff_set c m = eff_any {} c m"

fun eff_zset :: "cmd \<Rightarrow> (key \<Rightarrow> string \<rightharpoonup> score) \<Rightarrow> key \<Rightarrow> string \<rightharpoonup> score" where
  "eff_zset (ZAdd f k v x) z =
     (if f = ZXX \<and> z k v = None \<or> f = ZNX \<and> z k v \<noteq> None then z else z(k := (z k)(v \<mapsto> x)))"
| "eff_zset (ZRem k vs) z = z(k := z k |` (- set vs))"
| "eff_zset (ZRemRangeByScore k hi) z =
     z(k := (\<lambda>v. case z k v of None \<Rightarrow> None | Some x \<Rightarrow> if Fin 0 \<le> x \<and> x \<le> Fin hi then None else Some x))"
| "eff_zset c z = eff_any Map.empty c z"

text \<open>
  HINCRBY starts from 0 when the field is missing and replies with an error, changing nothing,
  when it holds no integer. The text of a float sum is the server's choice (\<open>fadd\<close>).
\<close>

fun eff_hash :: "(string option \<Rightarrow> int \<Rightarrow> string) \<Rightarrow> cmd \<Rightarrow> (key \<Rightarrow> string \<rightharpoonup> string) \<Rightarrow> key \<Rightarrow> string \<rightharpoonup> string" where
  "eff_hash fadd (HSet k fs) h = h(k := h k ++ map_of (rev fs))"
| "eff_hash fadd (HDel k f) h = h(k := (h k)(f := None))"
| "eff_hash fadd (HIncrBy k f n) h =
     (case h k f of
        None \<Rightarrow> h(k := (h k)(f \<mapsto> str_of_int n))
      | Some v \<Rightarrow> (case int_of_str v of None \<Rightarrow> h | Some i \<Rightarrow> h(k := (h k)(f \<mapsto> str_of_int (i + n)))))"
| "eff_hash fadd (HIncrByFloat k f n) h = h(k := (h k)(f \<mapsto> fadd (h k f) n))"
| "eff_hash fadd c h = eff_any Map.empty c h"

fun eff_str :: "cmd \<Rightarrow> (key \<rightharpoonup> string) \<Rightarrow> key \<rightharpoonup> string" where
  "eff_str (SetStr k v) m = m(k \<mapsto> v)"
| "eff_str (SetNX k v ex) m = (if m k = None then m(k \<mapsto> v) else m)"
| "eff_str c m = eff_any None c m"

text \<open>
  The remaining time to live of a key that exists after the command: \<open>ex\<close> says which keys existed
  before it. A key that is gone has none.
\<close>

fun eff_ttl :: "(key \<Rightarrow> bool) \<Rightarrow> cmd \<Rightarrow> (key \<rightharpoonup> int) \<Rightarrow> key \<rightharpoonup> int" where
  "eff_ttl ex (Expire k n) t = (if ex k then t(k \<mapsto> n) else t)"
| "eff_ttl ex (Persist k) t = t(k := None)"
| "eff_ttl ex (SetStr k v) t = t(k := None)"
| "eff_ttl ex (SetNX k v n) t = (if ex k then t else t(k \<mapsto> n))"
| "eff_ttl ex (Rename a b) t = t(b := t a, a := None)"
| "eff_ttl ex c t = t"

section \<open>The server as a parameter\<close>

record 's redis =
  r_run :: "cmd \<Rightarrow> 's \<Rightarrow> 's"
  r_list :: "'s \<Rightarrow> key \<Rightarrow> string list"
  r_set :: "'s \<Rightarrow> key \<Rightarrow> string list"
  r_zset :: "'s \<Rightarrow> key \<Rightarrow> (string \<times> score) list"
  r_hash :: "'s \<Rightarrow> key \<Rightarrow> fields"
  r_str :: "'s \<Rightarrow> key \<Rightarrow> string option"
  r_stream :: "'s \<Rightarrow> key \<Rightarrow> fields list"
  r_ttl :: "'s \<Rightarrow> key \<Rightarrow> int option"
  r_fadd :: "string option \<Rightarrow> int \<Rightarrow> string"

definition key_exists :: "'s redis \<Rightarrow> 's \<Rightarrow> key \<Rightarrow> bool" where
  "key_exists R s k \<longleftrightarrow> r_list R s k \<noteq> [] \<or> r_set R s k \<noteq> [] \<or> r_zset R s k \<noteq> [] \<or>
     r_hash R s k \<noteq> [] \<or> r_str R s k \<noteq> None \<or> r_stream R s k \<noteq> []"

definition run_all :: "'s redis \<Rightarrow> cmd list \<Rightarrow> 's \<Rightarrow> 's" where
  "run_all R cs s = fold (r_run R) cs s"

lemma run_all_simps [simp]:
  "run_all R [] s = s"
  "run_all R (c # cs) s = run_all R cs (r_run R c s)"
  "run_all R (cs @ ds) s = run_all R ds (run_all R cs s)"
  by (simp_all add: run_all_def)

text \<open>The readings as functions of the key: HGET, SISMEMBER, ZSCORE, ZRANGEBYSCORE k 0 hi.\<close>

definition hget :: "'s redis \<Rightarrow> 's \<Rightarrow> key \<Rightarrow> string \<rightharpoonup> string" where
  "hget R s k = map_of (r_hash R s k)"

definition sset :: "'s redis \<Rightarrow> 's \<Rightarrow> key \<Rightarrow> string set" where
  "sset R s k = set (r_set R s k)"

definition zscore :: "'s redis \<Rightarrow> 's \<Rightarrow> key \<Rightarrow> string \<rightharpoonup> score" where
  "zscore R s k = map_of (r_zset R s k)"

definition zrangebyscore :: "'s redis \<Rightarrow> 's \<Rightarrow> key \<Rightarrow> int \<Rightarrow> string list" where
  "zrangebyscore R s k hi = map fst (filter (\<lambda>p. Fin 0 \<le> snd p \<and> snd p \<le> Fin hi) (r_zset R s k))"

text \<open>The keys a command may change.\<close>

fun touches :: "cmd \<Rightarrow> key list" where
  "touches (HSet k _) = [k]"
| "touches (HDel k _) = [k]"
| "touches (HIncrBy k _ _) = [k]"
| "touches (HIncrByFloat k _ _) = [k]"
| "touches (LPush k _) = [k]"
| "touches (RPush k _) = [k]"
| "touches (LRem k _) = [k]"
| "touches (LPop k) = [k]"
| "touches (LMove a b) = [a, b]"
| "touches (Rename a b) = [a, b]"
| "touches (SAdd k _) = [k]"
| "touches (SRem k _) = [k]"
| "touches (ZAdd _ k _ _) = [k]"
| "touches (ZRem k _) = [k]"
| "touches (ZRemRangeByScore k _) = [k]"
| "touches (SetStr k _) = [k]"
| "touches (SetNX k _ _) = [k]"
| "touches (Del ks) = ks"
| "touches (Expire k _) = [k]"
| "touches (Persist k) = [k]"
| "touches (XAdd k _) = [k]"

locale redis_server =
  fixes R :: "'s redis"
  assumes list_run: "r_list R (r_run R c s) = eff_list c (r_list R s)"
    and set_run: "sset R (r_run R c s) = eff_set c (sset R s)"
    and zset_run: "zscore R (r_run R c s) = eff_zset c (zscore R s)"
    and hash_run: "hget R (r_run R c s) = eff_hash (r_fadd R) c (hget R s)"
    and str_run: "r_str R (r_run R c s) = eff_str c (r_str R s)"
    and ttl_run: "r_ttl R (r_run R c s) k =
      (if key_exists R (r_run R c s) k then eff_ttl (key_exists R s) c (r_ttl R s) k else None)"
    and stream_run: "(\<forall>k' fs. c \<noteq> XAdd k' fs) \<Longrightarrow> r_stream R (r_run R c s) = eff_any [] c (r_stream R s)"
    and stream_add: "\<exists>n \<le> length (r_stream R s k) - 9.
      r_stream R (r_run R (XAdd k fs) s) = (r_stream R s)(k := drop n (r_stream R s k @ [fs]))"
    and set_distinct: "distinct (r_set R s k)"
    and zset_distinct: "distinct (map fst (r_zset R s k))"
    and zset_sorted: "sorted (map snd (r_zset R s k))"
begin

lemmas views_run = list_run set_run zset_run hash_run str_run

lemma mem_zrangebyscore:
  "v \<in> set (zrangebyscore R s k hi) \<longleftrightarrow> (\<exists>x. zscore R s k v = Some x \<and> Fin 0 \<le> x \<and> x \<le> Fin hi)"
  using zset_distinct [of s k]
  by (auto simp: zrangebyscore_def zscore_def image_iff)

lemma distinct_zrangebyscore: "distinct (zrangebyscore R s k hi)"
  using zset_distinct [of s k] by (simp add: zrangebyscore_def distinct_map_filter)

lemma zset_empty_iff: "r_zset R s k = [] \<longleftrightarrow> zscore R s k = Map.empty"
  by (simp add: zscore_def)

lemma hash_empty_iff: "r_hash R s k = [] \<longleftrightarrow> hget R s k = Map.empty"
  by (simp add: hget_def)

lemma set_empty_iff: "r_set R s k = [] \<longleftrightarrow> sset R s k = {}"
  by (simp add: sset_def)

text \<open>A command leaves every key it does not touch as it is.\<close>

lemma eff_any_frame: "k \<notin> set (touches c) \<Longrightarrow> eff_any e c h k = h k"
  by (cases c) (auto simp: wipe_def)

lemma run_frame:
  assumes "k \<notin> set (touches c)"
  shows "r_list R (r_run R c s) k = r_list R s k" "sset R (r_run R c s) k = sset R s k"
    "zscore R (r_run R c s) k = zscore R s k" "hget R (r_run R c s) k = hget R s k"
    "r_str R (r_run R c s) k = r_str R s k" "r_stream R (r_run R c s) k = r_stream R s k"
proof -
  show "r_list R (r_run R c s) k = r_list R s k"
    using assms by (cases c) (auto simp: list_run wipe_def split: list.splits)
  show "sset R (r_run R c s) k = sset R s k"
    using assms by (cases c) (auto simp: set_run wipe_def)
  show "zscore R (r_run R c s) k = zscore R s k"
    using assms by (cases c) (auto simp: zset_run wipe_def)
  show "hget R (r_run R c s) k = hget R s k"
    using assms by (cases c) (auto simp: hash_run wipe_def split: option.splits)
  show "r_str R (r_run R c s) k = r_str R s k"
    using assms by (cases c) (auto simp: str_run wipe_def)
  show "r_stream R (r_run R c s) k = r_stream R s k"
  proof (cases "\<exists>k' fs. c = XAdd k' fs")
    case True
    then obtain k' fs where c: "c = XAdd k' fs" by blast
    then have "k \<noteq> k'" using assms by simp
    then show ?thesis using stream_add [of s k' fs] c by auto
  next
    case False
    then show ?thesis using eff_any_frame [OF assms] by (simp add: stream_run)
  qed
qed

lemma key_exists_iff:
  "key_exists R s k \<longleftrightarrow> r_list R s k \<noteq> [] \<or> sset R s k \<noteq> {} \<or> zscore R s k \<noteq> Map.empty \<or>
     hget R s k \<noteq> Map.empty \<or> r_str R s k \<noteq> None \<or> r_stream R s k \<noteq> []"
  by (simp add: key_exists_def set_empty_iff zset_empty_iff hash_empty_iff)

lemma key_exists_frame: "k \<notin> set (touches c) \<Longrightarrow> key_exists R (r_run R c s) k = key_exists R s k"
  by (simp add: key_exists_iff run_frame)

lemma hash_view_frame: "k \<notin> set (touches c) \<Longrightarrow> r_hash R (r_run R c s) k = [] \<longleftrightarrow> r_hash R s k = []"
  by (simp add: hash_empty_iff run_frame)

lemma run_all_frame:
  assumes "\<forall>c \<in> set cs. k \<notin> set (touches c)"
  shows "r_list R (run_all R cs s) k = r_list R s k" "sset R (run_all R cs s) k = sset R s k"
    "zscore R (run_all R cs s) k = zscore R s k" "hget R (run_all R cs s) k = hget R s k"
    "r_str R (run_all R cs s) k = r_str R s k" "r_stream R (run_all R cs s) k = r_stream R s k"
    "key_exists R (run_all R cs s) k = key_exists R s k"
  using assms by (induction cs arbitrary: s) (simp_all add: run_frame key_exists_frame)

end

section \<open>A server in memory\<close>

record mem =
  m_list :: "key \<Rightarrow> string list"
  m_set :: "key \<Rightarrow> string list"
  m_zset :: "key \<Rightarrow> (string \<times> score) list"
  m_hash :: "key \<Rightarrow> fields"
  m_str :: "key \<Rightarrow> string option"
  m_stream :: "key \<Rightarrow> fields list"
  m_ttl :: "key \<Rightarrow> int option"

definition mem_empty :: mem where
  "mem_empty = \<lparr>m_list = \<lambda>_. [], m_set = \<lambda>_. [], m_zset = \<lambda>_. [], m_hash = \<lambda>_. [],
     m_str = \<lambda>_. None, m_stream = \<lambda>_. [], m_ttl = \<lambda>_. None\<rparr>"

primrec zinsert :: "string \<Rightarrow> score \<Rightarrow> (string \<times> score) list \<Rightarrow> (string \<times> score) list" where
  "zinsert v x [] = [(v, x)]"
| "zinsert v x (p # ps) = (if x < snd p then (v, x) # p # ps else p # zinsert v x ps)"

definition zdel :: "string list \<Rightarrow> (string \<times> score) list \<Rightarrow> (string \<times> score) list" where
  "zdel vs ps = filter (\<lambda>p. fst p \<notin> set vs) ps"

text \<open>
  Sorted sets are read in the order of the scores and sets without repetition whatever the state,
  by normalising on reading.
\<close>

definition znorm :: "(string \<times> score) list \<Rightarrow> (string \<times> score) list" where
  "znorm ps = fold (\<lambda>p qs. if fst p \<in> fst ` set qs then qs else zinsert (fst p) (snd p) qs) ps []"

fun mem_zset :: "cmd \<Rightarrow> (key \<Rightarrow> (string \<times> score) list) \<Rightarrow> key \<Rightarrow> (string \<times> score) list" where
  "mem_zset (ZAdd f k v x) z =
     (if f = ZXX \<and> v \<notin> fst ` set (z k) \<or> f = ZNX \<and> v \<in> fst ` set (z k) then z
      else z(k := zinsert v x (zdel [v] (z k))))"
| "mem_zset (ZRem k vs) z = z(k := zdel vs (z k))"
| "mem_zset (ZRemRangeByScore k hi) z = z(k := filter (\<lambda>p. \<not> (Fin 0 \<le> snd p \<and> snd p \<le> Fin hi)) (znorm (z k)))"
| "mem_zset c z = eff_any [] c z"

fun mem_set :: "cmd \<Rightarrow> (key \<Rightarrow> string list) \<Rightarrow> key \<Rightarrow> string list" where
  "mem_set (SAdd k v) m = m(k := List.insert v (m k))"
| "mem_set (SRem k vs) m = m(k := filter (\<lambda>v. v \<notin> set vs) (m k))"
| "mem_set c m = eff_any [] c m"

fun mem_hash :: "cmd \<Rightarrow> (key \<Rightarrow> fields) \<Rightarrow> key \<Rightarrow> fields" where
  "mem_hash (HSet k fs) h = h(k := fold (\<lambda>(f, v). AList.update f v) fs (h k))"
| "mem_hash (HDel k f) h = h(k := AList.delete f (h k))"
| "mem_hash (HIncrBy k f n) h =
     (case map_of (h k) f of
        None \<Rightarrow> h(k := AList.update f (str_of_int n) (h k))
      | Some v \<Rightarrow> (case int_of_str v of None \<Rightarrow> h | Some i \<Rightarrow> h(k := AList.update f (str_of_int (i + n)) (h k))))"
| "mem_hash (HIncrByFloat k f n) h = h(k := AList.update f (str_of_int n) (h k))"
| "mem_hash c h = eff_any [] c h"

fun mem_stream :: "cmd \<Rightarrow> (key \<Rightarrow> fields list) \<Rightarrow> key \<Rightarrow> fields list" where
  "mem_stream (XAdd k fs) m = m(k := drop (length (m k) - 9) (m k @ [fs]))"
| "mem_stream c m = eff_any [] c m"

definition mem_views :: "cmd \<Rightarrow> mem \<Rightarrow> mem" where
  "mem_views c s =
     s\<lparr>m_list := eff_list c (m_list s), m_set := mem_set c (m_set s), m_zset := mem_zset c (m_zset s),
       m_hash := mem_hash c (m_hash s), m_str := eff_str c (m_str s), m_stream := mem_stream c (m_stream s)\<rparr>"

definition mem_exists :: "mem \<Rightarrow> key \<Rightarrow> bool" where
  "mem_exists s k \<longleftrightarrow> m_list s k \<noteq> [] \<or> m_set s k \<noteq> [] \<or> m_zset s k \<noteq> [] \<or> m_hash s k \<noteq> [] \<or>
     m_str s k \<noteq> None \<or> m_stream s k \<noteq> []"

definition mem_run :: "cmd \<Rightarrow> mem \<Rightarrow> mem" where
  "mem_run c s =
     (let s' = mem_views c s in
      s'\<lparr>m_ttl := (\<lambda>k. if mem_exists s' k then eff_ttl (mem_exists s) c (m_ttl s) k else None)\<rparr>)"

definition mem_redis :: "mem redis" where
  "mem_redis = \<lparr>r_run = mem_run, r_list = m_list, r_set = (\<lambda>s k. remdups (m_set s k)),
     r_zset = (\<lambda>s k. znorm (m_zset s k)), r_hash = m_hash, r_str = m_str, r_stream = m_stream,
     r_ttl = m_ttl, r_fadd = (\<lambda>_ n. str_of_int n)\<rparr>"

lemma set_zinsert: "set (zinsert v x ps) = insert (v, x) (set ps)"
  by (induction ps) auto

lemma map_of_zinsert: "v \<notin> fst ` set ps \<Longrightarrow> map_of (zinsert v x ps) = (map_of ps)(v \<mapsto> x)"
  by (induction ps) (auto simp: fun_eq_iff)

lemma sorted_zinsert: "sorted (map snd ps) \<Longrightarrow> sorted (map snd (zinsert v x ps))"
  by (induction ps) (auto simp: set_zinsert less_imp_le not_less intro: order_trans)

lemma distinct_zinsert:
  "distinct (map fst ps) \<Longrightarrow> v \<notin> fst ` set ps \<Longrightarrow> distinct (map fst (zinsert v x ps))"
  by (induction ps) (auto simp: set_zinsert)

lemma znorm_fold:
  fixes ps qs
  assumes "distinct (map fst qs)" "sorted (map snd qs)"
  defines "r \<equiv> fold (\<lambda>p qs. if fst p \<in> fst ` set qs then qs else zinsert (fst p) (snd p) qs) ps qs"
  shows "distinct (map fst r)" "sorted (map snd r)" "map_of r = map_of ps ++ map_of qs"
proof -
  have "distinct (map fst r) \<and> sorted (map snd r) \<and> map_of r = map_of ps ++ map_of qs"
    using assms(1,2) unfolding r_def
  proof (induction ps arbitrary: qs)
    case (Cons p ps)
    show ?case
    proof (cases "fst p \<in> fst ` set qs")
      case True
      then have "map_of qs (fst p) \<noteq> None" by (simp add: map_of_eq_None_iff)
      then have "map_of (p # ps) ++ map_of qs = map_of ps ++ map_of qs"
        by (cases p) (auto simp: fun_eq_iff map_add_def split: option.splits)
      with Cons.IH [OF Cons.prems] True show ?thesis by (simp only: fold_Cons o_apply if_True)
    next
      case False
      then have "map_of qs (fst p) = None" by (simp add: map_of_eq_None_iff)
      with False have "map_of ps ++ map_of (zinsert (fst p) (snd p) qs) = map_of (p # ps) ++ map_of qs"
        by (cases p) (auto simp: fun_eq_iff map_add_def map_of_zinsert split: option.splits)
      moreover have "distinct (map fst (zinsert (fst p) (snd p) qs))" "sorted (map snd (zinsert (fst p) (snd p) qs))"
        using Cons.prems False by (simp_all add: distinct_zinsert sorted_zinsert)
      note Cons.IH [OF this]
      ultimately show ?thesis using False by (simp only: fold_Cons o_apply if_False)
    qed
  qed simp
  then show "distinct (map fst r)" "sorted (map snd r)" "map_of r = map_of ps ++ map_of qs" by auto
qed

lemma map_of_znorm: "map_of (znorm ps) = map_of ps"
  using znorm_fold(3) [of "[]" ps] by (simp add: znorm_def)

lemma distinct_znorm: "distinct (map fst (znorm ps))"
  using znorm_fold(1) [of "[]" ps] by (simp add: znorm_def)

lemma sorted_znorm: "sorted (map snd (znorm ps))"
  using znorm_fold(2) [of "[]" ps] by (simp add: znorm_def)


lemma map_of_updates: "map_of (fold (\<lambda>(f, v). AList.update f v) fs xs) = map_of xs ++ map_of (rev fs)"
  by (induction fs arbitrary: xs) (auto simp: update_conv' map_add_def fun_eq_iff split: option.splits)

lemma fst_set_map_of: "v \<in> fst ` set xs \<longleftrightarrow> map_of xs v \<noteq> None"
  by (simp add: map_of_eq_None_iff)

lemma map_of_zdel: "map_of (zdel vs ps) = map_of ps |` (- set vs)"
  by (rule ext) (simp add: zdel_def map_of_filter_key [where P = "\<lambda>a. a \<notin> set vs"] restrict_map_def)

lemma map_of_zadd: "map_of (zinsert v x (zdel [v] ps)) = (map_of ps)(v \<mapsto> x)"
proof -
  have "v \<notin> fst ` set (zdel [v] ps)" by (auto simp: zdel_def)
  then show ?thesis by (simp add: map_of_zinsert map_of_zdel fun_eq_iff)
qed

lemma mem_redis_simps:
  "r_run mem_redis c s = mem_run c s" "r_list mem_redis = m_list" "r_str mem_redis = m_str"
  "hget mem_redis s = (\<lambda>k. map_of (m_hash s k))" "sset mem_redis s = (\<lambda>k. set (m_set s k))"
  "zscore mem_redis s = (\<lambda>k. map_of (m_zset s k))" "r_stream mem_redis = m_stream"
  "r_ttl mem_redis = m_ttl" "r_fadd mem_redis = (\<lambda>_ n. str_of_int n)"
  by (simp_all add: mem_redis_def hget_def sset_def zscore_def map_of_znorm fun_eq_iff)

lemma mem_run_views:
  "m_list (mem_run c s) = eff_list c (m_list s)" "m_set (mem_run c s) = mem_set c (m_set s)"
  "m_zset (mem_run c s) = mem_zset c (m_zset s)" "m_hash (mem_run c s) = mem_hash c (m_hash s)"
  "m_str (mem_run c s) = eff_str c (m_str s)" "m_stream (mem_run c s) = mem_stream c (m_stream s)"
  by (simp_all add: mem_run_def mem_views_def Let_def)

lemma set_mem_set: "(\<lambda>k. set (mem_set c m k)) = eff_set c (\<lambda>k. set (m k))"
  by (cases c) (auto simp: fun_eq_iff wipe_def)

lemma map_of_mem_hash:
  "(\<lambda>k. map_of (mem_hash c h k)) = eff_hash (\<lambda>_ n. str_of_int n) c (\<lambda>k. map_of (h k))"
  by (cases c) (auto simp: fun_eq_iff wipe_def map_of_updates update_conv' delete_conv' split: option.splits)


lemma map_of_zset_filter:
  "map_of (filter (\<lambda>p. \<not> Q (snd p)) (znorm ps)) v =
     (case map_of ps v of None \<Rightarrow> None | Some x \<Rightarrow> if Q x then None else Some x)"
  using map_of_distinct_filter [OF distinct_znorm, where P = "\<lambda>p. \<not> Q (snd p)"]
  by (simp add: map_of_znorm split: option.splits)

lemma map_of_mem_zset: "(\<lambda>k. map_of (mem_zset c z k)) = eff_zset c (\<lambda>k. map_of (z k))"
proof (cases c)
  case (ZAdd f k v x)
  then show ?thesis by (auto simp: fun_eq_iff map_of_zadd fst_set_map_of)
next
  case (ZRem k vs)
  then show ?thesis by (auto simp: fun_eq_iff map_of_zdel)
next
  case (ZRemRangeByScore k hi)
  have "map_of (filter (\<lambda>p. \<not> (Fin 0 \<le> snd p \<and> snd p \<le> Fin hi)) (znorm (z k))) v =
     (case map_of (z k) v of None \<Rightarrow> None | Some x \<Rightarrow> if Fin 0 \<le> x \<and> x \<le> Fin hi then None else Some x)" for v
    using map_of_zset_filter [where Q = "\<lambda>x. Fin 0 \<le> x \<and> x \<le> Fin hi"] by simp
  with ZRemRangeByScore show ?thesis by (auto simp: fun_eq_iff)
qed (auto simp: fun_eq_iff wipe_def)

lemma mem_exists_key_exists: "key_exists mem_redis s k = mem_exists s k"
proof -
  have "znorm ps = [] \<longleftrightarrow> ps = []" for ps
    using map_of_znorm [of ps] by (metis map_of_eq_empty_iff)
  then show ?thesis by (simp add: key_exists_def mem_exists_def mem_redis_def)
qed

lemma mem_run_ttl:
  "m_ttl (mem_run c s) k = (if mem_exists (mem_run c s) k then eff_ttl (mem_exists s) c (m_ttl s) k else None)"
  by (simp add: mem_run_def Let_def mem_exists_def)

interpretation mem: redis_server mem_redis
proof
  fix c s k
  show "r_ttl mem_redis (r_run mem_redis c s) k =
      (if key_exists mem_redis (r_run mem_redis c s) k
       then eff_ttl (key_exists mem_redis s) c (r_ttl mem_redis s) k else None)"
    using mem_run_ttl [of c s k] mem_exists_key_exists [abs_def] 
    by (simp add: mem_redis_simps)
next
  fix c :: cmd and s :: mem
  assume "\<forall>k' fs. c \<noteq> XAdd k' fs"
  then show "r_stream mem_redis (r_run mem_redis c s) = eff_any [] c (r_stream mem_redis s)"
    by (cases c) (simp_all add: mem_redis_simps mem_run_views)
next
  fix s k fs
  show "\<exists>n \<le> length (r_stream mem_redis s k) - 9.
      r_stream mem_redis (r_run mem_redis (XAdd k fs) s) =
        (r_stream mem_redis s)(k := drop n (r_stream mem_redis s k @ [fs]))"
    by (intro exI [of _ "length (m_stream s k) - 9"]) (simp add: mem_redis_simps mem_run_views)
qed (simp_all add: mem_redis_simps mem_run_views set_mem_set map_of_mem_hash map_of_mem_zset,
     simp_all add: mem_redis_def distinct_znorm sorted_znorm)

end
