(* ===== verification/Conn.thy ===== *)
theory Conn
  imports Redis
begin

text \<open>
  Operations that talk to the server. Most methods take an optional pipeline: with one, their
  writing commands are queued on it and run when the caller executes it, otherwise each runs at
  once on the connection; reads always see the server's present state. An operation is a function on
  the server state and the queued commands that returns a value or an exception, and keeps what was
  sent before the exception. \<open>piped\<close> says whether a pipeline was passed.
\<close>

type_synonym 's conn = "'s \<times> cmd list"
type_synonym ('s, 'a) op = "'s conn \<Rightarrow> 'a res \<times> 's conn"

definition ret :: "'a \<Rightarrow> ('s, 'a) op" where
  "ret x = (\<lambda>c. (Inr x, c))"

definition raiseO :: "err \<Rightarrow> ('s, 'a) op" where
  "raiseO e = (\<lambda>c. (Inl e, c))"

definition bindO :: "('s, 'a) op \<Rightarrow> ('a \<Rightarrow> ('s, 'b) op) \<Rightarrow> ('s, 'b) op" where
  "bindO m f = (\<lambda>c. case m c of (Inl e, c') \<Rightarrow> (Inl e, c') | (Inr x, c') \<Rightarrow> f x c')"

definition seqO :: "('s, unit) op \<Rightarrow> ('s, 'b) op \<Rightarrow> ('s, 'b) op" where
  "seqO m n = bindO m (\<lambda>_. n)"

text \<open>\<open>catchO m h\<close> is \<open>try: m except: h\<close>, where \<open>h\<close> returns None to let the exception pass.\<close>

definition catchO :: "('s, 'a) op \<Rightarrow> (err \<Rightarrow> ('s, 'a) op option) \<Rightarrow> ('s, 'a) op" where
  "catchO m h =
     (\<lambda>c. case m c of
            (Inr x, c') \<Rightarrow> (Inr x, c')
          | (Inl e, c') \<Rightarrow> (case h e of None \<Rightarrow> (Inl e, c') | Some n \<Rightarrow> n c'))"

definition liftE :: "'a res \<Rightarrow> ('s, 'a) op" where
  "liftE r = (\<lambda>c. (r, c))"

definition send :: "'s redis \<Rightarrow> bool \<Rightarrow> cmd list \<Rightarrow> ('s, unit) op" where
  "send R piped cs = (\<lambda>(s, buf). (Inr (), if piped then (s, buf @ cs) else (run_all R cs s, buf)))"

definition ask :: "('s \<Rightarrow> 'a res) \<Rightarrow> ('s, 'a) op" where
  "ask f = (\<lambda>(s, buf). (f s, (s, buf)))"

definition act :: "('s \<Rightarrow> 'a res \<times> 's) \<Rightarrow> ('s, 'a) op" where
  "act g = (\<lambda>(s, buf). case g s of (r, s') \<Rightarrow> (r, (s', buf)))"

definition execute :: "'s redis \<Rightarrow> ('s, unit) op" where
  "execute R = (\<lambda>(s, buf). (Inr (), (run_all R buf s, [])))"

text \<open>A body with a pipeline of its own; what it did not execute is dropped.\<close>

definition new_pipe :: "('s, 'a) op \<Rightarrow> ('s, 'a) op" where
  "new_pipe m = (\<lambda>(s, buf). case m (s, []) of (r, (s', _)) \<Rightarrow> (r, (s', buf)))"

text \<open>
  \<open>pipe = pipeline or connection.pipeline()\<close>, with the execution at the end when it is the
  operation's own.
\<close>

definition own_pipe :: "'s redis \<Rightarrow> bool \<Rightarrow> ('s, 'a) op \<Rightarrow> ('s, 'a) op" where
  "own_pipe R piped m =
     (if piped then m else new_pipe (bindO m (\<lambda>x. seqO (execute R) (ret x))))"

primrec for_each :: "('a \<Rightarrow> ('s, unit) op) \<Rightarrow> 'a list \<Rightarrow> ('s, unit) op" where
  "for_each f [] = ret ()"
| "for_each f (x # xs) = seqO (f x) (for_each f xs)"

lemma op_simps [simp]:
  "ret x c = (Inr x, c)"
  "raiseO e c = (Inl e, c)"
  "liftE r c = (r, c)"
  "send R True cs (s, buf) = (Inr (), (s, buf @ cs))"
  "send R False cs (s, buf) = (Inr (), (run_all R cs s, buf))"
  "ask f (s, buf) = (f s, (s, buf))"
  "execute R (s, buf) = (Inr (), (run_all R buf s, []))"
  by (simp_all add: ret_def raiseO_def liftE_def send_def ask_def execute_def)

lemma bindO_Inr [simp]: "m c = (Inr x, c') \<Longrightarrow> bindO m f c = f x c'"
  by (simp add: bindO_def)

lemma bindO_Inl [simp]: "m c = (Inl e, c') \<Longrightarrow> bindO m f c = (Inl e, c')"
  by (simp add: bindO_def)

lemma seqO_Inr [simp]: "m c = (Inr u, c') \<Longrightarrow> seqO m n c = n c'"
  by (simp add: seqO_def)

lemma seqO_Inl [simp]: "m c = (Inl e, c') \<Longrightarrow> seqO m n c = (Inl e, c')"
  by (simp add: seqO_def)

lemma bindO_Inr_iff: "bindO m f c = (Inr y, c') \<longleftrightarrow> (\<exists>x c1. m c = (Inr x, c1) \<and> f x c1 = (Inr y, c'))"
  by (auto simp: bindO_def split: prod.splits sum.splits)

lemma seqO_Inr_iff: "seqO m n c = (Inr y, c') \<longleftrightarrow> (\<exists>u c1. m c = (Inr u, c1) \<and> n c1 = (Inr y, c'))"
  by (auto simp: seqO_def bindO_Inr_iff)

lemma act_eq: "act g (s, buf) = (fst (g s), (snd (g s), buf))"
  by (simp add: act_def split: prod.splits)

lemma bindO_assoc: "bindO (bindO m f) g = bindO m (\<lambda>x. bindO (f x) g)"
  by (auto simp: bindO_def fun_eq_iff split: sum.splits prod.splits)

lemma bindO_seqO: "bindO (seqO m n) g = seqO m (bindO n g)"
  by (simp add: seqO_def bindO_assoc)

lemma for_each_sends: "for_each (\<lambda>x. send R True (f x)) xs (s, buf) = (Inr (), (s, buf @ concat (map f xs)))"
  by (induction xs arbitrary: buf) auto

section \<open>What an operation returns\<close>

text \<open>
  \<open>yields Q m\<close>: whatever the state, a value that \<open>m\<close> returns satisfies \<open>Q\<close>. Used for what holds of the
  object an operation hands back, with no regard to the server.
\<close>

definition yields :: "('a \<Rightarrow> bool) \<Rightarrow> ('s, 'a) op \<Rightarrow> bool" where
  "yields Q m \<longleftrightarrow> (\<forall>c y c'. m c = (Inr y, c') \<longrightarrow> Q y)"

lemma yieldsD: "yields Q m \<Longrightarrow> m c = (Inr y, c') \<Longrightarrow> Q y"
  unfolding yields_def by blast

lemma yieldsI: "(\<And>c y c'. m c = (Inr y, c') \<Longrightarrow> Q y) \<Longrightarrow> yields Q m"
  unfolding yields_def by blast

lemma yields_simps [simp]:
  "yields Q (ret x) \<longleftrightarrow> Q x" "yields Q (raiseO e)" "yields Q (liftE r) \<longleftrightarrow> (\<forall>x. r = Inr x \<longrightarrow> Q x)"
  "yields (\<lambda>_. True) m"
  by (simp_all add: yields_def ret_def raiseO_def liftE_def)

lemma yields_bind:
  assumes "yields P m" "\<And>x. P x \<Longrightarrow> yields Q (f x)"
  shows "yields Q (bindO m f)"
proof (rule yieldsI)
  fix c y c'
  assume "bindO m f c = (Inr y, c')"
  then obtain x c1 where "m c = (Inr x, c1)" "f x c1 = (Inr y, c')" unfolding bindO_Inr_iff by blast
  then show "Q y" using assms(1) [THEN yieldsD] assms(2) [THEN yieldsD] by blast
qed

lemma yields_bind_any [intro]: "(\<And>x. yields Q (f x)) \<Longrightarrow> yields Q (bindO m f)"
  by (rule yields_bind [of "\<lambda>_. True"]) simp_all

lemma yields_seq [intro]: "yields Q n \<Longrightarrow> yields Q (seqO m n)"
  unfolding seqO_def by (rule yields_bind_any)

lemma yields_new_pipe [intro]:
  assumes "yields Q m"
  shows "yields Q (new_pipe m)"
proof (rule yieldsI)
  fix c y c'
  assume "new_pipe m c = (Inr y, c')"
  then obtain c1 where "m (fst c, []) = (Inr y, c1)" by (auto simp: new_pipe_def split: prod.splits)
  then show "Q y" using assms by (rule yieldsD [rotated])
qed

lemma yields_own_pipe [intro]: "yields Q m \<Longrightarrow> yields Q (own_pipe R piped m)"
  by (auto simp: own_pipe_def intro!: yields_new_pipe yields_bind [of Q])

end
