(* ===== verification/Keys.thy ===== *)
theory Keys
  imports Redis
begin

text \<open>
  The names of the Redis keys, one definition per key function of the code, and the identifiers
  that go into them: job ids (\<open>validate_job_id\<close>), composite keys of executions, and the parsers that
  read a name back from a key. The lemmas show that the families are disjoint, so that a command
  on one component's key never changes the reading of another component's.
\<close>

section \<open>Key functions\<close>

definition job_key :: "string \<Rightarrow> key" where
  "job_key i = ''rq:job:'' @ i"

definition dependents_key :: "string \<Rightarrow> key" where
  "dependents_key i = ''rq:job:'' @ i @ '':dependents''"

definition dependencies_key :: "string \<Rightarrow> key" where
  "dependencies_key i = ''rq:job:'' @ '':'' @ i @ '':dependencies''"

definition queue_key :: "string \<Rightarrow> key" where
  "queue_key q = ''rq:queue:'' @ q"

definition queues_key :: key where
  "queues_key = ''rq:queues''"

definition intermediate_key :: "key \<Rightarrow> key" where
  "intermediate_key k = k @ '':intermediate''"

definition first_seen_key :: "key \<Rightarrow> string \<Rightarrow> key" where
  "first_seen_key k i = intermediate_key k @ '':first_seen:'' @ i"

definition cleaning_key :: "string \<Rightarrow> key" where
  "cleaning_key q = ''rq:clean_registries:'' @ q"

text \<open>The registries of a queue, one class each in \<open>registry.py\<close>, and their \<open>key_template\<close>.\<close>

datatype reg_kind = Started | Finished | Failed | Deferred | Scheduled | Canceled

fun registry_key :: "reg_kind \<Rightarrow> string \<Rightarrow> key" where
  "registry_key Started q = ''rq:wip:'' @ q"
| "registry_key Finished q = ''rq:finished:'' @ q"
| "registry_key Failed q = ''rq:failed:'' @ q"
| "registry_key Deferred q = ''rq:deferred:'' @ q"
| "registry_key Scheduled q = ''rq:scheduled:'' @ q"
| "registry_key Canceled q = ''rq:canceled:'' @ q"

declare registry_key.simps [simp del]

definition results_key :: "string \<Rightarrow> key" where
  "results_key i = ''rq:results:'' @ i"

definition executions_key :: "string \<Rightarrow> key" where
  "executions_key i = ''rq:executions:'' @ i"

definition composite_key :: "string \<Rightarrow> string \<Rightarrow> string" where
  "composite_key i e = i @ '':'' @ e"

definition execution_key :: "string \<Rightarrow> string \<Rightarrow> key" where
  "execution_key i e = ''rq:execution:'' @ composite_key i e"

definition worker_key :: "string \<Rightarrow> key" where
  "worker_key w = ''rq:worker:'' @ w"

definition workers_key :: key where
  "workers_key = ''rq:workers''"

definition workers_by_queue_key :: "string \<Rightarrow> key" where
  "workers_by_queue_key q = ''rq:workers:'' @ q"

definition group_key :: "string \<Rightarrow> key" where
  "group_key g = ''rq:group:'' @ g"

definition groups_key :: key where
  "groups_key = ''rq:groups''"

definition scheduler_lock_key :: "string \<Rightarrow> key" where
  "scheduler_lock_key q = ''rq:scheduler-lock:'' @ q"

definition cron_key :: "string \<Rightarrow> key" where
  "cron_key c = ''rq:cron_scheduler:'' @ c"

definition crons_key :: key where
  "crons_key = ''rq:cron_schedulers''"

definition suspended_key :: key where
  "suspended_key = ''rq:suspended''"

named_theorems key_defs

lemmas key_def_list [key_defs] =
  job_key_def dependents_key_def dependencies_key_def queue_key_def queues_key_def intermediate_key_def
  first_seen_key_def cleaning_key_def results_key_def executions_key_def composite_key_def
  execution_key_def worker_key_def workers_key_def workers_by_queue_key_def group_key_def groups_key_def
  scheduler_lock_key_def cron_key_def crons_key_def suspended_key_def registry_key.simps

section \<open>Job ids and composite keys\<close>

definition id_char :: "char \<Rightarrow> bool" where
  "id_char c \<longleftrightarrow>
     (let n = of_char c :: nat in
      65 \<le> n \<and> n \<le> 90 \<or> 97 \<le> n \<and> n \<le> 122 \<or> 48 \<le> n \<and> n \<le> 57 \<or> n = 95 \<or> n = 45)"

text \<open>\<open>validate_job_id\<close>: the whole id matches \<open>[A-Za-z0-9_-]+\<close>.\<close>

definition valid_id :: "string \<Rightarrow> bool" where
  "valid_id i \<longleftrightarrow> i \<noteq> [] \<and> list_all id_char i"

definition validate_job_id :: "string \<Rightarrow> unit res" where
  "validate_job_id i = (if valid_id i then Inr () else Inl ValueError)"

definition parse_job_id :: "string \<Rightarrow> string" where
  "parse_job_id s = (if CHR '':'' \<in> set s then hd (split_on CHR '':'' s) else s)"

definition parse_composite_key :: "string \<Rightarrow> (string \<times> string) res" where
  "parse_composite_key s =
     (case split_on CHR '':'' s of
        [i] \<Rightarrow> Inr (i, [])
      | [i, e] \<Rightarrow> Inr (i, e)
      | _ \<Rightarrow> Inl ValueError)"

text \<open>\<open>Queue.from_queue_key\<close> and \<open>find_by_key\<close> of a worker: the prefix is required.\<close>

definition strip_prefix :: "string \<Rightarrow> string \<Rightarrow> string res" where
  "strip_prefix p k = (if take (length p) k = p then Inr (drop (length p) k) else Inl ValueError)"

definition queue_name_of_key :: "key \<Rightarrow> string res" where
  "queue_name_of_key k = strip_prefix ''rq:queue:'' k"

definition worker_name_of_key :: "key \<Rightarrow> string res" where
  "worker_name_of_key k = strip_prefix ''rq:worker:'' k"

section \<open>Lemmas\<close>

lemma colon_not_id_char [simp]: "\<not> id_char CHR '':''"
  by (simp add: id_char_def)

lemma valid_id_no_colon: "valid_id i \<Longrightarrow> CHR '':'' \<notin> set i"
  by (auto simp: valid_id_def list_all_iff)

lemma validate_job_id_iff: "validate_job_id i = Inr () \<longleftrightarrow> valid_id i"
  by (simp add: validate_job_id_def)

lemma strip_prefix_append [simp]: "strip_prefix p (p @ x) = Inr x"
  by (simp add: strip_prefix_def)

lemma strip_prefix_Inr: "strip_prefix p k = Inr x \<longleftrightarrow> k = p @ x"
  by (auto simp: strip_prefix_def) (metis append_take_drop_id)

lemma queue_name_of_queue_key [simp]: "queue_name_of_key (queue_key q) = Inr q"
  by (simp add: queue_name_of_key_def queue_key_def del: append.simps)

lemma worker_name_of_worker_key [simp]: "worker_name_of_key (worker_key w) = Inr w"
  by (simp add: worker_name_of_key_def worker_key_def del: append.simps)

lemma parse_composite_key_roundtrip:
  "CHR '':'' \<notin> set i \<Longrightarrow> CHR '':'' \<notin> set e \<Longrightarrow> parse_composite_key (composite_key i e) = Inr (i, e)"
  by (simp add: parse_composite_key_def composite_key_def split_on_append split_on_notin)

lemma parse_job_id_composite: "CHR '':'' \<notin> set i \<Longrightarrow> parse_job_id (composite_key i e) = i"
  by (simp add: parse_job_id_def composite_key_def split_on_append)

lemma parse_job_id_valid: "valid_id i \<Longrightarrow> parse_job_id i = i"
  by (simp add: parse_job_id_def valid_id_no_colon)

lemma parse_job_id_no_colon: "CHR '':'' \<notin> set (parse_job_id s)"
proof (cases "CHR '':'' \<in> set s")
  case True
  have "CHR '':'' \<notin> set (hd (split_on CHR '':'' s))" by (induction s) (auto split: list.splits)
  with True show ?thesis by (simp add: parse_job_id_def)
qed (simp add: parse_job_id_def)

text \<open>Keys of one family are equal only for equal names; the executions of different jobs differ.\<close>

lemma key_inj [simp]:
  "job_key i = job_key j \<longleftrightarrow> i = j" "queue_key p = queue_key q \<longleftrightarrow> p = q"
  "registry_key d p = registry_key d q \<longleftrightarrow> p = q" "results_key i = results_key j \<longleftrightarrow> i = j"
  "executions_key i = executions_key j \<longleftrightarrow> i = j" "worker_key v = worker_key w \<longleftrightarrow> v = w"
  "group_key g = group_key h \<longleftrightarrow> g = h" "dependents_key i = dependents_key j \<longleftrightarrow> i = j"
  "dependencies_key i = dependencies_key j \<longleftrightarrow> i = j" "intermediate_key k = intermediate_key l \<longleftrightarrow> k = l"
  "scheduler_lock_key p = scheduler_lock_key q \<longleftrightarrow> p = q" "cron_key c = cron_key c' \<longleftrightarrow> c = c'"
  "workers_by_queue_key p = workers_by_queue_key q \<longleftrightarrow> p = q" "cleaning_key p = cleaning_key q \<longleftrightarrow> p = q"
  by (cases d; simp add: key_defs)+

lemma registry_key_kind [simp]: "registry_key c p = registry_key d q \<longleftrightarrow> c = d \<and> p = q"
  by (cases c; cases d) (simp_all add: registry_key.simps)

lemma composite_key_inj:
  "CHR '':'' \<notin> set i \<Longrightarrow> CHR '':'' \<notin> set j \<Longrightarrow> composite_key i e = composite_key j f \<longleftrightarrow> i = j \<and> e = f"
  by (metis parse_job_id_composite composite_key_def same_append_eq append_Cons append_Nil list.inject)

lemma execution_key_inj:
  "CHR '':'' \<notin> set i \<Longrightarrow> CHR '':'' \<notin> set j \<Longrightarrow> execution_key i e = execution_key j f \<longleftrightarrow> i = j \<and> e = f"
  by (simp add: execution_key_def composite_key_inj)

lemma valid_id_job_key_neq:
  assumes "valid_id i"
  shows "job_key i \<noteq> dependents_key j" "job_key i \<noteq> dependencies_key j"
    "dependents_key j \<noteq> job_key i" "dependencies_key j \<noteq> job_key i"
  using valid_id_no_colon [OF assms] by (auto simp: key_defs)

section \<open>Disjoint families\<close>

text \<open>
  The segment after \<open>rq:\<close> names the family of a key. Two keys of different families differ; the rules
  \<open>key_neq\<close> decide an equation between keys by computing the two segments.
\<close>

definition fam :: "key \<Rightarrow> string" where
  "fam k = takeWhile (\<lambda>c. c \<noteq> CHR '':'') (drop 3 k)"

fun reg_fam :: "reg_kind \<Rightarrow> string" where
  "reg_fam Started = ''wip''"
| "reg_fam Finished = ''finished''"
| "reg_fam Failed = ''failed''"
| "reg_fam Deferred = ''deferred''"
| "reg_fam Scheduled = ''scheduled''"
| "reg_fam Canceled = ''canceled''"

lemma fam_simps [simp]:
  "fam (job_key i) = ''job''"
  "fam (dependents_key i) = ''job''"
  "fam (dependencies_key i) = ''job''"
  "fam (queue_key q) = ''queue''"
  "fam (queues_key) = ''queues''"
  "fam (intermediate_key (queue_key q)) = ''queue''"
  "fam (first_seen_key (queue_key q) i) = ''queue''"
  "fam (cleaning_key q) = ''clean_registries''"
  "fam (results_key i) = ''results''"
  "fam (executions_key i) = ''executions''"
  "fam (execution_key i e) = ''execution''"
  "fam (worker_key w) = ''worker''"
  "fam (workers_key) = ''workers''"
  "fam (workers_by_queue_key q) = ''workers''"
  "fam (group_key g) = ''group''"
  "fam (groups_key) = ''groups''"
  "fam (scheduler_lock_key q) = ''scheduler-lock''"
  "fam (cron_key c) = ''cron_scheduler''"
  "fam (crons_key) = ''cron_schedulers''"
  "fam (suspended_key) = ''suspended''"
  "fam (registry_key d q) = reg_fam d"
  by (cases d; simp add: fam_def key_defs)+

lemma fam_neq: "fam k \<noteq> fam l \<Longrightarrow> k \<noteq> l"
  by auto

lemma reg_fam_neq [simp]:
  "reg_fam d \<noteq> ''clean_registries''"
  "reg_fam d \<noteq> ''cron_scheduler''"
  "reg_fam d \<noteq> ''cron_schedulers''"
  "reg_fam d \<noteq> ''execution''"
  "reg_fam d \<noteq> ''executions''"
  "reg_fam d \<noteq> ''group''"
  "reg_fam d \<noteq> ''groups''"
  "reg_fam d \<noteq> ''job''"
  "reg_fam d \<noteq> ''queue''"
  "reg_fam d \<noteq> ''queues''"
  "reg_fam d \<noteq> ''results''"
  "reg_fam d \<noteq> ''scheduler-lock''"
  "reg_fam d \<noteq> ''suspended''"
  "reg_fam d \<noteq> ''worker''"
  "reg_fam d \<noteq> ''workers''"
  by (cases d; simp)+

lemma key_neq [simp]:
  "fam k \<noteq> ''job'' \<Longrightarrow> job_key i \<noteq> k" "fam k \<noteq> ''job'' \<Longrightarrow> k \<noteq> job_key i"
  "fam k \<noteq> ''job'' \<Longrightarrow> dependents_key i \<noteq> k" "fam k \<noteq> ''job'' \<Longrightarrow> k \<noteq> dependents_key i"
  "fam k \<noteq> ''job'' \<Longrightarrow> dependencies_key i \<noteq> k" "fam k \<noteq> ''job'' \<Longrightarrow> k \<noteq> dependencies_key i"
  "fam k \<noteq> ''queue'' \<Longrightarrow> queue_key q \<noteq> k" "fam k \<noteq> ''queue'' \<Longrightarrow> k \<noteq> queue_key q"
  "fam k \<noteq> ''queues'' \<Longrightarrow> queues_key \<noteq> k" "fam k \<noteq> ''queues'' \<Longrightarrow> k \<noteq> queues_key"
  "fam k \<noteq> ''queue'' \<Longrightarrow> intermediate_key (queue_key q) \<noteq> k" "fam k \<noteq> ''queue'' \<Longrightarrow> k \<noteq> intermediate_key (queue_key q)"
  "fam k \<noteq> ''queue'' \<Longrightarrow> first_seen_key (queue_key q) i \<noteq> k" "fam k \<noteq> ''queue'' \<Longrightarrow> k \<noteq> first_seen_key (queue_key q) i"
  "fam k \<noteq> ''clean_registries'' \<Longrightarrow> cleaning_key q \<noteq> k" "fam k \<noteq> ''clean_registries'' \<Longrightarrow> k \<noteq> cleaning_key q"
  "fam k \<noteq> ''results'' \<Longrightarrow> results_key i \<noteq> k" "fam k \<noteq> ''results'' \<Longrightarrow> k \<noteq> results_key i"
  "fam k \<noteq> ''executions'' \<Longrightarrow> executions_key i \<noteq> k" "fam k \<noteq> ''executions'' \<Longrightarrow> k \<noteq> executions_key i"
  "fam k \<noteq> ''execution'' \<Longrightarrow> execution_key i e \<noteq> k" "fam k \<noteq> ''execution'' \<Longrightarrow> k \<noteq> execution_key i e"
  "fam k \<noteq> ''worker'' \<Longrightarrow> worker_key w \<noteq> k" "fam k \<noteq> ''worker'' \<Longrightarrow> k \<noteq> worker_key w"
  "fam k \<noteq> ''workers'' \<Longrightarrow> workers_key \<noteq> k" "fam k \<noteq> ''workers'' \<Longrightarrow> k \<noteq> workers_key"
  "fam k \<noteq> ''workers'' \<Longrightarrow> workers_by_queue_key q \<noteq> k" "fam k \<noteq> ''workers'' \<Longrightarrow> k \<noteq> workers_by_queue_key q"
  "fam k \<noteq> ''group'' \<Longrightarrow> group_key g \<noteq> k" "fam k \<noteq> ''group'' \<Longrightarrow> k \<noteq> group_key g"
  "fam k \<noteq> ''groups'' \<Longrightarrow> groups_key \<noteq> k" "fam k \<noteq> ''groups'' \<Longrightarrow> k \<noteq> groups_key"
  "fam k \<noteq> ''scheduler-lock'' \<Longrightarrow> scheduler_lock_key q \<noteq> k" "fam k \<noteq> ''scheduler-lock'' \<Longrightarrow> k \<noteq> scheduler_lock_key q"
  "fam k \<noteq> ''cron_scheduler'' \<Longrightarrow> cron_key c \<noteq> k" "fam k \<noteq> ''cron_scheduler'' \<Longrightarrow> k \<noteq> cron_key c"
  "fam k \<noteq> ''cron_schedulers'' \<Longrightarrow> crons_key \<noteq> k" "fam k \<noteq> ''cron_schedulers'' \<Longrightarrow> k \<noteq> crons_key"
  "fam k \<noteq> ''suspended'' \<Longrightarrow> suspended_key \<noteq> k" "fam k \<noteq> ''suspended'' \<Longrightarrow> k \<noteq> suspended_key"
  "fam k \<noteq> reg_fam d \<Longrightarrow> registry_key d q \<noteq> k" "fam k \<noteq> reg_fam d \<Longrightarrow> k \<noteq> registry_key d q"
  by auto

lemma same_family_neq [simp]:
  "dependents_key i \<noteq> dependencies_key j" "dependencies_key j \<noteq> dependents_key i"
  "workers_key \<noteq> workers_by_queue_key q" "workers_by_queue_key q \<noteq> workers_key"
  "first_seen_key (queue_key q) i \<noteq> queue_key q" "queue_key q \<noteq> first_seen_key (queue_key q) i"
  "intermediate_key k \<noteq> k" "k \<noteq> intermediate_key k"
  by (auto simp: key_defs)

section \<open>Properties\<close>

text \<open>
  The composite key of an execution splits back into the job id and the execution id it was made
  of, \<open>parse_job_id\<close> recovers the job id from it, and two executions share a key only when both ids
  agree; all for job ids that \<open>validate_job_id\<close> accepts.
\<close>

theorem composite_key_roundtrip:
  assumes "validate_job_id i = Inr ()" "validate_job_id j = Inr ()" "CHR '':'' \<notin> set e"
  shows "parse_composite_key (composite_key i e) = Inr (i, e) \<and> parse_job_id (composite_key i e) = i \<and>
    parse_job_id i = i \<and> (execution_key i e = execution_key j f \<longleftrightarrow> i = j \<and> e = f)"
proof -
  have "CHR '':'' \<notin> set i" "CHR '':'' \<notin> set j" "valid_id i"
    using assms(1,2) by (simp_all add: validate_job_id_iff valid_id_no_colon)
  then show ?thesis using assms(3)
    by (simp add: parse_composite_key_roundtrip parse_job_id_composite parse_job_id_valid execution_key_inj)
qed

theorem composite_key_roundtrip_witness:
  "parse_composite_key (composite_key ''a-1'' ''f0'') = Inr (''a-1'', ''f0'') \<and>
   (execution_key ''a-1'' ''f0'' = execution_key ''b_2'' ''f0'' \<longleftrightarrow> ''a-1'' = ''b_2'' \<and> ''f0'' = ''f0'')"
proof -
  have "validate_job_id ''a-1'' = Inr ()" "validate_job_id ''b_2'' = Inr ()" by code_simp+
  then show ?thesis using composite_key_roundtrip [of "''a-1''" "''b_2''" "''f0''" "''f0''"] by simp
qed

end
