(* ===== verification/Utils.thy ===== *)
theory Utils
  imports Keys Complex_Main "HOL-Library.Char_ord" "HOL-Library.List_Lexorder"
begin

text \<open>
  The helper functions of \<open>rq/utils.py\<close>: timeouts, list segmentation, the printed form of a call,
  dotted names, server versions. Python values that the code only passes on are \<open>pyval\<close>.
\<close>

section \<open>Values\<close>

datatype pyval =
    PNone | PBool bool | PInt int | PFloat rat | PStr string | PBytes string
  | PList "pyval list" | PTuple "pyval list" | PDict "(string \<times> pyval) list" | PObj string

section \<open>Timeouts\<close>

text \<open>What \<open>parse_timeout\<close> accepts. A \<open>bool\<close> is an integer in Python.\<close>

datatype timeout = TNone | TInt int | TFloat rat | TNan | TInf | TStr string

definition trunc_rat :: "rat \<Rightarrow> int" where
  "trunc_rat x = (if x < 0 then - \<lfloor>- x\<rfloor> else \<lfloor>x\<rfloor>)"

definition lower :: "char \<Rightarrow> char" where
  "lower c = (let n = of_char c :: nat in if 65 \<le> n \<and> n \<le> 90 then char_of (n + 32) else c)"

definition unit_second :: "string \<Rightarrow> int option" where
  "unit_second u = map_of [(''d'', 86400), (''h'', 3600), (''m'', 60), (''s'', 1)] u"

definition last_part :: "string \<Rightarrow> string" where
  "last_part s = (if s = [] then [] else [last s])"

fun parse_timeout :: "timeout \<Rightarrow> int option res" where
  "parse_timeout TNone = Inr None"
| "parse_timeout (TInt i) = Inr (Some i)"
| "parse_timeout (TFloat x) = Inr (Some (trunc_rat x))"
| "parse_timeout TNan = Inl AssertionError"
| "parse_timeout TInf = Inl OverflowError"
| "parse_timeout (TStr s) =
     (case int_of_str s of
        Some i \<Rightarrow> Inr (Some i)
      | None \<Rightarrow>
          (case (int_of_str (butlast s), unit_second (map lower (last_part s))) of
             (Some d, Some m) \<Rightarrow> Inr (Some (d * m))
           | _ \<Rightarrow> Inl TimeoutFormatError))"

section \<open>Lists\<close>

primrec compact :: "'a option list \<Rightarrow> 'a list" where
  "compact [] = []"
| "compact (x # xs) = (case x of None \<Rightarrow> compact xs | Some y \<Rightarrow> y # compact xs)"

definition ceildiv :: "int \<Rightarrow> int \<Rightarrow> int" where
  "ceildiv a b = - (- a div b)"

text \<open>
  \<open>range(0, len(a_list), segment_size)\<close> raises ValueError for a step of zero and is empty for a
  negative one.
\<close>

fun segments :: "nat \<Rightarrow> 'a list \<Rightarrow> 'a list list" where
  "segments k xs = (if xs = [] \<or> k = 0 then [] else take k xs # segments k (drop k xs))"

declare segments.simps [simp del]

definition split_list :: "'a list \<Rightarrow> int \<Rightarrow> 'a list list res" where
  "split_list xs n =
     (if n = 0 then Inl ValueError else if n < 0 then Inr [] else Inr (segments (nat n) xs))"

section \<open>Printed calls\<close>

text \<open>\<open>xs[:n]\<close> for any integer \<open>n\<close>.\<close>

definition py_take :: "int \<Rightarrow> 'a list \<Rightarrow> 'a list" where
  "py_take n xs = (if 0 \<le> n then take (nat n) xs else take (nat (int (length xs) + n)) xs)"

definition truncate_long_string :: "string \<Rightarrow> int option \<Rightarrow> string" where
  "truncate_long_string d m =
     (case m of None \<Rightarrow> d | Some n \<Rightarrow> if n < int (length d) then py_take n d @ ''...'' else d)"

definition get_call_string ::
  "(pyval \<Rightarrow> string) \<Rightarrow> string option \<Rightarrow> pyval list \<Rightarrow> (string \<times> pyval) list \<Rightarrow> int option \<Rightarrow> string option" where
  "get_call_string repr fn args kwargs m =
     (case fn of
        None \<Rightarrow> None
      | Some f \<Rightarrow>
          let arg_list = map (\<lambda>a. truncate_long_string (repr a) m) args;
              list_kwargs = map (\<lambda>(k, v). k @ ''='' @ truncate_long_string (repr v) m) kwargs
          in Some (f @ ''('' @ join '', '' (arg_list @ sort list_kwargs) @ '')''))"

section \<open>References to functions\<close>

datatype func_ref =
    FMethod pyval string | FFunction string string | FName string | FCallable pyval | FOther

fun resolve_function_reference :: "func_ref \<Rightarrow> (pyval option \<times> string) res" where
  "resolve_function_reference (FMethod self n) = Inr (Some self, n)"
| "resolve_function_reference (FFunction m q) = Inr (None, m @ ''.'' @ q)"
| "resolve_function_reference (FName s) = Inr (None, s)"
| "resolve_function_reference (FCallable obj) = Inr (Some obj, ''__call__'')"
| "resolve_function_reference FOther = Inl TypeError"

text \<open>
  The interpreter's modules are a parameter: what \<open>importlib.import_module\<close> finds, the attributes of
  an object (none has the empty name), and the builtins.
\<close>

record 'o modules =
  import_module :: "string \<Rightarrow> 'o option"
  attribute :: "'o \<Rightarrow> string \<Rightarrow> 'o option"
  builtin :: "string \<Rightarrow> 'o option"

text \<open>
  The import loop, on the reversed list of module name bits: bits move to the attribute from the
  right until the rest imports.
\<close>

fun import_loop :: "'o modules \<Rightarrow> string list \<Rightarrow> string list \<Rightarrow> 'o option \<times> string list" where
  "import_loop M [] attrs = (None, attrs)"
| "import_loop M (b # bs) attrs =
     (case import_module M (join ''.'' (rev (b # bs))) of
        Some m \<Rightarrow> (Some m, attrs)
      | None \<Rightarrow> import_loop M bs (b # attrs))"

definition import_attribute :: "'o modules \<Rightarrow> string \<Rightarrow> 'o res" where
  "import_attribute M name =
     (let bits = split_on CHR ''.'' name in
      case import_loop M (rev (butlast bits)) [last bits] of
        (None, _) \<Rightarrow> (case builtin M name of Some v \<Rightarrow> Inr v | None \<Rightarrow> Inl ValueError)
      | (Some m, attrs) \<Rightarrow>
          (case attribute M m (join ''.'' attrs) of
             Some v \<Rightarrow> Inr v
           | None \<Rightarrow>
               (case attribute M m (join ''.'' (butlast attrs)) of
                  None \<Rightarrow> Inl ValueError
                | Some owner \<Rightarrow>
                    (case attribute M owner (last attrs) of Some v \<Rightarrow> Inr v | None \<Rightarrow> Inl ValueError))))"

section \<open>Paths, names and versions\<close>

definition ends_with :: "string \<Rightarrow> string \<Rightarrow> bool" where
  "ends_with suf s \<longleftrightarrow> drop (length s - length suf) s = suf"

text \<open>\<open>os.path.sep\<close> is the parameter \<open>sep\<close>.\<close>

definition normalize_config_path :: "char \<Rightarrow> string \<Rightarrow> string" where
  "normalize_config_path sep p =
     (if sep \<notin> set p \<and> \<not> ends_with ''.py'' p then p
      else
        let n1 = (if ends_with ''.py'' p then take (length p - 3) p else p);
            n2 = (if n1 \<noteq> [] \<and> hd n1 = sep then tl n1 else n1)
        in map (\<lambda>c. if c = sep then CHR ''.'' else c) n2)"

datatype platform = WINDOWS | MAC | LINUX | OTHERS

definition get_platform :: "string \<Rightarrow> platform" where
  "get_platform sys_platform =
     (let p = map lower sys_platform in
      if take 3 p = ''win'' then WINDOWS
      else if p = ''darwin'' then MAC
      else if take 5 p = ''linux'' then LINUX
      else OTHERS)"

text \<open>
  \<open>parse_version\<close> is the body of \<open>get_version\<close>: \<open>reply\<close> is the version text of INFO, or \<open>None\<close> when
  the server answers INFO with an error.
\<close>

definition parse_version :: "string option \<Rightarrow> (int \<times> int \<times> int) res" where
  "parse_version reply =
     (case reply of
        None \<Rightarrow> Inr (5, 0, 9)
      | Some v \<Rightarrow>
          bindE (mapE (\<lambda>p. case int_of_str p of Some i \<Rightarrow> Inr i | None \<Rightarrow> Inl ValueError) (take 3 (split_on CHR ''.'' v)))
            (\<lambda>is. case is @ replicate (3 - length is) 0 of
                    [a, b, c] \<Rightarrow> Inr (a, b, c)
                  | _ \<Rightarrow> Inl ValueError))"

section \<open>Lemmas\<close>

lemma compact_filter: "compact xs = map the (filter (\<lambda>x. x \<noteq> None) xs)"
  by (induction xs) (auto split: option.splits)

lemma set_compact: "set (compact xs) = {y. Some y \<in> set xs}"
  by (induction xs) (auto split: option.splits)

lemma concat_segments: "0 < k \<Longrightarrow> concat (segments k xs) = xs"
proof (induction k xs rule: segments.induct)
  case (1 k xs)
  then show ?case by (cases "xs = []") (simp_all add: segments.simps [of k])
qed

lemma segments_bounds: "ys \<in> set (segments k xs) \<Longrightarrow> 0 < length ys \<and> length ys \<le> k"
proof (induction k xs rule: segments.induct)
  case (1 k xs)
  then show ?case by (cases "xs = [] \<or> k = 0") (auto simp: segments.simps [of k xs])
qed

lemma segments_full: "i + 1 < length (segments k xs) \<Longrightarrow> length (segments k xs ! i) = k"
proof (induction k xs arbitrary: i rule: segments.induct)
  case (1 k xs)
  then have ne: "\<not> (xs = [] \<or> k = 0)" by (subst (asm) segments.simps) (auto split: if_splits)
  then have eq: "segments k xs = take k xs # segments k (drop k xs)" by (simp add: segments.simps [of k xs])
  show ?case
  proof (cases i)
    case 0
    with 1(2) eq have "segments k (drop k xs) \<noteq> []" by auto
    then have "k < length xs" by (auto simp: segments.simps [of k "drop k xs"] split: if_splits)
    with eq 0 show ?thesis by simp
  next
    case (Suc j)
    with 1 ne eq show ?thesis by simp
  qed
qed

lemma segments_length: "0 < k \<Longrightarrow> int (length (segments k xs)) = ceildiv (int (length xs)) (int k)"
proof (induction k xs rule: segments.induct)
  case (1 k xs)
  show ?case
  proof (cases "xs = []")
    case True
    then show ?thesis by (simp add: segments.simps ceildiv_def)
  next
    case False
    with 1 have IH: "int (length (segments k (drop k xs))) = ceildiv (int (length xs - k)) (int k)" by simp
    have "ceildiv (int (length xs)) (int k) = 1 + ceildiv (int (length xs - k)) (int k)"
    proof (cases "k \<le> length xs")
      case True
      have "- int (length xs) = - int (length xs - k) + (- 1) * int k" using True by simp
      then have "- int (length xs) div int k = - int (length xs - k) div int k - 1"
        using 1(2) by (metis add.commute div_mult_self3 of_nat_0_less_iff order_less_irrefl uminus_add_conv_diff)
      then show ?thesis by (simp add: ceildiv_def)
    next
      case less: False
      have "- int (length xs) div int k = - 1"
        using less False 1(2) by (intro int_div_pos_eq [of _ _ _ "int k - int (length xs)"]) auto
      with less show ?thesis by (simp add: ceildiv_def)
    qed
    with IH False 1(2) show ?thesis by (simp add: segments.simps [of k xs])
  qed
qed

lemma int_digits_bad: "\<not> is_digit c \<Longrightarrow> c \<noteq> CHR ''_'' \<Longrightarrow> int_digits acc d (xs @ c # ys) = None"
  by (induction acc d xs rule: int_digits.induct) auto

lemma strip_str_of_int_letter:
  "\<not> is_space c \<Longrightarrow> strip (str_of_int n @ [c]) = str_of_int n @ [c]"
  by (rule strip_no_space) (auto simp: str_of_int_def dest: str_of_nat_no_space [rule_format])

lemma int_of_str_letter:
  assumes "\<not> is_digit c" "c \<noteq> CHR ''_''" "\<not> is_space c"
  shows "int_of_str (str_of_int n @ [c]) = None"
proof -
  have s: "strip (str_of_int n @ [c]) = str_of_int n @ [c]" using assms(3) by (rule strip_str_of_int_letter)
  obtain b bs where b: "str_of_int n = b # bs" by (cases "str_of_int n") auto
  have "int_digits 0 False (bs @ [c]) = None" "int_digits 0 False ((b # bs) @ [c]) = None"
    using int_digits_bad [OF assms(1,2)] by blast+
  then show ?thesis using s by (simp add: int_of_str_def b del: int_digits.simps)
qed

text \<open>The number of seconds of a unit letter, in either case.\<close>

definition unit_char :: "char \<Rightarrow> int option" where
  "unit_char c = unit_second [lower c]"

lemma unit_char_cases:
  assumes "unit_char c = Some m"
  shows "\<not> is_digit c" "c \<noteq> CHR ''_''" "\<not> is_space c"
proof -
  have "lower c \<in> {CHR ''d'', CHR ''h'', CHR ''m'', CHR ''s''}"
    using assms by (auto simp: unit_char_def unit_second_def split: if_splits)
  then have n: "of_char (lower c) \<in> {100, 104, 109, 115 :: nat}" by auto
  have "of_char c \<in> {100, 104, 109, 115, 68, 72, 77, 83 :: nat}"
  proof (cases "65 \<le> (of_char c :: nat) \<and> (of_char c :: nat) \<le> 90")
    case True
    then have "of_char (lower c) = (of_char c + 32 :: nat)" by (simp add: lower_def of_char_of)
    with n show ?thesis by auto
  next
    case False
    with n show ?thesis by (auto simp: lower_def)
  qed
  then show "\<not> is_digit c" "c \<noteq> CHR ''_''" "\<not> is_space c"
    by (auto simp: is_digit_def is_space_def)
qed

lemma parse_timeout_unit:
  assumes "unit_char c = Some m"
  shows "parse_timeout (TStr (str_of_int n @ [c])) = Inr (Some (n * m))"
  using int_of_str_letter [OF unit_char_cases [OF assms]] assms
  by (simp add: last_part_def unit_char_def)

lemma parse_timeout_error:
  "parse_timeout (TStr s) = Inl e \<Longrightarrow> e = TimeoutFormatError"
  by (auto split: option.splits)

lemma py_take_length: "0 \<le> n \<Longrightarrow> length (py_take n xs) \<le> nat n"
  by (simp add: py_take_def)

lemma truncate_bound: "0 \<le> n \<Longrightarrow> int (length (truncate_long_string d (Some n))) \<le> n + 3"
  by (auto simp: truncate_long_string_def py_take_def)

text \<open>The loop stops at the longest prefix of the module path that imports.\<close>

lemma import_loop_Some:
  "import_loop M bs attrs = (Some m, attrs') \<Longrightarrow>
   \<exists>moved kept. bs = rev moved @ kept \<and> kept \<noteq> [] \<and> attrs' = moved @ attrs \<and>
     import_module M (join ''.'' (rev kept)) = Some m \<and>
     (\<forall>n. length kept < n \<and> n \<le> length bs \<longrightarrow> import_module M (join ''.'' (take n (rev bs))) = None)"
proof (induction M bs attrs rule: import_loop.induct)
  case (2 M b bs attrs)
  show ?case
  proof (cases "import_module M (join ''.'' (rev (b # bs)))")
    case (Some m')
    with 2(2) have "m' = m" "attrs' = attrs" by auto
    with Some show ?thesis by - (rule exI [of _ "[]"], rule exI [of _ "b # bs"], auto)
  next
    case None
    with 2 obtain moved kept where IH: "bs = rev moved @ kept" "kept \<noteq> []" "attrs' = moved @ b # attrs"
      "import_module M (join ''.'' (rev kept)) = Some m"
      "\<And>n. length kept < n \<Longrightarrow> n \<le> length bs \<Longrightarrow> import_module M (join ''.'' (take n (rev bs))) = None"
      by auto
    have "import_module M (join ''.'' (take n (rev (b # bs)))) = None"
      if "length kept < n" "n \<le> length (b # bs)" for n
    proof (cases "n = Suc (length bs)")
      case True
      with None show ?thesis by simp
    next
      case False
      with that have "n \<le> length bs" by simp
      then show ?thesis using IH(5) [of n] that(1) by simp
    qed
    with IH(1-4) show ?thesis by - (rule exI [of _ "moved @ [b]"], rule exI [of _ kept], simp)
  qed
qed simp

lemma import_loop_None:
  "import_loop M bs attrs = (None, attrs') \<Longrightarrow>
   (\<forall>n. 0 < n \<and> n \<le> length bs \<longrightarrow> import_module M (join ''.'' (take n (rev bs))) = None)"
proof (induction M bs attrs rule: import_loop.induct)
  case (2 M b bs attrs)
  then have N: "import_module M (join ''.'' (rev (b # bs))) = None"
    and IH: "\<And>n. 0 < n \<Longrightarrow> n \<le> length bs \<Longrightarrow> import_module M (join ''.'' (take n (rev bs))) = None"
    by (auto split: option.splits)
  show ?case
  proof (intro allI impI)
    fix n assume n: "0 < n \<and> n \<le> length (b # bs)"
    show "import_module M (join ''.'' (take n (rev (b # bs)))) = None"
      using N IH [of n] n by (cases "n = Suc (length bs)") auto
  qed
qed simp

lemma parse_version_cases:
  "(\<exists>v. parse_version reply = Inr v) \<or> parse_version reply = Inl ValueError"
proof (cases reply)
  case (Some v)
  let ?f = "\<lambda>p. case int_of_str p of Some i \<Rightarrow> Inr i | None \<Rightarrow> Inl ValueError"
  have err: "mapE ?f ps = Inl e \<Longrightarrow> e = ValueError" for ps e
    by (induction ps) (auto simp: bindE_Inl_iff split: option.splits)
  show ?thesis
  proof (cases "mapE ?f (take 3 (split_on CHR ''.'' v))")
    case (Inl e)
    with err Some show ?thesis by (auto simp: parse_version_def)
  next
    case (Inr vs)
    then have "length (vs @ replicate (3 - length vs) 0) = 3" using mapE_Inr_length [OF Inr] by simp
    then obtain a b c where "vs @ replicate (3 - length vs) 0 = [a, b, c]"
      using length_3 by blast
    with Inr Some show ?thesis by (simp add: parse_version_def)
  qed
qed (simp add: parse_version_def)

section \<open>Properties\<close>

text \<open>
  \<open>split_list\<close> with a positive segment size cuts a list without losing, repeating or reordering an
  item: into \<open>ceildiv\<close> many non-empty segments, all of the full size but the last.
\<close>

theorem split_list_partition:
  assumes "0 < n"
  shows "\<exists>xss. split_list xs n = Inr xss \<and> concat xss = xs \<and> int (length xss) = ceildiv (int (length xs)) n \<and>
    (\<forall>ys \<in> set xss. 0 < length ys \<and> int (length ys) \<le> n) \<and>
    (\<forall>i. i + 1 < length xss \<longrightarrow> int (length (xss ! i)) = n)"
proof -
  have "0 < nat n" "int (nat n) = n" using assms by simp_all
  then show ?thesis
    using assms concat_segments [of "nat n" xs] segments_length [of "nat n" xs] segments_bounds [of _ "nat n" xs]
      segments_full [of _ "nat n" xs]
    by (auto simp: split_list_def le_nat_iff)
qed

theorem split_list_partition_witness:
  "\<exists>xss. split_list [1, 2, 3, 4, 5 :: nat] 2 = Inr xss \<and> concat xss = [1, 2, 3, 4, 5] \<and> length xss = 3"
proof -
  obtain xss where "split_list [1, 2, 3, 4, 5 :: nat] 2 = Inr xss" "concat xss = [1, 2, 3, 4, 5]"
    "int (length xss) = ceildiv (int (length [1, 2, 3, 4, 5 :: nat])) 2"
    using split_list_partition [of 2 "[1, 2, 3, 4, 5 :: nat]"] by auto
  then show ?thesis by (simp add: ceildiv_def)
qed

text \<open>
  \<open>parse_timeout\<close> reads a number followed by a unit letter, in either case, as that many days, hours,
  minutes or seconds, reads a plain number as seconds, and rejects every other text with
  TimeoutFormatError and nothing else.
\<close>

theorem parse_timeout_text:
  "(unit_char c = Some m \<longrightarrow> parse_timeout (TStr (str_of_int n @ [c])) = Inr (Some (n * m))) \<and>
   parse_timeout (TStr (str_of_int n)) = Inr (Some n) \<and>
   (\<forall>e. parse_timeout (TStr s) = Inl e \<longrightarrow> e = TimeoutFormatError)"
  using parse_timeout_unit [of c m n] parse_timeout_error [of s] by auto

theorem parse_timeout_text_witness: "parse_timeout (TStr (str_of_int 2 @ ''H'')) = Inr (Some 7200)"
proof -
  have "unit_char CHR ''H'' = Some 3600" by code_simp
  then show ?thesis using parse_timeout_text [of "CHR ''H''" 3600 2] by simp
qed

text \<open>
  \<open>import_attribute\<close> resolves a dotted name in the longest importable module prefix: when it has
  found a module, no longer prefix of the module path imports.
\<close>

theorem import_longest_prefix:
  assumes "import_loop M (rev (butlast (split_on CHR ''.'' name))) [last (split_on CHR ''.'' name)] = (Some m, attrs)"
  shows "\<exists>k. 0 < k \<and> k < length (split_on CHR ''.'' name) \<and>
    import_module M (join ''.'' (take k (split_on CHR ''.'' name))) = Some m \<and>
    attrs = drop k (split_on CHR ''.'' name) \<and>
    (\<forall>n. k < n \<and> n < length (split_on CHR ''.'' name) \<longrightarrow>
       import_module M (join ''.'' (take n (split_on CHR ''.'' name))) = None)"
proof -
  let ?bits = "split_on CHR ''.'' name"
  have b: "?bits = butlast ?bits @ [last ?bits]" by simp
  obtain moved kept where L: "rev (butlast ?bits) = rev moved @ kept" "kept \<noteq> []" "attrs = moved @ [last ?bits]"
    "import_module M (join ''.'' (rev kept)) = Some m"
    "\<And>n. length kept < n \<Longrightarrow> n \<le> length (butlast ?bits) \<Longrightarrow>
       import_module M (join ''.'' (take n (butlast ?bits))) = None"
    using import_loop_Some [OF assms] by auto
  have "butlast ?bits = rev kept @ moved" using L(1) by (metis rev_append rev_rev_ident)
  then have bits: "?bits = rev kept @ moved @ [last ?bits]" using b by simp
  have t: "take n ?bits = take n (butlast ?bits)" if "n < length ?bits" for n
    using that by (simp add: take_butlast)
  have len: "length kept < length ?bits" using arg_cong [OF bits, of length] by simp
  have k: "take (length kept) ?bits = rev kept" "drop (length kept) ?bits = attrs"
    using arg_cong [OF bits, of "take (length kept)"] arg_cong [OF bits, of "drop (length kept)"] L(3) by simp_all
  show ?thesis
    using L(2,4) len k L(5) t by (intro exI [of _ "length kept"]) auto
qed

theorem import_longest_prefix_witness:
  "\<exists>k. 0 < k \<and> k < length (split_on CHR ''.'' ''a.b.C.f'') \<and> [''C'', ''f''] = drop k (split_on CHR ''.'' ''a.b.C.f'')"
proof -
  let ?M = "\<lparr>import_module = (\<lambda>n. if n = ''a.b'' \<or> n = ''a'' then Some n else None),
    attribute = (\<lambda>_ _. None), builtin = (\<lambda>_. None)\<rparr> :: string modules"
  have "import_loop ?M (rev (butlast (split_on CHR ''.'' ''a.b.C.f''))) [last (split_on CHR ''.'' ''a.b.C.f'')] =
      (Some ''a.b'', [''C'', ''f''])"
    by simp
  from import_longest_prefix [OF this] show ?thesis by blast
qed

end
