(* ===== verification/Timefmt.thy ===== *)
theory Timefmt
  imports Text
begin

text \<open>
  Points in time and their text form (\<open>now\<close>, \<open>current_timestamp\<close>, \<open>utcformat\<close>, \<open>utcparse\<close>,
  \<open>str_to_date\<close> of \<open>rq/utils.py\<close>). A UTC \<open>datetime\<close> is the number of microseconds since the
  Unix epoch, the resolution of Python's clock; dates before 1970 do not occur (every datetime of
  the library comes from the clock). The calendar is the proleptic Gregorian one of Python's
  \<open>datetime\<close>; a reading of the clock is always an argument of the operation that takes it.
\<close>

type_synonym datetime = nat

definition usec :: nat where "usec = 1000000"

definition current_timestamp :: "datetime \<Rightarrow> int" where
  "current_timestamp t = int (t div usec)"

section \<open>The calendar\<close>

definition leap :: "nat \<Rightarrow> bool" where
  "leap y \<longleftrightarrow> y mod 4 = 0 \<and> (y mod 100 \<noteq> 0 \<or> y mod 400 = 0)"

definition year_len :: "nat \<Rightarrow> nat" where
  "year_len y = (if leap y then 366 else 365)"

definition month_len :: "nat \<Rightarrow> nat \<Rightarrow> nat" where
  "month_len y m = (if m = 2 then (if leap y then 29 else 28) else if m \<in> {4, 6, 9, 11} then 30 else 31)"

lemma month_len_pos [simp]: "0 < month_len y m" "month_len y m \<noteq> 0"
  by (simp_all add: month_len_def)

lemma year_len_pos [simp]: "0 < year_len y" "year_len y \<noteq> 0"
  by (simp_all add: year_len_def)

lemma calendar_step [termination_simp]:
  "\<not> d < year_len y \<Longrightarrow> d - year_len y < d"
  "\<not> d < month_len y m \<Longrightarrow> d - month_len y m < d"
  using year_len_pos [of y] month_len_pos [of y m] by linarith+

fun civil_year :: "nat \<Rightarrow> nat \<Rightarrow> nat \<times> nat" where
  "civil_year y d = (if d < year_len y then (y, d) else civil_year (Suc y) (d - year_len y))"

declare civil_year.simps [simp del]

fun civil_month :: "nat \<Rightarrow> nat \<Rightarrow> nat \<Rightarrow> nat \<times> nat" where
  "civil_month y m d = (if d < month_len y m \<or> 12 \<le> m then (m, d) else civil_month y (Suc m) (d - month_len y m))"

declare civil_month.simps [simp del]

definition days_before_year :: "nat \<Rightarrow> nat" where
  "days_before_year y = sum_list (map year_len [1970..<y])"

definition days_before_month :: "nat \<Rightarrow> nat \<Rightarrow> nat" where
  "days_before_month y m = sum_list (map (month_len y) [1..<m])"

lemma civil_year_props:
  "civil_year y d = (y', d') \<Longrightarrow>
     y \<le> y' \<and> d' < year_len y' \<and> d = sum_list (map year_len [y..<y']) + d'"
proof (induction y d rule: civil_year.induct)
  case (1 y d)
  show ?case
  proof (cases "d < year_len y")
    case True
    with 1 show ?thesis by (auto simp: civil_year.simps [of y d])
  next
    case False
    with 1 have "Suc y \<le> y' \<and> d' < year_len y' \<and> d - year_len y = sum_list (map year_len [Suc y..<y']) + d'"
      by (simp add: civil_year.simps [of y d])
    with False show ?thesis by (simp add: upt_conv_Cons, linarith)
  qed
qed

lemma civil_month_props:
  "civil_month y m d = (m', d') \<Longrightarrow> m \<le> 12 \<Longrightarrow> d < sum_list (map (month_len y) [m..<13]) \<Longrightarrow>
     m \<le> m' \<and> m' \<le> 12 \<and> d' < month_len y m' \<and> d = sum_list (map (month_len y) [m..<m']) + d'"
proof (induction y m d rule: civil_month.induct)
  case (1 y m d)
  show ?case
  proof (cases "d < month_len y m \<or> 12 \<le> m")
    case True
    with 1 have "m' = m" "d' = d" by (auto simp: civil_month.simps [of y m d])
    moreover have "d < month_len y m"
    proof (cases "12 \<le> m")
      case True
      with 1 have "m = 12" by simp
      with 1 show ?thesis by (simp add: upt_conv_Cons)
    qed (use \<open>d < month_len y m \<or> 12 \<le> m\<close> in simp)
    ultimately show ?thesis using 1 by simp
  next
    case False
    with 1 have "Suc m \<le> m' \<and> m' \<le> 12 \<and> d' < month_len y m' \<and>
        d - month_len y m = sum_list (map (month_len y) [Suc m..<m']) + d'"
      by (auto simp: civil_month.simps [of y m d] upt_conv_Cons)
    with False show ?thesis by (simp add: upt_conv_Cons, linarith)
  qed
qed

lemma sum_month_len: "sum_list (map (month_len y) [1..<13]) = year_len y"
  by (simp add: month_len_def year_len_def upt_rec)

text \<open>The date of a day number: year, month and day of the month, all as the formats print them.\<close>

definition civil_of_days :: "nat \<Rightarrow> nat \<times> nat \<times> nat" where
  "civil_of_days n = (case civil_year 1970 n of (y, d) \<Rightarrow> (case civil_month y 1 d of (m, d') \<Rightarrow> (y, m, Suc d')))"

definition days_of_civil :: "nat \<Rightarrow> nat \<Rightarrow> nat \<Rightarrow> nat" where
  "days_of_civil y m d = days_before_year y + days_before_month y m + (d - 1)"

lemma civil_of_days_props:
  assumes "civil_of_days n = (y, m, d)"
  shows "1970 \<le> y" "1 \<le> m" "m \<le> 12" "1 \<le> d" "d \<le> month_len y m" "days_of_civil y m d = n"
proof -
  obtain y0 d0 where y0: "civil_year 1970 n = (y0, d0)" by (cases "civil_year 1970 n")
  obtain m0 d1 where m0: "civil_month y0 1 d0 = (m0, d1)" by (cases "civil_month y0 1 d0")
  have eqs: "y = y0" "m = m0" "d = Suc d1" using assms y0 m0 by (auto simp: civil_of_days_def)
  have Y: "1970 \<le> y0" "d0 < year_len y0" "n = sum_list (map year_len [1970..<y0]) + d0"
    using civil_year_props [OF y0] by auto
  have M: "1 \<le> m0" "m0 \<le> 12" "d1 < month_len y0 m0" "d0 = sum_list (map (month_len y0) [1..<m0]) + d1"
    using civil_month_props [OF m0] Y(2) sum_month_len [of y0] by auto
  from eqs Y M show "1970 \<le> y" "1 \<le> m" "m \<le> 12" "1 \<le> d" "d \<le> month_len y m" "days_of_civil y m d = n"
    by (auto simp: days_of_civil_def days_before_year_def days_before_month_def)
qed

section \<open>Formatting\<close>

text \<open>\<open>padn k n\<close> is \<open>n\<close> in decimal, padded with zeros to \<open>k\<close> digits.\<close>

primrec padn :: "nat \<Rightarrow> nat \<Rightarrow> string" where
  "padn 0 n = []"
| "padn (Suc k) n = padn k (n div 10) @ [digit_char (n mod 10)]"

text \<open>\<open>dt.strftime('%Y-%m-%dT%H:%M:%S.%fZ')\<close>\<close>

definition utcformat :: "datetime \<Rightarrow> string" where
  "utcformat t =
     (let s = t div usec; us = t mod usec; tod = s mod 86400 in
      case civil_of_days (s div 86400) of (y, m, d) \<Rightarrow>
        padn 4 y @ ''-'' @ padn 2 m @ ''-'' @ padn 2 d @ ''T'' @
        padn 2 (tod div 3600) @ '':'' @ padn 2 (tod div 60 mod 60) @ '':'' @ padn 2 (tod mod 60) @
        ''.'' @ padn 6 us @ ''Z'')"

definition year_of :: "datetime \<Rightarrow> nat" where
  "year_of t = fst (civil_of_days (t div usec div 86400))"

section \<open>Parsing\<close>

text \<open>
  \<open>field lo hi c\<close> reads a number of \<open>lo\<close> to \<open>hi\<close> digits followed by the literal \<open>c\<close>, whose case
  \<open>strptime\<close> ignores. The space-padded day that \<open>%d\<close> also accepts is not modelled.
\<close>

definition lit :: "char \<Rightarrow> char \<Rightarrow> bool" where
  "lit c x \<longleftrightarrow> x = c \<or> c = CHR ''T'' \<and> x = CHR ''t'' \<or> c = CHR ''Z'' \<and> x = CHR ''z''"

definition field :: "nat \<Rightarrow> nat \<Rightarrow> char \<Rightarrow> string \<Rightarrow> (nat \<times> nat \<times> string) option" where
  "field lo hi c s =
     (let ds = takeWhile is_digit (take hi s); r = drop (length ds) s in
      if length ds < lo then None
      else (case (int_digits 0 False ds, r) of
              (Some n, x # r') \<Rightarrow> if lit c x then Some (n, length ds, r') else None
            | _ \<Rightarrow> None))"

definition parse_rest :: "bool \<Rightarrow> string \<Rightarrow> (nat \<times> nat) option" where
  "parse_rest frac s =
     (if frac
      then (case field 1 2 CHR ''.'' s of None \<Rightarrow> None | Some (sec, _, r) \<Rightarrow>
             (case field 1 6 CHR ''Z'' r of None \<Rightarrow> None | Some (f, k, r') \<Rightarrow>
               if r' = [] then Some (sec, f * 10 ^ (6 - k)) else None))
      else (case field 1 2 CHR ''Z'' s of None \<Rightarrow> None | Some (sec, _, r) \<Rightarrow>
             if r = [] then Some (sec, 0) else None))"

definition valid_civil :: "nat \<Rightarrow> nat \<Rightarrow> nat \<Rightarrow> bool" where
  "valid_civil y m d \<longleftrightarrow> 1970 \<le> y \<and> 1 \<le> m \<and> m \<le> 12 \<and> 1 \<le> d \<and> d \<le> month_len y m"

definition strptime :: "bool \<Rightarrow> string \<Rightarrow> datetime option" where
  "strptime frac s =
     (case field 4 4 CHR ''-'' s of None \<Rightarrow> None | Some (y, _, s1) \<Rightarrow>
      (case field 1 2 CHR ''-'' s1 of None \<Rightarrow> None | Some (m, _, s2) \<Rightarrow>
      (case field 1 2 CHR ''T'' s2 of None \<Rightarrow> None | Some (d, _, s3) \<Rightarrow>
      (case field 1 2 CHR '':'' s3 of None \<Rightarrow> None | Some (h, _, s4) \<Rightarrow>
      (case field 1 2 CHR '':'' s4 of None \<Rightarrow> None | Some (mi, _, s5) \<Rightarrow>
      (case parse_rest frac s5 of None \<Rightarrow> None | Some (sec, us) \<Rightarrow>
        if valid_civil y m d \<and> h < 24 \<and> mi < 60 \<and> sec < 60
        then Some ((days_of_civil y m d * 86400 + h * 3600 + mi * 60 + sec) * usec + us)
        else None))))))"

definition utcparse :: "string \<Rightarrow> datetime res" where
  "utcparse s =
     (case strptime True s of
        Some t \<Rightarrow> Inr t
      | None \<Rightarrow> (case strptime False s of Some t \<Rightarrow> Inr t | None \<Rightarrow> Inl ValueError))"

definition str_to_date :: "string \<Rightarrow> datetime res" where
  "str_to_date s = (if s = [] then Inl ValueError else utcparse s)"

lemma padn_length [simp]: "length (padn k n) = k"
  by (induction k arbitrary: n) auto

lemma padn_digits: "\<forall>c \<in> set (padn k n). is_digit c"
  by (induction k arbitrary: n) auto

lemma int_digits_padn: "0 < k \<Longrightarrow> n < 10 ^ k \<Longrightarrow> int_digits 0 False (padn k n) = Some n"
proof (induction k arbitrary: n)
  case (Suc k)
  show ?case
  proof (cases "k = 0")
    case True
    with Suc show ?thesis by simp
  next
    case False
    with Suc have "int_digits 0 False (padn k (n div 10)) = Some (n div 10)" by simp
    then show ?thesis by (simp add: int_digits_append_digit)
  qed
qed simp

lemma field_padn:
  assumes "0 < k" "lo \<le> k" "k \<le> hi" "n < 10 ^ k" "\<not> is_digit c"
  shows "field lo hi c (padn k n @ c # r) = Some (n, k, r)"
proof -
  have "take hi (padn k n @ c # r) = padn k n @ take (hi - k) (c # r)" using assms by simp
  moreover have "takeWhile is_digit (padn k n @ take (hi - k) (c # r)) = padn k n"
    using assms(5) padn_digits [of k n] by (cases "hi - k") (simp_all add: takeWhile_append_stop takeWhile_eq_all_conv [THEN iffD2])
  ultimately show ?thesis
    using assms by (simp add: field_def int_digits_padn lit_def)
qed

lemma seps_not_digit:
  "\<not> is_digit CHR ''-''" "\<not> is_digit CHR ''T''" "\<not> is_digit CHR '':''" "\<not> is_digit CHR ''.''" "\<not> is_digit CHR ''Z''"
  by (simp_all add: is_digit_def)

lemma usec_pos [simp]: "0 < usec"
  by (simp add: usec_def)

lemma month_len_le: "month_len y m \<le> 31"
  by (simp add: month_len_def)

text \<open>A printed time is read back exactly, up to the last year a datetime can hold.\<close>

lemma strptime_utcformat:
  assumes "year_of t \<le> 9999"
  shows "strptime True (utcformat t) = Some t"
proof -
  define s where "s = t div usec"
  define tod where "tod = s mod 86400"
  obtain y m d where c: "civil_of_days (s div 86400) = (y, m, d)" by (cases "civil_of_days (s div 86400)")
  note P = civil_of_days_props [OF c]
  have y: "y < 10 ^ 4" using assms c by (simp add: year_of_def s_def)
  have md: "m < 10 ^ 2" "d < 10 ^ 2" using P month_len_le [of y m] by auto
  have h: "tod div 3600 < 24" "tod div 60 mod 60 < 60" "tod mod 60 < 60" by (auto simp: tod_def)
  have us: "t mod usec < 10 ^ 6" by (simp add: usec_def)
  have f: "utcformat t = padn 4 y @ CHR ''-'' # padn 2 m @ CHR ''-'' # padn 2 d @ CHR ''T'' #
      padn 2 (tod div 3600) @ CHR '':'' # padn 2 (tod div 60 mod 60) @ CHR '':'' # padn 2 (tod mod 60) @
      CHR ''.'' # padn 6 (t mod usec) @ CHR ''Z'' # []"
    using c by (simp add: utcformat_def Let_def s_def tod_def del: padn.simps)
  have F4: "field 4 4 CHR ''-'' (padn 4 y @ CHR ''-'' # r) = Some (y, 4, r)" for r
    using y by (intro field_padn) (simp_all add: seps_not_digit)
  have F2: "field 1 2 c (padn 2 n @ c # r) = Some (n, 2, r)" if "n < 100" "\<not> is_digit c" for n c r
    using that by (intro field_padn) simp_all
  have F6: "field 1 6 CHR ''Z'' (padn 6 (t mod usec) @ CHR ''Z'' # r) = Some (t mod usec, 6, r)" for r
    using us by (intro field_padn) (simp_all add: seps_not_digit)
  have small: "m < 100" "d < 100" "tod div 3600 < 100" "tod div 60 mod 60 < 100" "tod mod 60 < 100"
    using md h by auto
  note reads = F4 F6 F2 [OF small(1) seps_not_digit(1)] F2 [OF small(2) seps_not_digit(2)]
    F2 [OF small(3) seps_not_digit(3)] F2 [OF small(4) seps_not_digit(3)] F2 [OF small(5) seps_not_digit(4)]
  have v: "valid_civil y m d" using P by (simp add: valid_civil_def)
  have "tod div 60 div 60 * 3600 + tod div 60 mod 60 * 60 + tod mod 60 = tod"
    using div_mult_mod_eq [of "tod div 60" 60] div_mult_mod_eq [of tod 60] by linarith
  then have "tod div 3600 * 3600 + tod div 60 mod 60 * 60 + tod mod 60 = tod"
    by (simp add: div_mult2_eq [symmetric])
  moreover have "days_of_civil y m d * 86400 + tod = s" using P(6) by (simp add: tod_def)
  ultimately have sum: "days_of_civil y m d * 86400 + tod div 3600 * 3600 + tod div 60 mod 60 * 60 + tod mod 60 = s"
    by linarith
  have whole: "s * usec + t mod usec = t" by (simp add: s_def)
  have pr: "parse_rest True (padn 2 (tod mod 60) @ CHR ''.'' # padn 6 (t mod usec) @ [CHR ''Z''])
      = Some (tod mod 60, t mod usec)"
    unfolding parse_rest_def reads option.case prod.case if_True by simp
  have guard: "(valid_civil y m d \<and> tod div 3600 < 24 \<and> tod div 60 mod 60 < 60 \<and> tod mod 60 < 60) = True"
    using v h by simp
  show ?thesis unfolding f strptime_def reads pr option.case prod.case guard if_True sum whole by (rule refl)
qed

lemma utcformat_nonempty [simp]: "utcformat t \<noteq> []"
  by (auto simp: utcformat_def Let_def split: prod.splits)

lemma utcparse_utcformat: "year_of t \<le> 9999 \<Longrightarrow> utcparse (utcformat t) = Inr t"
  by (simp add: utcparse_def strptime_utcformat)

lemma str_to_date_utcformat: "year_of t \<le> 9999 \<Longrightarrow> str_to_date (utcformat t) = Inr t"
  by (simp add: str_to_date_def utcparse_utcformat)

section \<open>Properties\<close>

text \<open>
  Every time the clock can show up to the last year a Python datetime holds is written by
  \<open>utcformat\<close> in a form that \<open>utcparse\<close> and \<open>str_to_date\<close> read back exactly, to the microsecond.
\<close>

theorem utc_roundtrip:
  assumes "year_of t \<le> 9999"
  shows "utcparse (utcformat t) = Inr t \<and> str_to_date (utcformat t) = Inr t"
  using assms by (simp add: utcparse_utcformat str_to_date_utcformat)

theorem utc_roundtrip_witness:
  "utcparse (utcformat 86400500001) = Inr 86400500001 \<and> str_to_date (utcformat 86400500001) = Inr 86400500001"
proof -
  have "(86400500001 :: nat) div usec div 86400 = 1" by (simp add: usec_def)
  then have "year_of 86400500001 \<le> 9999"
    by (simp add: year_of_def civil_of_days_def civil_year.simps [of 1970 "Suc 0"] year_len_def split: prod.splits)
  then show ?thesis using utc_roundtrip by blast
qed

end
