(* ===== verification/Job.thy ===== *)
theory Job
  imports Utils Timefmt
begin

text \<open>
  The job object of \<open>rq/job.py\<close>: its status, attributes and lazily evaluated payload, the values
  \<open>Retry\<close>, \<open>Callback\<close> and \<open>Dependency\<close> it is built from, \<open>Job.create\<close>, and the methods that only
  look at the object. The lemmas cover the retry schedule, the payload's laziness and what
  \<open>create\<close> establishes.
\<close>

section \<open>Status\<close>

datatype job_status =
  CREATED | QUEUED | FINISHED | FAILED | STARTED | DEFERRED | SCHEDULED | STOPPED | CANCELED

fun status_text :: "job_status \<Rightarrow> string" where
  "status_text CREATED = ''created''"
| "status_text QUEUED = ''queued''"
| "status_text FINISHED = ''finished''"
| "status_text FAILED = ''failed''"
| "status_text STARTED = ''started''"
| "status_text DEFERRED = ''deferred''"
| "status_text SCHEDULED = ''scheduled''"
| "status_text STOPPED = ''stopped''"
| "status_text CANCELED = ''canceled''"

definition all_statuses :: "job_status list" where
  "all_statuses = [CREATED, QUEUED, FINISHED, FAILED, STARTED, DEFERRED, SCHEDULED, STOPPED, CANCELED]"

text \<open>\<open>JobStatus(text)\<close>: ValueError for an unknown text.\<close>

definition status_of :: "string \<Rightarrow> job_status res" where
  "status_of s = (case find (\<lambda>st. status_text st = s) all_statuses of Some st \<Rightarrow> Inr st | None \<Rightarrow> Inl ValueError)"

lemma status_text_inj [simp]: "status_text a = status_text b \<longleftrightarrow> a = b"
  by (cases a; cases b) simp_all

lemma status_text_nonempty [simp]: "status_text a \<noteq> []"
  by (cases a) simp_all

lemma status_of_text [simp]: "status_of (status_text a) = Inr a"
  by (cases a) (simp_all add: status_of_def all_statuses_def)

lemma status_of_Inr: "status_of s = Inr a \<longleftrightarrow> s = status_text a"
proof
  assume "status_of s = Inr a"
  then have "find (\<lambda>st. status_text st = s) all_statuses = Some a" by (auto simp: status_of_def split: option.splits)
  then show "s = status_text a" by (auto simp: find_Some_iff)
qed simp

declare status_text.simps [simp del]

section \<open>The object\<close>

text \<open>A lazily evaluated attribute: the sentinel \<open>UNEVALUATED\<close> or a value.\<close>

datatype 'a lazy = UNEVALUATED | Val 'a

record job =
  j_id :: string
  j_created_at :: datetime
  j_data :: "string lazy"
  j_func_name :: "pyval lazy"
  j_instance :: "pyval lazy"
  j_args :: "pyval lazy"
  j_kwargs :: "pyval lazy"
  j_success_callback_name :: "string option"
  j_failure_callback_name :: "string option"
  j_stopped_callback_name :: "string option"
  j_success_callback_timeout :: "int option"
  j_failure_callback_timeout :: "int option"
  j_stopped_callback_timeout :: "int option"
  j_description :: "string option"
  j_origin :: string
  j_enqueued_at :: "datetime option"
  j_started_at :: "datetime option"
  j_ended_at :: "datetime option"
  j_result :: pyval
  j_exc_info :: "string option"
  j_timeout :: "int option"
  j_result_ttl :: "int option"
  j_failure_ttl :: "int option"
  j_ttl :: "int option"
  j_worker_name :: "string option"
  j_status :: job_status
  j_dependency_ids :: "string list"
  j_meta :: pyval
  j_retries_left :: "int option"
  j_number_of_retries :: "int option"
  j_retry_intervals :: "int list option"
  j_last_heartbeat :: "datetime option"
  j_allow_dependency_failures :: "bool option"
  j_enqueue_at_front :: "bool option"
  j_group_id :: "string option"
  j_enqueue_at_front_on_retry :: bool
  j_repeats_left :: "int option"
  j_repeat_intervals :: "int list option"

text \<open>
  \<open>Job(id)\<close>. The id is generated when it is first asked for; nothing sees the object before, so the
  model gives a job without an id its uuid at once (\<open>uid\<close>).
\<close>

definition new_job :: "string \<Rightarrow> datetime \<Rightarrow> job" where
  "new_job i t = \<lparr>
     j_id = i, j_created_at = t, j_data = UNEVALUATED, j_func_name = UNEVALUATED, j_instance = UNEVALUATED,
     j_args = UNEVALUATED, j_kwargs = UNEVALUATED, j_success_callback_name = None,
     j_failure_callback_name = None, j_stopped_callback_name = None, j_success_callback_timeout = None,
     j_failure_callback_timeout = None, j_stopped_callback_timeout = None, j_description = None,
     j_origin = [], j_enqueued_at = None, j_started_at = None, j_ended_at = None, j_result = PNone,
     j_exc_info = None, j_timeout = None, j_result_ttl = None, j_failure_ttl = None, j_ttl = None,
     j_worker_name = None, j_status = CREATED, j_dependency_ids = [], j_meta = PDict [],
     j_retries_left = None, j_number_of_retries = None, j_retry_intervals = None, j_last_heartbeat = None,
     j_allow_dependency_failures = None, j_enqueue_at_front = None, j_group_id = None,
     j_enqueue_at_front_on_retry = False, j_repeats_left = None, j_repeat_intervals = None\<rparr>"

definition job_init :: "string option \<Rightarrow> string \<Rightarrow> datetime \<Rightarrow> job res" where
  "job_init oid uid t =
     (case oid of
        None \<Rightarrow> Inr (new_job uid t)
      | Some i \<Rightarrow> if i = [] then Inr (new_job i t) else bindE (validate_job_id i) (\<lambda>_. Inr (new_job i t)))"

definition set_id :: "string \<Rightarrow> job \<Rightarrow> job res" where
  "set_id i j = bindE (validate_job_id i) (\<lambda>_. Inr (j\<lparr>j_id := i\<rparr>))"

section \<open>The payload\<close>

text \<open>
  The serializer chosen for the job and \<open>zlib\<close> are parameters: \<open>dumps\<close> and \<open>loads\<close> may raise
  (\<open>None\<close>), and so may \<open>zdecompress\<close>.
\<close>

record codec =
  dumps :: "pyval \<Rightarrow> string option"
  loads :: "string \<Rightarrow> pyval option"
  zcompress :: "string \<Rightarrow> string"
  zdecompress :: "string \<Rightarrow> string option"

text \<open>\<open>a, b, c, d = value\<close>: an iterable of four items; an opaque object is not iterable.\<close>

definition py_items :: "pyval \<Rightarrow> pyval list res" where
  "py_items v =
     (case v of
        PTuple xs \<Rightarrow> Inr xs
      | PList xs \<Rightarrow> Inr xs
      | PDict kvs \<Rightarrow> Inr (map (\<lambda>kv. PStr (fst kv)) kvs)
      | PStr s \<Rightarrow> Inr (map (\<lambda>c. PStr [c]) s)
      | PBytes s \<Rightarrow> Inr (map (\<lambda>c. PInt (of_char c)) s)
      | _ \<Rightarrow> Inl TypeError)"

definition job_tuple :: "job \<Rightarrow> pyval" where
  "job_tuple j =
     PTuple [case j_func_name j of Val v \<Rightarrow> v | UNEVALUATED \<Rightarrow> PNone,
             case j_instance j of Val v \<Rightarrow> v | UNEVALUATED \<Rightarrow> PNone,
             case j_args j of Val v \<Rightarrow> v | UNEVALUATED \<Rightarrow> PTuple [],
             case j_kwargs j of Val v \<Rightarrow> v | UNEVALUATED \<Rightarrow> PDict []]"

definition or_val :: "'a \<Rightarrow> 'a lazy \<Rightarrow> 'a lazy" where
  "or_val d x = (case x of UNEVALUATED \<Rightarrow> Val d | Val v \<Rightarrow> Val v)"

text \<open>The property \<open>data\<close>, which fills in the unevaluated attributes as it builds the payload.\<close>

definition get_data :: "codec \<Rightarrow> job \<Rightarrow> (string \<times> job) res" where
  "get_data C j =
     (case j_data j of
        Val d \<Rightarrow> Inr (d, j)
      | UNEVALUATED \<Rightarrow>
          if j_func_name j = UNEVALUATED then Inl ValueError
          else (case dumps C (job_tuple j) of
                  None \<Rightarrow> Inl SerializerError
                | Some d \<Rightarrow>
                    Inr (d, j\<lparr>j_instance := or_val PNone (j_instance j), j_args := or_val (PTuple []) (j_args j),
                              j_kwargs := or_val (PDict []) (j_kwargs j), j_data := Val d\<rparr>)))"

definition set_data :: "string \<Rightarrow> job \<Rightarrow> job" where
  "set_data d j = j\<lparr>j_data := Val d, j_func_name := UNEVALUATED, j_instance := UNEVALUATED,
     j_args := UNEVALUATED, j_kwargs := UNEVALUATED\<rparr>"

text \<open>
  \<open>_deserialize_data\<close>. Every exception, that of \<open>data\<close> itself included, becomes a
  DeserializationError.
\<close>

definition deserialize_data :: "codec \<Rightarrow> job \<Rightarrow> job res" where
  "deserialize_data C j =
     (case get_data C j of
        Inl _ \<Rightarrow> Inl DeserializationError
      | Inr (d, j') \<Rightarrow>
          (case loads C d of
             None \<Rightarrow> Inl DeserializationError
           | Some v \<Rightarrow>
               (case py_items v of
                  Inr [f, i, a, k] \<Rightarrow>
                    Inr (j'\<lparr>j_func_name := Val f, j_instance := Val i, j_args := Val a, j_kwargs := Val k\<rparr>)
                | _ \<Rightarrow> Inl DeserializationError)))"

definition lazy_get :: "codec \<Rightarrow> (job \<Rightarrow> pyval lazy) \<Rightarrow> job \<Rightarrow> (pyval \<times> job) res" where
  "lazy_get C attr j =
     (case attr j of
        Val v \<Rightarrow> Inr (v, j)
      | UNEVALUATED \<Rightarrow>
          bindE (deserialize_data C j)
            (\<lambda>j'. case attr j' of Val v \<Rightarrow> Inr (v, j') | UNEVALUATED \<Rightarrow> Inl DeserializationError))"

definition get_func_name :: "codec \<Rightarrow> job \<Rightarrow> (pyval \<times> job) res" where
  "get_func_name C = lazy_get C j_func_name"

definition get_instance :: "codec \<Rightarrow> job \<Rightarrow> (pyval \<times> job) res" where
  "get_instance C = lazy_get C j_instance"

definition get_args :: "codec \<Rightarrow> job \<Rightarrow> (pyval \<times> job) res" where
  "get_args C = lazy_get C j_args"

definition get_kwargs :: "codec \<Rightarrow> job \<Rightarrow> (pyval \<times> job) res" where
  "get_kwargs C = lazy_get C j_kwargs"

definition set_func_name :: "pyval \<Rightarrow> job \<Rightarrow> job" where
  "set_func_name v j = j\<lparr>j_func_name := Val v, j_data := UNEVALUATED\<rparr>"

definition set_instance :: "pyval \<Rightarrow> job \<Rightarrow> job" where
  "set_instance v j = j\<lparr>j_instance := Val v, j_data := UNEVALUATED\<rparr>"

definition set_args :: "pyval \<Rightarrow> job \<Rightarrow> job" where
  "set_args v j = j\<lparr>j_args := Val v, j_data := UNEVALUATED\<rparr>"

definition set_kwargs :: "pyval \<Rightarrow> job \<Rightarrow> job" where
  "set_kwargs v j = j\<lparr>j_kwargs := Val v, j_data := UNEVALUATED\<rparr>"

text \<open>
  \<open>job.get_call_string()\<close>. \<open>str\<close> and \<open>repr\<close> (a parameter) agree on every value but a string.
\<close>

definition job_call_string :: "(pyval \<Rightarrow> string) \<Rightarrow> codec \<Rightarrow> job \<Rightarrow> (string option \<times> job) res" where
  "job_call_string repr C j =
     bindE (get_func_name C j) (\<lambda>(f, j1).
     bindE (get_args C j1) (\<lambda>(a, j2).
     bindE (get_kwargs C j2) (\<lambda>(k, j3).
       if f = PNone then Inr (None, j3)
       else
         bindE (py_items a) (\<lambda>args.
           case k of
             PDict kvs \<Rightarrow>
               Inr (get_call_string repr (Some (case f of PStr s \<Rightarrow> s | v \<Rightarrow> repr v)) args kvs (Some 75), j3)
           | _ \<Rightarrow> Inl AttributeError))))"

section \<open>Retry, Callback, Dependency\<close>

record retry =
  rt_max :: int
  rt_intervals :: "int list"
  rt_enqueue_at_front :: bool

datatype interval_arg = IInt int | IList "int list"

definition make_retry :: "int \<Rightarrow> interval_arg \<Rightarrow> bool \<Rightarrow> retry res" where
  "make_retry mx ivl front =
     (if mx < 1 then Inl ValueError
      else
        case ivl of
          IInt i \<Rightarrow>
            if i < 0 then Inl ValueError
            else Inr \<lparr>rt_max = mx, rt_intervals = [i], rt_enqueue_at_front = front\<rparr>
        | IList is \<Rightarrow>
            if \<exists>i \<in> set is. i < 0 then Inl ValueError
            else Inr \<lparr>rt_max = mx, rt_intervals = is, rt_enqueue_at_front = front\<rparr>)"

text \<open>\<open>Retry.get_interval\<close>, the interval of a retry asked for by a return value.\<close>

fun get_interval :: "int \<Rightarrow> interval_arg option \<Rightarrow> int res" where
  "get_interval count None = Inr 0"
| "get_interval count (Some (IInt i)) = Inr i"
| "get_interval count (Some (IList is)) =
     (if is = [] then Inr 0 else py_index is (min (int (length is) - 1) count))"

definition callback_timeout :: int where
  "callback_timeout = 60"

record callback =
  cb_func :: func_ref
  cb_timeout :: "int option"

definition timeout_truthy :: "timeout \<Rightarrow> bool" where
  "timeout_truthy t =
     (case t of TNone \<Rightarrow> False | TInt i \<Rightarrow> i \<noteq> 0 | TFloat x \<Rightarrow> x \<noteq> 0 | TNan \<Rightarrow> True | TInf \<Rightarrow> True | TStr s \<Rightarrow> s \<noteq> [])"

definition make_callback :: "func_ref \<Rightarrow> timeout \<Rightarrow> callback res" where
  "make_callback f t =
     (case f of
        FMethod _ _ \<Rightarrow> Inl ValueError
      | FCallable _ \<Rightarrow> Inl ValueError
      | FOther \<Rightarrow> Inl ValueError
      | _ \<Rightarrow>
          bindE (if timeout_truthy t then parse_timeout t else Inr (Some callback_timeout))
            (\<lambda>n. Inr \<lparr>cb_func = f, cb_timeout = n\<rparr>))"

definition callback_name :: "callback \<Rightarrow> string res" where
  "callback_name cb =
     (case cb_func cb of
        FName s \<Rightarrow> Inr s
      | f \<Rightarrow> bindE (resolve_function_reference f) (\<lambda>(_, n). Inr n))"

text \<open>An \<open>on_success\<close> argument: nothing, a \<open>Callback\<close>, or (deprecated) a function or its name.\<close>

datatype callback_arg = CbNone | CbObj callback | CbFunc func_ref

definition resolve_callback :: "callback_arg \<Rightarrow> (string \<times> int option) option res" where
  "resolve_callback a =
     (case a of
        CbNone \<Rightarrow> Inr None
      | CbObj cb \<Rightarrow> bindE (callback_name cb) (\<lambda>n. Inr (Some (n, cb_timeout cb)))
      | CbFunc f \<Rightarrow>
          if f = FName [] then Inr None
          else bindE (make_callback f TNone) (\<lambda>cb. bindE (callback_name cb) (\<lambda>n. Inr (Some (n, cb_timeout cb)))))"

text \<open>
  What a job may depend on: a job (by its id), an id, a \<open>Dependency\<close>, or something else. \<open>Single x\<close> and
  \<open>Several xs\<close> are an argument that is not, or is, iterable.
\<close>

datatype 'a one_or_many = Single 'a | Several "'a list"

definition ensure_job_list :: "'a one_or_many \<Rightarrow> 'a list" where
  "ensure_job_list a = (case a of Single x \<Rightarrow> [x] | Several xs \<Rightarrow> xs)"

datatype job_ref = RJob string | RId string | ROther

fun ref_id :: "job_ref \<Rightarrow> string" where
  "ref_id (RJob i) = i"
| "ref_id (RId i) = i"
| "ref_id ROther = []"

record dependency =
  dp_dependencies :: "job_ref list"
  dp_allow_failure :: bool
  dp_enqueue_at_front :: bool

definition make_dependency :: "job_ref one_or_many \<Rightarrow> bool \<Rightarrow> bool \<Rightarrow> dependency res" where
  "make_dependency jobs allow front =
     (let ds = ensure_job_list jobs in
      if \<exists>d \<in> set ds. d = ROther then Inl ValueError
      else if length ds < 1 then Inl ValueError
      else Inr \<lparr>dp_dependencies = ds, dp_allow_failure = allow, dp_enqueue_at_front = front\<rparr>)"

datatype dep_item = DDep dependency | DRef job_ref

text \<open>\<open>a or b\<close> for an attribute that is None or a bool.\<close>

definition or_flag :: "bool option \<Rightarrow> bool \<Rightarrow> bool option" where
  "or_flag a b = (if a = Some True then Some True else Some b)"

fun collect_deps ::
  "dep_item list \<Rightarrow> bool option \<times> bool option \<times> job_ref list \<Rightarrow> (bool option \<times> bool option \<times> job_ref list) res" where
  "collect_deps [] acc = Inr acc"
| "collect_deps (DDep d # items) (front, allow, refs) =
     collect_deps items
       (or_flag front (dp_enqueue_at_front d), or_flag allow (dp_allow_failure d), refs @ dp_dependencies d)"
| "collect_deps (DRef r # items) (front, allow, refs) =
     (if r = ROther then Inl ValueError else collect_deps items (front, allow, refs @ [r]))"

definition process_dependencies :: "dep_item one_or_many \<Rightarrow> job \<Rightarrow> job res" where
  "process_dependencies deps j =
     bindE (collect_deps (ensure_job_list deps) (j_enqueue_at_front j, j_allow_dependency_failures j, []))
       (\<lambda>(front, allow, refs).
          Inr (j\<lparr>j_enqueue_at_front := front, j_allow_dependency_failures := allow,
                 j_dependency_ids := map ref_id refs\<rparr>))"

section \<open>Creating a job\<close>

record create_args =
  ca_func :: func_ref
  ca_args :: "pyval option"
  ca_kwargs :: "(string \<times> pyval) list option"
  ca_result_ttl :: timeout
  ca_ttl :: timeout
  ca_status :: "job_status option"
  ca_description :: "string option"
  ca_depends_on :: "dep_item one_or_many option"
  ca_timeout :: timeout
  ca_retry :: "retry option"
  ca_id :: "string option"
  ca_origin :: string
  ca_meta :: "(string \<times> pyval) list option"
  ca_failure_ttl :: timeout
  ca_group_id :: "string option"
  ca_on_success :: callback_arg
  ca_on_failure :: callback_arg
  ca_on_stopped :: callback_arg

definition create_core :: "create_args \<Rightarrow> string \<Rightarrow> datetime \<Rightarrow> job res" where
  "create_core a uid t =
     bindE (case ca_id a of None \<Rightarrow> Inr (new_job uid t) | Some i \<Rightarrow> set_id i (new_job uid t)) (\<lambda>j.
     bindE (resolve_function_reference (ca_func a)) (\<lambda>(inst, fn).
       Inr (j\<lparr>j_origin := ca_origin a, j_instance := Val (opt_default PNone inst), j_func_name := Val (PStr fn),
              j_args := Val (opt_default (PTuple []) (ca_args a)),
              j_kwargs := Val (PDict (opt_default [] (ca_kwargs a)))\<rparr>)))"

definition set_callbacks :: "create_args \<Rightarrow> job \<Rightarrow> job res" where
  "set_callbacks a j =
     bindE (resolve_callback (ca_on_success a)) (\<lambda>s.
     bindE (resolve_callback (ca_on_failure a)) (\<lambda>f.
     bindE (resolve_callback (ca_on_stopped a)) (\<lambda>p.
       Inr (j\<lparr>j_success_callback_name := map_option fst s, j_success_callback_timeout := Option.bind s snd,
              j_failure_callback_name := map_option fst f, j_failure_callback_timeout := Option.bind f snd,
              j_stopped_callback_name := map_option fst p, j_stopped_callback_timeout := Option.bind p snd\<rparr>))))"

definition set_extras :: "(pyval \<Rightarrow> string) \<Rightarrow> codec \<Rightarrow> create_args \<Rightarrow> job \<Rightarrow> job res" where
  "set_extras repr C a j =
     bindE (case ca_description a of
              Some d \<Rightarrow> if d = [] then map_sum id fst (job_call_string repr C j) else Inr (Some d)
            | None \<Rightarrow> map_sum id fst (job_call_string repr C j)) (\<lambda>desc.
     bindE (parse_timeout (ca_result_ttl a)) (\<lambda>rttl.
     bindE (parse_timeout (ca_failure_ttl a)) (\<lambda>fttl.
     bindE (parse_timeout (ca_ttl a)) (\<lambda>ttl.
     bindE (parse_timeout (ca_timeout a)) (\<lambda>tmo.
       Inr (j\<lparr>j_description := desc, j_result_ttl := rttl, j_failure_ttl := fttl, j_ttl := ttl, j_timeout := tmo,
              j_meta := PDict (opt_default [] (ca_meta a)), j_group_id := ca_group_id a\<rparr>))))))"

definition set_retry :: "retry option \<Rightarrow> job \<Rightarrow> job" where
  "set_retry r j =
     (case r of
        None \<Rightarrow> j
      | Some r \<Rightarrow> j\<lparr>j_retries_left := Some (rt_max r), j_enqueue_at_front_on_retry := rt_enqueue_at_front r,
                    j_retry_intervals := Some (rt_intervals r)\<rparr>)"

definition create :: "(pyval \<Rightarrow> string) \<Rightarrow> codec \<Rightarrow> create_args \<Rightarrow> string \<Rightarrow> datetime \<Rightarrow> job res" where
  "create repr C a uid t =
     bindE (create_core a uid t) (\<lambda>j.
     bindE (set_callbacks a j) (\<lambda>j.
     bindE (set_extras repr C a j) (\<lambda>j.
     bindE (case ca_depends_on a of
              None \<Rightarrow> Inr (set_retry (ca_retry a) j)
            | Some d \<Rightarrow> process_dependencies d (set_retry (ca_retry a) j)) (\<lambda>j.
       Inr (j\<lparr>j_status := opt_default CREATED (ca_status a)\<rparr>)))))"

section \<open>Methods that look at the object\<close>

definition should_enqueue_at_front :: "job \<Rightarrow> bool" where
  "should_enqueue_at_front j =
     (if j_enqueue_at_front_on_retry j \<and> j_ended_at j \<noteq> None then True
      else opt_default False (j_enqueue_at_front j))"

definition get_ttl :: "job \<Rightarrow> int option \<Rightarrow> int option" where
  "get_ttl j d = (if j_ttl j = None then d else j_ttl j)"

definition get_result_ttl :: "job \<Rightarrow> int \<Rightarrow> int" where
  "get_result_ttl j d = (case j_result_ttl j of None \<Rightarrow> d | Some n \<Rightarrow> n)"

definition success_callback_timeout :: "job \<Rightarrow> int" where
  "success_callback_timeout j = opt_default callback_timeout (j_success_callback_timeout j)"

definition failure_callback_timeout :: "job \<Rightarrow> int" where
  "failure_callback_timeout j = opt_default callback_timeout (j_failure_callback_timeout j)"

definition stopped_callback_timeout :: "job \<Rightarrow> int" where
  "stopped_callback_timeout j = opt_default callback_timeout (j_stopped_callback_timeout j)"

definition retries_truthy :: "job \<Rightarrow> bool" where
  "retries_truthy j \<longleftrightarrow> j_retries_left j \<noteq> None \<and> j_retries_left j \<noteq> Some 0"

definition get_retry_interval :: "job \<Rightarrow> int res" where
  "get_retry_interval j =
     (case j_retry_intervals j of
        None \<Rightarrow> Inr 0
      | Some is \<Rightarrow>
          if \<not> retries_truthy j then Inl AssertionError
          else py_index is (max (int (length is) - the (j_retries_left j)) 0))"

definition should_retry :: "job \<Rightarrow> bool" where
  "should_retry j = (case j_retries_left j of None \<Rightarrow> False | Some n \<Rightarrow> 0 < n)"

text \<open>\<open>job.func\<close>: an attribute of the instance when there is a truthy one, otherwise an import.\<close>

definition truthy :: "pyval \<Rightarrow> bool" where
  "truthy v =
     (case v of
        PNone \<Rightarrow> False | PBool b \<Rightarrow> b | PInt i \<Rightarrow> i \<noteq> 0 | PFloat x \<Rightarrow> x \<noteq> 0 | PStr s \<Rightarrow> s \<noteq> [] | PBytes s \<Rightarrow> s \<noteq> []
      | PList xs \<Rightarrow> xs \<noteq> [] | PTuple xs \<Rightarrow> xs \<noteq> [] | PDict kvs \<Rightarrow> kvs \<noteq> [] | PObj _ \<Rightarrow> True)"

datatype callable = AttrOf pyval pyval | Imported string

definition get_func :: "codec \<Rightarrow> job \<Rightarrow> (callable option \<times> job) res" where
  "get_func C j =
     bindE (get_func_name C j) (\<lambda>(f, j1).
       if f = PNone then Inr (None, j1)
       else
         bindE (get_instance C j1) (\<lambda>(i, j2).
           if truthy i then Inr (Some (AttrOf i f), j2)
           else (case f of PStr n \<Rightarrow> Inr (Some (Imported n), j2) | _ \<Rightarrow> Inl AttributeError)))"

section \<open>Lemmas\<close>

lemma py_index_Inr: "py_index xs i = Inr v \<Longrightarrow> v \<in> set xs"
  by (auto simp: py_index_def split: if_splits intro!: nth_mem)

lemma py_index_nth: "0 \<le> i \<Longrightarrow> i < int (length xs) \<Longrightarrow> py_index xs i = Inr (xs ! nat i)"
  by (simp add: py_index_def)

lemma make_retry_Inr:
  "make_retry mx ivl front = Inr r \<Longrightarrow>
     1 \<le> rt_max r \<and> rt_max r = mx \<and> rt_enqueue_at_front r = front \<and> (\<forall>i \<in> set (rt_intervals r). 0 \<le> i)"
  by (auto simp: make_retry_def not_less split: if_splits interval_arg.splits)

lemma get_interval_total:
  "0 \<le> count \<Longrightarrow> \<exists>i. get_interval count ivl = Inr i"
proof (cases "(count, ivl)" rule: get_interval.cases)
  case (3 c xs)
  assume "0 \<le> count"
  moreover have "0 < length xs" if "xs \<noteq> []" using that by simp
  ultimately show ?thesis using 3 by (cases "xs = []") (auto simp: py_index_def)
qed auto

lemma get_retry_interval_nth:
  assumes "j_retry_intervals j = Some ivs" "ivs \<noteq> []" "j_retries_left j = Some n" "0 < n"
  shows "get_retry_interval j = Inr (ivs ! nat (max (int (length ivs) - n) 0))"
  using assms by (auto simp: get_retry_interval_def retries_truthy_def py_index_def)

lemma collect_deps_refs:
  "collect_deps items (front, allow, refs) = Inr (front', allow', refs') \<Longrightarrow>
     refs' = refs @ concat (map (\<lambda>i. case i of DDep d \<Rightarrow> dp_dependencies d | DRef r \<Rightarrow> [r]) items) \<and>
     (allow' = Some True \<longleftrightarrow> allow = Some True \<or> (\<exists>d. DDep d \<in> set items \<and> dp_allow_failure d)) \<and>
     (front' = Some True \<longleftrightarrow> front = Some True \<or> (\<exists>d. DDep d \<in> set items \<and> dp_enqueue_at_front d))"
proof (induction items "(front, allow, refs)" arbitrary: front allow refs rule: collect_deps.induct)
  case (2 d items front allow refs)
  then show ?case by (auto simp: or_flag_def split: if_splits)
next
  case (3 r items front allow refs)
  then show ?case by (auto split: if_splits)
qed auto

lemma get_data_Val: "j_data j = Val d \<Longrightarrow> get_data C j = Inr (d, j)"
  by (simp add: get_data_def)

lemma set_data_simps [simp]:
  "j_data (set_data d j) = Val d" "j_func_name (set_data d j) = UNEVALUATED"
  "j_id (set_data d j) = j_id j" "j_status (set_data d j) = j_status j"
  by (simp_all add: set_data_def)

text \<open>The payload read from stored bytes, and the payload a setter leaves behind.\<close>

lemma get_func_name_set_data:
  assumes "loads C d = Some (PTuple [f, i, a, k])"
  shows "get_func_name C (set_data d j) =
    Inr (f, j\<lparr>j_data := Val d, j_func_name := Val f, j_instance := Val i, j_args := Val a, j_kwargs := Val k\<rparr>)"
  using assms
  by (simp add: get_func_name_def lazy_get_def deserialize_data_def get_data_def py_items_def set_data_def)

lemma job_tuple_set_func_name:
  "job_tuple (set_func_name v (set_data d j)) = PTuple [v, PNone, PTuple [], PDict []]"
  by (simp add: job_tuple_def set_func_name_def set_data_def)

lemma get_data_id: "get_data C j = Inr (d, j') \<Longrightarrow> j_id j' = j_id j \<and> j_status j' = j_status j \<and> j_data j' = Val d"
  by (auto simp: get_data_def split: lazy.splits if_splits option.splits)

text \<open>What \<open>create\<close> establishes.\<close>

lemma resolve_callback_Inr_name:
  "resolve_callback a = Inr (Some (n, t)) \<Longrightarrow> a \<noteq> CbNone"
  by (auto simp: resolve_callback_def)

lemma process_dependencies_Inr:
  assumes "process_dependencies deps j = Inr j'"
  shows "j' = j\<lparr>j_enqueue_at_front := j_enqueue_at_front j',
                j_allow_dependency_failures := j_allow_dependency_failures j',
                j_dependency_ids := j_dependency_ids j'\<rparr>"
    "j_dependency_ids j' =
       map ref_id (concat (map (\<lambda>i. case i of DDep d \<Rightarrow> dp_dependencies d | DRef r \<Rightarrow> [r]) (ensure_job_list deps)))"
    "j_allow_dependency_failures j' = Some True \<longleftrightarrow>
       j_allow_dependency_failures j = Some True \<or> (\<exists>d. DDep d \<in> set (ensure_job_list deps) \<and> dp_allow_failure d)"
  using assms
  by (auto simp: process_dependencies_def bindE_Inr_iff dest!: collect_deps_refs)

lemma create_Inr:
  assumes "create repr C a uid t = Inr j"
  shows "j_id j = opt_default uid (ca_id a)"
    "\<forall>i. ca_id a = Some i \<longrightarrow> valid_id i"
    "j_status j = opt_default CREATED (ca_status a)"
    "j_origin j = ca_origin a" "j_created_at j = t" "j_data j = UNEVALUATED"
    "j_retries_left j = map_option rt_max (ca_retry a)"
    "j_retry_intervals j = map_option rt_intervals (ca_retry a)"
    "parse_timeout (ca_timeout a) = Inr (j_timeout j)" "parse_timeout (ca_ttl a) = Inr (j_ttl j)"
    "parse_timeout (ca_result_ttl a) = Inr (j_result_ttl j)"
    "parse_timeout (ca_failure_ttl a) = Inr (j_failure_ttl j)"
    "ca_depends_on a = None \<longrightarrow> j_dependency_ids j = []"
    "\<forall>d. ca_depends_on a = Some d \<longrightarrow> j_dependency_ids j =
       map ref_id (concat (map (\<lambda>i. case i of DDep d \<Rightarrow> dp_dependencies d | DRef r \<Rightarrow> [r]) (ensure_job_list d)))"
proof -
  obtain j1 j2 j3 j4 where j1: "create_core a uid t = Inr j1" and j2: "set_callbacks a j1 = Inr j2"
    and j3: "set_extras repr C a j2 = Inr j3"
    and j4: "(case ca_depends_on a of None \<Rightarrow> Inr (set_retry (ca_retry a) j3)
            | Some d \<Rightarrow> process_dependencies d (set_retry (ca_retry a) j3)) = Inr j4"
    and j: "j = j4\<lparr>j_status := opt_default CREATED (ca_status a)\<rparr>"
    using assms by (auto simp: create_def bindE_Inr_iff)
  have 1: "j_id j1 = opt_default uid (ca_id a)" "\<forall>i. ca_id a = Some i \<longrightarrow> valid_id i" "j_origin j1 = ca_origin a"
    "j_created_at j1 = t" "j_data j1 = UNEVALUATED" "j_retries_left j1 = None" "j_retry_intervals j1 = None"
    "j_dependency_ids j1 = []"
    using j1 by (auto simp: create_core_def bindE_Inr_iff set_id_def validate_job_id_def new_job_def
        split: option.splits if_splits)
  have 2: "j_id j2 = j_id j1" "j_origin j2 = j_origin j1" "j_created_at j2 = j_created_at j1"
    "j_data j2 = j_data j1" "j_retries_left j2 = j_retries_left j1"
    "j_retry_intervals j2 = j_retry_intervals j1" "j_dependency_ids j2 = j_dependency_ids j1"
    using j2 by (auto simp: set_callbacks_def bindE_Inr_iff)
  have 3: "j_id j3 = j_id j2" "j_origin j3 = j_origin j2" "j_created_at j3 = j_created_at j2"
    "j_data j3 = j_data j2" "j_retries_left j3 = j_retries_left j2"
    "j_retry_intervals j3 = j_retry_intervals j2" "j_dependency_ids j3 = j_dependency_ids j2"
    "parse_timeout (ca_timeout a) = Inr (j_timeout j3)" "parse_timeout (ca_ttl a) = Inr (j_ttl j3)"
    "parse_timeout (ca_result_ttl a) = Inr (j_result_ttl j3)"
    "parse_timeout (ca_failure_ttl a) = Inr (j_failure_ttl j3)"
    using j3 by (auto simp: set_extras_def bindE_Inr_iff)
  let ?r = "set_retry (ca_retry a) j3"
  have 4: "j4 = ?r\<lparr>j_enqueue_at_front := j_enqueue_at_front j4,
      j_allow_dependency_failures := j_allow_dependency_failures j4, j_dependency_ids := j_dependency_ids j4\<rparr>"
    using j4 process_dependencies_Inr(1) by (cases "ca_depends_on a") auto
  have 5: "ca_depends_on a = None \<longrightarrow> j_dependency_ids j4 = j_dependency_ids j3"
    using j4 by (auto simp: set_retry_def split: option.splits)
  have 6: "\<forall>d. ca_depends_on a = Some d \<longrightarrow> j_dependency_ids j4 =
       map ref_id (concat (map (\<lambda>i. case i of DDep d \<Rightarrow> dp_dependencies d | DRef r \<Rightarrow> [r]) (ensure_job_list d)))"
    using j4 process_dependencies_Inr(2) by auto
  have 7: "j_id j4 = j_id ?r" "j_origin j4 = j_origin ?r" "j_created_at j4 = j_created_at ?r" "j_data j4 = j_data ?r"
    "j_retries_left j4 = j_retries_left ?r" "j_retry_intervals j4 = j_retry_intervals ?r"
    "j_timeout j4 = j_timeout ?r" "j_ttl j4 = j_ttl ?r" "j_result_ttl j4 = j_result_ttl ?r"
    "j_failure_ttl j4 = j_failure_ttl ?r"
    by (subst 4, simp)+
  have 8: "j_id ?r = j_id j3" "j_origin ?r = j_origin j3" "j_created_at ?r = j_created_at j3" "j_data ?r = j_data j3"
    "j_timeout ?r = j_timeout j3" "j_ttl ?r = j_ttl j3" "j_result_ttl ?r = j_result_ttl j3"
    "j_failure_ttl ?r = j_failure_ttl j3"
    "j_retries_left ?r = (if ca_retry a = None then j_retries_left j3 else map_option rt_max (ca_retry a))"
    "j_retry_intervals ?r = (if ca_retry a = None then j_retry_intervals j3 else map_option rt_intervals (ca_retry a))"
    by (auto simp: set_retry_def split: option.splits)
  show "j_id j = opt_default uid (ca_id a)" "\<forall>i. ca_id a = Some i \<longrightarrow> valid_id i"
    "j_status j = opt_default CREATED (ca_status a)"
    "j_origin j = ca_origin a" "j_created_at j = t" "j_data j = UNEVALUATED"
    "j_retries_left j = map_option rt_max (ca_retry a)"
    "j_retry_intervals j = map_option rt_intervals (ca_retry a)"
    "parse_timeout (ca_timeout a) = Inr (j_timeout j)" "parse_timeout (ca_ttl a) = Inr (j_ttl j)"
    "parse_timeout (ca_result_ttl a) = Inr (j_result_ttl j)"
    "parse_timeout (ca_failure_ttl a) = Inr (j_failure_ttl j)"
    "ca_depends_on a = None \<longrightarrow> j_dependency_ids j = []"
    "\<forall>d. ca_depends_on a = Some d \<longrightarrow> j_dependency_ids j =
       map ref_id (concat (map (\<lambda>i. case i of DDep d \<Rightarrow> dp_dependencies d | DRef r \<Rightarrow> [r]) (ensure_job_list d)))"
    using 1 2 3 5 6 7 8 j by auto
qed

section \<open>Properties\<close>

text \<open>
  \<open>Job.create\<close>: a job it returns has the caller's id, checked to be valid, or a fresh one, the caller's
  status, else CREATED, the parsed timeout and ttls, the retries of the Retry object, exactly
  the dependencies the caller named, in their order, and a payload still to be serialized.
\<close>

theorem create_establishes:
  assumes "create repr C a uid t = Inr j"
  shows "j_id j = opt_default uid (ca_id a) \<and> (\<forall>i. ca_id a = Some i \<longrightarrow> validate_job_id i = Inr ()) \<and>
    j_status j = opt_default CREATED (ca_status a) \<and> j_data j = UNEVALUATED \<and>
    parse_timeout (ca_timeout a) = Inr (j_timeout j) \<and> parse_timeout (ca_ttl a) = Inr (j_ttl j) \<and>
    parse_timeout (ca_result_ttl a) = Inr (j_result_ttl j) \<and> parse_timeout (ca_failure_ttl a) = Inr (j_failure_ttl j) \<and>
    j_retries_left j = map_option rt_max (ca_retry a) \<and> j_retry_intervals j = map_option rt_intervals (ca_retry a) \<and>
    j_dependency_ids j =
      (case ca_depends_on a of
         None \<Rightarrow> []
       | Some d \<Rightarrow> map ref_id (concat (map (\<lambda>i. case i of DDep d \<Rightarrow> dp_dependencies d | DRef r \<Rightarrow> [r]) (ensure_job_list d))))"
  using create_Inr [OF assms] by (simp add: validate_job_id_iff split: option.splits)

text \<open>
  A codec for the examples: the serializer knows one value, the payload of a job, and nothing is
  compressed.
\<close>

definition sample_codec :: codec where
  "sample_codec = \<lparr>dumps = (\<lambda>_. Some ''p''),
     loads = (\<lambda>_. Some (PTuple [PStr ''m.f'', PNone, PTuple [], PDict []])),
     zcompress = (\<lambda>s. s), zdecompress = Some\<rparr>"

definition sample_create_args :: create_args where
  "sample_create_args = \<lparr>ca_func = FName ''m.f'', ca_args = None, ca_kwargs = None, ca_result_ttl = TNone,
     ca_ttl = TInt 60, ca_status = None, ca_description = Some ''d'', ca_depends_on = Some (Several [DRef (RId ''p'')]),
     ca_timeout = TStr ''3m'', ca_retry = None, ca_id = Some ''a-1'', ca_origin = ''q'', ca_meta = None,
     ca_failure_ttl = TNone, ca_group_id = None, ca_on_success = CbNone, ca_on_failure = CbNone, ca_on_stopped = CbNone\<rparr>"

theorem create_establishes_witness:
  "\<exists>j. create (\<lambda>_. []) sample_codec sample_create_args [] 0 = Inr j \<and> j_id j = ''a-1'' \<and> j_dependency_ids j = [''p'']"
proof -
  have "parse_timeout (TStr ''3m'') = Inr (Some 180)" by code_simp
  moreover have "validate_job_id ''a-1'' = Inr ()" by code_simp
  ultimately have "\<exists>j. create (\<lambda>_. []) sample_codec sample_create_args [] 0 = Inr j"
    by (simp add: create_def create_core_def sample_create_args_def set_id_def set_callbacks_def resolve_callback_def
        set_extras_def process_dependencies_def ensure_job_list_def set_retry_def)
  then obtain j where j: "create (\<lambda>_. []) sample_codec sample_create_args [] 0 = Inr j" by blast
  show ?thesis
    using create_establishes [OF j] j by (auto simp: sample_create_args_def ensure_job_list_def)
qed

text \<open>
  The retry schedule: a job whose Retry was accepted with at least one interval, and with \<open>left\<close> of
  its \<open>max\<close> retries left, waits for the interval \<open>len - left\<close> counted from the start of the list, and for
  the first interval while more retries are left than there are intervals. The wait is never
  negative and never an error.
\<close>

theorem retry_schedule:
  assumes "make_retry mx ivl front = Inr r" "rt_intervals r \<noteq> []"
    and "j_retry_intervals j = Some (rt_intervals r)" "j_retries_left j = Some left" "0 < left"
  shows "\<exists>i. get_retry_interval j = Inr i \<and> 0 \<le> i \<and>
    i = rt_intervals r ! nat (max (int (length (rt_intervals r)) - left) 0)"
proof -
  have nth: "get_retry_interval j = Inr (rt_intervals r ! nat (max (int (length (rt_intervals r)) - left) 0))"
    using assms(2-5) by (intro get_retry_interval_nth) simp_all
  have "rt_intervals r ! nat (max (int (length (rt_intervals r)) - left) 0) \<in> set (rt_intervals r)"
    using assms(2,5) by (intro nth_mem) (simp add: nat_less_iff)
  then show ?thesis using nth make_retry_Inr [OF assms(1)] by auto
qed

theorem retry_schedule_witness:
  "\<exists>i. get_retry_interval ((new_job ''a'' 0)\<lparr>j_retry_intervals := Some [10, 20], j_retries_left := Some 1\<rparr>) = Inr i \<and> i = 20"
proof -
  let ?r = "\<lparr>rt_max = 2, rt_intervals = [10, 20], rt_enqueue_at_front = False\<rparr>"
  have "make_retry 2 (IList [10, 20]) False = Inr ?r" by (simp add: make_retry_def)
  from retry_schedule [OF this, of "(new_job ''a'' 0)\<lparr>j_retry_intervals := Some [10, 20], j_retries_left := Some 1\<rparr>" 1]
  show ?thesis by simp
qed

end
