(* ===== verification/JobStore.thy ===== *)
theory JobStore
  imports Job
begin

text \<open>
  The persistent form of a job (\<open>rq/job.py\<close>): \<open>to_dict\<close> and \<open>restore\<close>, and the operations on the job
  hash built on them (\<open>save\<close>, \<open>refresh\<close>, \<open>fetch\<close>, \<open>fetch_many\<close>, the status, heartbeat and meta
  accessors). The main result is the round trip: what is fetched after a save is the saved job.
\<close>

section \<open>to_dict\<close>

text \<open>The entries of a dictionary whose value is there.\<close>

definition present :: "(string \<times> string option) list \<Rightarrow> fields" where
  "present tbl = concat (map (\<lambda>(k, v). case v of None \<Rightarrow> [] | Some x \<Rightarrow> [(k, x)]) tbl)"

definition text_or_empty :: "string option \<Rightarrow> string option" where
  "text_or_empty v = Some (opt_default [] v)"

definition date_or_empty :: "datetime option \<Rightarrow> string option" where
  "date_or_empty v = Some (case v of None \<Rightarrow> [] | Some t \<Rightarrow> utcformat t)"

definition flag_text :: "bool \<Rightarrow> string" where
  "flag_text b = (if b then ''1'' else ''0'')"

definition unserializable :: string where
  "unserializable = ''Unserializable return value''"

definition job_table :: "codec \<Rightarrow> bool \<Rightarrow> string \<Rightarrow> string option \<Rightarrow> job \<Rightarrow> (string \<times> string option) list" where
  "job_table C include_result d meta j = [
     (''created_at'', Some (utcformat (j_created_at j))),
     (''data'', Some (zcompress C d)),
     (''success_callback_name'', text_or_empty (j_success_callback_name j)),
     (''failure_callback_name'', text_or_empty (j_failure_callback_name j)),
     (''stopped_callback_name'', text_or_empty (j_stopped_callback_name j)),
     (''started_at'', date_or_empty (j_started_at j)),
     (''ended_at'', date_or_empty (j_ended_at j)),
     (''last_heartbeat'', date_or_empty (j_last_heartbeat j)),
     (''worker_name'', text_or_empty (j_worker_name j)),
     (''group_id'', text_or_empty (j_group_id j)),
     (''number_of_retries'', map_option str_of_int (j_number_of_retries j)),
     (''retries_left'', map_option str_of_int (j_retries_left j)),
     (''retry_intervals'', map_option json_dumps_ints (j_retry_intervals j)),
     (''enqueue_at_front_on_retry'', if j_enqueue_at_front_on_retry j then Some (flag_text True) else None),
     (''origin'', if j_origin j = [] then None else Some (j_origin j)),
     (''description'', j_description j),
     (''enqueued_at'', map_option utcformat (j_enqueued_at j)),
     (''repeats_left'', map_option str_of_int (j_repeats_left j)),
     (''repeat_intervals'', map_option json_dumps_ints (j_repeat_intervals j)),
     (''result'', if j_result j \<noteq> PNone \<and> include_result
                  then Some (case dumps C (j_result j) of Some r \<Rightarrow> r | None \<Rightarrow> unserializable) else None),
     (''exc_info'', if include_result then map_option (zcompress C) (j_exc_info j) else None),
     (''timeout'', map_option str_of_int (j_timeout j)),
     (''success_callback_timeout'', map_option str_of_int (j_success_callback_timeout j)),
     (''failure_callback_timeout'', map_option str_of_int (j_failure_callback_timeout j)),
     (''stopped_callback_timeout'', map_option str_of_int (j_stopped_callback_timeout j)),
     (''result_ttl'', map_option str_of_int (j_result_ttl j)),
     (''failure_ttl'', map_option str_of_int (j_failure_ttl j)),
     (''status'', Some (status_text (j_status j))),
     (''dependency_id'', case j_dependency_ids j of [] \<Rightarrow> None | i # _ \<Rightarrow> Some i),
     (''dependency_ids'', if j_dependency_ids j = [] then None else Some (json_dumps_strs (j_dependency_ids j))),
     (''meta'', meta),
     (''ttl'', case j_ttl j of None \<Rightarrow> None | Some n \<Rightarrow> if n = 0 then None else Some (str_of_int n)),
     (''allow_dependency_failures'', map_option flag_text (j_allow_dependency_failures j)),
     (''enqueue_at_front'', map_option flag_text (j_enqueue_at_front j))]"

definition dump_meta :: "codec \<Rightarrow> bool \<Rightarrow> job \<Rightarrow> string option res" where
  "dump_meta C include_meta j =
     (if truthy (j_meta j) \<and> include_meta
      then (case dumps C (j_meta j) of None \<Rightarrow> Inl SerializerError | Some m \<Rightarrow> Inr (Some m))
      else Inr None)"

definition to_dict :: "codec \<Rightarrow> bool \<Rightarrow> bool \<Rightarrow> job \<Rightarrow> (fields \<times> job) res" where
  "to_dict C include_meta include_result j =
     bindE (get_data C j) (\<lambda>(d, j').
     bindE (dump_meta C include_meta j') (\<lambda>meta.
       Inr (present (job_table C include_result d meta j'), j')))"

section \<open>restore\<close>

text \<open>\<open>obj.get(k)\<close> when it is truthy, and the readers of the fields.\<close>

definition fget :: "fields \<Rightarrow> string \<Rightarrow> string option" where
  "fget obj k = (case map_of obj k of None \<Rightarrow> None | Some v \<Rightarrow> if v = [] then None else Some v)"

definition read_opt :: "(string \<Rightarrow> 'a res) \<Rightarrow> string option \<Rightarrow> 'a option res" where
  "read_opt f v = (case v of None \<Rightarrow> Inr None | Some x \<Rightarrow> bindE (f x) (\<lambda>y. Inr (Some y)))"

definition to_int :: "string \<Rightarrow> int res" where
  "to_int s = (case int_of_str s of Some i \<Rightarrow> Inr i | None \<Rightarrow> Inl ValueError)"

text \<open>\<open>parse_timeout\<close> of a byte string: the assertion that it is a \<open>str\<close> fails when it is no integer.\<close>

definition to_timeout :: "string \<Rightarrow> int res" where
  "to_timeout s = (case int_of_str s of Some i \<Rightarrow> Inr i | None \<Rightarrow> Inl AssertionError)"

definition to_flag :: "string \<Rightarrow> bool res" where
  "to_flag s = bindE (to_int s) (\<lambda>i. Inr (i \<noteq> 0))"

definition to_list :: "(string \<Rightarrow> 'a list option) \<Rightarrow> string \<Rightarrow> 'a list res" where
  "to_list f s = (case f s of Some xs \<Rightarrow> Inr xs | None \<Rightarrow> Inl ValueError)"

definition unzip_or_raw :: "codec \<Rightarrow> string \<Rightarrow> string" where
  "unzip_or_raw C s = (case zdecompress C s of Some d \<Rightarrow> d | None \<Rightarrow> s)"

definition restore_times :: "datetime \<Rightarrow> fields \<Rightarrow> job \<Rightarrow> job res" where
  "restore_times t obj j =
     bindE (read_opt str_to_date (fget obj ''created_at'')) (\<lambda>created.
     bindE (read_opt str_to_date (fget obj ''enqueued_at'')) (\<lambda>enqueued.
     bindE (read_opt str_to_date (fget obj ''started_at'')) (\<lambda>started.
     bindE (read_opt str_to_date (fget obj ''ended_at'')) (\<lambda>ended.
     bindE (read_opt str_to_date (fget obj ''last_heartbeat'')) (\<lambda>heartbeat.
       Inr (j\<lparr>j_created_at := opt_default t created,
              j_origin := opt_default [] (fget obj ''origin''),
              j_worker_name := fget obj ''worker_name'', j_description := fget obj ''description'',
              j_enqueued_at := enqueued, j_started_at := started, j_ended_at := ended,
              j_last_heartbeat := heartbeat, j_group_id := fget obj ''group_id''\<rparr>))))))"

definition restore_ttls :: "codec \<Rightarrow> fields \<Rightarrow> job \<Rightarrow> job res" where
  "restore_ttls C obj j =
     bindE (read_opt to_timeout (fget obj ''timeout'')) (\<lambda>timeout.
     bindE (read_opt to_int (fget obj ''result_ttl'')) (\<lambda>result_ttl.
     bindE (read_opt to_int (fget obj ''failure_ttl'')) (\<lambda>failure_ttl.
     bindE (read_opt status_of (fget obj ''status'')) (\<lambda>status.
       Inr (j\<lparr>j_result :=
                (case fget obj ''result'' of
                   None \<Rightarrow> j_result j
                 | Some r \<Rightarrow> (case loads C r of Some v \<Rightarrow> v | None \<Rightarrow> PStr unserializable)),
              j_timeout := timeout, j_result_ttl := result_ttl, j_failure_ttl := failure_ttl,
              j_status := opt_default CREATED status\<rparr>)))))"

definition keep :: "'a option \<Rightarrow> 'a option \<Rightarrow> 'a option" where
  "keep new old = (case new of None \<Rightarrow> old | Some v \<Rightarrow> Some v)"

definition restore_callbacks :: "fields \<Rightarrow> job \<Rightarrow> job res" where
  "restore_callbacks obj j =
     bindE (read_opt to_int (map_of obj ''success_callback_timeout'')) (\<lambda>s.
     bindE (read_opt to_int (map_of obj ''failure_callback_timeout'')) (\<lambda>f.
     bindE (read_opt to_int (map_of obj ''stopped_callback_timeout'')) (\<lambda>p.
       Inr (j\<lparr>j_success_callback_name := keep (fget obj ''success_callback_name'') (j_success_callback_name j),
              j_success_callback_timeout := keep s (j_success_callback_timeout j),
              j_failure_callback_name := keep (fget obj ''failure_callback_name'') (j_failure_callback_name j),
              j_failure_callback_timeout := keep f (j_failure_callback_timeout j),
              j_stopped_callback_name := keep (fget obj ''stopped_callback_name'') (j_stopped_callback_name j),
              j_stopped_callback_timeout := keep p (j_stopped_callback_timeout j)\<rparr>))))"

definition restore_deps :: "codec \<Rightarrow> fields \<Rightarrow> job \<Rightarrow> job res" where
  "restore_deps C obj j =
     bindE (case fget obj ''dependency_ids'' of
              Some ids \<Rightarrow> to_list json_loads_strs ids
            | None \<Rightarrow> Inr (case fget obj ''dependency_id'' of Some i \<Rightarrow> [i] | None \<Rightarrow> [])) (\<lambda>deps.
     bindE (read_opt to_flag (fget obj ''allow_dependency_failures'')) (\<lambda>allow.
     bindE (read_opt to_flag (map_of obj ''enqueue_at_front'')) (\<lambda>front.
     bindE (read_opt to_int (fget obj ''ttl'')) (\<lambda>ttl.
       Inr (j\<lparr>j_dependency_ids := deps, j_allow_dependency_failures := allow, j_enqueue_at_front := front,
              j_ttl := ttl,
              j_meta :=
                (case fget obj ''meta'' of
                   None \<Rightarrow> PDict []
                 | Some m \<Rightarrow> (case loads C m of Some v \<Rightarrow> v | None \<Rightarrow> PDict [(''unserialized'', PBytes m)]))\<rparr>)))))"

definition restore_retries :: "codec \<Rightarrow> fields \<Rightarrow> job \<Rightarrow> job res" where
  "restore_retries C obj j =
     bindE (read_opt to_int (fget obj ''number_of_retries'')) (\<lambda>number.
     bindE (read_opt to_int (fget obj ''retries_left'')) (\<lambda>left.
     bindE (read_opt (to_list json_loads_ints) (fget obj ''retry_intervals'')) (\<lambda>intervals.
     bindE (read_opt to_flag (fget obj ''enqueue_at_front_on_retry'')) (\<lambda>front.
     bindE (read_opt to_int (fget obj ''repeats_left'')) (\<lambda>repeats.
     bindE (read_opt (to_list json_loads_ints) (fget obj ''repeat_intervals'')) (\<lambda>repeat_ivls.
       Inr (j\<lparr>j_number_of_retries := number, j_retries_left := left,
              j_retry_intervals := keep intervals (j_retry_intervals j),
              j_enqueue_at_front_on_retry := opt_default False front,
              j_repeats_left := repeats,
              j_repeat_intervals := keep repeat_ivls (j_repeat_intervals j),
              j_exc_info := keep (map_option (unzip_or_raw C) (fget obj ''exc_info'')) (j_exc_info j)\<rparr>)))))))"

text \<open>
  \<open>restore\<close> on an object \<open>j\<close>; \<open>t\<close> is the clock. An exception leaves the object half restored, which is
  not modelled: every caller in the library drops it.
\<close>

definition restore :: "codec \<Rightarrow> datetime \<Rightarrow> fields \<Rightarrow> job \<Rightarrow> job res" where
  "restore C t obj j =
     (case map_of obj ''data'' of
        None \<Rightarrow> Inl NoSuchJobError
      | Some raw \<Rightarrow>
          bindE (restore_times t obj (set_data (unzip_or_raw C raw) j)) (\<lambda>j.
          bindE (restore_ttls C obj j) (\<lambda>j.
          bindE (restore_callbacks obj j) (\<lambda>j.
          bindE (restore_deps C obj j) (\<lambda>j.
            restore_retries C obj j)))))"

section \<open>The job hash\<close>

definition save :: "codec \<Rightarrow> bool \<Rightarrow> bool \<Rightarrow> job \<Rightarrow> (cmd list \<times> job) res" where
  "save C include_meta include_result j =
     bindE (to_dict C include_meta include_result j) (\<lambda>(fs, j'). Inr ([HSet (job_key (j_id j)) fs], j'))"

definition refresh :: "codec \<Rightarrow> 's redis \<Rightarrow> 's \<Rightarrow> datetime \<Rightarrow> job \<Rightarrow> job res" where
  "refresh C R s t j =
     (let data = r_hash R s (job_key (j_id j)) in
      if data = [] then Inl NoSuchJobError else restore C t data j)"

definition fetch :: "codec \<Rightarrow> 's redis \<Rightarrow> 's \<Rightarrow> datetime \<Rightarrow> string \<Rightarrow> job res" where
  "fetch C R s t i = bindE (job_init (Some (parse_job_id i)) [] t) (\<lambda>j. refresh C R s t j)"

definition fetch_one :: "codec \<Rightarrow> 's redis \<Rightarrow> 's \<Rightarrow> datetime \<Rightarrow> string \<Rightarrow> job option res" where
  "fetch_one C R s t i =
     (let data = r_hash R s (job_key i) in
      if data = [] then Inr None
      else bindE (job_init (Some i) [] t) (\<lambda>j. bindE (restore C t data j) (\<lambda>j'. Inr (Some j'))))"

definition fetch_many :: "codec \<Rightarrow> 's redis \<Rightarrow> 's \<Rightarrow> datetime \<Rightarrow> string list \<Rightarrow> job option list res" where
  "fetch_many C R s t ids = mapE (fetch_one C R s t) (map parse_job_id ids)"

definition job_exists :: "'s redis \<Rightarrow> 's \<Rightarrow> string \<Rightarrow> bool" where
  "job_exists R s i = key_exists R s (job_key i)"

text \<open>\<open>get_status(refresh=True)\<close>: an absent or empty field raises InvalidJobOperation.\<close>

definition get_status :: "'s redis \<Rightarrow> 's \<Rightarrow> string \<Rightarrow> job_status res" where
  "get_status R s i =
     (case hget R s (job_key i) ''status'' of
        None \<Rightarrow> Inl InvalidJobOperation
      | Some v \<Rightarrow> if v = [] then Inl InvalidJobOperation else status_of v)"

definition set_status :: "job_status \<Rightarrow> job \<Rightarrow> cmd list \<times> job" where
  "set_status st j = ([HSet (job_key (j_id j)) [(''status'', status_text st)]], j\<lparr>j_status := st\<rparr>)"

definition get_meta :: "codec \<Rightarrow> 's redis \<Rightarrow> 's \<Rightarrow> job \<Rightarrow> job res" where
  "get_meta C R s j =
     (case hget R s (job_key (j_id j)) ''meta'' of
        None \<Rightarrow> Inr (j\<lparr>j_meta := PDict []\<rparr>)
      | Some m \<Rightarrow>
          if m = [] then Inr (j\<lparr>j_meta := PDict []\<rparr>)
          else (case loads C m of Some v \<Rightarrow> Inr (j\<lparr>j_meta := v\<rparr>) | None \<Rightarrow> Inl SerializerError))"

definition save_meta :: "codec \<Rightarrow> job \<Rightarrow> cmd list res" where
  "save_meta C j =
     (case dumps C (j_meta j) of
        None \<Rightarrow> Inl SerializerError
      | Some m \<Rightarrow> Inr [HSet (job_key (j_id j)) [(''meta'', m)]])"

definition heartbeat :: "datetime \<Rightarrow> job \<Rightarrow> cmd list \<times> job" where
  "heartbeat t j =
     ([HSet (job_key (j_id j)) [(''last_heartbeat'', utcformat t)]], j\<lparr>j_last_heartbeat := Some t\<rparr>)"

definition prepare_for_execution :: "string \<Rightarrow> datetime \<Rightarrow> job \<Rightarrow> cmd list \<times> job" where
  "prepare_for_execution w t j =
     ([HSet (job_key (j_id j))
         [(''last_heartbeat'', utcformat t), (''status'', status_text STARTED),
          (''started_at'', utcformat t), (''worker_name'', w)]],
      j\<lparr>j_worker_name := Some w, j_last_heartbeat := Some t, j_started_at := Some t, j_status := STARTED\<rparr>)"

definition dependent_ids :: "'s redis \<Rightarrow> 's \<Rightarrow> string \<Rightarrow> string list" where
  "dependent_ids R s i = r_set R s (dependents_key i)"

definition dependency_ids :: "'s redis \<Rightarrow> 's \<Rightarrow> string \<Rightarrow> string list" where
  "dependency_ids R s i = r_set R s (dependencies_key i)"

definition fetch_dependencies :: "codec \<Rightarrow> 's redis \<Rightarrow> 's \<Rightarrow> datetime \<Rightarrow> job \<Rightarrow> job list res" where
  "fetch_dependencies C R s t j =
     bindE (fetch_many C R s t (j_dependency_ids j)) (\<lambda>js. Inr (compact js))"

section \<open>Round trip\<close>

text \<open>
  The object a fetch makes of a saved job: the payload is unevaluated again, an empty text reads back
  as None, a \<open>ttl\<close> of 0 as None and a false meta as the empty dictionary.
\<close>

definition text_or_none :: "string option \<Rightarrow> string option" where
  "text_or_none v = (if v = Some [] then None else v)"

definition persisted :: "string \<Rightarrow> job \<Rightarrow> job" where
  "persisted d j = (set_data d j)\<lparr>
     j_success_callback_name := text_or_none (j_success_callback_name j),
     j_failure_callback_name := text_or_none (j_failure_callback_name j),
     j_stopped_callback_name := text_or_none (j_stopped_callback_name j),
     j_worker_name := text_or_none (j_worker_name j), j_group_id := text_or_none (j_group_id j),
     j_description := text_or_none (j_description j),
     j_ttl := (if j_ttl j = Some 0 then None else j_ttl j),
     j_meta := (if truthy (j_meta j) then j_meta j else PDict [])\<rparr>"

text \<open>
  What the round trip asks of the serializer and of \<open>zlib\<close>, on the values of the job: \<open>loads\<close> undoes
  \<open>dumps\<close>, decompression undoes compression, and neither \<open>dumps\<close> nor \<open>compress\<close> returns nothing.
\<close>

definition codec_keeps :: "codec \<Rightarrow> pyval \<Rightarrow> bool" where
  "codec_keeps C v \<longleftrightarrow> (case dumps C v of None \<Rightarrow> False | Some d \<Rightarrow> d \<noteq> [] \<and> loads C d = Some v)"

definition zip_keeps :: "codec \<Rightarrow> string \<Rightarrow> bool" where
  "zip_keeps C d \<longleftrightarrow> zcompress C d \<noteq> [] \<and> zdecompress C (zcompress C d) = Some d"

definition dates_ok :: "job \<Rightarrow> bool" where
  "dates_ok j \<longleftrightarrow> year_of (j_created_at j) \<le> 9999 \<and>
     list_all (\<lambda>t. case t of None \<Rightarrow> True | Some t \<Rightarrow> year_of t \<le> 9999)
       [j_enqueued_at j, j_started_at j, j_ended_at j, j_last_heartbeat j]"

lemma map_of_present:
  "distinct (map fst tbl) \<Longrightarrow>
   map_of (present tbl) k = (case map_of tbl k of None \<Rightarrow> None | Some v \<Rightarrow> v)"
proof (induction tbl arbitrary: k)
  case (Cons x tbl)
  have "map_of tbl (fst x) = None" using Cons.prems by (simp add: map_of_eq_None_iff)
  then have notin: "map_of (present tbl) (fst x) = None" using Cons by simp
  show ?case
    using Cons notin by (cases x; cases "snd x") (auto simp: present_def split: option.splits)
qed (simp add: present_def)

lemma distinct_job_table: "distinct (map fst (job_table C r d m j))"
  by (simp add: job_table_def)

lemmas map_of_job_dict = map_of_present [OF distinct_job_table]

lemma job_table_lookup:
  "map_of (job_table C include_result d meta j) ''created_at'' = Some (Some (utcformat (j_created_at j)))"
  "map_of (job_table C include_result d meta j) ''data'' = Some (Some (zcompress C d))"
  "map_of (job_table C include_result d meta j) ''success_callback_name'' = Some (text_or_empty (j_success_callback_name j))"
  "map_of (job_table C include_result d meta j) ''failure_callback_name'' = Some (text_or_empty (j_failure_callback_name j))"
  "map_of (job_table C include_result d meta j) ''stopped_callback_name'' = Some (text_or_empty (j_stopped_callback_name j))"
  "map_of (job_table C include_result d meta j) ''started_at'' = Some (date_or_empty (j_started_at j))"
  "map_of (job_table C include_result d meta j) ''ended_at'' = Some (date_or_empty (j_ended_at j))"
  "map_of (job_table C include_result d meta j) ''last_heartbeat'' = Some (date_or_empty (j_last_heartbeat j))"
  "map_of (job_table C include_result d meta j) ''worker_name'' = Some (text_or_empty (j_worker_name j))"
  "map_of (job_table C include_result d meta j) ''group_id'' = Some (text_or_empty (j_group_id j))"
  "map_of (job_table C include_result d meta j) ''number_of_retries'' = Some (map_option str_of_int (j_number_of_retries j))"
  "map_of (job_table C include_result d meta j) ''retries_left'' = Some (map_option str_of_int (j_retries_left j))"
  "map_of (job_table C include_result d meta j) ''retry_intervals'' = Some (map_option json_dumps_ints (j_retry_intervals j))"
  "map_of (job_table C include_result d meta j) ''enqueue_at_front_on_retry'' = Some (if j_enqueue_at_front_on_retry j then Some (flag_text True) else None)"
  "map_of (job_table C include_result d meta j) ''origin'' = Some (if j_origin j = [] then None else Some (j_origin j))"
  "map_of (job_table C include_result d meta j) ''description'' = Some (j_description j)"
  "map_of (job_table C include_result d meta j) ''enqueued_at'' = Some (map_option utcformat (j_enqueued_at j))"
  "map_of (job_table C include_result d meta j) ''repeats_left'' = Some (map_option str_of_int (j_repeats_left j))"
  "map_of (job_table C include_result d meta j) ''repeat_intervals'' = Some (map_option json_dumps_ints (j_repeat_intervals j))"
  "map_of (job_table C include_result d meta j) ''result'' = Some (if j_result j \<noteq> PNone \<and> include_result then Some (case dumps C (j_result j) of Some r \<Rightarrow> r | None \<Rightarrow> unserializable) else None)"
  "map_of (job_table C include_result d meta j) ''exc_info'' = Some (if include_result then map_option (zcompress C) (j_exc_info j) else None)"
  "map_of (job_table C include_result d meta j) ''timeout'' = Some (map_option str_of_int (j_timeout j))"
  "map_of (job_table C include_result d meta j) ''success_callback_timeout'' = Some (map_option str_of_int (j_success_callback_timeout j))"
  "map_of (job_table C include_result d meta j) ''failure_callback_timeout'' = Some (map_option str_of_int (j_failure_callback_timeout j))"
  "map_of (job_table C include_result d meta j) ''stopped_callback_timeout'' = Some (map_option str_of_int (j_stopped_callback_timeout j))"
  "map_of (job_table C include_result d meta j) ''result_ttl'' = Some (map_option str_of_int (j_result_ttl j))"
  "map_of (job_table C include_result d meta j) ''failure_ttl'' = Some (map_option str_of_int (j_failure_ttl j))"
  "map_of (job_table C include_result d meta j) ''status'' = Some (Some (status_text (j_status j)))"
  "map_of (job_table C include_result d meta j) ''dependency_id'' = Some (case j_dependency_ids j of [] \<Rightarrow> None | i # _ \<Rightarrow> Some i)"
  "map_of (job_table C include_result d meta j) ''dependency_ids'' = Some (if j_dependency_ids j = [] then None else Some (json_dumps_strs (j_dependency_ids j)))"
  "map_of (job_table C include_result d meta j) ''meta'' = Some (meta)"
  "map_of (job_table C include_result d meta j) ''ttl'' = Some (case j_ttl j of None \<Rightarrow> None | Some n \<Rightarrow> if n = 0 then None else Some (str_of_int n))"
  "map_of (job_table C include_result d meta j) ''allow_dependency_failures'' = Some (map_option flag_text (j_allow_dependency_failures j))"
  "map_of (job_table C include_result d meta j) ''enqueue_at_front'' = Some (map_option flag_text (j_enqueue_at_front j))"
  by (simp_all only: job_table_def map_of.simps fst_conv snd_conv fun_upd_apply) simp_all

lemma fget_job_dict:
  "fget (present (job_table C r d m j)) k =
     (case map_of (job_table C r d m j) k of
        Some (Some v) \<Rightarrow> if v = [] then None else Some v
      | _ \<Rightarrow> None)"
  by (simp add: fget_def map_of_job_dict split: option.splits)

lemma json_dumps_ints_nonempty [simp]: "json_dumps_ints xs \<noteq> []" "json_dumps_strs ys \<noteq> []"
  by (simp_all add: json_dumps_ints_def json_dumps_strs_def json_list_def)

lemma to_int_str [simp]: "to_int (str_of_int n) = Inr n" "to_timeout (str_of_int n) = Inr n"
  by (simp_all add: to_int_def to_timeout_def)

lemma to_flag_text [simp]: "to_flag (flag_text b) = Inr b" "flag_text b \<noteq> []"
  by (simp_all add: to_flag_def flag_text_def to_int_def int_of_str_def strip_def is_space_def
      is_digit_def digit_val_def)

lemma to_list_dumps [simp]:
  "to_list json_loads_ints (json_dumps_ints xs) = Inr xs" "to_list json_loads_strs (json_dumps_strs ys) = Inr ys"
  by (simp_all add: to_list_def)

lemma read_opt_simps [simp]:
  "read_opt f None = Inr None" "read_opt f (Some x) = bindE (f x) (\<lambda>y. Inr (Some y))"
  by (simp_all add: read_opt_def)

lemma read_opt_map [simp]: "read_opt to_int (map_option str_of_int v) = Inr v"
  "read_opt to_flag (map_option flag_text b) = Inr b"
  by (cases v; simp) (cases b; simp)

lemma fget_text [simp]:
  "(case text_or_empty v of None \<Rightarrow> None | Some w \<Rightarrow> if w = [] then None else Some w) = text_or_none v"
  by (cases v) (auto simp: text_or_empty_def text_or_none_def)

lemma restore_times_dict:
  assumes "dates_ok j"
  shows "restore_times t (present (job_table C r d m j)) k = Inr (k\<lparr>
    j_created_at := j_created_at j, j_origin := j_origin j, j_worker_name := text_or_none (j_worker_name j),
    j_description := text_or_none (j_description j), j_enqueued_at := j_enqueued_at j,
    j_started_at := j_started_at j, j_ended_at := j_ended_at j, j_last_heartbeat := j_last_heartbeat j,
    j_group_id := text_or_none (j_group_id j)\<rparr>)"
proof -
  let ?fs = "present (job_table C r d m j)"
  note look = fget_job_dict job_table_lookup
  have date: "read_opt str_to_date (case date_or_empty x of Some v \<Rightarrow> if v = [] then None else Some v | None \<Rightarrow> None) = Inr x"
    if "case x of None \<Rightarrow> True | Some t \<Rightarrow> year_of t \<le> 9999" for x
    using that by (auto simp: date_or_empty_def str_to_date_utcformat split: option.splits)
  have dates: "read_opt str_to_date (fget ?fs ''created_at'') = Inr (Some (j_created_at j))"
    "read_opt str_to_date (fget ?fs ''enqueued_at'') = Inr (j_enqueued_at j)"
    "read_opt str_to_date (fget ?fs ''started_at'') = Inr (j_started_at j)"
    "read_opt str_to_date (fget ?fs ''ended_at'') = Inr (j_ended_at j)"
    "read_opt str_to_date (fget ?fs ''last_heartbeat'') = Inr (j_last_heartbeat j)"
    using assms date unfolding dates_ok_def
    by (auto simp: look str_to_date_utcformat split: option.splits)
  have texts: "opt_default [] (fget ?fs ''origin'') = j_origin j"
    "fget ?fs ''worker_name'' = text_or_none (j_worker_name j)"
    "fget ?fs ''description'' = text_or_none (j_description j)"
    "fget ?fs ''group_id'' = text_or_none (j_group_id j)"
    by (simp_all add: look text_or_none_def split: option.splits)
  show ?thesis by (simp add: restore_times_def dates texts)
qed

lemma restore_ttls_dict:
  assumes "j_result j = PNone \<and> j_result k = PNone \<or> codec_keeps C (j_result j)"
  shows "restore_ttls C (present (job_table C True d m j)) k = Inr (k\<lparr>
    j_result := (if j_result j = PNone then j_result k else j_result j), j_timeout := j_timeout j,
    j_result_ttl := j_result_ttl j, j_failure_ttl := j_failure_ttl j, j_status := j_status j\<rparr>)"
proof -
  let ?fs = "present (job_table C True d m j)"
  note look = fget_job_dict job_table_lookup
  have ints: "read_opt to_timeout (fget ?fs ''timeout'') = Inr (j_timeout j)"
    "read_opt to_int (fget ?fs ''result_ttl'') = Inr (j_result_ttl j)"
    "read_opt to_int (fget ?fs ''failure_ttl'') = Inr (j_failure_ttl j)"
    "read_opt status_of (fget ?fs ''status'') = Inr (Some (j_status j))"
    by (auto simp: look split: option.splits)
  have res: "(case fget ?fs ''result'' of None \<Rightarrow> j_result k
      | Some r \<Rightarrow> (case loads C r of Some v \<Rightarrow> v | None \<Rightarrow> PStr unserializable)) =
      (if j_result j = PNone then j_result k else j_result j)"
    using assms by (auto simp: look codec_keeps_def split: option.splits)
  show ?thesis by (simp add: restore_ttls_def ints res)
qed

lemma restore_callbacks_dict:
  "restore_callbacks (present (job_table C r d m j)) k = Inr (k\<lparr>
    j_success_callback_name := keep (text_or_none (j_success_callback_name j)) (j_success_callback_name k),
    j_success_callback_timeout := keep (j_success_callback_timeout j) (j_success_callback_timeout k),
    j_failure_callback_name := keep (text_or_none (j_failure_callback_name j)) (j_failure_callback_name k),
    j_failure_callback_timeout := keep (j_failure_callback_timeout j) (j_failure_callback_timeout k),
    j_stopped_callback_name := keep (text_or_none (j_stopped_callback_name j)) (j_stopped_callback_name k),
    j_stopped_callback_timeout := keep (j_stopped_callback_timeout j) (j_stopped_callback_timeout k)\<rparr>)"
proof -
  let ?fs = "present (job_table C r d m j)"
  note look = fget_job_dict map_of_job_dict job_table_lookup
  have "read_opt to_int (map_of ?fs ''success_callback_timeout'') = Inr (j_success_callback_timeout j)"
    "read_opt to_int (map_of ?fs ''failure_callback_timeout'') = Inr (j_failure_callback_timeout j)"
    "read_opt to_int (map_of ?fs ''stopped_callback_timeout'') = Inr (j_stopped_callback_timeout j)"
    "fget ?fs ''success_callback_name'' = text_or_none (j_success_callback_name j)"
    "fget ?fs ''failure_callback_name'' = text_or_none (j_failure_callback_name j)"
    "fget ?fs ''stopped_callback_name'' = text_or_none (j_stopped_callback_name j)"
    by (simp_all add: look)
  then show ?thesis by (simp add: restore_callbacks_def)
qed

lemma restore_deps_dict:
  assumes "dump_meta C True j = Inr m" "truthy (j_meta j) \<longrightarrow> codec_keeps C (j_meta j)"
  shows "restore_deps C (present (job_table C r d m j)) k = Inr (k\<lparr>
    j_dependency_ids := j_dependency_ids j, j_allow_dependency_failures := j_allow_dependency_failures j,
    j_enqueue_at_front := j_enqueue_at_front j, j_ttl := (if j_ttl j = Some 0 then None else j_ttl j),
    j_meta := (if truthy (j_meta j) then j_meta j else PDict [])\<rparr>)"
proof -
  let ?fs = "present (job_table C r d m j)"
  note look = fget_job_dict map_of_job_dict job_table_lookup
  have deps: "(case fget ?fs ''dependency_ids'' of Some ids \<Rightarrow> to_list json_loads_strs ids
      | None \<Rightarrow> Inr (case fget ?fs ''dependency_id'' of Some i \<Rightarrow> [i] | None \<Rightarrow> [])) = Inr (j_dependency_ids j)"
    by (auto simp: look split: option.splits list.splits)
  have flags: "read_opt to_flag (fget ?fs ''allow_dependency_failures'') = Inr (j_allow_dependency_failures j)"
    "read_opt to_flag (map_of ?fs ''enqueue_at_front'') = Inr (j_enqueue_at_front j)"
    "read_opt to_int (fget ?fs ''ttl'') = Inr (if j_ttl j = Some 0 then None else j_ttl j)"
    by (auto simp: look split: option.splits)
  have meta: "(case fget ?fs ''meta'' of None \<Rightarrow> PDict []
      | Some x \<Rightarrow> (case loads C x of Some v \<Rightarrow> v | None \<Rightarrow> PDict [(''unserialized'', PBytes x)])) =
      (if truthy (j_meta j) then j_meta j else PDict [])"
    using assms by (auto simp: look dump_meta_def codec_keeps_def split: option.splits if_splits)
  show ?thesis by (simp add: restore_deps_def deps flags meta)
qed

lemma restore_retries_dict:
  assumes "\<forall>e. j_exc_info j = Some e \<longrightarrow> zip_keeps C e"
  shows "restore_retries C (present (job_table C True d m j)) k = Inr (k\<lparr>
    j_number_of_retries := j_number_of_retries j, j_retries_left := j_retries_left j,
    j_retry_intervals := keep (j_retry_intervals j) (j_retry_intervals k),
    j_enqueue_at_front_on_retry := j_enqueue_at_front_on_retry j, j_repeats_left := j_repeats_left j,
    j_repeat_intervals := keep (j_repeat_intervals j) (j_repeat_intervals k),
    j_exc_info := keep (j_exc_info j) (j_exc_info k)\<rparr>)"
proof -
  let ?fs = "present (job_table C True d m j)"
  note look = fget_job_dict map_of_job_dict job_table_lookup
  have ints: "read_opt to_int (fget ?fs ''number_of_retries'') = Inr (j_number_of_retries j)"
    "read_opt to_int (fget ?fs ''retries_left'') = Inr (j_retries_left j)"
    "read_opt (to_list json_loads_ints) (fget ?fs ''retry_intervals'') = Inr (j_retry_intervals j)"
    "read_opt to_int (fget ?fs ''repeats_left'') = Inr (j_repeats_left j)"
    "read_opt (to_list json_loads_ints) (fget ?fs ''repeat_intervals'') = Inr (j_repeat_intervals j)"
    by (auto simp: look split: option.splits)
  have front: "\<exists>f. read_opt to_flag (fget ?fs ''enqueue_at_front_on_retry'') = Inr f \<and>
      opt_default False f = j_enqueue_at_front_on_retry j"
    by (auto simp: look split: option.splits)
  then obtain f where f: "read_opt to_flag (fget ?fs ''enqueue_at_front_on_retry'') = Inr f"
    "opt_default False f = j_enqueue_at_front_on_retry j" by blast
  have exc: "map_option (unzip_or_raw C) (fget ?fs ''exc_info'') = j_exc_info j"
    using assms by (cases "j_exc_info j") (auto simp: look zip_keeps_def unzip_or_raw_def split: option.splits)
  show ?thesis by (simp add: restore_retries_def ints f exc)
qed

text \<open>The persisted form of a job whose values the codec keeps is restored on a fresh object.\<close>

definition storable :: "codec \<Rightarrow> job \<Rightarrow> bool" where
  "storable C j \<longleftrightarrow> dates_ok j \<and> (truthy (j_meta j) \<longrightarrow> codec_keeps C (j_meta j)) \<and>
     (j_result j \<noteq> PNone \<longrightarrow> codec_keeps C (j_result j)) \<and>
     (case j_exc_info j of None \<Rightarrow> True | Some e \<Rightarrow> zip_keeps C e)"

lemma keep_None [simp]: "keep x None = x"
  by (simp add: keep_def split: option.splits)

lemma restore_dict:
  assumes "storable C j" "zip_keeps C d" "dump_meta C True j = Inr m"
  shows "restore C t (present (job_table C True d m j)) (new_job (j_id j) t) = Inr (persisted d j)"
proof -
  let ?fs = "present (job_table C True d m j)"
  have data: "map_of ?fs ''data'' = Some (zcompress C d)"
    by (simp add: map_of_job_dict job_table_lookup)
  have raw: "unzip_or_raw C (zcompress C d) = d"
    using assms(2) by (simp add: unzip_or_raw_def zip_keeps_def)
  have dates: "dates_ok j" and meta: "truthy (j_meta j) \<longrightarrow> codec_keeps C (j_meta j)"
    and exc: "\<forall>e. j_exc_info j = Some e \<longrightarrow> zip_keeps C e"
    using assms(1) by (auto simp: storable_def)
  have res: "j_result j = PNone \<and> j_result k = PNone \<or> codec_keeps C (j_result j)" if "j_result k = PNone" for k
    using assms(1) that by (auto simp: storable_def)
  show ?thesis
    unfolding restore_def data option.case raw
    by (simp add: restore_times_dict [OF dates] restore_ttls_dict [OF res] restore_callbacks_dict
        restore_deps_dict [OF assms(3) meta] restore_retries_dict [OF exc] new_job_def set_data_def
        persisted_def)
qed

lemma get_data_fields:
  assumes "get_data C j = Inr (d, j')"
  shows "j' = j\<lparr>j_instance := j_instance j', j_args := j_args j', j_kwargs := j_kwargs j', j_data := Val d\<rparr>"
  using assms by (cases "j_data j") (auto simp: get_data_def split: if_splits option.splits)

lemma persisted_get_data:
  assumes "get_data C j = Inr (d, j')"
  shows "persisted d j' = persisted d j"
  by (subst get_data_fields [OF assms]) (simp add: persisted_def set_data_def)

lemma storable_get_data:
  assumes "get_data C j = Inr (d, j')"
  shows "storable C j' = storable C j"
  by (subst get_data_fields [OF assms]) (simp add: storable_def dates_ok_def)

lemma to_dict_Inr:
  assumes "to_dict C im ir j = Inr (fs, j')"
  obtains d m where "get_data C j = Inr (d, j')" "dump_meta C im j' = Inr m" "fs = present (job_table C ir d m j')"
  using assms by (auto simp: to_dict_def bindE_Inr_iff)

lemma present_distinct: "distinct (map fst tbl) \<Longrightarrow> distinct (map fst (present tbl))"
proof (induction tbl)
  case (Cons x tbl)
  have "fst ` set (present xs) \<subseteq> fst ` set xs" for xs
    by (auto simp: present_def split: option.splits) (force split: option.splits)
  then have "fst x \<notin> fst ` set (present tbl)" using Cons.prems by auto
  with Cons show ?case by (cases x) (auto simp: present_def split: option.splits)
qed (simp add: present_def)

lemma job_dict_nonempty: "present (job_table C r d m j) \<noteq> []"
  by (simp add: job_table_def present_def)

section \<open>Reading and writing the job hash\<close>

lemma map_of_rev_distinct: "distinct (map fst xs) \<Longrightarrow> map_of (rev xs) = map_of xs"
  by (rule map_of_eqI) (auto simp: rev_map [symmetric])

lemma restore_cong:
  assumes "map_of obj = map_of obj'"
  shows "restore C t obj j = restore C t obj' j"
proof -
  have f: "fget obj = fget obj'" using assms by (simp add: fget_def [abs_def])
  show ?thesis
    unfolding restore_def restore_times_def [abs_def] restore_ttls_def [abs_def] restore_callbacks_def [abs_def]
      restore_deps_def [abs_def] restore_retries_def [abs_def] f assms
    by (rule refl)
qed

lemma fetch_cong:
  assumes "hget R s (job_key (parse_job_id i)) = hget R s' (job_key (parse_job_id i))"
  shows "fetch C R s t i = fetch C R s' t i"
proof -
  let ?k = "job_key (parse_job_id i)"
  have m: "map_of (r_hash R s ?k) = map_of (r_hash R s' ?k)" using assms by (simp add: hget_def)
  then have "(r_hash R s ?k = []) = (r_hash R s' ?k = [])" by (metis map_of_eq_empty_iff)
  then have "refresh C R s t j = refresh C R s' t j" if "j_id j = parse_job_id i" for j
    using restore_cong [OF m] that by (simp add: refresh_def Let_def)
  then show ?thesis
    by (auto simp: fetch_def job_init_def new_job_def validate_job_id_def)
qed

lemma restore_no_data: "map_of obj ''data'' = None \<Longrightarrow> restore C t obj j = Inl NoSuchJobError"
  by (simp add: restore_def)

lemma fetch_valid:
  "valid_id i \<Longrightarrow> fetch C R s t i =
     (if r_hash R s (job_key i) = [] then Inl NoSuchJobError
      else restore C t (r_hash R s (job_key i)) (new_job i t))"
  by (simp add: fetch_def parse_job_id_valid job_init_def valid_id_def validate_job_id_def refresh_def
      new_job_def Let_def)

lemma restore_parts_id:
  "restore_times t obj j = Inr j' \<Longrightarrow> j_id j' = j_id j"
  "restore_ttls C obj j = Inr j' \<Longrightarrow> j_id j' = j_id j"
  "restore_callbacks obj j = Inr j' \<Longrightarrow> j_id j' = j_id j"
  "restore_deps C obj j = Inr j' \<Longrightarrow> j_id j' = j_id j"
  "restore_retries C obj j = Inr j' \<Longrightarrow> j_id j' = j_id j"
  by (auto simp: restore_times_def restore_ttls_def restore_callbacks_def restore_deps_def
      restore_retries_def bindE_Inr_iff)

lemma restore_id: "restore C t obj j = Inr j' \<Longrightarrow> j_id j' = j_id j"
  by (auto simp: restore_def bindE_Inr_iff dest!: restore_parts_id split: option.splits)

lemma fetch_id:
  assumes "fetch C R s t i = Inr j"
  shows "j_id j = parse_job_id i" "r_hash R s (job_key (parse_job_id i)) \<noteq> []"
proof -
  obtain j0 where j0: "job_init (Some (parse_job_id i)) [] t = Inr j0" "refresh C R s t j0 = Inr j"
    using assms by (auto simp: fetch_def bindE_Inr_iff)
  then have id0: "j_id j0 = parse_job_id i"
    by (auto simp: job_init_def new_job_def bindE_Inr_iff split: if_splits)
  with j0 show "r_hash R s (job_key (parse_job_id i)) \<noteq> []"
    by (auto simp: refresh_def Let_def split: if_splits)
  show "j_id j = parse_job_id i"
    using j0(2) id0 by (auto simp: refresh_def Let_def dest: restore_id split: if_splits)
qed

context redis_server
begin

lemma hash_hset: "hget R (r_run R (HSet k fs) s) = (hget R s)(k := hget R s k ++ map_of (rev fs))"
  by (simp add: hash_run)

lemma save_hash:
  assumes "save C im ir j = Inr (cs, j')" "to_dict C im ir j = Inr (fs, j'')"
  shows "hget R (run_all R cs s) = (hget R s)(job_key (j_id j) := hget R s (job_key (j_id j)) ++ map_of fs)"
proof -
  obtain d m where "fs = present (job_table C ir d m j'')" using assms(2) by (rule to_dict_Inr)
  then have "map_of (rev fs) = map_of fs"
    using map_of_rev_distinct [OF present_distinct [OF distinct_job_table]] by simp
  moreover have "cs = [HSet (job_key (j_id j)) fs]" using assms by (simp add: save_def)
  ultimately show ?thesis by (simp add: hash_hset)
qed

lemma fetch_after_save:
  assumes "valid_id (j_id j)" "r_hash R s (job_key (j_id j)) = []"
    and save: "save C True True j = Inr (cs, j')"
    and data: "get_data C j = Inr (d, j')"
    and ok: "storable C j" "zip_keeps C d"
  shows "fetch C R (run_all R cs s) t (j_id j) = Inr (persisted d j)"
proof -
  obtain fs where td: "to_dict C True True j = Inr (fs, j')" using save by (auto simp: save_def bindE_Inr_iff)
  then obtain m where m: "dump_meta C True j' = Inr m" "fs = present (job_table C True d m j')"
    using data by (auto simp: to_dict_def bindE_Inr_iff)
  let ?h = "r_hash R (run_all R cs s) (job_key (j_id j))"
  have "map_of ?h = map_of fs"
    using fun_cong [OF save_hash [OF save td, of s], of "job_key (j_id j)"] assms(2) by (simp add: hget_def)
  then have same: "restore C t ?h (new_job (j_id j) t) = restore C t fs (new_job (j_id j) t)"
    and ne: "?h \<noteq> []"
    using job_dict_nonempty [of C True d m j'] m(2) by (auto intro: restore_cong)
  have id: "j_id j' = j_id j" using get_data_id [OF data] by simp
  have "restore C t fs (new_job (j_id j') t) = Inr (persisted d j')"
    unfolding m(2) using restore_dict [OF _ ok(2) m(1)] ok(1) storable_get_data [OF data] by simp
  then show ?thesis
    using assms(1) ne same id persisted_get_data [OF data] by (simp add: fetch_valid)
qed

text \<open>A status written to a job that is gone leaves a hash that no fetch accepts.\<close>

lemma set_status_deleted:
  assumes "valid_id (j_id j)" "r_hash R s (job_key (j_id j)) = []"
  shows "fetch C R (run_all R (fst (set_status st j)) s) t (j_id j) = Inl NoSuchJobError"
proof -
  let ?s = "run_all R (fst (set_status st j)) s"
  have "map_of (r_hash R ?s (job_key (j_id j))) = [''status'' \<mapsto> status_text st]"
    using hash_hset [of "job_key (j_id j)" "[(''status'', status_text st)]" s] assms(2)
    by (simp add: set_status_def hget_def fun_eq_iff)
  then show ?thesis using assms(1) by (simp add: fetch_valid restore_no_data)
qed

lemma get_status_set_status:
  "get_status R (run_all R (fst (set_status st j)) s) (j_id j) = Inr st"
  by (simp add: set_status_def get_status_def hash_hset)

end

lemma fetch_many_length: "fetch_many C R s t ids = Inr js \<Longrightarrow> length js = length ids"
  by (auto simp: fetch_many_def dest: mapE_Inr_length)

lemma mapE_Inl: "x \<in> set xs \<Longrightarrow> f x = Inl e \<Longrightarrow> \<exists>e'. mapE f xs = Inl e'"
  by (induction xs) (auto simp: bindE_Inl_iff bindE_def split: sum.splits)

lemma fetch_many_partial_hash:
  assumes "i \<in> set ids" "valid_id (parse_job_id i)" "r_hash R s (job_key (parse_job_id i)) \<noteq> []"
    "hget R s (job_key (parse_job_id i)) ''data'' = None"
  shows "\<exists>e. fetch_many C R s t ids = Inl e"
proof -
  have "fetch_one C R s t (parse_job_id i) = Inl NoSuchJobError"
    using assms(2-4)
    by (simp add: fetch_one_def Let_def job_init_def valid_id_def validate_job_id_def hget_def restore_no_data)
  then show ?thesis unfolding fetch_many_def using assms(1) by (intro mapE_Inl) auto
qed

section \<open>Properties\<close>

text \<open>A job and a server for the examples.\<close>

definition sample_job :: "string \<Rightarrow> job" where
  "sample_job i = (new_job i 0)\<lparr>j_func_name := Val (PStr ''m.f''), j_origin := ''q''\<rparr>"

lemma sample_get_data:
  "get_data sample_codec (sample_job i) =
     Inr (''p'', (sample_job i)\<lparr>j_instance := Val PNone, j_args := Val (PTuple []), j_kwargs := Val (PDict []), j_data := Val ''p''\<rparr>)"
  by (simp add: get_data_def sample_codec_def sample_job_def new_job_def or_val_def)

lemma sample_job_simps [simp]:
  "j_id (sample_job i) = i" "j_status (sample_job i) = CREATED" "j_ttl (sample_job i) = None"
  "j_origin (sample_job i) = ''q''" "j_dependency_ids (sample_job i) = []" "j_meta (sample_job i) = PDict []"
  "j_result (sample_job i) = PNone" "j_exc_info (sample_job i) = None" "j_created_at (sample_job i) = 0"
  "j_enqueued_at (sample_job i) = None" "j_started_at (sample_job i) = None" "j_ended_at (sample_job i) = None"
  "j_last_heartbeat (sample_job i) = None" "j_func_name (sample_job i) = Val (PStr ''m.f'')"
  "j_description (sample_job i) = None" "j_data (sample_job i) = UNEVALUATED"
  "j_allow_dependency_failures (sample_job i) = None" "j_timeout (sample_job i) = None"
  "j_retries_left (sample_job i) = None" "j_group_id (sample_job i) = None"
  by (simp_all add: sample_job_def new_job_def)

lemma year_of_0 [simp]: "year_of 0 = 1970"
  by (simp add: year_of_def civil_of_days_def civil_year.simps [of 1970 0] year_len_def split: prod.splits)

lemma sample_storable: "storable sample_codec (sample_job i)" "zip_keeps sample_codec ''p''"
  by (simp_all add: storable_def dates_ok_def zip_keeps_def sample_codec_def truthy_def)

lemma mem_empty_views [simp]:
  "r_list mem_redis mem_empty k = []" "r_hash mem_redis mem_empty k = []" "r_set mem_redis mem_empty k = []"
  "r_zset mem_redis mem_empty k = []" "r_str mem_redis mem_empty k = None" "r_stream mem_redis mem_empty k = []"
  "hget mem_redis mem_empty k = Map.empty" "sset mem_redis mem_empty k = {}" "zscore mem_redis mem_empty k = Map.empty"
  "key_exists mem_redis mem_empty k = False"
  by (simp_all add: mem_redis_def mem_empty_def znorm_def hget_def sset_def zscore_def key_exists_def)

lemma save_succeeds:
  assumes "get_data C j = Inr (d, j')" "storable C j"
  shows "\<exists>cs. save C True True j = Inr (cs, j')"
proof -
  have "storable C j'" using assms storable_get_data by simp
  then have "\<exists>m. dump_meta C True j' = Inr m"
    by (auto simp: dump_meta_def storable_def codec_keeps_def split: option.splits)
  then show ?thesis using assms(1) by (auto simp: save_def to_dict_def)
qed

text \<open>
  C6. A job whose values the serializer keeps can be saved, and \<open>fetch\<close> then builds an object with all
  its attributes: the payload unevaluated, an empty text or a zero \<open>ttl\<close> read as None and a false
  \<open>meta\<close> as the empty dictionary, and every other attribute exactly as saved.
\<close>

theorem job_roundtrip:
  assumes "redis_server R" "valid_id (j_id j)" "r_hash R s (job_key (j_id j)) = []"
    and "get_data C j = Inr (d, j')" "storable C j" "zip_keeps C d"
  shows "\<exists>cs. save C True True j = Inr (cs, j') \<and> fetch C R (run_all R cs s) t (j_id j) = Inr (persisted d j)"
proof -
  obtain cs where cs: "save C True True j = Inr (cs, j')" using save_succeeds [OF assms(4,5)] by blast
  then show ?thesis using redis_server.fetch_after_save [OF assms(1-3) cs assms(4-6)] by blast
qed

theorem job_roundtrip_witness:
  "\<exists>cs j'. save sample_codec True True (sample_job ''a'') = Inr (cs, j') \<and>
     fetch sample_codec mem_redis (run_all mem_redis cs mem_empty) 7 ''a'' = Inr (persisted ''p'' (sample_job ''a''))"
proof -
  have "valid_id ''a''" by code_simp
  then show ?thesis
    using job_roundtrip [OF mem.redis_server_axioms, of "sample_job ''a''" mem_empty]
      sample_get_data [of "''a''"] sample_storable by fastforce
qed

context redis_server
begin

lemma set_status_partial:
  fixes s :: 's and j st
  assumes "r_hash R s (job_key (j_id j)) = []"
  defines "s' \<equiv> run_all R (fst (set_status st j)) s"
  shows "hget R s' (job_key (j_id j)) = [''status'' \<mapsto> status_text st]" "job_exists R s' (j_id j)"
proof -
  show h: "hget R s' (job_key (j_id j)) = [''status'' \<mapsto> status_text st]"
    using assms by (simp add: s'_def set_status_def hash_hset hash_empty_iff)
  show "job_exists R s' (j_id j)" unfolding job_exists_def key_exists_iff h by simp
qed

lemma fetch_many_status_only:
  assumes "hget R s (job_key i) = [''status'' \<mapsto> v]" "valid_id i" "i \<in> set ids"
  shows "\<exists>e. fetch_many C R s t ids = Inl e"
  using assms by (intro fetch_many_partial_hash [of i]) (auto simp: parse_job_id_valid hash_empty_iff)

end

text \<open>
  Writing the status of a job that has been deleted brings back a hash with nothing but the status.
  \<open>fetch\<close> says the job does not exist although \<open>exists\<close> is true again, and \<open>fetch_many\<close> of any list
  of ids with this one among them raises instead of returning the other jobs.
\<close>

theorem status_of_deleted_job:
  assumes "redis_server R" "valid_id (j_id j)" "r_hash R s (job_key (j_id j)) = []" "j_id j \<in> set ids"
  shows "fetch C R (run_all R (fst (set_status st j)) s) t (j_id j) = Inl NoSuchJobError \<and>
    (\<exists>e. fetch_many C R (run_all R (fst (set_status st j)) s) t ids = Inl e) \<and>
    job_exists R (run_all R (fst (set_status st j)) s) (j_id j)"
  using redis_server.set_status_deleted [OF assms(1-3)]
    redis_server.fetch_many_status_only [OF assms(1) redis_server.set_status_partial(1) [OF assms(1,3)] assms(2,4)]
    redis_server.set_status_partial(2) [OF assms(1,3)] by blast

theorem status_of_deleted_job_witness:
  "\<exists>e. fetch_many sample_codec mem_redis (run_all mem_redis (fst (set_status FAILED (sample_job ''a''))) mem_empty) 7
     [''b'', ''a''] = Inl e"
proof -
  have "valid_id ''a''" by code_simp
  then show ?thesis
    using status_of_deleted_job [OF mem.redis_server_axioms, of "sample_job ''a''" mem_empty "[''b'', ''a'']"
        sample_codec FAILED 7] by simp
qed

end
