(* ===== verification/Registry.thy ===== *)
theory Registry
  imports JobStore
begin

text \<open>
  The job registries (\<open>rq/registry.py\<close>) as far as they only touch their own sorted set: adding with an
  expiry time, removing, reading by range and by score, expiry, the composite entries of
  StartedJobRegistry, and scheduling. A registry is its kind and the name of its queue. The
  operations that also change jobs (\<open>requeue\<close>, \<open>cleanup\<close> of started jobs, \<open>FailedJobRegistry.add\<close>)
  are in \<open>JobOps\<close>. The locale \<open>expiring_set\<close> is the contract the rest of the code uses.
\<close>

section \<open>Operations\<close>

text \<open>The score of an entry: \<open>now + ttl\<close>, a negative \<open>ttl\<close> itself, and \<open>+inf\<close> for -1.\<close>

definition expiry_score :: "datetime \<Rightarrow> int \<Rightarrow> score" where
  "expiry_score t ttl =
     (let score = (if ttl < 0 then ttl else current_timestamp t + ttl) in if score = - 1 then PInf else Fin score)"

definition xx_flag :: "bool \<Rightarrow> zflag" where
  "xx_flag xx = (if xx then ZXX else ZAny)"

definition reg_add :: "reg_kind \<Rightarrow> string \<Rightarrow> string \<Rightarrow> int \<Rightarrow> bool \<Rightarrow> datetime \<Rightarrow> cmd list" where
  "reg_add d q i ttl xx t = [ZAdd (xx_flag xx) (registry_key d q) i (expiry_score t ttl)]"

definition deferred_add :: "string \<Rightarrow> string \<Rightarrow> bool \<Rightarrow> datetime \<Rightarrow> cmd list" where
  "deferred_add q i xx t = [ZAdd (xx_flag xx) (registry_key Deferred q) i (Fin (current_timestamp t))]"

definition reg_remove :: "reg_kind \<Rightarrow> string \<Rightarrow> string \<Rightarrow> cmd list" where
  "reg_remove d q i = [ZRem (registry_key d q) [i]]"

text \<open>The number ZREM replies for one member.\<close>

definition zrem_count :: "'s redis \<Rightarrow> 's \<Rightarrow> key \<Rightarrow> string \<Rightarrow> nat" where
  "zrem_count R s k i = (if zscore R s k i = None then 0 else 1)"

text \<open>\<open>parse_job_id\<close>: entries of StartedJobRegistry are composite keys.\<close>

definition entry_job_id :: "reg_kind \<Rightarrow> string \<Rightarrow> string res" where
  "entry_job_id d e = (if d = Started then bindE (parse_composite_key e) (\<lambda>(i, _). Inr i) else Inr e)"

definition get_expired_job_ids :: "'s redis \<Rightarrow> 's \<Rightarrow> reg_kind \<Rightarrow> string \<Rightarrow> int \<Rightarrow> string list res" where
  "get_expired_job_ids R s d q ts =
     (if d = Canceled then Inl NotImplementedError
      else mapE (entry_job_id d) (zrangebyscore R s (registry_key d q) ts))"

text \<open>ZRANGE by rank, from \<open>start\<close> to \<open>stop\<close> inclusive; negative ranks count from the end.\<close>

definition rank_range :: "int \<Rightarrow> int \<Rightarrow> 'a list \<Rightarrow> 'a list" where
  "rank_range start stop xs =
     (let n = int (length xs);
          a = (if start < 0 then max (n + start) 0 else start);
          b = (if stop < 0 then n + stop else min stop (n - 1))
      in if a > b then [] else take (nat (b - a + 1)) (drop (nat a) xs))"

definition zrange :: "'s redis \<Rightarrow> 's \<Rightarrow> key \<Rightarrow> int \<Rightarrow> int \<Rightarrow> bool \<Rightarrow> string list" where
  "zrange R s k start stop desc =
     rank_range start stop (map fst (if desc then rev (r_zset R s k) else r_zset R s k))"

text \<open>
  \<open>cleanup\<close> of the registries whose entries just expire; the others keep theirs, but for that of the started jobs, whose
  cleanup moves jobs. Reading a registry with its cleanup is here for all but the started jobs; for every registry it is in \<open>Views\<close>.
\<close>

definition expire_entries :: "reg_kind \<Rightarrow> string \<Rightarrow> int \<Rightarrow> cmd list" where
  "expire_entries d q ts =
     (if d = Finished \<or> d = Failed then [ZRemRangeByScore (registry_key d q) ts] else [])"

definition reg_job_ids :: "'s redis \<Rightarrow> 's \<Rightarrow> reg_kind \<Rightarrow> string \<Rightarrow> int \<Rightarrow> int \<Rightarrow> bool \<Rightarrow> string list res" where
  "reg_job_ids R s d q start stop desc =
     mapE (entry_job_id d) (zrange R s (registry_key d q) start stop desc)"

definition get_job_ids ::
  "'s redis \<Rightarrow> 's \<Rightarrow> reg_kind \<Rightarrow> string \<Rightarrow> int \<Rightarrow> int \<Rightarrow> bool \<Rightarrow> datetime \<Rightarrow> string list res \<times> 's" where
  "get_job_ids R s d q start stop desc t =
     (let s' = run_all R (expire_entries d q (current_timestamp t)) s
      in (reg_job_ids R s' d q start stop desc, s'))"

definition get_job_count :: "'s redis \<Rightarrow> 's \<Rightarrow> reg_kind \<Rightarrow> string \<Rightarrow> datetime \<Rightarrow> nat \<times> 's" where
  "get_job_count R s d q t =
     (let s' = run_all R (expire_entries d q (current_timestamp t)) s
      in (length (r_zset R s' (registry_key d q)), s'))"

definition reg_contains :: "'s redis \<Rightarrow> 's \<Rightarrow> reg_kind \<Rightarrow> string \<Rightarrow> string \<Rightarrow> bool res" where
  "reg_contains R s d q i =
     (if d = Started then bindE (reg_job_ids R s d q 0 (- 1) False) (\<lambda>ids. Inr (i \<in> set ids))
      else Inr (zscore R s (registry_key d q) i \<noteq> None))"

definition get_expiration_time :: "'s redis \<Rightarrow> 's \<Rightarrow> reg_kind \<Rightarrow> string \<Rightarrow> string \<Rightarrow> int res" where
  "get_expiration_time R s d q i =
     (case zscore R s (registry_key d q) i of
        Some (Fin n) \<Rightarrow> Inr n
      | Some PInf \<Rightarrow> Inl OverflowError
      | None \<Rightarrow> Inl TypeError)"

subsection \<open>Started jobs\<close>

definition add_execution :: "string \<Rightarrow> string \<Rightarrow> int \<Rightarrow> bool \<Rightarrow> datetime \<Rightarrow> cmd list" where
  "add_execution q ck ttl xx t = [ZAdd (xx_flag xx) (registry_key Started q) ck (expiry_score t ttl)]"

definition remove_execution :: "string \<Rightarrow> string \<Rightarrow> cmd list" where
  "remove_execution q ck = [ZRem (registry_key Started q) [ck]]"

definition get_job_and_execution_ids :: "'s redis \<Rightarrow> 's \<Rightarrow> string \<Rightarrow> int \<Rightarrow> int \<Rightarrow> bool \<Rightarrow> (string \<times> string) list res" where
  "get_job_and_execution_ids R s q start stop desc =
     mapE parse_composite_key (zrange R s (registry_key Started q) start stop desc)"

subsection \<open>Scheduled jobs\<close>

text \<open>
  \<open>schedule\<close> sends its ZADD on the registry's connection, not on the pipeline it is given. A naive
  datetime has first been moved to UTC (\<open>offset\<close> is the local zone's, in seconds).
\<close>

definition to_utc :: "int option \<Rightarrow> datetime \<Rightarrow> int" where
  "to_utc offset t = (case offset of None \<Rightarrow> current_timestamp t | Some z \<Rightarrow> current_timestamp t - z)"

definition schedule_cmd :: "string \<Rightarrow> string \<Rightarrow> int \<Rightarrow> cmd" where
  "schedule_cmd q i ts = ZAdd ZAny (registry_key Scheduled q) i (Fin ts)"

definition schedule :: "'s redis \<Rightarrow> string \<Rightarrow> string \<Rightarrow> int option \<Rightarrow> datetime \<Rightarrow> 's \<Rightarrow> 's" where
  "schedule R q i offset t s = r_run R (schedule_cmd q i (to_utc offset t)) s"

definition remove_jobs :: "string \<Rightarrow> int \<Rightarrow> cmd list" where
  "remove_jobs q ts = [ZRemRangeByScore (registry_key Scheduled q) ts]"

definition get_jobs_to_schedule :: "'s redis \<Rightarrow> 's \<Rightarrow> string \<Rightarrow> int \<Rightarrow> int \<Rightarrow> string list" where
  "get_jobs_to_schedule R s q ts chunk =
     (let due = zrangebyscore R s (registry_key Scheduled q) ts in if chunk < 0 then due else take (nat chunk) due)"

definition get_scheduled_time :: "'s redis \<Rightarrow> 's \<Rightarrow> string \<Rightarrow> string \<Rightarrow> int res" where
  "get_scheduled_time R s q i =
     (case zscore R s (registry_key Scheduled q) i of
        None \<Rightarrow> Inl NoSuchJobError
      | Some (Fin n) \<Rightarrow> if n = 0 then Inl NoSuchJobError else Inr n
      | Some PInf \<Rightarrow> Inl OverflowError)"

section \<open>The contract of an expiring set\<close>

text \<open>
  What the clients of a registry rely on: \<open>expiry\<close> is the score of a member, \<open>add\<close> sets it, \<open>remove\<close>
  clears it, and \<open>sweep ts\<close> drops exactly the members whose score lies between 0 and \<open>ts\<close>.
\<close>

locale expiring_set =
  fixes expiry :: "'st \<Rightarrow> string \<Rightarrow> score option"
    and add :: "string \<Rightarrow> score \<Rightarrow> 'st \<Rightarrow> 'st"
    and remove :: "string \<Rightarrow> 'st \<Rightarrow> 'st"
    and sweep :: "int \<Rightarrow> 'st \<Rightarrow> 'st"
  assumes expiry_add: "expiry (add i x s) = (expiry s)(i \<mapsto> x)"
    and expiry_remove: "expiry (remove i s) = (expiry s)(i := None)"
    and expiry_sweep: "expiry (sweep ts s) i =
      (case expiry s i of None \<Rightarrow> None | Some x \<Rightarrow> if Fin 0 \<le> x \<and> x \<le> Fin ts then None else Some x)"
begin

definition member :: "'st \<Rightarrow> string \<Rightarrow> bool" where
  "member s i \<longleftrightarrow> expiry s i \<noteq> None"

lemma member_add [simp]: "member (add i x s) k \<longleftrightarrow> k = i \<or> member s k"
  by (simp add: member_def expiry_add)

lemma member_remove [simp]: "member (remove i s) k \<longleftrightarrow> k \<noteq> i \<and> member s k"
  by (simp add: member_def expiry_remove)

lemma sweep_subset: "member (sweep ts s) i \<Longrightarrow> member s i"
  by (auto simp: member_def expiry_sweep split: option.splits)

lemma sweep_keeps_later: "expiry s i = Some x \<Longrightarrow> Fin ts < x \<Longrightarrow> expiry (sweep ts s) i = Some x"
  by (auto simp: expiry_sweep)

lemma sweep_drops_expired:
  "expiry s i = Some x \<Longrightarrow> Fin 0 \<le> x \<Longrightarrow> x \<le> Fin ts \<Longrightarrow> \<not> member (sweep ts s) i"
  by (simp add: member_def expiry_sweep)

text \<open>Sweeping at increasing times is sweeping once at the last one.\<close>

lemma sweep_sweep:
  assumes "a \<le> b"
  shows "expiry (sweep b (sweep a s)) = expiry (sweep b s)"
proof
  have "x \<le> Fin a \<Longrightarrow> x \<le> Fin b" for x using assms by (cases x) auto
  then show "expiry (sweep b (sweep a s)) i = expiry (sweep b s) i" for i
    by (auto simp: expiry_sweep split: option.splits)
qed

lemma fold_sweep_survives:
  "expiry s i = Some x \<Longrightarrow> (\<forall>ts \<in> set tss. Fin ts < x) \<Longrightarrow> expiry (fold sweep tss s) i = Some x"
  by (induction tss arbitrary: s) (auto simp: sweep_keeps_later)

lemma fold_sweep_gone: "\<not> member s i \<Longrightarrow> \<not> member (fold sweep tss s) i"
  by (induction tss arbitrary: s) (auto dest: sweep_subset)

text \<open>A member survives a sequence of sweeps when its score is out of the range of each.\<close>

lemma member_fold_sweep:
  "expiry s i = Some x \<Longrightarrow> member (fold sweep tss s) i \<longleftrightarrow> (\<forall>ts \<in> set tss. \<not> (Fin 0 \<le> x \<and> x \<le> Fin ts))"
proof (induction tss arbitrary: s)
  case (Cons ts tss)
  show ?case
  proof (cases "Fin 0 \<le> x \<and> x \<le> Fin ts")
    case True
    then have "\<not> member (sweep ts s) i" using sweep_drops_expired [OF Cons.prems] by blast
    with True show ?thesis using fold_sweep_gone by auto
  next
    case False
    then have "expiry (sweep ts s) i = Some x" using Cons.prems by (simp add: expiry_sweep)
    then show ?thesis using Cons.IH False by auto
  qed
qed (simp add: member_def)

end

text \<open>Every registry of the code meets the contract on every server.\<close>

context redis_server
begin

lemma zscore_zadd:
  "zscore R (r_run R (ZAdd ZAny k i x) s) = (zscore R s)(k := (zscore R s k)(i \<mapsto> x))"
  by (simp add: zset_run)

lemma zscore_zrem:
  "zscore R (r_run R (ZRem k [i]) s) = (zscore R s)(k := (zscore R s k)(i := None))"
  by (auto simp: zset_run fun_eq_iff restrict_map_def)

lemma zscore_sweep:
  "zscore R (r_run R (ZRemRangeByScore k ts) s) k i =
     (case zscore R s k i of None \<Rightarrow> None | Some x \<Rightarrow> if Fin 0 \<le> x \<and> x \<le> Fin ts then None else Some x)"
  by (simp add: zset_run)

end

sublocale redis_server \<subseteq> reg: expiring_set
  "\<lambda>s. zscore R s (registry_key d q)"
  "\<lambda>i x. r_run R (ZAdd ZAny (registry_key d q) i x)"
  "\<lambda>i. run_all R (reg_remove d q i)"
  "\<lambda>ts. r_run R (ZRemRangeByScore (registry_key d q) ts)"
  for d q
  by unfold_locales (simp_all add: zscore_zadd zscore_zrem zscore_sweep reg_remove_def)

section \<open>Properties\<close>

lemma mapE_Inr_id: "mapE Inr xs = Inr xs"
  by (induction xs) simp_all

context redis_server
begin

lemma zrange_all_members:
  "set (map fst (r_zset R s k)) = dom (zscore R s k)" "distinct (map fst (r_zset R s k))"
  by (simp_all add: zscore_def dom_map_of_conv_image_fst zset_distinct)

lemma get_job_ids_sweep:
  assumes "d = Finished \<or> d = Failed"
  shows "\<exists>ids s'. get_job_ids R s d q 0 (- 1) desc t = (Inr ids, s') \<and> distinct ids \<and>
    set ids = {i. \<exists>x. zscore R s (registry_key d q) i = Some x \<and> \<not> (Fin 0 \<le> x \<and> x \<le> Fin (current_timestamp t))} \<and>
    dom (zscore R s' (registry_key d q)) = set ids \<and>
    (\<forall>k. k \<noteq> registry_key d q \<longrightarrow> zscore R s' k = zscore R s k)"
proof -
  let ?k = "registry_key d q"
  let ?s = "r_run R (ZRemRangeByScore ?k (current_timestamp t)) s"
  let ?ids = "map fst (if desc then rev (r_zset R ?s ?k) else r_zset R ?s ?k)"
  have "reg_job_ids R ?s d q 0 (- 1) desc = mapE Inr (zrange R ?s ?k 0 (- 1) desc)"
    using assms by (auto simp: reg_job_ids_def entry_job_id_def [abs_def])
  also have "\<dots> = Inr ?ids" by (simp add: mapE_Inr_id zrange_def rank_range_def)
  finally have run: "get_job_ids R s d q 0 (- 1) desc t = (Inr ?ids, ?s)"
    using assms by (auto simp: get_job_ids_def expire_entries_def Let_def)
  have ids: "set ?ids = dom (zscore R ?s ?k)" "distinct ?ids"
    using zrange_all_members [of ?s ?k] by (simp_all add: rev_map [symmetric])
  have "dom (zscore R ?s ?k) = {i. \<exists>x. zscore R s ?k i = Some x \<and> \<not> (Fin 0 \<le> x \<and> x \<le> Fin (current_timestamp t))}"
  proof (rule set_eqI)
    show "i \<in> dom (zscore R ?s ?k) \<longleftrightarrow>
        i \<in> {i. \<exists>x. zscore R s ?k i = Some x \<and> \<not> (Fin 0 \<le> x \<and> x \<le> Fin (current_timestamp t))}" for i
      by (cases "zscore R s ?k i") (simp_all add: zscore_sweep domIff)
  qed
  moreover have "\<forall>k. k \<noteq> ?k \<longrightarrow> zscore R ?s k = zscore R s k" by (simp add: zset_run)
  ultimately show ?thesis by (intro exI [of _ ?ids] exI [of _ ?s] conjI run ids(2)) (simp_all only: ids(1))
qed

lemma reg_entry_lifetime:
  assumes "d = Finished \<or> d = Failed"
  shows "zscore R (fold (\<lambda>ts. run_all R (expire_entries d q ts)) tss (run_all R (reg_add d q i ttl False t) s))
      (registry_key d q) i \<noteq> None \<longleftrightarrow> ttl < 0 \<or> (\<forall>ts \<in> set tss. ts < current_timestamp t + ttl)"
proof -
  let ?k = "registry_key d q"
  have sweep: "(\<lambda>ts. run_all R (expire_entries d q ts)) = (\<lambda>ts. r_run R (ZRemRangeByScore ?k ts))"
    using assms by (auto simp: expire_entries_def fun_eq_iff)
  have add: "zscore R (run_all R (reg_add d q i ttl False t) s) ?k i = Some (expiry_score t ttl)"
    by (simp add: reg_add_def xx_flag_def zset_run)
  have now: "0 \<le> current_timestamp t" by (simp add: current_timestamp_def)
  have "Fin 0 \<le> expiry_score t ttl \<and> expiry_score t ttl \<le> Fin ts \<longleftrightarrow> \<not> (ttl < 0 \<or> ts < current_timestamp t + ttl)" for ts
    using now by (auto simp: expiry_score_def Let_def)
  then show ?thesis
    using reg.member_fold_sweep [where d = d and q = q, OF add, of tss] unfolding sweep reg.member_def by auto
qed

end

text \<open>
  The registries of finished and failed jobs expire exactly: listing one at time \<open>t\<close> returns,
  without repetition, the entries whose score is not between 0 and now, leaves exactly those in the
  registry, and touches no other.
\<close>

theorem registry_listing_exact:
  assumes "redis_server R" "d = Finished \<or> d = Failed"
  shows "\<exists>ids s'. get_job_ids R s d q 0 (- 1) desc t = (Inr ids, s') \<and> distinct ids \<and>
    set ids = {i. \<exists>x. zscore R s (registry_key d q) i = Some x \<and> \<not> (Fin 0 \<le> x \<and> x \<le> Fin (current_timestamp t))} \<and>
    dom (zscore R s' (registry_key d q)) = set ids \<and>
    (\<forall>k. k \<noteq> registry_key d q \<longrightarrow> zscore R s' k = zscore R s k)"
  by (rule redis_server.get_job_ids_sweep [OF assms])

theorem registry_listing_exact_witness:
  "\<exists>ids s'. get_job_ids mem_redis (run_all mem_redis (reg_add Failed ''q'' ''a'' (- 1) False 0) mem_empty) Failed ''q'' 0 (- 1)
     True 9000000 = (Inr ids, s') \<and> set ids = {''a''}"
proof -
  let ?s = "run_all mem_redis (reg_add Failed ''q'' ''a'' (- 1) False 0) mem_empty"
  have z: "zscore mem_redis ?s (registry_key Failed ''q'') = [''a'' \<mapsto> PInf]"
    by (simp add: reg_add_def xx_flag_def expiry_score_def mem.zset_run)
  obtain ids s' where "get_job_ids mem_redis ?s Failed ''q'' 0 (- 1) True 9000000 = (Inr ids, s')"
    "set ids = {i. \<exists>x. zscore mem_redis ?s (registry_key Failed ''q'') i = Some x \<and> \<not> (Fin 0 \<le> x \<and> x \<le> Fin (current_timestamp 9000000))}"
    using registry_listing_exact [OF mem.redis_server_axioms, of Failed ?s "''q''" True 9000000] by blast
  moreover have "{i. \<exists>x. zscore mem_redis ?s (registry_key Failed ''q'') i = Some x \<and>
      \<not> (Fin 0 \<le> x \<and> x \<le> Fin (current_timestamp 9000000))} = {''a''}"
    unfolding z by auto
  ultimately show ?thesis by auto
qed

text \<open>
  How long an entry of the finished or failed registry stays: one added with a negative ttl is never
  expired, and one added with \<open>ttl\<close> seconds survives any sequence of cleanups up to the second before
  \<open>now + ttl\<close> and is gone after the first one at or past it.
\<close>

theorem registry_entry_lifetime:
  assumes "redis_server R" "d = Finished \<or> d = Failed"
  shows "zscore R (fold (\<lambda>ts. run_all R (expire_entries d q ts)) tss (run_all R (reg_add d q i ttl False t) s))
      (registry_key d q) i \<noteq> None \<longleftrightarrow> ttl < 0 \<or> (\<forall>ts \<in> set tss. ts < current_timestamp t + ttl)"
  by (rule redis_server.reg_entry_lifetime [OF assms])

theorem registry_entry_lifetime_witness:
  "zscore mem_redis (fold (\<lambda>ts. run_all mem_redis (expire_entries Finished ''q'' ts)) [499, 500]
     (run_all mem_redis (reg_add Finished ''q'' ''a'' 500 False 0) mem_empty)) (registry_key Finished ''q'') ''a'' = None"
  using registry_entry_lifetime [OF mem.redis_server_axioms, of Finished "''q''" "[499, 500]" "''a''" 500 0 mem_empty]
  by (simp add: current_timestamp_def)

end
