(* ===== verification/Results.thy ===== *)
theory Results
  imports Registry
begin

text \<open>
  Job results (\<open>rq/results.py\<close>): one stream entry per execution. \<open>serialize\<close> writes the payload of an
  entry, \<open>restore\<close> reads it, and \<open>save\<close> appends it to the stream of the job, which the server trims
  to about ten entries. The id and the creation time of a result are those of the stream entry; the
  model reads payloads only. Base64 is modelled, with its round trip.
\<close>

section \<open>Base64\<close>

definition b64_char :: "nat \<Rightarrow> char" where
  "b64_char d =
     (if d < 26 then char_of (65 + d) else if d < 52 then char_of (71 + d) else if d < 62 then char_of (d - 4)
      else if d = 62 then CHR ''+'' else CHR ''/'')"

definition b64_val :: "char \<Rightarrow> nat option" where
  "b64_val c =
     (let n = of_char c :: nat in
      if 65 \<le> n \<and> n \<le> 90 then Some (n - 65)
      else if 97 \<le> n \<and> n \<le> 122 then Some (n - 71)
      else if 48 \<le> n \<and> n \<le> 57 then Some (n + 4)
      else if n = 43 then Some 62
      else if n = 47 then Some 63
      else None)"

abbreviation byte :: "char \<Rightarrow> nat" where
  "byte c \<equiv> of_char c"

fun b64encode :: "string \<Rightarrow> string" where
  "b64encode [] = []"
| "b64encode [a] = [b64_char (byte a div 4), b64_char (byte a mod 4 * 16), CHR ''='', CHR ''='']"
| "b64encode [a, b] =
     [b64_char (byte a div 4), b64_char (byte a mod 4 * 16 + byte b div 16), b64_char (byte b mod 16 * 4), CHR ''='']"
| "b64encode (a # b # c # s) =
     b64_char (byte a div 4) # b64_char (byte a mod 4 * 16 + byte b div 16)
       # b64_char (byte b mod 16 * 4 + byte c div 64) # b64_char (byte c mod 64) # b64encode s"

text \<open>The decoder, on texts the encoder writes; anything else is an error.\<close>

fun b64decode :: "string \<Rightarrow> string option" where
  "b64decode [] = Some []"
| "b64decode (w # x # y # z # s) =
     (case (b64_val w, b64_val x) of
        (Some p, Some q) \<Rightarrow>
          if y = CHR ''='' \<and> z = CHR ''='' \<and> s = [] then Some [char_of (p * 4 + q div 16)]
          else
            (case b64_val y of
               None \<Rightarrow> None
             | Some r \<Rightarrow>
                 if z = CHR ''='' \<and> s = []
                 then Some [char_of (p * 4 + q div 16), char_of (q mod 16 * 16 + r div 4)]
                 else
                   (case b64_val z of
                      None \<Rightarrow> None
                    | Some u \<Rightarrow>
                        map_option (\<lambda>t. char_of (p * 4 + q div 16) # char_of (q mod 16 * 16 + r div 4)
                            # char_of (r mod 4 * 64 + u) # t) (b64decode s)))
      | _ \<Rightarrow> None)"
| "b64decode _ = None"

lemma b64_val_char: "d < 64 \<Longrightarrow> b64_val (b64_char d) = Some d"
  by (auto simp: b64_val_def b64_char_def Let_def of_char_of)

lemma b64_char_not_pad: "d < 64 \<Longrightarrow> b64_char d \<noteq> CHR ''=''"
proof
  assume "d < 64" "b64_char d = CHR ''=''"
  then have "b64_val (CHR ''='') = Some d" using b64_val_char by metis
  then show False by (simp add: b64_val_def)
qed

lemma byte_less: "byte c < 256"
  by simp

lemma sextets:
  fixes a b c :: nat
  assumes "a < 256" "b < 256" "c < 256"
  shows "a div 4 < 64" "a mod 4 * 16 + b div 16 < 64" "b mod 16 * 4 + c div 64 < 64" "c mod 64 < 64"
    "a mod 4 * 16 < 64" "b mod 16 * 4 < 64"
    "(a mod 4 * 16 + b div 16) div 16 = a mod 4" "(a mod 4 * 16 + b div 16) mod 16 = b div 16"
    "(b mod 16 * 4 + c div 64) div 4 = b mod 16" "(b mod 16 * 4 + c div 64) mod 4 = c div 64"
proof -
  have h: "a div 4 < 64" "b div 16 < 16" "c div 64 < 4" using assms by (simp_all add: less_mult_imp_div_less)
  have m: "a mod 4 < 4" "b mod 16 < 16" "c mod 64 < 64" by simp_all
  show "a div 4 < 64" "a mod 4 * 16 + b div 16 < 64" "b mod 16 * 4 + c div 64 < 64" "c mod 64 < 64"
    "a mod 4 * 16 < 64" "b mod 16 * 4 < 64"
    using h m by linarith+
  show "(a mod 4 * 16 + b div 16) div 16 = a mod 4" "(a mod 4 * 16 + b div 16) mod 16 = b div 16"
    "(b mod 16 * 4 + c div 64) div 4 = b mod 16" "(b mod 16 * 4 + c div 64) mod 4 = c div 64"
    using h by (simp_all add: div_less_dividend)
qed

lemma b64decode_b64encode: "b64decode (b64encode s) = Some s"
proof (induction s rule: b64encode.induct)
  case (2 a)
  note S = sextets [OF byte_less [of a] byte_less byte_less]
  have "char_of (byte a div 4 * 4 + byte a mod 4 * 16 div 16) = a" by simp
  then show ?case using S(1,5) by (simp add: b64_val_char)
next
  case (3 a b)
  note S = sextets [OF byte_less [of a] byte_less [of b] byte_less]
  have "byte a div 4 * 4 + byte a mod 4 = byte a" "byte b div 16 * 16 + byte b mod 16 = byte b" by simp_all
  then show ?case
    using S(1,2,6) b64_char_not_pad [OF S(6)] S(7,8) by (simp add: b64_val_char)
next
  case (4 a b c s)
  note S = sextets [OF byte_less [of a] byte_less [of b] byte_less [of c]]
  have "byte a div 4 * 4 + byte a mod 4 = byte a" "byte b div 16 * 16 + byte b mod 16 = byte b"
    "byte c div 64 * 64 + byte c mod 64 = byte c" by simp_all
  then show ?case
    using S b64_char_not_pad [OF S(3)] b64_char_not_pad [OF S(4)] 4 by (simp add: b64_val_char)
qed simp

section \<open>Timestamps as floats\<close>

text \<open>
  \<open>dt.timestamp()\<close> as the client sends it, the shortest text of the float: seconds, a point, and the
  microseconds without trailing zeros. The text is exact while the seconds stay below 2 ^ 32.
  \<open>ts_parse\<close> is \<open>float\<close> and \<open>fromtimestamp\<close> on such texts.
\<close>

definition rstrip_zeros :: "string \<Rightarrow> string" where
  "rstrip_zeros s = (let r = rev (dropWhile (\<lambda>c. c = CHR ''0'') (rev s)) in if r = [] then ''0'' else r)"

definition ts_text :: "datetime \<Rightarrow> string" where
  "ts_text t = str_of_nat (t div usec) @ CHR ''.'' # rstrip_zeros (padn 6 (t mod usec))"

definition ts_parse :: "string \<Rightarrow> datetime res" where
  "ts_parse s =
     (case split_on CHR ''.'' s of
        [a, b] \<Rightarrow>
          (case (int_digits 0 False a, int_digits 0 False b) of
             (Some m, Some n) \<Rightarrow> if length b \<le> 6 then Inr (m * usec + n * 10 ^ (6 - length b)) else Inl ValueError
           | _ \<Rightarrow> Inl ValueError)
      | _ \<Rightarrow> Inl ValueError)"

lemma int_digits_total: "s \<noteq> [] \<Longrightarrow> \<forall>c \<in> set s. is_digit c \<Longrightarrow> \<exists>n. int_digits 0 False s = Some n"
proof (induction s rule: rev_induct)
  case (snoc c s)
  then show ?case by (cases "s = []") (auto dest: int_digits_append_digit)
qed simp

lemma is_digit_zero [simp]: "is_digit CHR ''0''" "digit_val CHR ''0'' = 0"
  by (simp_all add: is_digit_def digit_val_def)

lemma int_digits_zeros:
  "int_digits 0 False s = Some n \<Longrightarrow> int_digits 0 False (s @ replicate k CHR ''0'') = Some (n * 10 ^ k)"
proof (induction k)
  case (Suc k)
  then have "int_digits 0 False ((s @ replicate k CHR ''0'') @ [CHR ''0'']) = Some (n * 10 ^ k * 10 + 0)"
    by (subst int_digits_append_digit) simp_all
  then show ?case by (simp add: replicate_append_same [symmetric] mult.commute)
qed simp

lemma int_digits_replicate_zero: "0 < k \<Longrightarrow> int_digits 0 False (replicate k CHR ''0'') = Some 0"
  using int_digits_zeros [of "''0''" 0 "k - 1"] by (cases k) (auto simp: replicate_append_same)

lemma rstrip_zeros_value:
  assumes "f < 10 ^ 6"
  shows "\<exists>n. int_digits 0 False (rstrip_zeros (padn 6 f)) = Some n \<and>
    n * 10 ^ (6 - length (rstrip_zeros (padn 6 f))) = f \<and> length (rstrip_zeros (padn 6 f)) \<le> 6"
proof -
  let ?s = "padn 6 f"
  define r where "r = rev (dropWhile (\<lambda>c. c = CHR ''0'') (rev ?s))"
  define z where "z = takeWhile (\<lambda>c. c = CHR ''0'') (rev ?s)"
  have z: "z = replicate (length z) CHR ''0''"
    by (rule replicate_eqI [symmetric, THEN sym]) (auto simp: z_def dest: set_takeWhileD)
  have "?s = r @ rev z" unfolding r_def z_def by (metis rev_append rev_rev_ident takeWhile_dropWhile_id)
  then have s: "?s = r @ replicate (length z) CHR ''0''" using z by (metis rev_replicate)
  have len: "length r + length z = 6" using arg_cong [OF s, of length] by simp
  have val: "int_digits 0 False ?s = Some f" using assms by (intro int_digits_padn) simp_all
  show ?thesis
  proof (cases "r = []")
    case True
    then have "f = 0" using val s len int_digits_replicate_zero [of "length z"] by simp
    moreover have "rstrip_zeros ?s = ''0''" using True unfolding rstrip_zeros_def r_def [symmetric] Let_def by simp
    ultimately show ?thesis by simp
  next
    case False
    have "\<forall>c \<in> set r. is_digit c" using padn_digits [of 6 f] s by (metis Un_iff set_append)
    then obtain n where n: "int_digits 0 False r = Some n" using int_digits_total False by blast
    then have "n * 10 ^ length z = f" using int_digits_zeros [OF n] val s by simp
    moreover have "rstrip_zeros ?s = r" using False unfolding rstrip_zeros_def r_def [symmetric] Let_def by simp
    ultimately show ?thesis using n len by auto
  qed
qed

lemma str_of_nat_no_point: "CHR ''.'' \<notin> set (str_of_nat n)"
  using str_of_nat_digits [of n] by (auto simp: is_digit_def)

lemma rstrip_no_point: "CHR ''.'' \<notin> set (rstrip_zeros (padn k f))"
proof -
  have "\<forall>c \<in> set (rstrip_zeros (padn k f)). is_digit c"
    using padn_digits [of k f] by (auto simp: rstrip_zeros_def Let_def dest: set_dropWhileD)
  then show ?thesis by (auto simp: is_digit_def)
qed

lemma ts_parse_ts_text [simp]: "ts_parse (ts_text t) = Inr t"
proof -
  have "t mod usec < 10 ^ 6" by (simp add: usec_def)
  from rstrip_zeros_value [OF this] obtain n where
    n: "int_digits 0 False (rstrip_zeros (padn 6 (t mod usec))) = Some n"
    "n * 10 ^ (6 - length (rstrip_zeros (padn 6 (t mod usec)))) = t mod usec"
    "length (rstrip_zeros (padn 6 (t mod usec))) \<le> 6" by blast
  show ?thesis
    by (simp add: ts_parse_def ts_text_def split_on_append split_on_notin str_of_nat_no_point rstrip_no_point
        int_digits_str_of_nat n del: padn.simps)
qed

lemma ts_text_nonempty [simp]: "ts_text t \<noteq> []"
  by (simp add: ts_text_def)

section \<open>Results\<close>

datatype result_type = SUCCESSFUL | RFAILED | RSTOPPED | RETRIED | MAX_RETRIES_EXCEEDED

fun type_value :: "result_type \<Rightarrow> int" where
  "type_value SUCCESSFUL = 1"
| "type_value RFAILED = 2"
| "type_value RSTOPPED = 3"
| "type_value RETRIED = 4"
| "type_value MAX_RETRIES_EXCEEDED = 5"

definition type_of :: "int \<Rightarrow> result_type res" where
  "type_of n = (case find (\<lambda>y. type_value y = n) [SUCCESSFUL, RFAILED, RSTOPPED, RETRIED, MAX_RETRIES_EXCEEDED] of
     Some y \<Rightarrow> Inr y | None \<Rightarrow> Inl ValueError)"

record result =
  rs_job_id :: string
  rs_type :: result_type
  rs_return_value :: pyval
  rs_exc_string :: "string option"
  rs_worker_name :: string
  rs_execution_id :: "string option"
  rs_execution_started_at :: "datetime option"
  rs_execution_ended_at :: "datetime option"

definition serialized_value :: "codec \<Rightarrow> pyval \<Rightarrow> string res" where
  "serialized_value C v =
     (case dumps C v of
        Some d \<Rightarrow> Inr d
      | None \<Rightarrow> (case dumps C (PStr unserializable) of Some d \<Rightarrow> Inr d | None \<Rightarrow> Inl SerializerError))"

definition result_table :: "codec \<Rightarrow> string \<Rightarrow> result \<Rightarrow> (string \<times> string option) list" where
  "result_table C d r = [
     (''type'', Some (str_of_int (type_value (rs_type r)))),
     (''worker_name'', Some (rs_worker_name r)),
     (''exc_string'', map_option (\<lambda>e. b64encode (zcompress C e)) (rs_exc_string r)),
     (''return_value'', if rs_return_value r = PNone then None else Some (b64encode d)),
     (''execution_id'', text_or_none (rs_execution_id r)),
     (''execution_started_at'', map_option ts_text (rs_execution_started_at r)),
     (''execution_ended_at'', map_option ts_text (rs_execution_ended_at r))]"

definition serialize_result :: "codec \<Rightarrow> result \<Rightarrow> fields res" where
  "serialize_result C r = bindE (serialized_value C (rs_return_value r)) (\<lambda>d. Inr (present (result_table C d r)))"

definition load_b64 :: "codec \<Rightarrow> string \<Rightarrow> pyval res" where
  "load_b64 C s =
     (case b64decode s of
        None \<Rightarrow> Inl ValueError
      | Some d \<Rightarrow> (case loads C d of Some v \<Rightarrow> Inr v | None \<Rightarrow> Inl SerializerError))"

definition unzip_b64 :: "codec \<Rightarrow> string \<Rightarrow> string res" where
  "unzip_b64 C s =
     (case b64decode s of
        None \<Rightarrow> Inl ValueError
      | Some d \<Rightarrow> (case zdecompress C d of Some v \<Rightarrow> Inr v | None \<Rightarrow> Inl SerializerError))"

text \<open>
  An empty \<open>exc_string\<close>, \<open>execution_id\<close> or time reads back as None here. The code would hand on the
  empty bytes, but never writes them.
\<close>

definition restore_result :: "codec \<Rightarrow> string \<Rightarrow> fields \<Rightarrow> result res" where
  "restore_result C i obj =
     bindE (read_opt (load_b64 C) (map_of obj ''return_value'')) (\<lambda>v.
     bindE (read_opt (unzip_b64 C) (fget obj ''exc_string'')) (\<lambda>e.
     bindE (read_opt ts_parse (fget obj ''execution_started_at'')) (\<lambda>st.
     bindE (read_opt ts_parse (fget obj ''execution_ended_at'')) (\<lambda>en.
     bindE (case map_of obj ''type'' of None \<Rightarrow> Inl KeyError | Some n \<Rightarrow> bindE (to_int n) type_of) (\<lambda>y.
       Inr \<lparr>rs_job_id = i, rs_type = y, rs_return_value = opt_default PNone v,
            rs_exc_string = e, rs_worker_name = opt_default [] (fget obj ''worker_name''),
            rs_execution_id = fget obj ''execution_id'', rs_execution_started_at = st,
            rs_execution_ended_at = en\<rparr>)))))"

text \<open>\<open>ttl\<close>: None leaves the expiry of the stream alone, -1 removes it.\<close>

definition save_result :: "codec \<Rightarrow> int option \<Rightarrow> result \<Rightarrow> cmd list res" where
  "save_result C ttl r =
     bindE (serialize_result C r) (\<lambda>fs.
       Inr (XAdd (results_key (rs_job_id r)) fs #
            (case ttl of
               None \<Rightarrow> []
             | Some n \<Rightarrow>
                 if n = - 1 then [Persist (results_key (rs_job_id r))] else [Expire (results_key (rs_job_id r)) n])))"

record exec_info =
  ei_id :: "string option"
  ei_started_at :: "datetime option"
  ei_ended_at :: "datetime option"

definition create_result ::
  "codec \<Rightarrow> string \<Rightarrow> result_type \<Rightarrow> int option \<Rightarrow> pyval \<Rightarrow> string option \<Rightarrow> string \<Rightarrow> exec_info \<Rightarrow> cmd list res" where
  "create_result C i y ttl v exc w ei =
     save_result C ttl \<lparr>rs_job_id = i, rs_type = y, rs_return_value = v, rs_exc_string = exc, rs_worker_name = w,
       rs_execution_id = ei_id ei, rs_execution_started_at = ei_started_at ei, rs_execution_ended_at = ei_ended_at ei\<rparr>"

definition create_failure :: "codec \<Rightarrow> string \<Rightarrow> int option \<Rightarrow> string \<Rightarrow> string \<Rightarrow> exec_info \<Rightarrow> cmd list res" where
  "create_failure C i ttl exc w ei = create_result C i RFAILED ttl PNone (Some exc) w ei"

definition create_retried :: "codec \<Rightarrow> string \<Rightarrow> int option \<Rightarrow> pyval \<Rightarrow> string \<Rightarrow> exec_info \<Rightarrow> cmd list res" where
  "create_retried C i ttl v w ei = create_result C i RETRIED ttl v None w ei"

definition create_max_retries_exceeded :: "codec \<Rightarrow> string \<Rightarrow> int option \<Rightarrow> pyval \<Rightarrow> string \<Rightarrow> exec_info \<Rightarrow> cmd list res" where
  "create_max_retries_exceeded C i ttl v w ei = create_result C i MAX_RETRIES_EXCEEDED ttl v None w ei"

text \<open>XREVRANGE returns the newest entry first.\<close>

definition all_results :: "codec \<Rightarrow> 's redis \<Rightarrow> 's \<Rightarrow> string \<Rightarrow> result list res" where
  "all_results C R s i = mapE (restore_result C i) (rev (r_stream R s (results_key i)))"

definition result_count :: "'s redis \<Rightarrow> 's \<Rightarrow> string \<Rightarrow> nat" where
  "result_count R s i = length (r_stream R s (results_key i))"

definition delete_all_results :: "string \<Rightarrow> cmd list" where
  "delete_all_results i = [Del [results_key i]]"

definition fetch_latest :: "codec \<Rightarrow> 's redis \<Rightarrow> 's \<Rightarrow> string \<Rightarrow> result option res" where
  "fetch_latest C R s i =
     (let es = r_stream R s (results_key i) in
      if es = [] then Inr None else bindE (restore_result C i (last es)) (\<lambda>r. Inr (Some r)))"

text \<open>\<open>job.return_value(refresh=True)\<close> and \<open>exc_info\<close> look at the latest result.\<close>

definition job_return_value :: "codec \<Rightarrow> 's redis \<Rightarrow> 's \<Rightarrow> string \<Rightarrow> pyval res" where
  "job_return_value C R s i =
     bindE (fetch_latest C R s i) (\<lambda>r.
       Inr (case r of None \<Rightarrow> PNone | Some r \<Rightarrow> if rs_type r = SUCCESSFUL then rs_return_value r else PNone))"

definition job_exc_info :: "codec \<Rightarrow> 's redis \<Rightarrow> 's \<Rightarrow> job \<Rightarrow> string option res" where
  "job_exc_info C R s j =
     bindE (fetch_latest C R s (j_id j)) (\<lambda>r.
       Inr (case r of
              None \<Rightarrow> j_exc_info j
            | Some r \<Rightarrow> if rs_type r = RFAILED then rs_exc_string r else j_exc_info j))"

lemma result_table_lookup:
  "map_of (result_table C d r) ''type'' = Some (Some (str_of_int (type_value (rs_type r))))"
  "map_of (result_table C d r) ''worker_name'' = Some (Some (rs_worker_name r))"
  "map_of (result_table C d r) ''exc_string'' = Some (map_option (\<lambda>e. b64encode (zcompress C e)) (rs_exc_string r))"
  "map_of (result_table C d r) ''return_value'' =
     Some (if rs_return_value r = PNone then None else Some (b64encode d))"
  "map_of (result_table C d r) ''execution_id'' = Some (text_or_none (rs_execution_id r))"
  "map_of (result_table C d r) ''execution_started_at'' = Some (map_option ts_text (rs_execution_started_at r))"
  "map_of (result_table C d r) ''execution_ended_at'' = Some (map_option ts_text (rs_execution_ended_at r))"
  by (simp_all add: result_table_def)

lemma distinct_result_table: "distinct (map fst (result_table C d r))"
  by (simp add: result_table_def)

lemma type_of_value [simp]: "type_of (type_value y) = Inr y"
  by (cases y) (simp_all add: type_of_def)

lemma b64encode_nonempty [simp]: "b64encode s = [] \<longleftrightarrow> s = []"
  by (cases s rule: b64encode.cases) simp_all

definition result_ok :: "codec \<Rightarrow> result \<Rightarrow> bool" where
  "result_ok C r \<longleftrightarrow> codec_keeps C (rs_return_value r) \<and>
     (case rs_exc_string r of None \<Rightarrow> True | Some e \<Rightarrow> zip_keeps C e)"

lemma restore_serialize_result:
  assumes "result_ok C r" "serialize_result C r = Inr fs"
  shows "restore_result C (rs_job_id r) fs = Inr (r\<lparr>rs_execution_id := text_or_none (rs_execution_id r)\<rparr>)"
proof -
  obtain d where d: "dumps C (rs_return_value r) = Some d" "loads C d = Some (rs_return_value r)"
    using assms(1) by (auto simp: result_ok_def codec_keeps_def split: option.splits)
  then have fs: "fs = present (result_table C d r)"
    using assms(2) by (auto simp: serialize_result_def serialized_value_def)
  note look = fs fget_def map_of_present [OF distinct_result_table] result_table_lookup
  have v: "read_opt (load_b64 C) (map_of fs ''return_value'') =
      Inr (if rs_return_value r = PNone then None else Some (rs_return_value r))"
    using d by (simp add: look load_b64_def b64decode_b64encode)
  have e: "read_opt (unzip_b64 C) (fget fs ''exc_string'') = Inr (rs_exc_string r)"
    using assms(1) by (cases "rs_exc_string r") (auto simp: look unzip_b64_def b64decode_b64encode result_ok_def zip_keeps_def)
  have t: "read_opt ts_parse (fget fs ''execution_started_at'') = Inr (rs_execution_started_at r)"
    "read_opt ts_parse (fget fs ''execution_ended_at'') = Inr (rs_execution_ended_at r)"
    by (cases "rs_execution_started_at r"; simp add: look) (cases "rs_execution_ended_at r"; simp add: look)
  have o: "map_of fs ''type'' = Some (str_of_int (type_value (rs_type r)))"
    "opt_default [] (fget fs ''worker_name'') = rs_worker_name r"
    "fget fs ''execution_id'' = text_or_none (rs_execution_id r)"
    by (simp_all add: look text_or_none_def split: option.splits)
  show ?thesis unfolding restore_result_def v e t o by (simp add: o)
qed

context redis_server
begin

text \<open>A saved result is the latest one, whatever the stream held and however the server trims it.\<close>

lemma fetch_latest_after_save:
  assumes "save_result C ttl r = Inr cs" "result_ok C r" "\<forall>n. ttl = Some n \<longrightarrow> n = - 1 \<or> 0 < n"
  shows "fetch_latest C R (run_all R cs s) (rs_job_id r) =
    Inr (Some (r\<lparr>rs_execution_id := text_or_none (rs_execution_id r)\<rparr>))"
proof -
  let ?k = "results_key (rs_job_id r)"
  obtain fs where fs: "serialize_result C r = Inr fs"
    and cs: "cs = XAdd ?k fs # (case ttl of None \<Rightarrow> [] | Some n \<Rightarrow> if n = - 1 then [Persist ?k] else [Expire ?k n])"
    using assms(1) by (auto simp: save_result_def bindE_Inr_iff)
  obtain n where n: "n \<le> length (r_stream R s ?k) - 9"
    "r_stream R (r_run R (XAdd ?k fs) s) = (r_stream R s)(?k := drop n (r_stream R s ?k @ [fs]))"
    using stream_add by blast
  then have "n \<le> length (r_stream R s ?k)" by simp
  then have add: "r_stream R (r_run R (XAdd ?k fs) s) ?k = drop n (r_stream R s ?k) @ [fs]" using n(2) by simp
  have "r_stream R (run_all R cs s) ?k = r_stream R (r_run R (XAdd ?k fs) s) ?k"
    using assms(3) unfolding cs by (auto simp: stream_run split: option.splits)
  then show ?thesis
    using restore_serialize_result [OF assms(2) fs] add by (simp add: fetch_latest_def)
qed

end

section \<open>Properties\<close>

text \<open>
  A saved result is the latest one of its job, whatever the stream held and however the server trims
  it: \<open>fetch_latest\<close> reads back its type, its value or exception text, its worker and its times to
  the microsecond, and \<open>return_value\<close> is the value when the result is a success and None otherwise.
\<close>

theorem latest_result:
  assumes "redis_server R" "result_ok C r" "\<forall>n. ttl = Some n \<longrightarrow> n = - 1 \<or> 0 < n"
  shows "\<exists>cs. save_result C ttl r = Inr cs \<and>
    fetch_latest C R (run_all R cs s) (rs_job_id r) =
      Inr (Some (r\<lparr>rs_execution_id := text_or_none (rs_execution_id r)\<rparr>)) \<and>
    job_return_value C R (run_all R cs s) (rs_job_id r) =
      Inr (if rs_type r = SUCCESSFUL then rs_return_value r else PNone)"
proof -
  obtain cs where cs: "save_result C ttl r = Inr cs"
    using assms(2) by (auto simp: save_result_def serialize_result_def serialized_value_def result_ok_def
        codec_keeps_def split: option.splits)
  show ?thesis
    using redis_server.fetch_latest_after_save [OF assms(1) cs assms(2,3), of s] cs
    by (auto simp: job_return_value_def)
qed

theorem latest_result_witness:
  "\<exists>cs. save_result sample_codec (Some 500) \<lparr>rs_job_id = ''a'', rs_type = SUCCESSFUL,
       rs_return_value = PTuple [PStr ''m.f'', PNone, PTuple [], PDict []], rs_exc_string = None,
       rs_worker_name = ''w'', rs_execution_id = None, rs_execution_started_at = Some 1, rs_execution_ended_at = Some 1500000\<rparr> = Inr cs \<and>
     job_return_value sample_codec mem_redis (run_all mem_redis cs mem_empty) ''a'' =
       Inr (PTuple [PStr ''m.f'', PNone, PTuple [], PDict []])"
proof -
  let ?r = "\<lparr>rs_job_id = ''a'', rs_type = SUCCESSFUL,
       rs_return_value = PTuple [PStr ''m.f'', PNone, PTuple [], PDict []], rs_exc_string = None,
       rs_worker_name = ''w'', rs_execution_id = None, rs_execution_started_at = Some 1, rs_execution_ended_at = Some 1500000\<rparr>"
  have "result_ok sample_codec ?r" by (simp add: result_ok_def codec_keeps_def sample_codec_def)
  then show ?thesis using latest_result [OF mem.redis_server_axioms, of sample_codec ?r "Some 500" mem_empty] by auto
qed

end
