(* ===== verification/Executions.thy ===== *)
theory Executions
  imports Results
begin

text \<open>
  Executions of a job (\<open>rq/executions.py\<close>): the hash of one execution, the registry of a job's
  executions, and their entry in StartedJobRegistry. An execution has a key that expires with its
  heartbeat, while its registry entry lives 60 seconds longer.
\<close>

record execution =
  ex_id :: string
  ex_job_id :: string
  ex_created_at :: datetime
  ex_last_heartbeat :: datetime

definition ex_key :: "execution \<Rightarrow> key" where
  "ex_key e = execution_key (ex_job_id e) (ex_id e)"

definition ex_composite :: "execution \<Rightarrow> string" where
  "ex_composite e = composite_key (ex_job_id e) (ex_id e)"

definition new_execution :: "string \<Rightarrow> string \<Rightarrow> datetime \<Rightarrow> execution" where
  "new_execution i eid t = \<lparr>ex_id = eid, ex_job_id = i, ex_created_at = t, ex_last_heartbeat = t\<rparr>"

definition serialize_execution :: "execution \<Rightarrow> fields" where
  "serialize_execution e =
     [(''id'', ex_id e), (''created_at'', ts_text (ex_created_at e)), (''last_heartbeat'', ts_text (ex_last_heartbeat e))]"

definition refresh_execution :: "'s redis \<Rightarrow> 's \<Rightarrow> execution \<Rightarrow> execution res" where
  "refresh_execution R s e =
     (let data = r_hash R s (ex_key e) in
      if data = [] then Inl ValueError
      else
        bindE (case map_of data ''created_at'' of None \<Rightarrow> Inl KeyError | Some v \<Rightarrow> ts_parse v) (\<lambda>c.
        bindE (case map_of data ''last_heartbeat'' of None \<Rightarrow> Inl KeyError | Some v \<Rightarrow> ts_parse v) (\<lambda>h.
          Inr (e\<lparr>ex_created_at := c, ex_last_heartbeat := h\<rparr>))))"

definition fetch_execution :: "'s redis \<Rightarrow> 's \<Rightarrow> datetime \<Rightarrow> string \<Rightarrow> string \<Rightarrow> execution res" where
  "fetch_execution R s t i eid = refresh_execution R s (new_execution i eid t)"

definition execution_of_key :: "datetime \<Rightarrow> string \<Rightarrow> execution res" where
  "execution_of_key t ck = bindE (parse_composite_key ck) (\<lambda>(i, eid). Inr (new_execution i eid t))"

definition save_execution :: "int \<Rightarrow> execution \<Rightarrow> cmd list" where
  "save_execution ttl e = [HSet (ex_key e) (serialize_execution e), Expire (ex_key e) ttl]"

section \<open>The registry of a job's executions\<close>

definition exreg_add :: "execution \<Rightarrow> int \<Rightarrow> datetime \<Rightarrow> cmd list" where
  "exreg_add e ttl t =
     [ZAdd ZAny (executions_key (ex_job_id e)) (ex_id e) (Fin (current_timestamp t + ttl + 60)),
      Expire (executions_key (ex_job_id e)) (ttl + 60)]"

definition exreg_remove :: "execution \<Rightarrow> cmd list" where
  "exreg_remove e = [ZRem (executions_key (ex_job_id e)) [ex_id e]]"

definition exreg_cleanup :: "string \<Rightarrow> datetime \<Rightarrow> cmd list" where
  "exreg_cleanup i t = [ZRemRangeByScore (executions_key i) (current_timestamp t)]"

text \<open>\<open>get_execution_ids\<close> sweeps the registry first; \<open>get_executions\<close> fetches every member.\<close>

definition get_execution_ids :: "'s redis \<Rightarrow> string \<Rightarrow> int \<Rightarrow> int \<Rightarrow> datetime \<Rightarrow> 's \<Rightarrow> string list \<times> 's" where
  "get_execution_ids R i start stop t s =
     (let s' = run_all R (exreg_cleanup i t) s in (zrange R s' (executions_key i) start stop False, s'))"

definition get_executions :: "'s redis \<Rightarrow> string \<Rightarrow> datetime \<Rightarrow> 's \<Rightarrow> execution list res \<times> 's" where
  "get_executions R i t s =
     (let (ids, s') = get_execution_ids R i 0 (- 1) t s in (mapE (fetch_execution R s' t i) ids, s'))"

section \<open>The life of an execution\<close>

text \<open>\<open>Execution.create\<close> on a pipeline; \<open>q\<close> is the origin of the job and \<open>eid\<close> a fresh uuid.\<close>

definition create_execution :: "string \<Rightarrow> string \<Rightarrow> string \<Rightarrow> int \<Rightarrow> datetime \<Rightarrow> cmd list \<times> execution" where
  "create_execution q i eid ttl t =
     (let e = new_execution i eid t
      in (save_execution ttl e @ exreg_add e ttl t @ add_execution q (ex_composite e) ttl False t, e))"

definition delete_execution :: "string \<Rightarrow> execution \<Rightarrow> cmd list" where
  "delete_execution q e = Del [ex_key e] # remove_execution q (ex_composite e) @ exreg_remove e"

definition heartbeat_execution :: "string \<Rightarrow> int \<Rightarrow> datetime \<Rightarrow> execution \<Rightarrow> cmd list \<times> execution" where
  "heartbeat_execution q ttl t e =
     (let e' = e\<lparr>ex_last_heartbeat := t\<rparr>
      in (HSet (ex_key e) [(''last_heartbeat'', ts_text t)] # Expire (ex_key e) ttl #
            add_execution q (ex_composite e) ttl True t @ exreg_add e ttl t, e'))"

definition exreg_delete :: "'s redis \<Rightarrow> string \<Rightarrow> string \<Rightarrow> datetime \<Rightarrow> 's \<Rightarrow> cmd list res \<times> 's" where
  "exreg_delete R q i t s =
     (case get_executions R i t s of
        (Inl e, s') \<Rightarrow> (Inl e, s')
      | (Inr es, s') \<Rightarrow> (Inr (concat (map (delete_execution q) es) @ [Del [executions_key i]]), s'))"

text \<open>\<open>StartedJobRegistry.remove_executions\<close>.\<close>

definition remove_executions :: "'s redis \<Rightarrow> string \<Rightarrow> string \<Rightarrow> datetime \<Rightarrow> 's \<Rightarrow> cmd list res \<times> 's" where
  "remove_executions R q i t s =
     (case get_executions R i t s of
        (Inl e, s') \<Rightarrow> (Inl e, s')
      | (Inr es, s') \<Rightarrow> (Inr (if es = [] then [] else [ZRem (registry_key Started q) (map ex_composite es)]), s'))"

section \<open>Lemmas\<close>

lemma rank_range_all [simp]: "rank_range 0 (- 1) xs = xs"
  by (simp add: rank_range_def)

lemma zrange_all: "zrange R s k 0 (- 1) False = map fst (r_zset R s k)"
  by (simp add: zrange_def)

lemma fetch_execution_gone: "r_hash R s (execution_key i eid) = [] \<Longrightarrow> fetch_execution R s t i eid = Inl ValueError"
  by (simp add: fetch_execution_def refresh_execution_def new_execution_def ex_key_def)

lemma get_executions_state: "snd (get_executions R i t s) = run_all R (exreg_cleanup i t) s"
  by (simp add: get_executions_def get_execution_ids_def Let_def)

context redis_server
begin

lemma zset_members: "set (map fst (r_zset R s k)) = dom (zscore R s k)"
  by (simp add: zscore_def dom_map_of_conv_image_fst)

text \<open>
  The window after a worker has died: its execution hash has expired while the registry still lists
  the execution, and listing the executions of the job raises.
\<close>

lemma get_executions_stale:
  assumes "zscore R s (executions_key i) eid = Some x" "Fin (current_timestamp t) < x"
    and "r_hash R s (execution_key i eid) = []"
  shows "\<exists>e. fst (get_executions R i t s) = Inl e"
proof -
  let ?s = "run_all R (exreg_cleanup i t) s"
  have "zscore R ?s (executions_key i) eid = Some x"
    using assms(1,2) by (auto simp: exreg_cleanup_def zscore_sweep)
  then have "eid \<in> set (map fst (r_zset R ?s (executions_key i)))" unfolding zset_members by blast
  moreover have "r_hash R ?s (execution_key i eid) = []"
    using assms(3) by (simp add: exreg_cleanup_def hash_empty_iff hash_run)
  ultimately have "\<exists>e. mapE (fetch_execution R ?s t i) (map fst (r_zset R ?s (executions_key i))) = Inl e"
    by (intro mapE_Inl [where e = ValueError] fetch_execution_gone)
  then show ?thesis by (simp add: get_executions_def get_execution_ids_def zrange_all Let_def)
qed

lemma exreg_delete_stale:
  assumes "zscore R s (executions_key i) eid = Some x" "Fin (current_timestamp t) < x"
    and "r_hash R s (execution_key i eid) = []"
  shows "\<exists>e. fst (exreg_delete R q i t s) = Inl e"
  using get_executions_stale [OF assms] by (auto simp: exreg_delete_def split: prod.splits sum.splits)

text \<open>A new execution is found by its id, with the times it was created with.\<close>

lemma fetch_after_create:
  assumes "0 < ttl" "create_execution q i eid ttl t = (cs, e)" "r_hash R s (execution_key i eid) = []"
  shows "fetch_execution R (run_all R cs s) t' i eid = Inr e"
proof -
  let ?s = "run_all R cs s"
  have "hget R ?s (execution_key i eid) = map_of (rev (serialize_execution e))"
    using assms by (auto simp: create_execution_def Let_def save_execution_def exreg_add_def add_execution_def
        ex_key_def new_execution_def hash_run hash_empty_iff)
  moreover have "map_of (rev (serialize_execution e)) = map_of (serialize_execution e)"
    by (rule map_of_rev_distinct) (simp add: serialize_execution_def)
  ultimately have h: "map_of (r_hash R ?s (execution_key i eid)) = map_of (serialize_execution e)"
    by (simp add: hget_def)
  have "r_hash R ?s (execution_key i eid) \<noteq> []"
    using fun_cong [OF h, of "''id''"] by (auto simp: serialize_execution_def)
  then show ?thesis
    using assms(2) h
    by (auto simp: fetch_execution_def refresh_execution_def create_execution_def Let_def new_execution_def
        ex_key_def serialize_execution_def)
qed

lemma create_scores:
  assumes "0 < ttl" "create_execution q i eid ttl t = (cs, e)"
  shows "zscore R (run_all R cs s) (executions_key i) eid = Some (Fin (current_timestamp t + ttl + 60)) \<and>
    zscore R (run_all R cs s) (registry_key Started q) (composite_key i eid) = Some (Fin (current_timestamp t + ttl))"
proof -
  have "0 \<le> current_timestamp t" by (simp add: current_timestamp_def)
  then have "expiry_score t ttl = Fin (current_timestamp t + ttl)" using assms(1) by (simp add: expiry_score_def)
  then show ?thesis
    using assms
    by (auto simp: create_execution_def Let_def save_execution_def exreg_add_def add_execution_def xx_flag_def
        new_execution_def ex_composite_def ex_key_def zset_run)
qed

end

section \<open>Properties\<close>

text \<open>
  An execution that has been created with a positive ttl is found by its ids with the times it was
  created with, and is in the registry of its job's executions and among the started jobs of its queue
  with the scores \<open>now + ttl + 60\<close> and \<open>now + ttl\<close>.
\<close>

theorem execution_created:
  assumes "redis_server R" "0 < ttl" "create_execution q i eid ttl t = (cs, e)" "r_hash R s (execution_key i eid) = []"
  shows "fetch_execution R (run_all R cs s) t' i eid = Inr e \<and>
    zscore R (run_all R cs s) (executions_key i) eid = Some (Fin (current_timestamp t + ttl + 60)) \<and>
    zscore R (run_all R cs s) (registry_key Started q) (composite_key i eid) = Some (Fin (current_timestamp t + ttl))"
  using redis_server.fetch_after_create [OF assms] redis_server.create_scores [OF assms(1-3)] by blast

theorem execution_created_witness:
  "fetch_execution mem_redis (run_all mem_redis (fst (create_execution ''q'' ''a'' ''e'' 60 1500000)) mem_empty) 0 ''a'' ''e'' =
     Inr (new_execution ''a'' ''e'' 1500000)"
proof -
  have "create_execution ''q'' ''a'' ''e'' 60 1500000 =
      (fst (create_execution ''q'' ''a'' ''e'' 60 1500000), new_execution ''a'' ''e'' 1500000)"
    by (simp add: create_execution_def Let_def)
  from execution_created [OF mem.redis_server_axioms _ this, of mem_empty 0] show ?thesis by simp
qed

text \<open>
  C40. The registry of a job's executions outlives the executions by 60 seconds. While it names one whose
  hash has expired, listing the job's executions, removing them from the started jobs and deleting
  them all raise.
\<close>

theorem stale_execution_raises:
  assumes "redis_server R" "zscore R s (executions_key i) eid = Some x" "Fin (current_timestamp t) < x"
    and "r_hash R s (execution_key i eid) = []"
  shows "(\<exists>e. fst (get_executions R i t s) = Inl e) \<and> (\<exists>e. fst (exreg_delete R q i t s) = Inl e) \<and>
    (\<exists>e. fst (remove_executions R q i t s) = Inl e)"
  using redis_server.get_executions_stale [OF assms] redis_server.exreg_delete_stale [OF assms]
  by (auto simp: remove_executions_def split: prod.splits sum.splits)

theorem stale_execution_raises_witness:
  "\<exists>e. fst (exreg_delete mem_redis ''q'' ''a'' 65000000
     (run_all mem_redis (fst (create_execution ''q'' ''a'' ''e'' 60 0) @ [Expire (execution_key ''a'' ''e'') 0]) mem_empty)) = Inl e"
proof -
  let ?s = "run_all mem_redis (fst (create_execution ''q'' ''a'' ''e'' 60 0) @ [Expire (execution_key ''a'' ''e'') 0]) mem_empty"
  have "zscore mem_redis ?s (executions_key ''a'') ''e'' = Some (Fin 120)"
    by (simp add: create_execution_def Let_def save_execution_def exreg_add_def add_execution_def xx_flag_def
        new_execution_def current_timestamp_def mem.zset_run wipe_def)
  moreover have "r_hash mem_redis ?s (execution_key ''a'' ''e'') = []"
    by (simp add: mem.hash_empty_iff mem.hash_run wipe_def)
  moreover have "Fin (current_timestamp 65000000) < Fin 120" by (simp add: current_timestamp_def usec_def)
  ultimately show ?thesis
    using stale_execution_raises [OF mem.redis_server_axioms, of ?s "''a''" "''e''" "Fin 120" 65000000 "''q''"] by blast
qed

end
