(* ===== verification/Queue.thy ===== *)
theory Queue
  imports Executions
begin

text \<open>
  The queue as a list of job ids (\<open>rq/queue.py\<close>): pushing, removing, reading, compacting, emptying,
  and taking the next job (\<open>lpop\<close>, \<open>lmove\<close>, \<open>dequeue_any\<close>). The locale \<open>job_queue\<close> is the FIFO
  contract; every list key of every server meets it.

  \<open>compact_loop\<close> and \<open>dequeue_loop\<close> carry fuel. Each round takes one id off a finite list, so the
  length of the lists plus one is always enough, which is proved.
\<close>

record queue =
  q_name :: string
  q_default_timeout :: int
  q_is_async :: bool

text \<open>\<open>Queue(name, default_timeout, is_async)\<close>: no timeout, or 0, is 180 seconds.\<close>

definition make_queue :: "string \<Rightarrow> timeout \<Rightarrow> bool \<Rightarrow> queue res" where
  "make_queue name timeout is_async =
     bindE (parse_timeout timeout) (\<lambda>n.
       Inr \<lparr>q_name = name, q_default_timeout = (case n of None \<Rightarrow> 180 | Some m \<Rightarrow> if m = 0 then 180 else m),
            q_is_async = is_async\<rparr>)"

section \<open>The list of ids\<close>

definition push_job_id :: "string \<Rightarrow> bool \<Rightarrow> string \<Rightarrow> cmd list" where
  "push_job_id q at_front i = [if at_front then LPush (queue_key q) i else RPush (queue_key q) i]"

definition remove :: "string \<Rightarrow> string \<Rightarrow> cmd list" where
  "remove q i = [LRem (queue_key q) i]"

definition queue_job_ids :: "'s redis \<Rightarrow> 's \<Rightarrow> string \<Rightarrow> int \<Rightarrow> int \<Rightarrow> string list" where
  "queue_job_ids R s q offset len =
     rank_range offset (if 0 \<le> len then offset + (len - 1) else len) (r_list R s (queue_key q))"

definition count :: "'s redis \<Rightarrow> 's \<Rightarrow> string \<Rightarrow> nat" where
  "count R s q = length (r_list R s (queue_key q))"

definition is_empty :: "'s redis \<Rightarrow> 's \<Rightarrow> string \<Rightarrow> bool" where
  "is_empty R s q \<longleftrightarrow> count R s q = 0"

text \<open>LPOS, and the search in \<open>job_ids\<close> on older servers: the first occurrence.\<close>

fun position :: "string \<Rightarrow> string list \<Rightarrow> nat option" where
  "position i [] = None"
| "position i (x # xs) = (if x = i then Some 0 else map_option Suc (position i xs))"

definition get_job_position :: "'s redis \<Rightarrow> 's \<Rightarrow> string \<Rightarrow> string \<Rightarrow> nat option" where
  "get_job_position R s q i = position i (r_list R s (queue_key q))"

text \<open>\<open>pop_job_id\<close>; \<open>as_text(None)\<close> raises ValueError.\<close>

definition pop_job_id :: "'s redis \<Rightarrow> string \<Rightarrow> 's \<Rightarrow> string res \<times> 's" where
  "pop_job_id R q s =
     (case r_list R s (queue_key q) of
        [] \<Rightarrow> (Inl ValueError, s)
      | i # _ \<Rightarrow> (Inr i, r_run R (LPop (queue_key q)) s))"

definition queue_fetch_job ::
  "codec \<Rightarrow> 's redis \<Rightarrow> datetime \<Rightarrow> string \<Rightarrow> string \<Rightarrow> 's \<Rightarrow> job option res \<times> 's" where
  "queue_fetch_job C R t q i s =
     (case fetch C R s t i of
        Inl NoSuchJobError \<Rightarrow> (Inr None, run_all R (remove q i) s)
      | Inl e \<Rightarrow> (Inl e, s)
      | Inr j \<Rightarrow> (Inr (if j_origin j = q then Some j else None), s))"

fun fetch_jobs ::
  "codec \<Rightarrow> 's redis \<Rightarrow> datetime \<Rightarrow> string \<Rightarrow> string list \<Rightarrow> 's \<Rightarrow> job option list res \<times> 's" where
  "fetch_jobs C R t q [] s = (Inr [], s)"
| "fetch_jobs C R t q (i # ids) s =
     (case queue_fetch_job C R t q i s of
        (Inl e, s1) \<Rightarrow> (Inl e, s1)
      | (Inr j, s1) \<Rightarrow>
          (case fetch_jobs C R t q ids s1 of
             (Inl e, s2) \<Rightarrow> (Inl e, s2)
           | (Inr js, s2) \<Rightarrow> (Inr (j # js), s2)))"

definition get_jobs ::
  "codec \<Rightarrow> 's redis \<Rightarrow> datetime \<Rightarrow> string \<Rightarrow> int \<Rightarrow> int \<Rightarrow> 's \<Rightarrow> job list res \<times> 's" where
  "get_jobs C R t q offset len s =
     (case fetch_jobs C R t q (queue_job_ids R s q offset len) s of (r, s') \<Rightarrow> (bindE r (\<lambda>js. Inr (compact js)), s'))"

text \<open>
  \<open>compact\<close>. RENAME replies with an error when the queue holds nothing. \<open>uid\<close> is the uuid in the
  name of the temporary list.
\<close>

definition compact_key :: "string \<Rightarrow> key" where
  "compact_key uid = ''rq:queue:_compact:'' @ uid"

fun compact_loop :: "'s redis \<Rightarrow> nat \<Rightarrow> key \<Rightarrow> key \<Rightarrow> 's \<Rightarrow> 's option" where
  "compact_loop R 0 k tmp s = None"
| "compact_loop R (Suc n) k tmp s =
     (case r_list R s tmp of
        [] \<Rightarrow> Some s
      | i # _ \<Rightarrow>
          let s1 = r_run R (LPop tmp) s
          in compact_loop R n k tmp (if job_exists R s1 i then r_run R (RPush k i) s1 else s1))"

definition compact_queue :: "'s redis \<Rightarrow> nat \<Rightarrow> string \<Rightarrow> string \<Rightarrow> 's \<Rightarrow> 's option res" where
  "compact_queue R n q uid s =
     (if \<not> key_exists R s (queue_key q) then Inl ResponseError
      else Inr (compact_loop R n (queue_key q) (compact_key uid) (r_run R (Rename (queue_key q) (compact_key uid)) s)))"

text \<open>\<open>empty\<close> is one atomic script: it sees the list of ids of the moment it runs.\<close>

definition empty_step :: "'s redis \<Rightarrow> string \<Rightarrow> string \<Rightarrow> 's \<Rightarrow> 's" where
  "empty_step R q i s = run_all R [LPop (queue_key q), Del [job_key i], Del [dependents_key i]] s"

definition empty :: "'s redis \<Rightarrow> string \<Rightarrow> 's \<Rightarrow> 's" where
  "empty R q s = fold (empty_step R q) (r_list R s (queue_key q)) s"

definition delete_queue :: "'s redis \<Rightarrow> string \<Rightarrow> bool \<Rightarrow> 's \<Rightarrow> 's" where
  "delete_queue R q delete_jobs s =
     run_all R [SRem queues_key [queue_key q], Del [queue_key q]] (if delete_jobs then empty R q s else s)"

definition acquire_maintenance_lock :: "'s redis \<Rightarrow> string \<Rightarrow> 's \<Rightarrow> bool \<times> 's" where
  "acquire_maintenance_lock R q s =
     (\<not> key_exists R s (cleaning_key q), r_run R (SetNX (cleaning_key q) ''1'' 899) s)"

definition release_maintenance_lock :: "string \<Rightarrow> cmd list" where
  "release_maintenance_lock q = [Del [cleaning_key q]]"

text \<open>\<open>Queue.all\<close>: the queues of the set \<open>rq:queues\<close>; an empty member is skipped.\<close>

definition all_queues :: "'s redis \<Rightarrow> 's \<Rightarrow> string list res" where
  "all_queues R s = mapE queue_name_of_key (filter (\<lambda>k. k \<noteq> []) (r_set R s queues_key))"

section \<open>Taking the next job\<close>

text \<open>
  A blocking command that times out returns None: the model lets no other client push while it
  waits. The result pairs the key the id came from with the id.
\<close>

fun first_nonempty :: "'s redis \<Rightarrow> 's \<Rightarrow> key list \<Rightarrow> (key \<times> string) option" where
  "first_nonempty R s [] = None"
| "first_nonempty R s (k # ks) =
     (case r_list R s k of [] \<Rightarrow> first_nonempty R s ks | i # _ \<Rightarrow> Some (k, i))"

definition lpop :: "'s redis \<Rightarrow> key list \<Rightarrow> int option \<Rightarrow> 's \<Rightarrow> (key \<times> string) option res \<times> 's" where
  "lpop R ks timeout s =
     (if timeout = Some 0 then (Inl ValueError, s)
      else
        (case first_nonempty R s ks of
           Some (k, i) \<Rightarrow> (Inr (Some (k, i)), r_run R (LPop k) s)
         | None \<Rightarrow> (if timeout = None then Inr None else Inl DequeueTimeout, s)))"

definition lmove :: "'s redis \<Rightarrow> key \<Rightarrow> int option \<Rightarrow> 's \<Rightarrow> (key \<times> string) option res \<times> 's" where
  "lmove R k timeout s =
     (if timeout = Some 0 then (Inl ValueError, s)
      else
        (case r_list R s k of
           i # _ \<Rightarrow> (Inr (Some (k, i)), r_run R (LMove k (intermediate_key k)) s)
         | [] \<Rightarrow> (if timeout = None then Inr None else Inl DequeueTimeout, s)))"

definition version_ge :: "int \<times> int \<times> int \<Rightarrow> int \<times> int \<times> int \<Rightarrow> bool" where
  "version_ge v w =
     (case (v, w) of ((a, b, c), (x, y, z)) \<Rightarrow> x < a \<or> x = a \<and> (y < b \<or> y = b \<and> z \<le> c))"

definition take_next ::
  "'s redis \<Rightarrow> int \<times> int \<times> int \<Rightarrow> key list \<Rightarrow> int option \<Rightarrow> 's \<Rightarrow> (key \<times> string) option res \<times> 's" where
  "take_next R ver ks timeout s =
     (case ks of
        [k] \<Rightarrow> if version_ge ver (6, 2, 0) then lmove R k timeout s else lpop R ks timeout s
      | _ \<Rightarrow> lpop R ks timeout s)"

text \<open>
  \<open>dequeue_any\<close>: ids without a job are passed over. \<open>None\<close> is out of fuel; the result is a job with
  the name of its queue, nothing, or an exception.
\<close>

fun dequeue_loop ::
  "codec \<Rightarrow> 's redis \<Rightarrow> datetime \<Rightarrow> int \<times> int \<times> int \<Rightarrow> nat \<Rightarrow> key list \<Rightarrow> int option \<Rightarrow> 's \<Rightarrow>
   ((job \<times> string) option res \<times> 's) option" where
  "dequeue_loop C R t ver 0 ks timeout s = None"
| "dequeue_loop C R t ver (Suc n) ks timeout s =
     (case take_next R ver ks timeout s of
        (Inl e, s1) \<Rightarrow> Some (Inl e, s1)
      | (Inr None, s1) \<Rightarrow> Some (Inr None, s1)
      | (Inr (Some (k, i)), s1) \<Rightarrow>
          (case queue_name_of_key k of
             Inl e \<Rightarrow> Some (Inl e, s1)
           | Inr q \<Rightarrow>
               (case fetch C R s1 t i of
                  Inl e \<Rightarrow> if e = NoSuchJobError then dequeue_loop C R t ver n ks timeout s1 else Some (Inl e, s1)
                | Inr j \<Rightarrow> Some (Inr (Some (j, q)), s1))))"

definition dequeue_any ::
  "codec \<Rightarrow> 's redis \<Rightarrow> datetime \<Rightarrow> int \<times> int \<times> int \<Rightarrow> nat \<Rightarrow> string list \<Rightarrow> int option \<Rightarrow> 's \<Rightarrow>
   ((job \<times> string) option res \<times> 's) option" where
  "dequeue_any C R t ver n qs timeout s = dequeue_loop C R t ver n (map queue_key qs) timeout s"

section \<open>The FIFO contract\<close>

text \<open>
  What a worker relies on: pushing at the back or the front, and taking the first item. \<open>drain n\<close> takes
  up to \<open>n\<close> items.
\<close>

locale job_queue =
  fixes items :: "'st \<Rightarrow> string list"
    and push_back :: "string \<Rightarrow> 'st \<Rightarrow> 'st"
    and push_front :: "string \<Rightarrow> 'st \<Rightarrow> 'st"
    and pop :: "'st \<Rightarrow> 'st"
  assumes items_push_back [simp]: "items (push_back i s) = items s @ [i]"
    and items_push_front [simp]: "items (push_front i s) = i # items s"
    and items_pop [simp]: "items (pop s) = tl (items s)"
begin

primrec drain :: "nat \<Rightarrow> 'st \<Rightarrow> string list \<times> 'st" where
  "drain 0 s = ([], s)"
| "drain (Suc n) s =
     (case items s of
        [] \<Rightarrow> ([], s)
      | i # _ \<Rightarrow> (case drain n (pop s) of (is, s') \<Rightarrow> (i # is, s')))"

lemma items_fold_push_back: "items (fold push_back xs s) = items s @ xs"
  by (induction xs arbitrary: s) auto

lemma items_fold_push_front: "items (fold push_front xs s) = rev xs @ items s"
  by (induction xs arbitrary: s) auto

lemma drain_items: "fst (drain n s) = take n (items s) \<and> items (snd (drain n s)) = drop n (items s)"
proof (induction n arbitrary: s)
  case (Suc n)
  show ?case
  proof (cases "items s")
    case (Cons i xs)
    with Suc [of "pop s"] show ?thesis by (auto split: prod.splits)
  qed simp
qed simp

text \<open>Items pushed at the back of an empty queue come out in the order they went in.\<close>

lemma fifo: "items s = [] \<Longrightarrow> fst (drain (length xs) (fold push_back xs s)) = xs"
  by (simp add: drain_items items_fold_push_back)

text \<open>An item pushed at the front is taken before all others, whose order stays.\<close>

lemma front_first: "fst (drain (Suc n) (push_front i s)) = i # fst (drain n s)"
  by (simp add: drain_items del: drain.simps)

end

context redis_server
begin

lemma list_rpush: "r_list R (r_run R (RPush k i) s) = (r_list R s)(k := r_list R s k @ [i])"
  by (simp add: list_run)

lemma list_lpush: "r_list R (r_run R (LPush k i) s) = (r_list R s)(k := i # r_list R s k)"
  by (simp add: list_run)

lemma list_lpop: "r_list R (r_run R (LPop k) s) = (r_list R s)(k := tl (r_list R s k))"
  by (simp add: list_run)

end

sublocale redis_server \<subseteq> q: job_queue
  "\<lambda>s. r_list R s (queue_key q)"
  "\<lambda>i. run_all R (push_job_id q False i)"
  "\<lambda>i. run_all R (push_job_id q True i)"
  "r_run R (LPop (queue_key q))"
  for q
  by unfold_locales (simp_all add: push_job_id_def list_rpush list_lpush list_lpop)

section \<open>Lemmas\<close>

lemma position_Some: "position i xs = Some n \<Longrightarrow> n < length xs \<and> xs ! n = i \<and> i \<notin> set (take n xs)"
proof (induction xs arbitrary: n)
  case (Cons x xs)
  then show ?case by (cases n) (auto split: if_splits)
qed simp

lemma position_None: "position i xs = None \<longleftrightarrow> i \<notin> set xs"
  by (induction xs) auto

lemma queue_job_ids_all: "queue_job_ids R s q 0 (- 1) = r_list R s (queue_key q)"
  by (simp add: queue_job_ids_def)

lemma first_nonempty_Some:
  "first_nonempty R s ks = Some (k, i) \<Longrightarrow>
   \<exists>before after. ks = before @ k # after \<and> (\<forall>k' \<in> set before. r_list R s k' = []) \<and>
     r_list R s k \<noteq> [] \<and> hd (r_list R s k) = i"
proof (induction ks)
  case (Cons a ks)
  show ?case
  proof (cases "r_list R s a")
    case Nil
    with Cons obtain before after where "ks = before @ k # after" "\<forall>k' \<in> set before. r_list R s k' = []"
      "r_list R s k \<noteq> []" "hd (r_list R s k) = i" by auto
    with Nil show ?thesis by (intro exI [of _ "a # before"] exI [of _ after]) simp
  next
    case (Cons x xs)
    with Cons.prems show ?thesis by (intro exI [of _ "[]"] exI [of _ ks]) simp
  qed
qed simp

lemma first_nonempty_None: "first_nonempty R s ks = None \<longleftrightarrow> (\<forall>k \<in> set ks. r_list R s k = [])"
  by (induction ks) (auto split: list.splits)

lemma compact_key_neq [simp]: "fam (compact_key uid) = ''queue''"
  by (simp add: fam_def compact_key_def)

context redis_server
begin

text \<open>\<open>compact\<close> keeps exactly the ids whose job exists, in their order; the fuel is enough.\<close>

lemma compact_loop_result:
  assumes "length (r_list R s tmp) < n" "k \<noteq> tmp" "fam k \<noteq> ''job''" "fam tmp \<noteq> ''job''"
  shows "\<exists>s'. compact_loop R n k tmp s = Some s' \<and>
    r_list R s' k = r_list R s k @ filter (job_exists R s) (r_list R s tmp) \<and> r_list R s' tmp = [] \<and>
    (\<forall>i. job_exists R s' i = job_exists R s i)"
  using assms(1)
proof (induction n arbitrary: s)
  case (Suc n)
  show ?case
  proof (cases "r_list R s tmp")
    case Nil
    then show ?thesis by simp
  next
    case (Cons i xs)
    let ?s1 = "r_run R (LPop tmp) s"
    let ?s2 = "if job_exists R ?s1 i then r_run R (RPush k i) ?s1 else ?s1"
    have ex: "key_exists R ?s1 (job_key j) = key_exists R s (job_key j)" for j
      using assms(4) by (simp add: key_exists_frame)
    then have ex1: "job_exists R ?s1 = job_exists R s" by (intro ext) (simp add: job_exists_def)
    have ex2: "job_exists R ?s2 = job_exists R s"
      using assms(3) ex by (intro ext) (simp add: job_exists_def key_exists_frame)
    have l: "r_list R ?s2 tmp = xs" "r_list R ?s2 k = (if job_exists R s i then r_list R s k @ [i] else r_list R s k)"
      using Cons assms(2) by (simp_all add: ex1 list_rpush list_lpop)
    then have "length (r_list R ?s2 tmp) < n" using Suc.prems Cons by simp
    from Suc.IH [OF this] obtain s' where "compact_loop R n k tmp ?s2 = Some s'"
      "r_list R s' k = r_list R ?s2 k @ filter (job_exists R ?s2) (r_list R ?s2 tmp)" "r_list R s' tmp = []"
      "\<forall>i. job_exists R s' i = job_exists R ?s2 i" by blast
    then show ?thesis using Cons by (auto simp: Let_def l ex2)
  qed
qed simp

lemma compact_queue_result:
  assumes "key_exists R s (queue_key q)" "length (r_list R s (queue_key q)) < n" "compact_key uid \<noteq> queue_key q"
  shows "\<exists>s'. compact_queue R n q uid s = Inr (Some s') \<and>
    r_list R s' (queue_key q) = filter (job_exists R s) (r_list R s (queue_key q)) \<and>
    r_list R s' (compact_key uid) = [] \<and> (\<forall>i. job_exists R s' i = job_exists R s i)"
proof -
  let ?s = "r_run R (Rename (queue_key q) (compact_key uid)) s"
  have l: "r_list R ?s (compact_key uid) = r_list R s (queue_key q)" "r_list R ?s (queue_key q) = []"
    using assms(3) by (simp_all add: list_run)
  have ex: "job_exists R ?s = job_exists R s" by (intro ext) (simp add: job_exists_def key_exists_frame)
  have "length (r_list R ?s (compact_key uid)) < n" using assms(2) l by simp
  from compact_loop_result [OF this, of "queue_key q"] obtain s' where
    "compact_loop R n (queue_key q) (compact_key uid) ?s = Some s'"
    "r_list R s' (queue_key q) = r_list R ?s (queue_key q) @ filter (job_exists R ?s) (r_list R ?s (compact_key uid))"
    "r_list R s' (compact_key uid) = []" "\<forall>i. job_exists R s' i = job_exists R ?s i"
    using assms(3) by fastforce
  with assms(1) l ex show ?thesis by (simp add: compact_queue_def)
qed

text \<open>\<open>empty\<close> removes the ids and deletes the hash of every job that was queued.\<close>

lemma empty_step:
  "r_list R (empty_step R q i s) (queue_key q) = tl (r_list R s (queue_key q))"
  "\<not> key_exists R (empty_step R q i s) (job_key i)"
  "\<not> key_exists R s (job_key j) \<Longrightarrow> \<not> key_exists R (empty_step R q i s) (job_key j)"
  by (auto simp: empty_step_def key_exists_iff list_run set_run zset_run hash_run str_run stream_run wipe_def)

lemma empty_aux:
  "r_list R (fold (empty_step R q) ids s) (queue_key q) = drop (length ids) (r_list R s (queue_key q)) \<and>
   (\<forall>i \<in> set ids. \<not> key_exists R (fold (empty_step R q) ids s) (job_key i))"
  by (induction ids rule: rev_induct) (auto simp: empty_step drop_Suc tl_drop)

lemma empty_result:
  "r_list R (empty R q s) (queue_key q) = []"
  "i \<in> set (r_list R s (queue_key q)) \<Longrightarrow> \<not> job_exists R (empty R q s) i"
  using empty_aux [of q "r_list R s (queue_key q)" s] by (auto simp: empty_def job_exists_def)

text \<open>The maintenance lock is held by one worker at a time.\<close>

lemma maintenance_lock_exclusive:
  assumes "acquire_maintenance_lock R q s = (True, s1)"
  shows "fst (acquire_maintenance_lock R q s1) = False"
proof -
  have "r_str R s1 (cleaning_key q) \<noteq> None"
    using assms by (auto simp: acquire_maintenance_lock_def str_run)
  then show ?thesis by (simp add: acquire_maintenance_lock_def key_exists_def)
qed

end

section \<open>What \<open>dequeue_any\<close> returns\<close>

text \<open>The ids waiting in the given lists, in the order they are served.\<close>

definition waiting :: "'s redis \<Rightarrow> key list \<Rightarrow> 's \<Rightarrow> string list" where
  "waiting R ks s = concat (map (r_list R s) ks)"

definition missing :: "codec \<Rightarrow> 's redis \<Rightarrow> 's \<Rightarrow> datetime \<Rightarrow> string \<Rightarrow> bool" where
  "missing C R s t i \<longleftrightarrow> fetch C R s t i = Inl NoSuchJobError"

lemma first_nonempty_waiting:
  "waiting R ks s = i # rest \<Longrightarrow> \<exists>k. first_nonempty R s ks = Some (k, i)"
  by (induction ks) (auto simp: waiting_def split: list.splits)

context redis_server
begin

lemma waiting_pop:
  assumes "first_nonempty R s ks = Some (k, i)" "distinct ks"
    and s1: "r_list R s1 k = tl (r_list R s k)" "\<forall>k' \<in> set ks. k' \<noteq> k \<longrightarrow> r_list R s1 k' = r_list R s k'"
  shows "waiting R ks s = i # waiting R ks s1"
proof -
  obtain before after where ks: "ks = before @ k # after" "\<forall>k' \<in> set before. r_list R s k' = []"
    "r_list R s k \<noteq> []" "hd (r_list R s k) = i"
    using first_nonempty_Some [OF assms(1)] by blast
  have "concat (map (r_list R s1) before) = []" "concat (map (r_list R s) before) = []"
    using s1(2) assms(2) ks(1,2) by auto
  moreover have "concat (map (r_list R s1) after) = concat (map (r_list R s) after)"
    by (rule arg_cong [where f = concat]) (use s1(2) assms(2) ks(1) in auto)
  moreover have "r_list R s k = i # tl (r_list R s k)" using ks(3,4) by (cases "r_list R s k") auto
  ultimately show ?thesis
    using s1(1) unfolding waiting_def ks(1) map_append list.map concat_append concat.simps by (metis append.left_neutral append_Cons)
qed

lemma take_next_Some:
  assumes "timeout \<noteq> Some 0" "distinct ks" "waiting R ks s = i # rest"
    and "\<forall>k \<in> set ks. fam k = ''queue''"
  shows "\<exists>k s1. take_next R ver ks timeout s = (Inr (Some (k, i)), s1) \<and> k \<in> set ks \<and> waiting R ks s1 = rest \<and>
    (\<forall>j. hget R s1 (job_key j) = hget R s (job_key j))"
proof -
  obtain k where k: "first_nonempty R s ks = Some (k, i)" using first_nonempty_waiting [OF assms(3)] by blast
  have kin: "k \<in> set ks" using first_nonempty_Some [OF k] by auto
  show ?thesis
  proof (cases "\<exists>k'. ks = [k'] \<and> version_ge ver (6, 2, 0)")
    case True
    with kin have ks: "ks = [k]" by auto
    let ?s1 = "r_run R (LMove k (intermediate_key k)) s"
    obtain xs where l: "r_list R s k = i # xs" using k ks by (auto split: list.splits)
    have "r_list R ?s1 k = xs" using l by (simp add: list_run)
    moreover have "hget R ?s1 = hget R s" by (simp add: hash_run)
    ultimately show ?thesis
      using True ks l assms(1,3) by (auto simp: take_next_def lmove_def waiting_def)
  next
    case False
    let ?s1 = "r_run R (LPop k) s"
    have "take_next R ver ks timeout s = lpop R ks timeout s"
      using False by (auto simp: take_next_def split: list.splits)
    then have "take_next R ver ks timeout s = (Inr (Some (k, i)), ?s1)"
      using k assms(1) by (simp add: lpop_def)
    moreover have "waiting R ks s = i # waiting R ks ?s1"
      using waiting_pop [OF k assms(2), of ?s1] by (simp add: list_lpop)
    moreover have "hget R ?s1 = hget R s" by (simp add: hash_run)
    ultimately show ?thesis using kin assms(3) by auto
  qed
qed

lemma take_next_None:
  assumes "timeout \<noteq> Some 0" "waiting R ks s = []"
  shows "take_next R ver ks timeout s = (if timeout = None then Inr None else Inl DequeueTimeout, s)"
proof -
  have "\<forall>k \<in> set ks. r_list R s k = []" using assms(2) by (simp add: waiting_def)
  then show ?thesis using assms(1)
    by (auto simp: take_next_def lpop_def lmove_def first_nonempty_None [THEN iffD2] split: list.splits)
qed

lemma dequeue_loop_result:
  assumes "timeout \<noteq> Some 0" "distinct qs" "length (waiting R (map queue_key qs) s) < n"
  shows "\<exists>r s'. dequeue_loop C R t ver n (map queue_key qs) timeout s = Some (r, s') \<and>
    (case dropWhile (missing C R s t) (waiting R (map queue_key qs) s) of
       [] \<Rightarrow> r = (if timeout = None then Inr None else Inl DequeueTimeout) \<and> waiting R (map queue_key qs) s' = []
     | i # rest \<Rightarrow>
         waiting R (map queue_key qs) s' = rest \<and>
         (\<exists>q \<in> set qs. r = bindE (fetch C R s t i) (\<lambda>j. Inr (Some (j, q)))))"
  using assms(3)
proof (induction n arbitrary: s)
  case (Suc n)
  let ?ks = "map queue_key qs"
  show ?case
  proof (cases "waiting R ?ks s")
    case Nil
    then show ?thesis using take_next_None [OF assms(1) Nil, of ver] by auto
  next
    case (Cons i rest)
    have d: "distinct ?ks" using assms(2) by (simp add: distinct_map inj_on_def)
    obtain k s1 where k: "take_next R ver ?ks timeout s = (Inr (Some (k, i)), s1)" "k \<in> set ?ks"
      "waiting R ?ks s1 = rest" "\<And>j. hget R s1 (job_key j) = hget R s (job_key j)"
      using take_next_Some [OF assms(1) d Cons, of ver] by auto
    have same: "fetch C R s1 t j = fetch C R s t j" for j by (rule fetch_cong) (rule k(4))
    obtain q where q: "q \<in> set qs" "queue_name_of_key k = Inr q" using k(2) by auto
    show ?thesis
    proof (cases "missing C R s t i")
      case True
      have "length (waiting R ?ks s1) < n" using Suc.prems Cons k(3) by simp
      have m: "missing C R s1 t = missing C R s t" by (intro ext) (simp add: missing_def same)
      have step: "dequeue_loop C R t ver (Suc n) ?ks timeout s = dequeue_loop C R t ver n ?ks timeout s1"
        using True by (simp add: k q same missing_def)
      have drop: "dropWhile (missing C R s t) (waiting R ?ks s) = dropWhile (missing C R s1 t) (waiting R ?ks s1)"
        using True by (simp add: Cons k(3) m)
      show ?thesis unfolding step drop using Suc.IH [OF \<open>length (waiting R ?ks s1) < n\<close>] unfolding same .
    next
      case False
      then have "dequeue_loop C R t ver (Suc n) ?ks timeout s =
          Some (bindE (fetch C R s t i) (\<lambda>j. Inr (Some (j, q))), s1)"
        by (cases "fetch C R s t i") (simp_all add: k q same missing_def)
      with False q(1) show ?thesis by (auto simp: Cons k(3))
    qed
  qed
qed simp

end

section \<open>Properties\<close>

context redis_server
begin

lemma run_all_pushes:
  "run_all R (concat (map (push_job_id q b) xs)) s = fold (\<lambda>i. run_all R (push_job_id q b i)) xs s"
  by (induction xs arbitrary: s) simp_all

lemma pushed_ids:
  "queue_job_ids R (run_all R (concat (map (push_job_id q False) xs)) s) q 0 (- 1) = queue_job_ids R s q 0 (- 1) @ xs"
  "queue_job_ids R (run_all R (concat (map (push_job_id q True) xs)) s) q 0 (- 1) = rev xs @ queue_job_ids R s q 0 (- 1)"
  unfolding queue_job_ids_all run_all_pushes by (rule q.items_fold_push_back, rule q.items_fold_push_front)

lemma empty_step_frame:
  assumes "k \<noteq> queue_key q" "k \<noteq> job_key i" "k \<noteq> dependents_key i"
  shows "key_exists R (empty_step R q i s) k = key_exists R s k" "hget R (empty_step R q i s) k = hget R s k"
  using assms by (simp_all only: empty_step_def, simp_all add: run_frame key_exists_frame)

lemma fold_empty_frame:
  "k \<noteq> queue_key q \<Longrightarrow> k \<notin> job_key ` set ids \<Longrightarrow> k \<notin> dependents_key ` set ids \<Longrightarrow>
   key_exists R (fold (empty_step R q) ids s) k = key_exists R s k \<and>
   hget R (fold (empty_step R q) ids s) k = hget R s k"
  by (induction ids arbitrary: s) (auto simp: empty_step_frame)

lemma empty_frame:
  assumes "k \<noteq> queue_key q" "k \<notin> job_key ` set (r_list R s (queue_key q))"
    "k \<notin> dependents_key ` set (r_list R s (queue_key q))"
  shows "key_exists R (empty R q s) k = key_exists R s k \<and> hget R (empty R q s) k = hget R s k"
  unfolding empty_def by (rule fold_empty_frame [OF assms])

lemma release_frees: "fst (acquire_maintenance_lock R q (run_all R (release_maintenance_lock q) s)) = True"
  by (simp add: acquire_maintenance_lock_def release_maintenance_lock_def key_exists_iff list_run set_run zset_run
      hash_run str_run stream_run wipe_def)

lemma pop_first:
  "queue_job_ids R s q 0 (- 1) = i # rest \<Longrightarrow>
   \<exists>s'. pop_job_id R q s = (Inr i, s') \<and> queue_job_ids R s' q 0 (- 1) = rest"
  by (simp add: queue_job_ids_all pop_job_id_def list_lpop)

end

text \<open>
  The queue is first in, first out: ids pushed at the back stand behind those already there in the
  order they were pushed, ids pushed at the front stand before them in the opposite order, and
  \<open>pop_job_id\<close> takes the first id and leaves the rest.
\<close>

theorem queue_fifo:
  assumes "redis_server R"
  shows "queue_job_ids R (run_all R (concat (map (push_job_id q False) xs)) s) q 0 (- 1) = queue_job_ids R s q 0 (- 1) @ xs \<and>
    queue_job_ids R (run_all R (concat (map (push_job_id q True) xs)) s) q 0 (- 1) = rev xs @ queue_job_ids R s q 0 (- 1) \<and>
    (\<forall>i rest. queue_job_ids R s q 0 (- 1) = i # rest \<longrightarrow>
       (\<exists>s'. pop_job_id R q s = (Inr i, s') \<and> queue_job_ids R s' q 0 (- 1) = rest))"
  using redis_server.pushed_ids [OF assms] redis_server.pop_first [OF assms] by blast

theorem queue_fifo_witness:
  "\<exists>s'. pop_job_id mem_redis ''q'' (run_all mem_redis (concat (map (push_job_id ''q'' False) [''a'', ''b''])) mem_empty) = (Inr ''a'', s') \<and>
     queue_job_ids mem_redis s' ''q'' 0 (- 1) = [''b'']"
proof -
  note f = queue_fifo [OF mem.redis_server_axioms]
  have "queue_job_ids mem_redis mem_empty ''q'' 0 (- 1) = []" by (simp add: queue_job_ids_all)
  then have "queue_job_ids mem_redis (run_all mem_redis (concat (map (push_job_id ''q'' False) [''a'', ''b''])) mem_empty) ''q'' 0 (- 1) =
      [''a'', ''b'']"
    using f [of "''q''" "[''a'', ''b'']" mem_empty] by (simp only: append_Nil)
  then show ?thesis using f [of "''q''" "[]"] by blast
qed

text \<open>
  C8. \<open>dequeue_any\<close> over several queues serves the ids of the first queue before those of the second and
  so on, each queue in its order. It drops the ids whose job is gone, returns the first job that
  exists with the name of one of the queues (or the exception its fetch raised), and leaves the ids
  behind it; when no id has a job it empties the queues and returns None, or raises DequeueTimeout
  when it was to block. Fuel for one round more than there are ids is enough.
\<close>

theorem dequeue_any_order:
  assumes "redis_server R" "timeout \<noteq> Some 0" "distinct qs" "length (waiting R (map queue_key qs) s) < n"
  shows "\<exists>r s'. dequeue_any C R t ver n qs timeout s = Some (r, s') \<and>
    (case dropWhile (missing C R s t) (waiting R (map queue_key qs) s) of
       [] \<Rightarrow> r = (if timeout = None then Inr None else Inl DequeueTimeout) \<and> waiting R (map queue_key qs) s' = []
     | i # rest \<Rightarrow>
         waiting R (map queue_key qs) s' = rest \<and>
         (\<exists>q \<in> set qs. r = bindE (fetch C R s t i) (\<lambda>j. Inr (Some (j, q)))))"
  unfolding dequeue_any_def by (rule redis_server.dequeue_loop_result [OF assms])

theorem dequeue_any_order_witness:
  "\<exists>s'. dequeue_any sample_codec mem_redis 7 (7, 0, 0) 2 [''q''] None (run_all mem_redis (push_job_id ''q'' False ''a'') mem_empty) =
     Some (Inr None, s') \<and> waiting mem_redis (map queue_key [''q'']) s' = []"
proof -
  let ?s = "run_all mem_redis (push_job_id ''q'' False ''a'') mem_empty"
  have w: "waiting mem_redis (map queue_key [''q'']) ?s = [''a'']"
    by (simp add: waiting_def push_job_id_def mem.list_rpush)
  have "valid_id ''a''" by code_simp
  moreover have "r_hash mem_redis ?s (job_key ''a'') = []"
    by (simp add: push_job_id_def mem.hash_view_frame)
  ultimately have "missing sample_codec mem_redis ?s 7 ''a''" by (simp add: missing_def fetch_valid)
  then show ?thesis
    using dequeue_any_order [OF mem.redis_server_axioms, of None "[''q'']" ?s 2 sample_codec 7 "(7, 0, 0)"] w by auto
qed

text \<open>
  \<open>compact\<close> on a queue that exists terminates and keeps exactly the ids whose job exists, in their
  order and with their repetitions; no job is touched and the temporary list ends up empty.
\<close>

theorem compact_keeps_existing:
  assumes "redis_server R" "key_exists R s (queue_key q)" "length (r_list R s (queue_key q)) < n"
    and "compact_key uid \<noteq> queue_key q"
  shows "\<exists>s'. compact_queue R n q uid s = Inr (Some s') \<and>
    queue_job_ids R s' q 0 (- 1) = filter (job_exists R s) (queue_job_ids R s q 0 (- 1)) \<and>
    r_list R s' (compact_key uid) = [] \<and> (\<forall>i. job_exists R s' i = job_exists R s i)"
  using redis_server.compact_queue_result [OF assms] by (simp add: queue_job_ids_all)

theorem compact_keeps_existing_witness:
  "\<exists>s'. compact_queue mem_redis 2 ''q'' ''u'' (run_all mem_redis (push_job_id ''q'' False ''a'') mem_empty) = Inr (Some s') \<and>
     queue_job_ids mem_redis s' ''q'' 0 (- 1) = []"
proof -
  let ?s = "run_all mem_redis (push_job_id ''q'' False ''a'') mem_empty"
  have l: "r_list mem_redis ?s (queue_key ''q'') = [''a'']" by (simp add: push_job_id_def mem.list_rpush)
  then have "key_exists mem_redis ?s (queue_key ''q'')" by (simp add: key_exists_def)
  moreover have "\<not> job_exists mem_redis ?s ''a''" by (simp add: job_exists_def push_job_id_def mem.key_exists_frame)
  moreover have "compact_key ''u'' \<noteq> queue_key ''q''" by (simp add: compact_key_def queue_key_def)
  ultimately show ?thesis
    using compact_keeps_existing [OF mem.redis_server_axioms, of ?s "''q''" 2 "''u''"] l by (auto simp: queue_job_ids_all)
qed

text \<open>Without a list, RENAME replies with an error and nothing changes.\<close>

lemma compact_empty_raises:
  assumes "\<not> key_exists R s (queue_key q)"
  shows "compact_queue R n q uid s = Inl ResponseError"
  using assms by (simp add: compact_queue_def)

text \<open>
  \<open>empty\<close> leaves no id on the queue and no key of any job that was on it, and keeps every key that is
  not the queue's, a queued job's or the dependents' set of a queued job.
\<close>

theorem empty_queue:
  assumes "redis_server R"
  shows "queue_job_ids R (empty R q s) q 0 (- 1) = [] \<and>
    (\<forall>i \<in> set (queue_job_ids R s q 0 (- 1)). \<not> job_exists R (empty R q s) i) \<and>
    (\<forall>k. k \<noteq> queue_key q \<and> k \<notin> job_key ` set (queue_job_ids R s q 0 (- 1)) \<and>
         k \<notin> dependents_key ` set (queue_job_ids R s q 0 (- 1)) \<longrightarrow>
       key_exists R (empty R q s) k = key_exists R s k \<and> hget R (empty R q s) k = hget R s k)"
  using redis_server.empty_result [OF assms] redis_server.empty_frame [OF assms] by (simp add: queue_job_ids_all)

theorem empty_queue_witness:
  "\<not> job_exists mem_redis (empty mem_redis ''q'' (run_all mem_redis (push_job_id ''q'' False ''a'') mem_empty)) ''a''"
proof -
  have "''a'' \<in> set (queue_job_ids mem_redis (run_all mem_redis (push_job_id ''q'' False ''a'') mem_empty) ''q'' 0 (- 1))"
    by (simp add: queue_job_ids_all push_job_id_def mem.list_rpush)
  then show ?thesis using empty_queue [OF mem.redis_server_axioms] by blast
qed

text \<open>
  The maintenance lock of a queue is exclusive: while one worker has it no other gets it, and it is
  free again after its release.
\<close>

theorem maintenance_lock:
  assumes "redis_server R" "acquire_maintenance_lock R q s = (True, s1)"
  shows "fst (acquire_maintenance_lock R q s1) = False \<and>
    fst (acquire_maintenance_lock R q (run_all R (release_maintenance_lock q) s1)) = True"
  using redis_server.maintenance_lock_exclusive [OF assms] redis_server.release_frees [OF assms(1)] by blast

theorem maintenance_lock_witness:
  "fst (acquire_maintenance_lock mem_redis ''q'' (snd (acquire_maintenance_lock mem_redis ''q'' mem_empty))) = False"
proof -
  have "acquire_maintenance_lock mem_redis ''q'' mem_empty = (True, snd (acquire_maintenance_lock mem_redis ''q'' mem_empty))"
    by (simp add: acquire_maintenance_lock_def)
  then show ?thesis using maintenance_lock [OF mem.redis_server_axioms] by blast
qed

end
