(* ===== verification/JobOps.thy ===== *)
theory JobOps
  imports Conn Queue
begin

text \<open>
  The operations of a job that reach beyond its hash (\<open>rq/job.py\<close>, \<open>rq/registry.py\<close>): leaving its
  registry, deletion, expiry, failing, succeeding, and its group. \<open>C\<close> is the codec, \<open>R\<close> the server,
  \<open>t\<close> the clock.
\<close>

section \<open>Groups of a job\<close>

definition group_fetch :: "'s redis \<Rightarrow> string \<Rightarrow> 's \<Rightarrow> unit res" where
  "group_fetch R g s = (if key_exists R s (group_key g) then Inr () else Inl NoSuchGroupError)"

definition group_delete_job :: "string \<Rightarrow> string \<Rightarrow> cmd list" where
  "group_delete_job g i = [SRem (group_key g) [i]]"

section \<open>Leaving the registries\<close>

text \<open>
  The chain of \<open>is_finished\<close>, \<open>is_deferred\<close>, ... reads the status afresh each time, and finds the
  same one; the read also sets the status of the object.
\<close>

definition leave_registry :: "'s redis \<Rightarrow> datetime \<Rightarrow> bool \<Rightarrow> job \<Rightarrow> job_status \<Rightarrow> ('s, unit) op" where
  "leave_registry R t piped j st =
     (case st of
        FINISHED \<Rightarrow> send R piped (reg_remove Finished (j_origin j) (j_id j))
      | DEFERRED \<Rightarrow> send R piped (reg_remove Deferred (j_origin j) (j_id j))
      | STARTED \<Rightarrow> bindO (act (remove_executions R (j_origin j) (j_id j) t)) (send R piped)
      | SCHEDULED \<Rightarrow> send R piped (reg_remove Scheduled (j_origin j) (j_id j))
      | FAILED \<Rightarrow> send R piped (reg_remove Failed (j_origin j) (j_id j))
      | STOPPED \<Rightarrow> send R piped (reg_remove Failed (j_origin j) (j_id j))
      | CANCELED \<Rightarrow> send R piped (reg_remove Canceled (j_origin j) (j_id j))
      | CREATED \<Rightarrow> ret ()
      | QUEUED \<Rightarrow> ret ())"

definition remove_from_registries :: "'s redis \<Rightarrow> datetime \<Rightarrow> bool \<Rightarrow> bool \<Rightarrow> job \<Rightarrow> ('s, job) op" where
  "remove_from_registries R t piped from_queue j =
     seqO (if from_queue then send R piped (remove (j_origin j) (j_id j)) else ret ())
       (bindO (ask (\<lambda>s. get_status R s (j_id j))) (\<lambda>st.
          seqO (leave_registry R t piped j st) (ret (j\<lparr>j_status := st\<rparr>))))"

section \<open>Deletion\<close>

definition delete_keys :: "job \<Rightarrow> cmd list" where
  "delete_keys j = [Del [job_key (j_id j), dependents_key (j_id j), dependencies_key (j_id j)]]"

definition delete_group_entry :: "'s redis \<Rightarrow> bool \<Rightarrow> job \<Rightarrow> ('s, unit) op" where
  "delete_group_entry R piped j =
     (case j_group_id j of
        None \<Rightarrow> ret ()
      | Some g \<Rightarrow>
          if g = [] then ret ()
          else seqO (ask (group_fetch R g)) (send R piped (group_delete_job g (j_id j))))"

text \<open>
  \<open>delete\<close> without the dependents, and with them. \<open>delete_dependents\<close> deletes each dependent that
  still has a hash, and leaves the dependents of those alone.
\<close>

definition delete_with :: "'s redis \<Rightarrow> datetime \<Rightarrow> bool \<Rightarrow> bool \<Rightarrow> ('s, unit) op \<Rightarrow> job \<Rightarrow> ('s, job) op" where
  "delete_with R t piped from_queue dependents j =
     bindO (remove_from_registries R t piped from_queue j) (\<lambda>j'.
       seqO dependents
         (seqO (bindO (act (exreg_delete R (j_origin j) (j_id j) t)) (send R piped))
           (seqO (delete_group_entry R piped j)
             (seqO (send R piped (delete_keys j)) (ret j')))))"

definition delete_one :: "codec \<Rightarrow> 's redis \<Rightarrow> datetime \<Rightarrow> bool \<Rightarrow> string \<Rightarrow> ('s, unit) op" where
  "delete_one C R t piped i =
     catchO
       (bindO (ask (\<lambda>s. fetch C R s t i)) (\<lambda>d.
          bindO (delete_with R t piped False (ret ()) d) (\<lambda>_. ret ())))
       (\<lambda>e. if e = NoSuchJobError then Some (ret ()) else None)"

definition delete_dependents :: "codec \<Rightarrow> 's redis \<Rightarrow> datetime \<Rightarrow> bool \<Rightarrow> job \<Rightarrow> ('s, unit) op" where
  "delete_dependents C R t piped j =
     bindO (ask (\<lambda>s. Inr (dependent_ids R s (j_id j)))) (\<lambda>ids.
       seqO (for_each (delete_one C R t piped) ids) (send R piped [Del [dependents_key (j_id j)]]))"

definition delete :: "codec \<Rightarrow> 's redis \<Rightarrow> datetime \<Rightarrow> bool \<Rightarrow> bool \<Rightarrow> bool \<Rightarrow> job \<Rightarrow> ('s, job) op" where
  "delete C R t piped from_queue dependents j =
     delete_with R t piped from_queue (if dependents then delete_dependents C R t piped j else ret ()) j"

section \<open>Expiry\<close>

definition expire_keys :: "job \<Rightarrow> int \<Rightarrow> cmd list" where
  "expire_keys j ttl = [Expire (job_key (j_id j)) ttl, Expire (dependents_key (j_id j)) ttl,
     Expire (dependencies_key (j_id j)) ttl]"

definition cleanup :: "codec \<Rightarrow> 's redis \<Rightarrow> datetime \<Rightarrow> bool \<Rightarrow> int option \<Rightarrow> bool \<Rightarrow> job \<Rightarrow> ('s, job) op" where
  "cleanup C R t piped ttl from_queue j =
     (case ttl of
        None \<Rightarrow> ret j
      | Some n \<Rightarrow>
          if n = 0 then delete C R t piped from_queue False j
          else if 0 < n then seqO (send R piped (expire_keys j n)) (ret j)
          else ret j)"

section \<open>Saving on a connection\<close>

definition save_on :: "codec \<Rightarrow> 's redis \<Rightarrow> bool \<Rightarrow> bool \<Rightarrow> bool \<Rightarrow> job \<Rightarrow> ('s, job) op" where
  "save_on C R piped include_meta include_result j =
     bindO (liftE (save C include_meta include_result j)) (\<lambda>(cs, j'). seqO (send R piped cs) (ret j'))"

definition set_status_on :: "'s redis \<Rightarrow> bool \<Rightarrow> job_status \<Rightarrow> job \<Rightarrow> ('s, job) op" where
  "set_status_on R piped st j = seqO (send R piped (fst (set_status st j))) (ret (snd (set_status st j)))"

section \<open>Success and failure\<close>

definition default_failure_ttl :: int where
  "default_failure_ttl = 31536000"

text \<open>\<open>FailedJobRegistry.add\<close>: the score of a negative ttl is the ttl itself, -1 included.\<close>

definition failed_add :: "codec \<Rightarrow> 's redis \<Rightarrow> datetime \<Rightarrow> bool \<Rightarrow> int option \<Rightarrow> string \<Rightarrow> job \<Rightarrow> ('s, job) op" where
  "failed_add C R t piped ttl exc j =
     (let n = opt_default default_failure_ttl ttl;
          score = (if n < 0 then n else current_timestamp t + n)
      in own_pipe R piped
           (bindO (save_on C R True False False (j\<lparr>j_exc_info := Some exc\<rparr>)) (\<lambda>j1.
            bindO (cleanup C R t True (Some n) True j1) (\<lambda>j2.
              seqO (send R True [ZAdd ZAny (registry_key Failed (j_origin j2)) (j_id j2) (Fin score)]) (ret j2)))))"

definition handle_failure ::
  "codec \<Rightarrow> 's redis \<Rightarrow> datetime \<Rightarrow> string \<Rightarrow> string \<Rightarrow> exec_info \<Rightarrow> job \<Rightarrow> ('s, job) op" where
  "handle_failure C R t exc w ei j =
     bindO (failed_add C R t True (j_failure_ttl j) exc j) (\<lambda>j1.
     bindO (liftE (create_failure C (j_id j1) (j_failure_ttl j1) exc w ei)) (\<lambda>cs.
       seqO (send R True cs) (ret j1)))"

definition handle_success ::
  "codec \<Rightarrow> 's redis \<Rightarrow> datetime \<Rightarrow> int \<Rightarrow> string \<Rightarrow> exec_info \<Rightarrow> job \<Rightarrow> ('s, job) op" where
  "handle_success C R t result_ttl w ei j =
     bindO (set_status_on R True FINISHED j) (\<lambda>j1.
     bindO (save_on C R True False False j1) (\<lambda>j2.
     bindO (liftE (create_result C (j_id j2) SUCCESSFUL (Some result_ttl) (j_result j2) None w ei)) (\<lambda>cs.
       seqO (send R True cs)
         (seqO (if result_ttl \<noteq> 0
                then send R True (reg_add Finished (j_origin j2) (j_id j2) result_ttl False t)
                else ret ())
           (ret j2)))))"

end
