(* ===== verification/Scripts.thy ===== *)
theory Scripts
  imports JobOps
begin

text \<open>
  Unique enqueueing and scheduling (\<open>rq/scripts.py\<close>). The server runs each Lua script atomically, so a
  script is a function on the server state: it checks that the job hash does not exist and then saves
  the job and registers it, or changes nothing and the caller raises DuplicateJobError.
\<close>

datatype push_direction = PushL | PushR | PushN

definition unique_enqueue_script ::
  "'s redis \<Rightarrow> key \<Rightarrow> key \<Rightarrow> string \<Rightarrow> push_direction \<Rightarrow> int \<Rightarrow> fields \<Rightarrow> 's \<Rightarrow> bool \<times> 's" where
  "unique_enqueue_script R jk qk i dir ttl fs s =
     (if key_exists R s jk then (False, s)
      else
        (True, run_all R
          ((if fs = [] then [] else [HSet jk fs]) @ (if 0 < ttl then [Expire jk ttl] else []) @
           (case dir of PushL \<Rightarrow> [LPush qk i] | PushR \<Rightarrow> [RPush qk i] | PushN \<Rightarrow> [])) s))"

text \<open>\<open>save_unique_job\<close> runs on the connection whatever pipeline the caller has.\<close>

definition save_unique_job :: "codec \<Rightarrow> 's redis \<Rightarrow> string \<Rightarrow> bool \<Rightarrow> bool \<Rightarrow> job \<Rightarrow> ('s, job) op" where
  "save_unique_job C R q enqueue at_front j =
     bindO (liftE (to_dict C True True j)) (\<lambda>(fs, j').
       bindO (act (\<lambda>s. case unique_enqueue_script R (job_key (j_id j)) (queue_key q) (j_id j)
                (if \<not> enqueue then PushN else if at_front then PushL else PushR) (opt_default (- 1) (j_ttl j)) fs s of
            (ok, s') \<Rightarrow> (if ok then Inr () else Inl DuplicateJobError, s')))
         (\<lambda>_. ret j'))"

definition unique_schedule_script ::
  "'s redis \<Rightarrow> key \<Rightarrow> key \<Rightarrow> key \<Rightarrow> string \<Rightarrow> int \<Rightarrow> int \<Rightarrow> key \<Rightarrow> fields \<Rightarrow> 's \<Rightarrow> bool \<times> 's" where
  "unique_schedule_script R jk rk qsk i ttl ts qk fs s =
     (if key_exists R s jk then (False, s)
      else
        (True, run_all R
          ((if fs = [] then [] else [HSet jk fs]) @ (if 0 < ttl then [Expire jk ttl] else []) @
           [ZAdd ZAny rk i (Fin ts), SAdd qsk qk]) s))"

definition schedule_unique_job ::
  "codec \<Rightarrow> 's redis \<Rightarrow> string \<Rightarrow> int option \<Rightarrow> datetime \<Rightarrow> job \<Rightarrow> ('s, job) op" where
  "schedule_unique_job C R q offset dt j =
     bindO (liftE (to_dict C True True j)) (\<lambda>(fs, j').
       bindO (act (\<lambda>s. case unique_schedule_script R (job_key (j_id j)) (registry_key Scheduled q) queues_key (j_id j)
                (opt_default (- 1) (j_ttl j)) (to_utc offset dt) (queue_key q) fs s of
            (ok, s') \<Rightarrow> (if ok then Inr () else Inl DuplicateJobError, s')))
         (\<lambda>_. ret j'))"

section \<open>Lemmas\<close>

lemma save_unique_job_duplicate:
  assumes "key_exists R s (job_key (j_id j))" "to_dict C True True j = Inr (fs, j')"
  shows "save_unique_job C R q enq front j (s, buf) = (Inl DuplicateJobError, (s, buf))"
  using assms by (simp add: save_unique_job_def unique_enqueue_script_def bindO_def act_eq)

lemma save_unique_job_new:
  assumes "\<not> key_exists R s (job_key (j_id j))" "to_dict C True True j = Inr (fs, j')"
  shows "save_unique_job C R q True front j (s, buf) =
    (Inr j', (run_all R ([HSet (job_key (j_id j)) fs] @
        (if 0 < opt_default (- 1) (j_ttl j) then [Expire (job_key (j_id j)) (opt_default (- 1) (j_ttl j))] else []) @
        push_job_id q front (j_id j)) s, buf))"
proof -
  have "fs \<noteq> []" using assms(2) job_dict_nonempty by (auto elim!: to_dict_Inr)
  with assms show ?thesis
    by (simp add: save_unique_job_def unique_enqueue_script_def bindO_def act_eq push_job_id_def)
qed

lemma schedule_unique_job_duplicate:
  assumes "key_exists R s (job_key (j_id j))" "to_dict C True True j = Inr (fs, j')"
  shows "schedule_unique_job C R q z dt j (s, buf) = (Inl DuplicateJobError, (s, buf))"
  using assms by (simp add: schedule_unique_job_def unique_schedule_script_def bindO_def act_eq)

context redis_server
begin

text \<open>
  Two clients that enqueue the same id: whatever the order, exactly one of two attempts succeeds, and
  the id is on the queue once more than before.
\<close>

lemma hset_exists: "fs \<noteq> [] \<Longrightarrow> key_exists R (r_run R (HSet k fs) s) k"
proof -
  assume "fs \<noteq> []"
  then obtain f v where "(f, v) \<in> set fs" by (cases fs) auto
  then have "map_of (rev fs) f \<noteq> None" by (metis map_of_eq_None_iff fst_conv image_eqI set_rev)
  then obtain w where "map_of (rev fs) f = Some w" by blast
  then have "hget R (r_run R (HSet k fs) s) k f = Some w" by (simp add: hash_hset)
  then show ?thesis by (auto simp: key_exists_iff)
qed

lemma unique_enqueue_once:
  assumes "unique_enqueue_script R (job_key i) (queue_key q) i dir ttl fs s = (True, s1)" "fs \<noteq> []"
  shows "unique_enqueue_script R (job_key i) (queue_key q') i dir' ttl' fs' s1 = (False, s1)"
    "r_list R s1 (queue_key q) =
       (case dir of PushL \<Rightarrow> i # r_list R s (queue_key q) | PushR \<Rightarrow> r_list R s (queue_key q) @ [i]
        | PushN \<Rightarrow> r_list R s (queue_key q))"
proof -
  let ?h = "r_run R (HSet (job_key i) fs) s"
  let ?e = "if 0 < ttl then r_run R (Expire (job_key i) ttl) ?h else ?h"
  have s1: "s1 = (case dir of PushL \<Rightarrow> r_run R (LPush (queue_key q) i) ?e
      | PushR \<Rightarrow> r_run R (RPush (queue_key q) i) ?e | PushN \<Rightarrow> ?e)"
    using assms by (auto simp: unique_enqueue_script_def split: if_splits push_direction.splits)
  have "key_exists R ?h (job_key i)" using assms(2) by (rule hset_exists)
  then have "key_exists R ?e (job_key i)"
    by (auto simp: key_exists_iff list_run set_run zset_run hash_run str_run stream_run)
  then have "key_exists R s1 (job_key i)"
    unfolding s1 by (auto simp: key_exists_frame split: push_direction.splits)
  then show "unique_enqueue_script R (job_key i) (queue_key q') i dir' ttl' fs' s1 = (False, s1)"
    by (simp add: unique_enqueue_script_def)
  show "r_list R s1 (queue_key q) =
       (case dir of PushL \<Rightarrow> i # r_list R s (queue_key q) | PushR \<Rightarrow> r_list R s (queue_key q) @ [i]
        | PushN \<Rightarrow> r_list R s (queue_key q))"
    unfolding s1 by (auto simp: list_run split: push_direction.splits)
qed

end

section \<open>Properties\<close>

lemma sample_to_dict:
  assumes "j_data j = UNEVALUATED \<Longrightarrow> j_func_name j \<noteq> UNEVALUATED"
  obtains fs j2 where "to_dict sample_codec a b j = Inr (fs, j2)"
proof -
  have d: "dumps sample_codec v = Some ''p''" for v by (simp add: sample_codec_def)
  obtain x j' where "get_data sample_codec j = Inr (x, j')" using assms by (cases "j_data j") (simp_all add: get_data_def d)
  moreover have "\<exists>m. dump_meta sample_codec a j' = Inr m" by (simp add: dump_meta_def d)
  ultimately show ?thesis using that by (auto simp: to_dict_def)
qed

context redis_server
begin

lemma save_unique_job_twice:
  assumes "\<not> key_exists R s (job_key (j_id j))" "to_dict C True True j = Inr (fs, j1)"
    and "to_dict C True True j' = Inr (fs', j1')" "j_id j' = j_id j"
  shows "\<exists>s'. save_unique_job C R q True front j (s, buf) = (Inr j1, (s', buf)) \<and>
    r_list R s' (queue_key q) =
      (if front then j_id j # r_list R s (queue_key q) else r_list R s (queue_key q) @ [j_id j]) \<and>
    hget R s' (job_key (j_id j)) = map_of fs \<and>
    save_unique_job C R q' enq' front' j' (s', buf) = (Inl DuplicateJobError, (s', buf))"
proof -
  let ?ttl = "if 0 < opt_default (- 1) (j_ttl j) then [Expire (job_key (j_id j)) (opt_default (- 1) (j_ttl j))] else []"
  let ?s1 = "r_run R (HSet (job_key (j_id j)) fs) s"
  let ?s2 = "run_all R ?ttl ?s1"
  let ?s3 = "run_all R (push_job_id q front (j_id j)) ?s2"
  obtain d m where "fs = present (job_table C True d m j1)" using assms(2) by (rule to_dict_Inr)
  then have fs: "fs \<noteq> []" "map_of (rev fs) = map_of fs"
    using job_dict_nonempty map_of_rev_distinct [OF present_distinct [OF distinct_job_table]] by auto
  have run: "save_unique_job C R q True front j (s, buf) = (Inr j1, (?s3, buf))"
    using save_unique_job_new [OF assms(1,2)] by simp
  have ttl: "r_list R ?s2 = r_list R ?s1" "hget R ?s2 = hget R ?s1"
    by (auto simp: list_run hash_run)
  have empty: "hget R s (job_key (j_id j)) = Map.empty" using assms(1) by (simp add: key_exists_iff)
  have "hget R ?s3 (job_key (j_id j)) = map_of fs"
    using ttl empty fs by (simp add: push_job_id_def hash_run)
  moreover from this have "key_exists R ?s3 (job_key (j_id j'))" using fs(1) assms(4) by (simp add: key_exists_iff)
  then have "save_unique_job C R q' enq' front' j' (?s3, buf) = (Inl DuplicateJobError, (?s3, buf))"
    using assms(3) by (rule save_unique_job_duplicate)
  moreover have "r_list R ?s3 (queue_key q) =
      (if front then j_id j # r_list R s (queue_key q) else r_list R s (queue_key q) @ [j_id j])"
    using ttl by (simp add: push_job_id_def list_run)
  ultimately show ?thesis using run by blast
qed

lemma schedule_unique_job_effect:
  assumes "\<not> key_exists R s (job_key (j_id j))" "to_dict C True True j = Inr (fs, j1)"
    and "to_dict C True True j' = Inr (fs', j1')" "j_id j' = j_id j"
  shows "\<exists>s'. schedule_unique_job C R q zone dt j (s, buf) = (Inr j1, (s', buf)) \<and>
    zscore R s' (registry_key Scheduled q) (j_id j) = Some (Fin (to_utc zone dt)) \<and>
    hget R s' (job_key (j_id j)) = map_of fs \<and> queue_key q \<in> sset R s' queues_key \<and> r_list R s' = r_list R s \<and>
    schedule_unique_job C R q' zone' dt' j' (s', buf) = (Inl DuplicateJobError, (s', buf))"
proof -
  let ?ttl = "if 0 < opt_default (- 1) (j_ttl j) then [Expire (job_key (j_id j)) (opt_default (- 1) (j_ttl j))] else []"
  let ?s1 = "r_run R (HSet (job_key (j_id j)) fs) s"
  let ?s2 = "run_all R ?ttl ?s1"
  let ?s3 = "run_all R [ZAdd ZAny (registry_key Scheduled q) (j_id j) (Fin (to_utc zone dt)), SAdd queues_key (queue_key q)] ?s2"
  obtain d m where "fs = present (job_table C True d m j1)" using assms(2) by (rule to_dict_Inr)
  then have fs: "fs \<noteq> []" "map_of (rev fs) = map_of fs"
    using job_dict_nonempty map_of_rev_distinct [OF present_distinct [OF distinct_job_table]] by auto
  have run: "schedule_unique_job C R q zone dt j (s, buf) = (Inr j1, (?s3, buf))"
    using assms(1,2) fs(1) by (simp add: schedule_unique_job_def unique_schedule_script_def bindO_def act_eq)
  have ttl: "r_list R ?s2 = r_list R ?s1" "hget R ?s2 = hget R ?s1"
    by (auto simp: list_run hash_run)
  have empty: "hget R s (job_key (j_id j)) = Map.empty" using assms(1) by (simp add: key_exists_iff)
  have "hget R ?s3 (job_key (j_id j)) = map_of fs"
    using ttl empty fs by (simp add: hash_run)
  moreover from this have "key_exists R ?s3 (job_key (j_id j'))" using fs(1) assms(4) by (simp add: key_exists_iff)
  then have "schedule_unique_job C R q' zone' dt' j' (?s3, buf) = (Inl DuplicateJobError, (?s3, buf))"
    using assms(3) by (rule schedule_unique_job_duplicate)
  moreover have "r_list R ?s3 = r_list R s" using ttl by (simp add: list_run)
  moreover have "zscore R ?s3 (registry_key Scheduled q) (j_id j) = Some (Fin (to_utc zone dt))"
    "queue_key q \<in> sset R ?s3 queues_key"
    by (simp_all add: zset_run set_run)
  ultimately show ?thesis using run by blast
qed

end

text \<open>
  C29. Unique enqueueing: on a server without the job's hash the id is pushed once, at the front or the
  back, and the hash holds exactly the fields of the job; every later attempt to save a job with that
  id, on any queue, raises DuplicateJobError and changes nothing.
\<close>

theorem unique_enqueue:
  assumes "redis_server R" "\<not> key_exists R s (job_key (j_id j))" "to_dict C True True j = Inr (fs, j1)"
    and "to_dict C True True j' = Inr (fs', j1')" "j_id j' = j_id j"
  shows "\<exists>s'. save_unique_job C R q True front j (s, buf) = (Inr j1, (s', buf)) \<and>
    r_list R s' (queue_key q) =
      (if front then j_id j # r_list R s (queue_key q) else r_list R s (queue_key q) @ [j_id j]) \<and>
    hget R s' (job_key (j_id j)) = map_of fs \<and>
    save_unique_job C R q' enq' front' j' (s', buf) = (Inl DuplicateJobError, (s', buf))"
  by (rule redis_server.save_unique_job_twice [OF assms])

theorem unique_enqueue_witness:
  "\<exists>j1 s'. save_unique_job sample_codec mem_redis ''q'' True False (sample_job ''a'') (mem_empty, []) = (Inr j1, (s', [])) \<and>
     r_list mem_redis s' (queue_key ''q'') = [''a''] \<and>
     save_unique_job sample_codec mem_redis ''p'' True True (sample_job ''a'') (s', []) = (Inl DuplicateJobError, (s', []))"
proof -
  obtain fs j1 where td: "to_dict sample_codec True True (sample_job ''a'') = Inr (fs, j1)"
    by (rule sample_to_dict [of "sample_job ''a''"]) simp_all
  show ?thesis
    using unique_enqueue [OF mem.redis_server_axioms _ td td, of mem_empty "''q''" False "[]" "''p''" True True] by fastforce
qed

text \<open>
  Unique scheduling: on a server without the job's hash the id gets the scheduled time as its score,
  the hash holds the fields of the job, the queue is known and no queue's list changes; every later
  attempt to schedule a job with that id raises DuplicateJobError and changes nothing.
\<close>

theorem unique_schedule:
  assumes "redis_server R" "\<not> key_exists R s (job_key (j_id j))" "to_dict C True True j = Inr (fs, j1)"
    and "to_dict C True True j' = Inr (fs', j1')" "j_id j' = j_id j"
  shows "\<exists>s'. schedule_unique_job C R q zone dt j (s, buf) = (Inr j1, (s', buf)) \<and>
    zscore R s' (registry_key Scheduled q) (j_id j) = Some (Fin (to_utc zone dt)) \<and>
    hget R s' (job_key (j_id j)) = map_of fs \<and> queue_key q \<in> sset R s' queues_key \<and> r_list R s' = r_list R s \<and>
    schedule_unique_job C R q' zone' dt' j' (s', buf) = (Inl DuplicateJobError, (s', buf))"
  by (rule redis_server.schedule_unique_job_effect [OF assms])

theorem unique_schedule_witness:
  "\<exists>j1 s'. schedule_unique_job sample_codec mem_redis ''q'' None 5000000 (sample_job ''a'') (mem_empty, []) = (Inr j1, (s', [])) \<and>
     zscore mem_redis s' (registry_key Scheduled ''q'') ''a'' = Some (Fin 5)"
proof -
  obtain fs j1 where td: "to_dict sample_codec True True (sample_job ''a'') = Inr (fs, j1)"
    by (rule sample_to_dict [of "sample_job ''a''"]) simp_all
  have "to_utc None 5000000 = 5" by (simp add: to_utc_def current_timestamp_def usec_def)
  then show ?thesis
    using unique_schedule [OF mem.redis_server_axioms _ td td, of mem_empty "''q''" None 5000000 "[]"] by fastforce
qed

end
