(* ===== verification/Enqueue.thy ===== *)
theory Enqueue
  imports Scripts
begin

text \<open>
  Enqueueing (\<open>rq/queue.py\<close>, and the dependency methods of \<open>rq/job.py\<close>): persisting a job and pushing
  its id, scheduling it, deferring it until its dependencies are met, and enqueueing the dependents of
  a job. A method that reads the clock several times gets one reading.

  The WATCH loops (\<open>setup_dependencies\<close>, \<open>enqueue_dependents\<close>) are modelled as the attempt that
  succeeds: no other client writes between its reads and its execution. What becomes of attempts that are
  disturbed is the subject of the theory \<open>Races\<close>.
\<close>

section \<open>Running a job in this process\<close>

text \<open>
  The code a job runs is not part of the repository: its outcome is a parameter, a value or the text
  of a traceback, and so is that of its callbacks and the text of the library's own exceptions. The
  exception handlers of the worker get the job and the traceback; what they return, None or a truth
  value, or raise, is all of them that the model looks at.
\<close>

type_synonym handler = "job \<Rightarrow> string \<Rightarrow> bool option res"

record py =
  py_call :: "callable \<Rightarrow> pyval \<Rightarrow> pyval \<Rightarrow> string + pyval"
  py_callback :: "string \<Rightarrow> job \<Rightarrow> bool"
  py_trace :: "err \<Rightarrow> string"
  py_handlers :: "handler list"

text \<open>\<open>_execute\<close>: the function with its arguments; a job without a function raises ValueError.\<close>

definition execute_job :: "codec \<Rightarrow> py \<Rightarrow> job \<Rightarrow> (string + pyval) \<times> job" where
  "execute_job C P j =
     (case get_func C j of
        Inl e \<Rightarrow> (Inl (py_trace P e), j)
      | Inr (None, j1) \<Rightarrow> (Inl (py_trace P ValueError), j1)
      | Inr (Some f, j1) \<Rightarrow>
          (case bindE (get_args C j1) (\<lambda>(a, j2). bindE (get_kwargs C j2) (\<lambda>(k, j3). Inr (a, k, j3))) of
             Inl e \<Rightarrow> (Inl (py_trace P e), j1)
           | Inr (a, k, j2) \<Rightarrow> (py_call P f a k, j2)))"

definition perform :: "codec \<Rightarrow> 's redis \<Rightarrow> py \<Rightarrow> job \<Rightarrow> ('s, (string + pyval) \<times> job) op" where
  "perform C R P j =
     seqO (send R False [Persist (job_key (j_id j))])
       (case execute_job C P j of
          (Inl exc, j') \<Rightarrow> ret (Inl exc, j')
        | (Inr v, j') \<Rightarrow> ret (Inr v, j'\<lparr>j_result := v\<rparr>))"

text \<open>A callback that is named runs; False says it raised.\<close>

definition run_callback :: "py \<Rightarrow> string option \<Rightarrow> job \<Rightarrow> ('s, unit) op" where
  "run_callback P name j =
     (case name of
        None \<Rightarrow> ret ()
      | Some n \<Rightarrow> if n = [] \<or> py_callback P n j then ret () else raiseO UserError)"

text \<open>
  \<open>handle_exception\<close>. For the log it reads the call of the job, which deserialises it when it can be. The handlers are
  called in turn until one returns a false value other than None.
\<close>

definition read_call :: "codec \<Rightarrow> job \<Rightarrow> job" where
  "read_call C j =
     (case bindE (get_func_name C j) (\<lambda>(_, j1). bindE (get_args C j1) (\<lambda>(_, j2). get_kwargs C j2)) of
        Inl _ \<Rightarrow> j
      | Inr (_, j') \<Rightarrow> j')"

fun call_handlers :: "handler list \<Rightarrow> job \<Rightarrow> string \<Rightarrow> unit res" where
  "call_handlers [] j exc = Inr ()"
| "call_handlers (h # hs) j exc =
     bindE (h j exc) (\<lambda>r. if r = Some False then Inr () else call_handlers hs j exc)"

definition handle_exception :: "codec \<Rightarrow> py \<Rightarrow> string \<Rightarrow> job \<Rightarrow> ('s, job) op" where
  "handle_exception C P exc j =
     (let j1 = read_call C j in bindO (liftE (call_handlers (py_handlers P) j1 exc)) (\<lambda>_. ret j1))"

definition push_exc_handler :: "handler \<Rightarrow> handler list \<Rightarrow> handler list" where
  "push_exc_handler h hs = hs @ [h]"

definition pop_exc_handler :: "handler list \<Rightarrow> (handler \<times> handler list) res" where
  "pop_exc_handler hs = (if hs = [] then Inl IndexError else Inr (last hs, butlast hs))"

definition init_handlers :: "handler one_or_many option \<Rightarrow> handler list" where
  "init_handlers e =
     (case e of
        None \<Rightarrow> []
      | Some (Single h) \<Rightarrow> push_exc_handler h []
      | Some (Several hs) \<Rightarrow> fold push_exc_handler hs [])"

text \<open>Handlers that come back, whatever they are given.\<close>

definition handlers_return :: "py \<Rightarrow> bool" where
  "handlers_return P \<longleftrightarrow> (\<forall>h \<in> set (py_handlers P). \<forall>j exc. \<exists>r. h j exc = Inr r)"

lemma call_handlers_return: "\<forall>h \<in> set hs. \<forall>j exc. \<exists>r. h j exc = Inr r \<Longrightarrow> call_handlers hs j exc = Inr ()"
proof (induction hs)
  case (Cons h hs)
  obtain r where "h j exc = Inr r" using Cons.prems by (meson list.set_intros(1))
  then show ?case using Cons by simp
qed simp

lemma handle_exception_return: "handlers_return P \<Longrightarrow> handle_exception C P exc j = ret (read_call C j)"
  by (auto simp: handle_exception_def handlers_return_def call_handlers_return bindO_def liftE_def fun_eq_iff)

text \<open>The first handler that returns a false value is the last one called.\<close>

lemma call_handlers_stop:
  "\<forall>h \<in> set hs. h j exc \<in> {Inr None, Inr (Some True)} \<Longrightarrow> h j exc = Inr (Some False) \<Longrightarrow> call_handlers (hs @ h # rest) j exc = Inr ()"
  by (induction hs) auto

lemma call_handlers_raise:
  "\<forall>h \<in> set hs. h j exc \<in> {Inr None, Inr (Some True)} \<Longrightarrow> h j exc = Inl e \<Longrightarrow> call_handlers (hs @ h # rest) j exc = Inl e"
  by (induction hs) auto

lemma init_handlers_several: "init_handlers (Some (Several hs)) = hs"
proof -
  have "fold push_exc_handler hs acc = acc @ hs" for acc by (induction hs arbitrary: acc) (simp_all add: push_exc_handler_def)
  then show ?thesis by (simp add: init_handlers_def)
qed

definition no_exec :: exec_info where
  "no_exec = \<lparr>ei_id = None, ei_started_at = None, ei_ended_at = None\<rparr>"

definition default_result_ttl :: int where
  "default_result_ttl = 500"

definition sync_failure :: "codec \<Rightarrow> 's redis \<Rightarrow> py \<Rightarrow> datetime \<Rightarrow> string \<Rightarrow> job \<Rightarrow> ('s, job) op" where
  "sync_failure C R P t exc j =
     bindO (own_pipe R False (bindO (set_status_on R True FAILED j) (handle_failure C R t exc [] no_exec))) (\<lambda>j'.
       seqO (run_callback P (j_failure_callback_name j') j') (ret j'))"

definition sync_success :: "codec \<Rightarrow> 's redis \<Rightarrow> datetime \<Rightarrow> job \<Rightarrow> ('s, job) op" where
  "sync_success C R t j =
     (let ttl = get_result_ttl j default_result_ttl
      in own_pipe R False (bindO (handle_success C R t ttl [] no_exec j) (cleanup C R t True (Some ttl) True)))"

text \<open>
  \<open>run_sync\<close>. The commands of \<open>prepare_for_execution\<close> go to a pipeline that is never executed: only
  the object changes.
\<close>

definition run_sync :: "codec \<Rightarrow> 's redis \<Rightarrow> py \<Rightarrow> datetime \<Rightarrow> job \<Rightarrow> ('s, job) op" where
  "run_sync C R P t j =
     bindO (perform C R P (snd (prepare_for_execution ''sync'' t j))) (\<lambda>(r, j1).
       case r of
         Inl exc \<Rightarrow> sync_failure C R P t exc j1
       | Inr v \<Rightarrow>
           bindO
             (catchO (bindO (sync_success C R t (j1\<lparr>j_ended_at := Some t\<rparr>)) (\<lambda>j2. ret (Some j2)))
               (\<lambda>e. Some (seqO (bindO (sync_failure C R P t (py_trace P e) (j1\<lparr>j_ended_at := Some t\<rparr>)) (\<lambda>_. ret ()))
                           (ret None))))
             (\<lambda>done. case done of
                None \<Rightarrow> ret (j1\<lparr>j_ended_at := Some t, j_status := FAILED\<rparr>)
              | Some j2 \<Rightarrow>
                  seqO (if opt_default [] (j_success_callback_name j2) = [] then ret ()
                        else bindO (ask (\<lambda>s. job_return_value C R s (j_id j2)))
                               (\<lambda>_. run_callback P (j_success_callback_name j2) j2))
                    (ret j2)))"

section \<open>Putting a job on its queue\<close>

definition prepare_for_queue :: "queue \<Rightarrow> datetime \<Rightarrow> job \<Rightarrow> job" where
  "prepare_for_queue q t j =
     j\<lparr>j_origin := q_name q, j_enqueued_at := Some t,
       j_timeout := (case j_timeout j of None \<Rightarrow> Some (q_default_timeout q) | Some n \<Rightarrow> Some n),
       j_status := QUEUED\<rparr>"

definition persist_job :: "codec \<Rightarrow> 's redis \<Rightarrow> datetime \<Rightarrow> job_status \<Rightarrow> job \<Rightarrow> ('s, job) op" where
  "persist_job C R t st j =
     bindO (set_status_on R True st j) (\<lambda>j1.
     bindO (save_on C R True True True j1) (\<lambda>j2.
       cleanup C R t True (j_ttl j2) True j2))"

definition enqueue_async_job ::
  "codec \<Rightarrow> 's redis \<Rightarrow> datetime \<Rightarrow> queue \<Rightarrow> bool \<Rightarrow> bool \<Rightarrow> bool \<Rightarrow> job \<Rightarrow> ('s, job) op" where
  "enqueue_async_job C R t q piped at_front unique j =
     (let j1 = prepare_for_queue q t j in
      if unique then save_unique_job C R (q_name q) True at_front j1
      else
        own_pipe R piped
          (seqO (if j_status j = DEFERRED then send R True (reg_remove Deferred (q_name q) (j_id j)) else ret ())
            (bindO (persist_job C R t QUEUED j1) (\<lambda>j2.
               seqO (send R True (push_job_id (q_name q) at_front (j_id j2))) (ret j2)))))"

definition enqueue_sync_job ::
  "codec \<Rightarrow> 's redis \<Rightarrow> py \<Rightarrow> datetime \<Rightarrow> queue \<Rightarrow> bool \<Rightarrow> bool \<Rightarrow> job \<Rightarrow> ('s, job) op" where
  "enqueue_sync_job C R P t q piped unique j =
     (let j1 = prepare_for_queue q t j in
      bindO
        (if unique then save_unique_job C R (q_name q) False False j1
         else
           own_pipe R piped
             (seqO (if j_status j = DEFERRED then send R True (reg_remove Deferred (q_name q) (j_id j)) else ret ())
               (persist_job C R t QUEUED j1)))
        (run_sync C R P t))"

text \<open>\<open>_enqueue_job\<close>.\<close>

definition enqueue_now ::
  "codec \<Rightarrow> 's redis \<Rightarrow> py \<Rightarrow> datetime \<Rightarrow> queue \<Rightarrow> bool \<Rightarrow> bool \<Rightarrow> bool \<Rightarrow> job \<Rightarrow> ('s, job) op" where
  "enqueue_now C R P t q piped at_front unique j =
     (if q_is_async q then enqueue_async_job C R t q piped at_front unique j
      else enqueue_sync_job C R P t q piped unique j)"

text \<open>
  \<open>schedule_job\<close>: the hash and the queue name go on the pipeline, the registry entry to the
  connection at once. \<open>zone\<close> is the offset of a naive datetime.
\<close>

definition schedule_job ::
  "codec \<Rightarrow> 's redis \<Rightarrow> datetime \<Rightarrow> queue \<Rightarrow> int option \<Rightarrow> datetime \<Rightarrow> bool \<Rightarrow> bool \<Rightarrow> job \<Rightarrow> ('s, job) op" where
  "schedule_job C R t q zone dt piped unique j =
     (if unique then schedule_unique_job C R (q_name q) zone dt (j\<lparr>j_status := SCHEDULED\<rparr>)
      else
        own_pipe R piped
          (seqO (send R True [SAdd queues_key (queue_key (q_name q))])
            (bindO (persist_job C R t SCHEDULED j) (\<lambda>j1.
               seqO (act (\<lambda>s. (Inr (), schedule R (q_name q) (j_id j1) zone dt s))) (ret j1)))))"

section \<open>Dependencies\<close>

definition register_dependency :: "datetime \<Rightarrow> job \<Rightarrow> cmd list" where
  "register_dependency t j =
     deferred_add (j_origin j) (j_id j) False t @
     concat (map (\<lambda>d. [SAdd (dependents_key d) (j_id j), SAdd (dependencies_key (j_id j)) d]) (j_dependency_ids j))"

text \<open>
  \<open>setup_dependencies\<close>: a dependency that still has a hash and is not finished defers the job,
  whatever the job says about failed dependencies.
\<close>

definition setup_dependencies :: "codec \<Rightarrow> 's redis \<Rightarrow> datetime \<Rightarrow> bool \<Rightarrow> job \<Rightarrow> ('s, job) op" where
  "setup_dependencies C R t piped j =
     (if j_dependency_ids j = [] then ret j
      else
        bindO (ask (\<lambda>s. fetch_dependencies C R s t j)) (\<lambda>deps.
          if \<exists>d \<in> set deps. j_status d \<noteq> FINISHED
          then
            own_pipe R piped
              (bindO (set_status_on R True DEFERRED j) (\<lambda>j1.
                 seqO (send R True (register_dependency t j1))
                   (bindO (save_on C R True True True j1) (\<lambda>j2. cleanup C R t True (j_ttl j2) True j2))))
          else ret j))"

definition enqueue_job ::
  "codec \<Rightarrow> 's redis \<Rightarrow> py \<Rightarrow> datetime \<Rightarrow> queue \<Rightarrow> bool \<Rightarrow> bool \<Rightarrow> bool \<Rightarrow> job \<Rightarrow> ('s, job) op" where
  "enqueue_job C R P t q piped at_front unique j =
     (if unique \<and> j_dependency_ids j \<noteq> [] then raiseO ValueError
      else
        bindO (setup_dependencies C R t piped (j\<lparr>j_origin := q_name q\<rparr>)) (\<lambda>j1.
          seqO (send R piped [SAdd queues_key (queue_key (q_name q))])
            (if j_status j1 \<noteq> DEFERRED then enqueue_now C R P t q piped at_front unique j1 else ret j1)))"

text \<open>
  \<open>dependencies_are_met\<close>. A dependency whose hash, or status, is gone does not count. With a pipeline
  it first watches the dependencies named by the object, and WATCH needs at least one key.
\<close>

definition status_allowed :: "'s redis \<Rightarrow> 's \<Rightarrow> bool \<Rightarrow> string \<Rightarrow> bool" where
  "status_allowed R s allow_failed i =
     (case hget R s (job_key i) ''status'' of
        None \<Rightarrow> True
      | Some v \<Rightarrow> v = [] \<or> v = status_text FINISHED \<or> allow_failed \<and> v = status_text FAILED)"

definition dependencies_are_met ::
  "'s redis \<Rightarrow> 's \<Rightarrow> bool \<Rightarrow> job option \<Rightarrow> string option \<Rightarrow> bool \<Rightarrow> job \<Rightarrow> bool res" where
  "dependencies_are_met R s piped parent exclude refr j =
     (if piped \<and> j_dependency_ids j = [] then Inl ResponseError
      else
        let allow = (j_allow_dependency_failures j = Some True);
            excl = (case exclude of None \<Rightarrow> [] | Some x \<Rightarrow> x);
            ids1 = filter (\<lambda>i. excl = [] \<or> i \<noteq> excl) (dependency_ids R s (j_id j));
            parent1 = (case parent of None \<Rightarrow> None | Some p \<Rightarrow> if excl \<noteq> [] \<and> j_id p = excl then None else Some p)
        in
        case parent1 of
          None \<Rightarrow> Inr (list_all (status_allowed R s allow) ids1)
        | Some p \<Rightarrow>
            let ids2 = filter (\<lambda>i. i \<noteq> j_id p) ids1 in
            bindE (if refr then get_status R s (j_id p) else Inr (j_status p)) (\<lambda>st.
              if st = CANCELED \<or> st = STOPPED then Inr False
              else if st = FAILED \<and> \<not> allow then Inr False
              else Inr (list_all (status_allowed R s allow) ids2)))"

definition origin_queue :: "queue \<Rightarrow> job \<Rightarrow> queue" where
  "origin_queue q j =
     (if j_origin j = q_name q then q
      else \<lparr>q_name = j_origin j, q_default_timeout = 180, q_is_async = True\<rparr>)"

definition ready_dependents ::
  "codec \<Rightarrow> 's redis \<Rightarrow> datetime \<Rightarrow> job \<Rightarrow> string option \<Rightarrow> bool \<Rightarrow> string list \<Rightarrow> 's \<Rightarrow> job list res" where
  "ready_dependents C R t j exclude refr ids s =
     bindE (fetch_many C R s t ids) (\<lambda>ds.
       filterE
         (\<lambda>d. bindE (dependencies_are_met R s True (Some j) exclude refr d) (\<lambda>met.
            Inr (met \<and> j_status d \<noteq> CANCELED)))
         (compact ds))"

definition enqueue_one ::
  "codec \<Rightarrow> 's redis \<Rightarrow> py \<Rightarrow> datetime \<Rightarrow> queue \<Rightarrow> job \<Rightarrow> ('s, unit) op" where
  "enqueue_one C R P t q d =
     seqO (send R True (reg_remove Deferred (j_origin d) (j_id d)))
       (bindO (enqueue_now C R P t (origin_queue q d) True (opt_default False (j_enqueue_at_front d)) False d)
          (\<lambda>_. ret ()))"

definition enqueue_dependents ::
  "codec \<Rightarrow> 's redis \<Rightarrow> py \<Rightarrow> datetime \<Rightarrow> queue \<Rightarrow> bool \<Rightarrow> string option \<Rightarrow> bool \<Rightarrow> job \<Rightarrow> ('s, unit) op" where
  "enqueue_dependents C R P t q piped exclude refr j =
     own_pipe R piped
       (bindO (ask (\<lambda>s. Inr (dependent_ids R s (j_id j)))) (\<lambda>ids.
          if ids = [] then ret ()
          else
            bindO (ask (ready_dependents C R t j exclude refr ids)) (\<lambda>ds.
              if ds = [] then ret ()
              else
                seqO
                  (for_each (enqueue_one C R P t q) ds)
                  (send R True
                     (if length ds = length ids then [Del [dependents_key (j_id j)]]
                      else [SRem (dependents_key (j_id j)) (map j_id ds)])))))"

section \<open>The commands of an enqueue\<close>

text \<open>A ttl that only expires the job: none, or a positive one (all \<open>create_job\<close> lets through).\<close>

definition ttl_ok :: "job \<Rightarrow> bool" where
  "ttl_ok j \<longleftrightarrow> (case j_ttl j of None \<Rightarrow> True | Some n \<Rightarrow> 0 < n)"

definition ttl_cmds :: "job \<Rightarrow> cmd list" where
  "ttl_cmds j = (case j_ttl j of None \<Rightarrow> [] | Some n \<Rightarrow> expire_keys j n)"

definition persist_cmds :: "job_status \<Rightarrow> fields \<Rightarrow> job \<Rightarrow> cmd list" where
  "persist_cmds st fs j =
     HSet (job_key (j_id j)) [(''status'', status_text st)] # HSet (job_key (j_id j)) fs # ttl_cmds j"

lemma to_dict_same:
  assumes "to_dict C im ir j = Inr (fs, j')"
  shows "j_id j' = j_id j" "j_ttl j' = j_ttl j" "j_status j' = j_status j" "j_origin j' = j_origin j"
    "j_dependency_ids j' = j_dependency_ids j"
proof -
  obtain d where d: "get_data C j = Inr (d, j')" using assms by (rule to_dict_Inr)
  show "j_id j' = j_id j" "j_ttl j' = j_ttl j" "j_status j' = j_status j" "j_origin j' = j_origin j"
    "j_dependency_ids j' = j_dependency_ids j"
    by (subst get_data_fields [OF d], simp)+
qed

lemma cleanup_ttl_ok:
  "ttl_ok j \<Longrightarrow> cleanup C R t True (j_ttl j) b j (s, buf) = (Inr j, (s, buf @ ttl_cmds j))"
  by (auto simp: ttl_ok_def cleanup_def ttl_cmds_def split: option.splits)

lemma persist_job_eq:
  assumes "to_dict C True True (j\<lparr>j_status := st\<rparr>) = Inr (fs, j2)" "ttl_ok j"
  shows "persist_job C R t st j (s, buf) = (Inr j2, (s, buf @ persist_cmds st fs j))"
proof -
  note same = to_dict_same [OF assms(1)]
  have ok: "ttl_ok j2" using assms(2) same by (simp add: ttl_ok_def)
  have cm: "ttl_cmds j2 = ttl_cmds j" using same by (simp add: ttl_cmds_def expire_keys_def split: option.split)
  show ?thesis
    using assms(1)
    by (simp add: cleanup_ttl_ok [OF ok] cm persist_job_def set_status_on_def set_status_def save_on_def save_def bindO_def seqO_def
        persist_cmds_def)
qed

lemma own_pipe_direct:
  assumes "m (s, []) = (Inr x, (s1, buf1))"
  shows "own_pipe R False m (s, buf) = (Inr x, (run_all R buf1 s1, buf))"
  using assms by (simp add: own_pipe_def new_pipe_def bindO_def seqO_def)

lemma own_pipe_piped [simp]: "own_pipe R True m = m"
  by (simp add: own_pipe_def)

lemma enqueue_async_eq:
  assumes "to_dict C True True (prepare_for_queue q t j) = Inr (fs, j2)" "ttl_ok j"
  shows "enqueue_async_job C R t q True front False j (s, buf) =
    (Inr j2, (s, buf @ (if j_status j = DEFERRED then reg_remove Deferred (q_name q) (j_id j) else []) @
       persist_cmds QUEUED fs j @ push_job_id (q_name q) front (j_id j)))"
    "enqueue_async_job C R t q False front False j (s, buf) =
    (Inr j2, (run_all R ((if j_status j = DEFERRED then reg_remove Deferred (q_name q) (j_id j) else []) @
       persist_cmds QUEUED fs j @ push_job_id (q_name q) front (j_id j)) s, buf))"
proof -
  let ?p = "prepare_for_queue q t j"
  let ?m = "seqO (if j_status j = DEFERRED then send R True (reg_remove Deferred (q_name q) (j_id j)) else ret ())
      (bindO (persist_job C R t QUEUED ?p) (\<lambda>j2. seqO (send R True (push_job_id (q_name q) front (j_id j2))) (ret j2)))"
  have st: "?p\<lparr>j_status := QUEUED\<rparr> = ?p" and ok: "ttl_ok ?p" and id: "j_id ?p = j_id j"
    using assms(2) by (simp_all add: prepare_for_queue_def ttl_ok_def)
  have pc: "persist_cmds QUEUED fs ?p = persist_cmds QUEUED fs j"
    by (simp add: persist_cmds_def ttl_cmds_def prepare_for_queue_def expire_keys_def split: option.split)
  have td: "to_dict C True True (?p\<lparr>j_status := QUEUED\<rparr>) = Inr (fs, j2)" using assms(1) st by simp
  have id2: "j_id j2 = j_id j" using to_dict_same(1) [OF assms(1)] id by simp
  have m: "?m (s, b) = (Inr j2, (s, b @ (if j_status j = DEFERRED then reg_remove Deferred (q_name q) (j_id j) else []) @
       persist_cmds QUEUED fs j @ push_job_id (q_name q) front (j_id j)))" for b
    using id2 pc by (simp add: persist_job_eq [OF td ok] seqO_def bindO_def)
  show "enqueue_async_job C R t q True front False j (s, buf) =
    (Inr j2, (s, buf @ (if j_status j = DEFERRED then reg_remove Deferred (q_name q) (j_id j) else []) @
       persist_cmds QUEUED fs j @ push_job_id (q_name q) front (j_id j)))"
    using m by (simp add: enqueue_async_job_def Let_def)
  show "enqueue_async_job C R t q False front False j (s, buf) =
    (Inr j2, (run_all R ((if j_status j = DEFERRED then reg_remove Deferred (q_name q) (j_id j) else []) @
       persist_cmds QUEUED fs j @ push_job_id (q_name q) front (j_id j)) s, buf))"
    unfolding enqueue_async_job_def Let_def if_False by (subst own_pipe_direct, rule m, simp)
qed

section \<open>The effect of an enqueue\<close>

lemma to_dict_status:
  assumes "to_dict C True True j = Inr (fs, j')"
  shows "map_of (rev fs) ''status'' = Some (status_text (j_status j))"
proof -
  obtain d m where d: "get_data C j = Inr (d, j')" "fs = present (job_table C True d m j')"
    using assms by (rule to_dict_Inr)
  have "map_of (rev fs) = map_of fs"
    unfolding d(2) by (rule map_of_rev_distinct [OF present_distinct [OF distinct_job_table]])
  then show ?thesis using get_data_id [OF d(1)] by (simp add: d(2) map_of_job_dict job_table_lookup)
qed

context redis_server
begin

text \<open>Persisting changes the job hash only, and expiry times.\<close>

lemma persist_run:
  fixes s :: 's and fs st j
  assumes "ttl_ok j"
  defines "s' \<equiv> run_all R (persist_cmds st fs j) s"
  shows "r_list R s' = r_list R s" "sset R s' = sset R s" "zscore R s' = zscore R s"
    "r_str R s' = r_str R s"
    "hget R s' = (hget R s)(job_key (j_id j) :=
       (hget R s (job_key (j_id j)))(''status'' \<mapsto> status_text st) ++ map_of (rev fs))"
  using assms(1) unfolding s'_def
  by (auto simp: persist_cmds_def ttl_cmds_def ttl_ok_def expire_keys_def list_run set_run zset_run str_run
      hash_run split: option.splits)

lemma push_run:
  "r_list R (run_all R (push_job_id q front i) s) =
     (r_list R s)(queue_key q := (if front then i # r_list R s (queue_key q) else r_list R s (queue_key q) @ [i]))"
  "sset R (run_all R (push_job_id q front i) s) = sset R s"
  "zscore R (run_all R (push_job_id q front i) s) = zscore R s"
  "hget R (run_all R (push_job_id q front i) s) = hget R s"
  by (simp_all add: push_job_id_def list_run set_run zset_run hash_run)

lemma reg_remove_run:
  "r_list R (run_all R (reg_remove d q i) s) = r_list R s"
  "sset R (run_all R (reg_remove d q i) s) = sset R s"
  "hget R (run_all R (reg_remove d q i) s) = hget R s"
  "zscore R (run_all R (reg_remove d q i) s) (registry_key d q) i = None"
  by (simp_all add: reg_remove_def list_run set_run zset_run hash_run)

lemma enqueue_async_effect:
  assumes "to_dict C True True (prepare_for_queue q t j) = Inr (fs, j2)" "ttl_ok j"
    and "enqueue_async_job C R t q False front False j (s, buf) = (Inr j', (s', buf'))"
  shows "r_list R s' = (r_list R s)(queue_key (q_name q) :=
      (if front then j_id j # r_list R s (queue_key (q_name q)) else r_list R s (queue_key (q_name q)) @ [j_id j]))"
    "get_status R s' (j_id j) = Inr QUEUED"
    "j_status j = DEFERRED \<longrightarrow> zscore R s' (registry_key Deferred (q_name q)) (j_id j) = None"
    "j_status j \<noteq> DEFERRED \<longrightarrow> zscore R s' = zscore R s" "sset R s' = sset R s" "buf' = buf" "j' = j2"
proof -
  let ?rm = "if j_status j = DEFERRED then reg_remove Deferred (q_name q) (j_id j) else []"
  let ?s1 = "run_all R ?rm s"
  let ?s2 = "run_all R (persist_cmds QUEUED fs j) ?s1"
  have eq: "s' = run_all R (push_job_id (q_name q) front (j_id j)) ?s2" "buf' = buf" "j' = j2"
    using enqueue_async_eq(2) [OF assms(1,2), of R front s buf] assms(3) by simp_all
  show "buf' = buf" "j' = j2" by (fact eq)+
  note p = persist_run [OF assms(2), of QUEUED fs ?s1]
  show "r_list R s' = (r_list R s)(queue_key (q_name q) :=
      (if front then j_id j # r_list R s (queue_key (q_name q)) else r_list R s (queue_key (q_name q)) @ [j_id j]))"
    unfolding eq(1) push_run p by (simp add: reg_remove_run)
  show "sset R s' = sset R s" unfolding eq(1) push_run p by (simp add: reg_remove_run)
  show "j_status j = DEFERRED \<longrightarrow> zscore R s' (registry_key Deferred (q_name q)) (j_id j) = None"
    unfolding eq(1) push_run p by (simp add: reg_remove_run)
  show "j_status j \<noteq> DEFERRED \<longrightarrow> zscore R s' = zscore R s" unfolding eq(1) push_run p by simp
  have "map_of (rev fs) ''status'' = Some (status_text QUEUED)"
    using to_dict_status [OF assms(1)] by (simp add: prepare_for_queue_def)
  then have "hget R s' (job_key (j_id j)) ''status'' = Some (status_text QUEUED)"
    unfolding eq(1) push_run p by simp
  then show "get_status R s' (j_id j) = Inr QUEUED" by (simp add: get_status_def)
qed

section \<open>Deferring\<close>

lemma register_dependency_run:
  "r_list R (run_all R (register_dependency t j) s) = r_list R s"
  "hget R (run_all R (register_dependency t j) s) = hget R s"
  "zscore R (run_all R (register_dependency t j) s) (registry_key Deferred (j_origin j)) (j_id j) =
     Some (Fin (current_timestamp t))"
  "d \<in> set (j_dependency_ids j) \<Longrightarrow> j_id j \<in> sset R (run_all R (register_dependency t j) s) (dependents_key d)"
  "sset R (run_all R (register_dependency t j) s) (dependencies_key (j_id j)) =
     sset R s (dependencies_key (j_id j)) \<union> set (j_dependency_ids j)"
proof -
  define adds where "adds ds = concat (map (\<lambda>d. [SAdd (dependents_key d) (j_id j), SAdd (dependencies_key (j_id j)) d]) ds)" for ds
  have mono: "sset R s k \<subseteq> sset R (run_all R (adds ds) s) k" for ds s k
  proof (induction ds arbitrary: s)
    case (Cons d ds)
    let ?s = "run_all R [SAdd (dependents_key d) (j_id j), SAdd (dependencies_key (j_id j)) d] s"
    have "sset R s k \<subseteq> sset R ?s k" by (auto simp: set_run)
    also have "\<dots> \<subseteq> sset R (run_all R (adds ds) ?s) k" by (rule Cons.IH)
    finally show ?case by (simp add: adds_def)
  qed (simp add: adds_def)
  have member: "d \<in> set ds \<longrightarrow> j_id j \<in> sset R (run_all R (adds ds) s) (dependents_key d)" for ds s d
  proof (induction ds arbitrary: s)
    case (Cons e ds)
    let ?s = "run_all R [SAdd (dependents_key e) (j_id j), SAdd (dependencies_key (j_id j)) e] s"
    have "j_id j \<in> sset R ?s (dependents_key e)" by (simp add: set_run)
    then have "j_id j \<in> sset R (run_all R (adds ds) ?s) (dependents_key e)" using mono by blast
    moreover have "run_all R (adds (e # ds)) s = run_all R (adds ds) ?s" by (simp add: adds_def)
    ultimately show ?case using Cons.IH [of ?s] by auto
  qed simp
  have a: "r_list R (run_all R (adds ds) s) = r_list R s" "hget R (run_all R (adds ds) s) = hget R s"
    "zscore R (run_all R (adds ds) s) = zscore R s"
    "sset R (run_all R (adds ds) s) (dependencies_key (j_id j)) = sset R s (dependencies_key (j_id j)) \<union> set ds"
    for ds s
    by (induction ds arbitrary: s) (auto simp: adds_def list_run hash_run zset_run set_run)
  have eq: "register_dependency t j = deferred_add (j_origin j) (j_id j) False t @ adds (j_dependency_ids j)"
    by (simp add: register_dependency_def adds_def)
  show "r_list R (run_all R (register_dependency t j) s) = r_list R s"
    "hget R (run_all R (register_dependency t j) s) = hget R s"
    "zscore R (run_all R (register_dependency t j) s) (registry_key Deferred (j_origin j)) (j_id j) =
       Some (Fin (current_timestamp t))"
    "d \<in> set (j_dependency_ids j) \<Longrightarrow> j_id j \<in> sset R (run_all R (register_dependency t j) s) (dependents_key d)"
    "sset R (run_all R (register_dependency t j) s) (dependencies_key (j_id j)) =
       sset R s (dependencies_key (j_id j)) \<union> set (j_dependency_ids j)"
    using member by (simp_all add: eq a deferred_add_def xx_flag_def list_run hash_run zset_run set_run)
qed

end

lemma setup_dependencies_defer:
  assumes "j_dependency_ids j \<noteq> []" "fetch_dependencies C R s t j = Inr deps"
    and "d \<in> set deps" "j_status d \<noteq> FINISHED" "ttl_ok j"
    and td: "to_dict C True True (j\<lparr>j_status := DEFERRED\<rparr>) = Inr (fs, j2)"
  shows "setup_dependencies C R t False j (s, buf) =
    (Inr j2, (run_all R ([HSet (job_key (j_id j)) [(''status'', status_text DEFERRED)]] @
        register_dependency t (j\<lparr>j_status := DEFERRED\<rparr>) @ [HSet (job_key (j_id j)) fs] @ ttl_cmds j) s, buf))"
proof -
  note same = to_dict_same [OF td]
  have ok: "ttl_ok j2" using assms(5) same by (simp add: ttl_ok_def)
  have cm: "ttl_cmds j2 = ttl_cmds j" using same by (simp add: ttl_cmds_def expire_keys_def split: option.split)
  have ex: "\<exists>d \<in> set deps. j_status d \<noteq> FINISHED" using assms(3,4) by blast
  let ?m = "bindO (set_status_on R True DEFERRED j) (\<lambda>j1.
      seqO (send R True (register_dependency t j1))
        (bindO (save_on C R True True True j1) (\<lambda>j2. cleanup C R t True (j_ttl j2) True j2)))"
  have m: "?m (s, []) = (Inr j2, (s, [HSet (job_key (j_id j)) [(''status'', status_text DEFERRED)]] @
        register_dependency t (j\<lparr>j_status := DEFERRED\<rparr>) @ [HSet (job_key (j_id j)) fs] @ ttl_cmds j))"
    using td by (simp add: bindO_def seqO_def set_status_on_def set_status_def save_on_def save_def
        cleanup_ttl_ok [OF ok] cm)
  have "setup_dependencies C R t False j (s, buf) = own_pipe R False ?m (s, buf)"
    using assms(1,2) ex by (simp add: setup_dependencies_def bindO_def)
  then show ?thesis by (simp only: own_pipe_direct [where m = ?m, OF m])
qed

lemma dependencies_are_met_None:
  assumes "j_dependency_ids j \<noteq> [] \<or> \<not> piped"
  shows "dependencies_are_met R s piped None None refr j =
    Inr (list_all (status_allowed R s (j_allow_dependency_failures j = Some True)) (dependency_ids R s (j_id j)))"
  using assms by (auto simp: dependencies_are_met_def)

context redis_server
begin

lemma defer_run:
  fixes s :: 's and fs t j
  assumes "ttl_ok j" "map_of (rev fs) ''status'' = Some (status_text DEFERRED)"
  defines "s' \<equiv> run_all R ([HSet (job_key (j_id j)) [(''status'', status_text DEFERRED)]] @
      register_dependency t (j\<lparr>j_status := DEFERRED\<rparr>) @ [HSet (job_key (j_id j)) fs] @ ttl_cmds j) s"
  shows "r_list R s' = r_list R s" "get_status R s' (j_id j) = Inr DEFERRED"
    "zscore R s' (registry_key Deferred (j_origin j)) (j_id j) = Some (Fin (current_timestamp t))"
    "d \<in> set (j_dependency_ids j) \<Longrightarrow> j_id j \<in> sset R s' (dependents_key d)"
    "sset R s' (dependencies_key (j_id j)) = sset R s (dependencies_key (j_id j)) \<union> set (j_dependency_ids j)"
    "i \<noteq> j_id j \<Longrightarrow> hget R s' (job_key i) = hget R s (job_key i)"
proof -
  let ?j = "j\<lparr>j_status := DEFERRED\<rparr>"
  let ?s1 = "r_run R (HSet (job_key (j_id j)) [(''status'', status_text DEFERRED)]) s"
  let ?s2 = "run_all R (register_dependency t ?j) ?s1"
  let ?s3 = "r_run R (HSet (job_key (j_id j)) fs) ?s2"
  have s': "s' = run_all R (ttl_cmds j) ?s3" by (simp add: s'_def)
  have ttl: "r_list R s' = r_list R ?s3" "sset R s' = sset R ?s3" "zscore R s' = zscore R ?s3" "hget R s' = hget R ?s3"
    using assms(1) unfolding s'
    by (auto simp: ttl_cmds_def ttl_ok_def expire_keys_def list_run set_run zset_run hash_run split: option.splits)
  note reg = register_dependency_run [where t = t and j = ?j and s = ?s1]
  show "r_list R s' = r_list R s" using reg(1) by (simp add: ttl list_run)
  show "get_status R s' (j_id j) = Inr DEFERRED"
    using assms(2) by (simp add: get_status_def ttl hash_hset)
  show "zscore R s' (registry_key Deferred (j_origin j)) (j_id j) = Some (Fin (current_timestamp t))"
    using reg(3) by (simp add: ttl zset_run)
  show "d \<in> set (j_dependency_ids j) \<Longrightarrow> j_id j \<in> sset R s' (dependents_key d)"
    using reg(4) [where d = d] by (simp add: ttl set_run)
  show "sset R s' (dependencies_key (j_id j)) = sset R s (dependencies_key (j_id j)) \<union> set (j_dependency_ids j)"
    using reg(5) by (simp add: ttl set_run)
  show "i \<noteq> j_id j \<Longrightarrow> hget R s' (job_key i) = hget R s (job_key i)"
    using reg(2) by (simp add: ttl hash_run)
qed

lemma enqueue_job_defers:
  fixes s :: 's and j q
  defines "j0 \<equiv> j\<lparr>j_origin := q_name q\<rparr>"
  assumes "j_dependency_ids j \<noteq> []" "fetch_dependencies C R s t j = Inr deps"
    and "d \<in> set deps" "j_status d \<noteq> FINISHED" "ttl_ok j"
    and td: "to_dict C True True (j0\<lparr>j_status := DEFERRED\<rparr>) = Inr (fs, j2)"
  shows "\<exists>s'. enqueue_job C R P t q False front False j (s, buf) = (Inr j2, (s', buf)) \<and>
    r_list R s' = r_list R s \<and> get_status R s' (j_id j) = Inr DEFERRED \<and>
    zscore R s' (registry_key Deferred (q_name q)) (j_id j) = Some (Fin (current_timestamp t)) \<and>
    (\<forall>e \<in> set (j_dependency_ids j). j_id j \<in> sset R s' (dependents_key e)) \<and>
    sset R s' (dependencies_key (j_id j)) = sset R s (dependencies_key (j_id j)) \<union> set (j_dependency_ids j) \<and>
    queue_key (q_name q) \<in> sset R s' queues_key \<and>
    (\<forall>i. i \<noteq> j_id j \<longrightarrow> hget R s' (job_key i) = hget R s (job_key i))"
proof -
  have j0: "j_dependency_ids j0 = j_dependency_ids j" "j_id j0 = j_id j" "j_origin j0 = q_name q" "ttl_ok j0"
    using assms(6) by (simp_all add: j0_def ttl_ok_def)
  have fd: "fetch_dependencies C R s t j0 = Inr deps" using assms(3) by (simp add: fetch_dependencies_def j0_def)
  let ?s1 = "run_all R ([HSet (job_key (j_id j0)) [(''status'', status_text DEFERRED)]] @
      register_dependency t (j0\<lparr>j_status := DEFERRED\<rparr>) @ [HSet (job_key (j_id j0)) fs] @ ttl_cmds j0) s"
  let ?s2 = "r_run R (SAdd queues_key (queue_key (q_name q))) ?s1"
  have sdep: "setup_dependencies C R t False j0 (s, b) = (Inr j2, (?s1, b))" for b
    using setup_dependencies_defer [OF _ fd assms(4,5) j0(4) td] assms(2) j0(1) by simp
  have st2: "j_status j2 = DEFERRED" using to_dict_same(3) [OF td] by simp
  have run: "enqueue_job C R P t q False front False j (s, buf) = (Inr j2, (?s2, buf))"
    using sdep st2 by (simp add: enqueue_job_def j0_def [symmetric] bindO_def seqO_def)
  have status: "map_of (rev fs) ''status'' = Some (status_text DEFERRED)"
    using to_dict_status [OF td] by simp
  note D = defer_run [OF j0(4) status, where t = t and s = s]
  have "get_status R ?s2 (j_id j) = Inr DEFERRED" using D(2) j0 by (simp add: get_status_def hash_run)
  moreover have "\<forall>e \<in> set (j_dependency_ids j). j_id j \<in> sset R ?s2 (dependents_key e)"
    using D(4) j0 by (simp add: set_run)
  moreover have "zscore R ?s2 (registry_key Deferred (q_name q)) (j_id j) = Some (Fin (current_timestamp t))"
    using D(3) j0 by (simp add: zset_run)
  moreover have "sset R ?s2 (dependencies_key (j_id j)) = sset R s (dependencies_key (j_id j)) \<union> set (j_dependency_ids j)"
    using D(5) j0 by (simp add: set_run)
  moreover have "\<forall>i. i \<noteq> j_id j \<longrightarrow> hget R ?s2 (job_key i) = hget R s (job_key i)"
    using D(6) j0 by (simp add: hash_run)
  moreover have "r_list R ?s2 = r_list R s" using D(1) by (simp add: list_run)
  moreover have "queue_key (q_name q) \<in> sset R ?s2 queues_key" by (simp add: set_run)
  ultimately show ?thesis using run by blast
qed

text \<open>
  A job that accepts failed dependencies, enqueued when its dependency has already failed, is
  deferred although its dependencies count as met in the state it leaves.
\<close>

lemma enqueue_job_failed_dependency:
  fixes s :: 's and j q
  defines "j0 \<equiv> j\<lparr>j_origin := q_name q\<rparr>"
  assumes "j_dependency_ids j = [d]" "d \<noteq> j_id j" "j_allow_dependency_failures j = Some True"
    and fd: "fetch_dependencies C R s t j = Inr [dep]" "j_status dep = FAILED"
    and "hget R s (job_key d) ''status'' = Some (status_text FAILED)"
    and "sset R s (dependencies_key (j_id j)) = {}" "ttl_ok j"
    and td: "to_dict C True True (j0\<lparr>j_status := DEFERRED\<rparr>) = Inr (fs, j2)"
  shows "\<exists>s'. enqueue_job C R P t q False front False j (s, buf) = (Inr j2, (s', buf)) \<and>
    get_status R s' (j_id j) = Inr DEFERRED \<and> r_list R s' = r_list R s \<and>
    dependencies_are_met R s' False None None False j = Inr True"
proof -
  have 1: "j_dependency_ids j \<noteq> []" "dep \<in> set [dep]" "j_status dep \<noteq> FINISHED" using assms(2) fd(2) by simp_all
  obtain s' where s': "enqueue_job C R P t q False front False j (s, buf) = (Inr j2, (s', buf))"
    "r_list R s' = r_list R s" "get_status R s' (j_id j) = Inr DEFERRED"
    "sset R s' (dependencies_key (j_id j)) = sset R s (dependencies_key (j_id j)) \<union> set (j_dependency_ids j)"
    "\<forall>i. i \<noteq> j_id j \<longrightarrow> hget R s' (job_key i) = hget R s (job_key i)"
    using enqueue_job_defers [OF 1(1) fd(1) 1(2,3) assms(9) td [unfolded j0_def], where P = P and front = front and buf = buf] by blast
  have "set (dependency_ids R s' (j_id j)) = {d}"
    using s'(4) assms(2,8) by (simp add: dependency_ids_def sset_def)
  moreover have "status_allowed R s' True d" using s'(5) assms(3,7) by (simp add: status_allowed_def)
  ultimately have "dependencies_are_met R s' False None None False j = Inr True"
    using assms(4) by (simp add: dependencies_are_met_None list_all_iff)
  with s' show ?thesis by blast
qed

end

section \<open>Enqueueing the dependents\<close>

definition at_front :: "job \<Rightarrow> bool" where
  "at_front d = opt_default False (j_enqueue_at_front d)"

text \<open>The commands one dependent adds to the pipeline, once its fields are known.\<close>

definition dependent_cmds :: "fields \<Rightarrow> job \<Rightarrow> cmd list" where
  "dependent_cmds fs d =
     reg_remove Deferred (j_origin d) (j_id d) @
     (if j_status d = DEFERRED then reg_remove Deferred (j_origin d) (j_id d) else []) @
     persist_cmds QUEUED fs d @ push_job_id (j_origin d) (at_front d) (j_id d)"

definition enqueued_fields :: "codec \<Rightarrow> datetime \<Rightarrow> queue \<Rightarrow> job \<Rightarrow> fields" where
  "enqueued_fields C t q d =
     (case to_dict C True True (prepare_for_queue (origin_queue q d) t d) of Inr (fs, _) \<Rightarrow> fs | Inl _ \<Rightarrow> [])"

text \<open>A dependent that can be put on its queue: it can be saved, and does not expire at once.\<close>

definition enqueuable :: "codec \<Rightarrow> datetime \<Rightarrow> queue \<Rightarrow> job \<Rightarrow> bool" where
  "enqueuable C t q d \<longleftrightarrow> ttl_ok d \<and>
     (\<exists>fs d'. to_dict C True True (prepare_for_queue (origin_queue q d) t d) = Inr (fs, d'))"

lemma origin_queue_simps [simp]:
  "q_name (origin_queue q d) = j_origin d" "q_is_async q \<Longrightarrow> q_is_async (origin_queue q d)"
  by (auto simp: origin_queue_def)

lemma enqueue_one_eq:
  assumes "enqueuable C t q d" "q_is_async q"
  shows "enqueue_one C R P t q d (s, buf) = (Inr (), (s, buf @ dependent_cmds (enqueued_fields C t q d) d))"
proof -
  obtain fs d' where td: "to_dict C True True (prepare_for_queue (origin_queue q d) t d) = Inr (fs, d')" "ttl_ok d"
    using assms(1) by (auto simp: enqueuable_def)
  show ?thesis
    using assms(2) enqueue_async_eq(1) [OF td, of R "at_front d" s]
    by (simp add: enqueue_one_def enqueue_now_def bindO_def seqO_def dependent_cmds_def enqueued_fields_def td(1)
        at_front_def)
qed

lemma for_each_enqueue_one:
  assumes "\<forall>d \<in> set ds. enqueuable C t q d" "q_is_async q"
  shows "for_each (enqueue_one C R P t q) ds (s, buf) =
    (Inr (), (s, buf @ concat (map (\<lambda>d. dependent_cmds (enqueued_fields C t q d) d) ds)))"
  using assms(1) by (induction ds arbitrary: buf) (simp_all add: enqueue_one_eq [OF _ assms(2)])

lemma enqueued_fields_status:
  assumes "enqueuable C t q d"
  shows "map_of (rev (enqueued_fields C t q d)) ''status'' = Some (status_text QUEUED)"
proof -
  obtain fs d' where td: "to_dict C True True (prepare_for_queue (origin_queue q d) t d) = Inr (fs, d')"
    using assms by (auto simp: enqueuable_def)
  then show ?thesis using to_dict_status [OF td] by (simp add: enqueued_fields_def prepare_for_queue_def)
qed

lemma fetch_one_id: "fetch_one C R s t i = Inr (Some j) \<Longrightarrow> j_id j = i"
  by (auto simp: fetch_one_def Let_def bindE_Inr_iff job_init_def new_job_def dest!: restore_id split: if_splits)

lemma mapE_fetch_one_ids:
  assumes "mapE (fetch_one C R s t) ids = Inr js"
  shows "set (map j_id (compact js)) \<subseteq> set ids" "distinct ids \<Longrightarrow> distinct (map j_id (compact js))"
proof -
  have "set (map j_id (compact js)) \<subseteq> set ids \<and> (distinct ids \<longrightarrow> distinct (map j_id (compact js)))"
    using assms
  proof (induction ids arbitrary: js)
    case (Cons i ids)
    then obtain y ys where y: "fetch_one C R s t i = Inr y" "mapE (fetch_one C R s t) ids = Inr ys" "js = y # ys"
      by (auto simp: bindE_Inr_iff)
    with Cons.IH [OF y(2)] show ?case by (cases y) (auto dest: fetch_one_id)
  qed simp
  then show "set (map j_id (compact js)) \<subseteq> set ids" "distinct ids \<Longrightarrow> distinct (map j_id (compact js))" by auto
qed

lemma ready_dependents_ids:
  assumes "ready_dependents C R t j exclude refr ids s = Inr ds" "\<forall>i \<in> set ids. valid_id i" "distinct ids"
  shows "set (map j_id ds) \<subseteq> set ids" "distinct (map j_id ds)"
proof -
  have "map parse_job_id ids = ids" using assms(2) by (intro map_idI) (simp add: parse_job_id_valid)
  then obtain js where js: "mapE (fetch_one C R s t) ids = Inr js"
    "\<exists>p. ds = filter p (compact js)"
    using assms(1) by (auto simp: ready_dependents_def bindE_Inr_iff fetch_many_def dest!: filterE_Inr)
  note f = mapE_fetch_one_ids [OF js(1)]
  show "set (map j_id ds) \<subseteq> set ids" using f(1) js(2) by auto
  show "distinct (map j_id ds)" using f(2) assms(3) js(2) by (auto simp: distinct_map_filter)
qed

context redis_server
begin

lemma dependent_cmds_run:
  fixes s :: 's and fs d
  assumes "ttl_ok d" "map_of (rev fs) ''status'' = Some (status_text QUEUED)"
  defines "s' \<equiv> run_all R (dependent_cmds fs d) s"
  shows "r_list R s' = (r_list R s)(queue_key (j_origin d) :=
      (if at_front d then j_id d # r_list R s (queue_key (j_origin d)) else r_list R s (queue_key (j_origin d)) @ [j_id d]))"
    "sset R s' = sset R s"
    "zscore R s' = (zscore R s)(registry_key Deferred (j_origin d) :=
      (zscore R s (registry_key Deferred (j_origin d)))(j_id d := None))"
    "k \<noteq> job_key (j_id d) \<Longrightarrow> hget R s' k = hget R s k"
    "hget R s' (job_key (j_id d)) ''status'' = Some (status_text QUEUED)"
proof -
  let ?rm = "reg_remove Deferred (j_origin d) (j_id d)"
  let ?rm2 = "if j_status d = DEFERRED then ?rm else []"
  let ?s1 = "run_all R ?rm2 (run_all R ?rm s)"
  have s': "s' = run_all R (push_job_id (j_origin d) (at_front d) (j_id d)) (run_all R (persist_cmds QUEUED fs d) ?s1)"
    by (simp add: s'_def dependent_cmds_def)
  have z: "zscore R (run_all R ?rm u) = (zscore R u)(registry_key Deferred (j_origin d) :=
      (zscore R u (registry_key Deferred (j_origin d)))(j_id d := None))" for u
    by (simp add: reg_remove_def zscore_zrem)
  have s1: "r_list R ?s1 = r_list R s" "sset R ?s1 = sset R s" "hget R ?s1 = hget R s"
    "zscore R ?s1 = (zscore R s)(registry_key Deferred (j_origin d) :=
      (zscore R s (registry_key Deferred (j_origin d)))(j_id d := None))"
    by (simp_all add: reg_remove_run(1-3) z)
  note p = persist_run [OF assms(1), of QUEUED fs ?s1]
  show "r_list R s' = (r_list R s)(queue_key (j_origin d) :=
      (if at_front d then j_id d # r_list R s (queue_key (j_origin d)) else r_list R s (queue_key (j_origin d)) @ [j_id d]))"
    "sset R s' = sset R s"
    "zscore R s' = (zscore R s)(registry_key Deferred (j_origin d) :=
      (zscore R s (registry_key Deferred (j_origin d)))(j_id d := None))"
    "k \<noteq> job_key (j_id d) \<Longrightarrow> hget R s' k = hget R s k"
    "hget R s' (job_key (j_id d)) ''status'' = Some (status_text QUEUED)"
    using assms(2) by (simp_all only: s' push_run p s1, simp_all)
qed

lemma dependents_run:
  fixes s :: 's
  assumes "\<forall>d \<in> set ds. ttl_ok d \<and> map_of (rev (fs d)) ''status'' = Some (status_text QUEUED)"
  defines "s' \<equiv> run_all R (concat (map (\<lambda>d. dependent_cmds (fs d) d) ds)) s"
  shows "r_list R s' (queue_key p) =
      rev (map j_id (filter (\<lambda>d. j_origin d = p \<and> at_front d) ds)) @ r_list R s (queue_key p) @
      map j_id (filter (\<lambda>d. j_origin d = p \<and> \<not> at_front d) ds) \<and> sset R s' = sset R s \<and>
    (\<forall>q i. zscore R s (registry_key Deferred q) i = None \<longrightarrow> zscore R s' (registry_key Deferred q) i = None) \<and>
    (\<forall>i. hget R s (job_key i) ''status'' = Some (status_text QUEUED) \<longrightarrow>
       hget R s' (job_key i) ''status'' = Some (status_text QUEUED)) \<and>
    (\<forall>d \<in> set ds. hget R s' (job_key (j_id d)) ''status'' = Some (status_text QUEUED) \<and>
       zscore R s' (registry_key Deferred (j_origin d)) (j_id d) = None)"
  using assms(1) unfolding s'_def
proof (induction ds arbitrary: s)
  case (Cons d ds)
  let ?s = "run_all R (dependent_cmds (fs d) d) s"
  have d: "ttl_ok d" "map_of (rev (fs d)) ''status'' = Some (status_text QUEUED)" using Cons.prems by auto
  note one = dependent_cmds_run [OF d, where s = s]
  have "zscore R ?s (registry_key Deferred q) i = None" if "zscore R s (registry_key Deferred q) i = None" for q i
    using that one(3) by auto
  moreover have "hget R ?s (job_key i) ''status'' = Some (status_text QUEUED)"
    if "hget R s (job_key i) ''status'' = Some (status_text QUEUED)" for i
    using that one(4,5) by (cases "i = j_id d") auto
  moreover have "zscore R ?s (registry_key Deferred (j_origin d)) (j_id d) = None" using one(3) by simp
  ultimately show ?case
    using Cons.IH [of ?s] Cons.prems one(1,2,5) by simp
qed simp

lemma enqueue_dependents_run:
  fixes s :: 's
  assumes "\<forall>i \<in> sset R s (dependents_key (j_id j)). valid_id i"
    and ready: "ready_dependents C R t j exclude refr (dependent_ids R s (j_id j)) s = Inr ds"
    and "\<forall>d \<in> set ds. enqueuable C t q d" "q_is_async q"
  shows "\<exists>s'. enqueue_dependents C R P t q False exclude refr j (s, buf) = (Inr (), (s', buf)) \<and>
    (\<forall>p. r_list R s' (queue_key p) =
      rev (map j_id (filter (\<lambda>d. j_origin d = p \<and> at_front d) ds)) @ r_list R s (queue_key p) @
      map j_id (filter (\<lambda>d. j_origin d = p \<and> \<not> at_front d) ds)) \<and>
    (\<forall>d \<in> set ds. get_status R s' (j_id d) = Inr QUEUED \<and>
       zscore R s' (registry_key Deferred (j_origin d)) (j_id d) = None) \<and>
    sset R s' (dependents_key (j_id j)) = sset R s (dependents_key (j_id j)) - set (map j_id ds)"
proof -
  let ?ids = "dependent_ids R s (j_id j)"
  have ids: "set ?ids = sset R s (dependents_key (j_id j))" "distinct ?ids"
    by (simp_all add: dependent_ids_def sset_def set_distinct)
  have sub: "set (map j_id ds) \<subseteq> set ?ids" "distinct (map j_id ds)"
    using ready_dependents_ids [OF ready] ids assms(1) by auto
  let ?fs = "enqueued_fields C t q"
  let ?cs = "concat (map (\<lambda>d. dependent_cmds (?fs d) d) ds)"
  let ?last = "if length ds = length ?ids then [Del [dependents_key (j_id j)]]
    else [SRem (dependents_key (j_id j)) (map j_id ds)]"
  define cs where "cs = (if ?ids = [] \<or> ds = [] then [] else ?cs @ ?last)"
  let ?m = "bindO (ask (\<lambda>s. Inr (dependent_ids R s (j_id j)))) (\<lambda>ids.
          if ids = [] then ret ()
          else
            bindO (ask (ready_dependents C R t j exclude refr ids)) (\<lambda>ds.
              if ds = [] then ret ()
              else
                seqO (for_each (enqueue_one C R P t q) ds)
                  (send R True
                     (if length ds = length ids then [Del [dependents_key (j_id j)]]
                      else [SRem (dependents_key (j_id j)) (map j_id ds)]))))"
  have m: "?m (s, []) = (Inr (), (s, cs))"
    using ready by (simp add: bindO_def seqO_def for_each_enqueue_one [OF assms(3,4)] cs_def)
  have run: "enqueue_dependents C R P t q False exclude refr j (s, buf) = (Inr (), (run_all R cs s, buf))"
    using own_pipe_direct [where m = ?m, OF m, of R buf]
    by (simp add: enqueue_dependents_def)
  let ?s1 = "run_all R ?cs s" and ?s2 = "run_all R cs s"
  have ok: "\<forall>d \<in> set ds. ttl_ok d \<and> map_of (rev (?fs d)) ''status'' = Some (status_text QUEUED)"
    using assms(3) enqueued_fields_status by (auto simp: enqueuable_def)
  note D = dependents_run [OF ok, where s = s]
  have empty: "ds = []" if "?ids = []" using that sub(1) by simp
  have same: "r_list R ?s2 (queue_key p) = r_list R ?s1 (queue_key p)"
    "zscore R ?s2 (registry_key d p) = zscore R ?s1 (registry_key d p)"
    "valid_id i \<Longrightarrow> hget R ?s2 (job_key i) = hget R ?s1 (job_key i)" for p i d
    using empty by (auto simp: cs_def run_frame list_run hash_run zset_run wipe_def valid_id_job_key_neq)
  have valid: "\<forall>d \<in> set ds. valid_id (j_id d)" using sub(1) ids(1) assms(1) by auto
  have del: "sset R ?s2 (dependents_key (j_id j)) = sset R s (dependents_key (j_id j)) - set (map j_id ds)"
  proof (cases "length ds = length ?ids \<and> ds \<noteq> []")
    case True
    then have "card (set ?ids) = card (set (map j_id ds))"
      using distinct_card [OF sub(2)] distinct_card [OF ids(2)] by simp
    then have "set (map j_id ds) = set ?ids" by (intro card_seteq sub(1)) simp_all
    then show ?thesis using True D ids empty by (auto simp: cs_def set_run wipe_def)
  next
    case False
    then show ?thesis using D empty by (auto simp: cs_def set_run)
  qed
  have "\<forall>d \<in> set ds. get_status R ?s2 (j_id d) = Inr QUEUED" using D same(3) valid by (simp add: get_status_def)
  then show ?thesis using run D same(1,2) del by (intro exI [of _ ?s2]) simp
qed

end

section \<open>Properties\<close>

text \<open>
  C7. Enqueueing a job on its queue: the id joins the list at the asked end and no other list changes,
  the job's status is \<open>queued\<close>, a job that was deferred leaves the registry of deferred jobs and for
  any other no registry changes, and nothing stays in the caller's pipeline.
\<close>

theorem enqueue_places_job:
  assumes "redis_server R" "to_dict C True True (prepare_for_queue q t j) = Inr (fs, j2)" "ttl_ok j"
  shows "\<exists>s'. enqueue_async_job C R t q False front False j (s, buf) = (Inr j2, (s', buf)) \<and>
    r_list R s' = (r_list R s)(queue_key (q_name q) :=
      (if front then j_id j # r_list R s (queue_key (q_name q)) else r_list R s (queue_key (q_name q)) @ [j_id j])) \<and>
    get_status R s' (j_id j) = Inr QUEUED \<and>
    (j_status j = DEFERRED \<longrightarrow> zscore R s' (registry_key Deferred (q_name q)) (j_id j) = None) \<and>
    (j_status j \<noteq> DEFERRED \<longrightarrow> zscore R s' = zscore R s) \<and> sset R s' = sset R s"
proof -
  obtain s' where run: "enqueue_async_job C R t q False front False j (s, buf) = (Inr j2, (s', buf))"
    using enqueue_async_eq(2) [OF assms(2,3), of R front s buf] by blast
  show ?thesis using redis_server.enqueue_async_effect [OF assms run] run by blast
qed

theorem enqueue_places_job_witness:
  "\<exists>j2 s'. enqueue_async_job sample_codec mem_redis 7 \<lparr>q_name = ''q'', q_default_timeout = 180, q_is_async = True\<rparr> False
     False False (sample_job ''a'') (mem_empty, []) = (Inr j2, (s', [])) \<and>
     r_list mem_redis s' (queue_key ''q'') = [''a''] \<and> get_status mem_redis s' ''a'' = Inr QUEUED"
proof -
  let ?q = "\<lparr>q_name = ''q'', q_default_timeout = 180, q_is_async = True\<rparr>"
  obtain fs j2 where td: "to_dict sample_codec True True (prepare_for_queue ?q 7 (sample_job ''a'')) = Inr (fs, j2)"
    by (rule sample_to_dict [of "prepare_for_queue ?q 7 (sample_job ''a'')"]) (simp_all add: prepare_for_queue_def)
  have "ttl_ok (sample_job ''a'')" by (simp add: ttl_ok_def)
  from enqueue_places_job [OF mem.redis_server_axioms td this, of False mem_empty "[]"] show ?thesis by fastforce
qed

text \<open>
  C18. Enqueueing the dependents of a job: the ready ones are put on the queues of their origins, those
  that ask for it at the front and the others at the back, all in one transaction; each of them is
  \<open>queued\<close> and out of the registry of deferred jobs, and the set of dependents loses exactly them.
\<close>

theorem dependents_enqueued:
  assumes "redis_server R" "\<forall>i \<in> sset R s (dependents_key (j_id j)). valid_id i"
    and "ready_dependents C R t j exclude refr (dependent_ids R s (j_id j)) s = Inr ds"
    and "\<forall>d \<in> set ds. enqueuable C t q d" "q_is_async q"
  shows "\<exists>s'. enqueue_dependents C R P t q False exclude refr j (s, buf) = (Inr (), (s', buf)) \<and>
    (\<forall>p. r_list R s' (queue_key p) =
      rev (map j_id (filter (\<lambda>d. j_origin d = p \<and> at_front d) ds)) @ r_list R s (queue_key p) @
      map j_id (filter (\<lambda>d. j_origin d = p \<and> \<not> at_front d) ds)) \<and>
    (\<forall>d \<in> set ds. get_status R s' (j_id d) = Inr QUEUED \<and>
       zscore R s' (registry_key Deferred (j_origin d)) (j_id d) = None) \<and>
    sset R s' (dependents_key (j_id j)) = sset R s (dependents_key (j_id j)) - set (map j_id ds)"
  by (rule redis_server.enqueue_dependents_run [OF assms])

text \<open>A server that holds the saved job, and jobs to save on it.\<close>

definition saved :: "job \<Rightarrow> mem" where
  "saved j = (case save sample_codec True True j of
     Inr (cs, _) \<Rightarrow> run_all mem_redis cs mem_empty | Inl _ \<Rightarrow> mem_empty)"

definition storable_sample :: "job \<Rightarrow> bool" where
  "storable_sample j \<longleftrightarrow> valid_id (j_id j) \<and> j_data j = UNEVALUATED \<and> j_func_name j \<noteq> UNEVALUATED \<and> storable sample_codec j"

lemma saved_props:
  assumes "storable_sample j"
  shows "fetch sample_codec mem_redis (saved j) t (j_id j) = Inr (persisted ''p'' j)"
    "hget mem_redis (saved j) (job_key (j_id j)) ''status'' = Some (status_text (j_status j))"
    "r_list mem_redis (saved j) k = []" "sset mem_redis (saved j) k = {}" "zscore mem_redis (saved j) k = Map.empty"
    "i \<noteq> j_id j \<Longrightarrow> hget mem_redis (saved j) (job_key i) = Map.empty"
proof -
  have "\<exists>j'. get_data sample_codec j = Inr (''p'', j')"
    using assms by (simp add: storable_sample_def get_data_def sample_codec_def)
  then obtain j' where g: "get_data sample_codec j = Inr (''p'', j')" by blast
  have st: "storable sample_codec j" "valid_id (j_id j)" using assms by (simp_all add: storable_sample_def)
  obtain cs where cs: "save sample_codec True True j = Inr (cs, j')" using save_succeeds [OF g st(1)] by blast
  then have s: "saved j = run_all mem_redis cs mem_empty" by (simp add: saved_def)
  obtain fs where td: "to_dict sample_codec True True j = Inr (fs, j')" "cs = [HSet (job_key (j_id j)) fs]"
    using cs by (auto simp: save_def bindE_Inr_iff)
  show "fetch sample_codec mem_redis (saved j) t (j_id j) = Inr (persisted ''p'' j)"
    unfolding s using mem.fetch_after_save [of j mem_empty sample_codec cs j' "''p''" t] cs g st sample_storable(2) by simp
  show "hget mem_redis (saved j) (job_key (j_id j)) ''status'' = Some (status_text (j_status j))"
    using to_dict_status [OF td(1)] unfolding s td(2) by (simp add: mem.hash_run)
  show "r_list mem_redis (saved j) k = []" "sset mem_redis (saved j) k = {}" "zscore mem_redis (saved j) k = Map.empty"
    "i \<noteq> j_id j \<Longrightarrow> hget mem_redis (saved j) (job_key i) = Map.empty"
    unfolding s td(2) by (simp_all add: mem.list_run mem.set_run mem.zset_run mem.hash_run)
qed

definition parent_job :: "job_status \<Rightarrow> job" where
  "parent_job st = (sample_job ''a'')\<lparr>j_status := st\<rparr>"

lemma fetch_one_fetch: "valid_id i \<Longrightarrow> fetch C R s t i = Inr j \<Longrightarrow> fetch_one C R s t i = Inr (Some j)"
  by (simp add: fetch_valid fetch_one_def Let_def job_init_def valid_id_def validate_job_id_def split: if_splits)

definition waiting_child :: "job_status \<Rightarrow> job" where
  "waiting_child st = (sample_job ''b'')\<lparr>j_status := st, j_dependency_ids := [''a''], j_allow_dependency_failures := Some True\<rparr>"

lemma sample_family [simp]:
  "j_id (parent_job st) = ''a''" "j_status (parent_job st) = st" "j_id (waiting_child st) = ''b''" "j_status (waiting_child st) = st"
  "j_dependency_ids (waiting_child st) = [''a'']" "j_allow_dependency_failures (waiting_child st) = Some True"
  "ttl_ok (waiting_child st)" "storable_sample (parent_job st)" "storable_sample (waiting_child st)"
  "valid_id ''a''" "valid_id ''b''"
proof -
  show v: "valid_id ''a''" "valid_id ''b''" by code_simp+
  show "storable_sample (parent_job st)" "storable_sample (waiting_child st)"
    using v by (simp_all add: storable_sample_def storable_def dates_ok_def parent_job_def waiting_child_def truthy_def)
qed (simp_all add: parent_job_def waiting_child_def ttl_ok_def)

lemma fetch_saved_dependency:
  "fetch_dependencies sample_codec mem_redis (saved (parent_job st)) t (waiting_child st') = Inr [persisted ''p'' (parent_job st)]"
  using fetch_one_fetch [OF _ saved_props(1), of "parent_job st"]
  by (simp add: fetch_dependencies_def fetch_many_def parse_job_id_valid)

lemma persisted_status [simp]: "j_status (persisted d j) = j_status j"
  by (simp add: persisted_def set_data_def)

definition sample_py :: py where
  "sample_py = \<lparr>py_call = (\<lambda>_ _ _. Inr PNone), py_callback = (\<lambda>_ _. True), py_trace = (\<lambda>_. ''error''),
    py_handlers = []\<rparr>"

definition sample_queue :: queue where
  "sample_queue = \<lparr>q_name = ''q'', q_default_timeout = 180, q_is_async = True\<rparr>"

text \<open>
  C17. A job enqueued while a dependency it names exists and is not finished is deferred: no queue's list
  changes, its status is \<open>deferred\<close>, it is in the registry of deferred jobs, and both sets that link
  it to its dependencies hold the link, so that the end of each dependency finds it.
\<close>

theorem enqueue_defers:
  assumes "redis_server R" "j_dependency_ids j \<noteq> []" "fetch_dependencies C R s t j = Inr deps"
    and "d \<in> set deps" "j_status d \<noteq> FINISHED" "ttl_ok j"
    and "to_dict C True True (j\<lparr>j_origin := q_name q, j_status := DEFERRED\<rparr>) = Inr (fs, j2)"
  shows "\<exists>s'. enqueue_job C R P t q False front False j (s, buf) = (Inr j2, (s', buf)) \<and>
    r_list R s' = r_list R s \<and> get_status R s' (j_id j) = Inr DEFERRED \<and>
    zscore R s' (registry_key Deferred (q_name q)) (j_id j) = Some (Fin (current_timestamp t)) \<and>
    (\<forall>e \<in> set (j_dependency_ids j). j_id j \<in> sset R s' (dependents_key e)) \<and>
    sset R s' (dependencies_key (j_id j)) = sset R s (dependencies_key (j_id j)) \<union> set (j_dependency_ids j)"
  using redis_server.enqueue_job_defers [OF assms(1-6), of q fs j2 P front buf] assms(7) by auto

theorem enqueue_defers_witness:
  "\<exists>j2 s'. enqueue_job sample_codec mem_redis sample_py 7 sample_queue False False False (waiting_child CREATED)
     (saved (parent_job STARTED), []) = (Inr j2, (s', [])) \<and>
     get_status mem_redis s' ''b'' = Inr DEFERRED \<and> ''b'' \<in> sset mem_redis s' (dependents_key ''a'')"
proof -
  let ?c = "(waiting_child CREATED)\<lparr>j_origin := q_name sample_queue, j_status := DEFERRED\<rparr>"
  obtain fs j2 where td: "to_dict sample_codec True True ?c = Inr (fs, j2)"
    by (rule sample_to_dict [of ?c]) (simp add: waiting_child_def)
  have 1: "j_dependency_ids (waiting_child CREATED) \<noteq> []" "ttl_ok (waiting_child CREATED)"
    "persisted ''p'' (parent_job STARTED) \<in> set [persisted ''p'' (parent_job STARTED)]"
    "j_status (persisted ''p'' (parent_job STARTED)) \<noteq> FINISHED" by simp_all
  from enqueue_defers [OF mem.redis_server_axioms 1(1) fetch_saved_dependency [where t = 7] 1(3,4,2) td,
      where P = sample_py and front = False and buf = "[]"]
  show ?thesis by simp blast
qed



lemma single_member: "distinct xs \<Longrightarrow> set xs = {x} \<Longrightarrow> xs = [x]"
  by (cases xs; cases "tl xs") auto

definition with_dependent :: mem where
  "with_dependent = run_all mem_redis [SAdd (dependents_key ''a'') ''b''] (saved (waiting_child DEFERRED))"

lemma with_dependent_props:
  "dependent_ids mem_redis with_dependent ''a'' = [''b'']" "sset mem_redis with_dependent (dependents_key ''a'') = {''b''}"
  "ready_dependents sample_codec mem_redis 7 (parent_job FINISHED) None False [''b''] with_dependent =
     Inr [persisted ''p'' (waiting_child DEFERRED)]"
  "r_list mem_redis with_dependent k = []"
proof -
  note p = saved_props [of "waiting_child DEFERRED", simplified]
  show set: "sset mem_redis with_dependent (dependents_key ''a'') = {''b''}"
    by (simp add: with_dependent_def mem.set_run p(4))
  then show ids: "dependent_ids mem_redis with_dependent ''a'' = [''b'']"
    unfolding dependent_ids_def by (intro single_member mem.set_distinct) (simp add: sset_def)
  show "r_list mem_redis with_dependent k = []" by (simp add: with_dependent_def mem.list_run p(3))
  have "fetch sample_codec mem_redis with_dependent 7 ''b'' = fetch sample_codec mem_redis (saved (waiting_child DEFERRED)) 7 ''b''"
    by (rule fetch_cong) (simp add: with_dependent_def mem.hash_run)
  then have f: "fetch_one sample_codec mem_redis with_dependent 7 ''b'' = Inr (Some (persisted ''p'' (waiting_child DEFERRED)))"
    using p(1) by (intro fetch_one_fetch) simp_all
  have "sset mem_redis with_dependent (dependencies_key ''b'') = {}"
    by (simp add: with_dependent_def mem.set_run p(4))
  then have d: "dependency_ids mem_redis with_dependent ''b'' = []" by (simp add: dependency_ids_def sset_def)
  have i: "j_id (persisted ''p'' (waiting_child DEFERRED)) = ''b''"
    "j_dependency_ids (persisted ''p'' (waiting_child DEFERRED)) = [''a'']"
    by (simp_all add: persisted_def set_data_def)
  show "ready_dependents sample_codec mem_redis 7 (parent_job FINISHED) None False [''b''] with_dependent =
     Inr [persisted ''p'' (waiting_child DEFERRED)]"
    by (simp add: ready_dependents_def fetch_many_def parse_job_id_valid f dependencies_are_met_def i d)
qed

theorem dependents_enqueued_witness:
  "\<exists>s'. enqueue_dependents sample_codec mem_redis sample_py 7 sample_queue False None False (parent_job FINISHED)
     (with_dependent, []) = (Inr (), (s', [])) \<and> r_list mem_redis s' (queue_key ''q'') = [''b''] \<and>
     get_status mem_redis s' ''b'' = Inr QUEUED \<and> sset mem_redis s' (dependents_key ''a'') = {}"
proof -
  let ?b = "persisted ''p'' (waiting_child DEFERRED)"
  let ?p = "prepare_for_queue (origin_queue sample_queue ?b) 7 ?b"
  have b: "j_id ?b = ''b''" "j_origin ?b = ''q''" "\<not> at_front ?b" "ttl_ok ?b"
    by (simp_all add: persisted_def set_data_def waiting_child_def at_front_def sample_job_def new_job_def ttl_ok_def)
  obtain fs j2 where "to_dict sample_codec True True ?p = Inr (fs, j2)"
    by (rule sample_to_dict [of ?p]) (simp add: prepare_for_queue_def persisted_def set_data_def)
  then have e: "\<forall>d \<in> set [?b]. enqueuable sample_codec 7 sample_queue d" using b(4) by (auto simp: enqueuable_def)
  have v: "\<forall>i \<in> sset mem_redis with_dependent (dependents_key (j_id (parent_job FINISHED))). valid_id i"
    by (simp add: with_dependent_props(2))
  have r: "ready_dependents sample_codec mem_redis 7 (parent_job FINISHED) None False
      (dependent_ids mem_redis with_dependent (j_id (parent_job FINISHED))) with_dependent = Inr [?b]"
    by (simp add: with_dependent_props)
  have "q_is_async sample_queue" by (simp add: sample_queue_def)
  from dependents_enqueued [OF mem.redis_server_axioms v r e this, where P = sample_py and buf = "[]"]
  show ?thesis by (auto simp: b with_dependent_props)
qed

lemma status_allowed_Some:
  "status_allowed R s a i \<Longrightarrow> hget R s (job_key i) ''status'' = Some v \<Longrightarrow>
   v = [] \<or> v = status_text FINISHED \<or> a \<and> v = status_text FAILED"
  by (simp add: status_allowed_def)



end
