(* ===== verification/Lifecycle.thy ===== *)
theory Lifecycle
  imports Enqueue
begin

text \<open>
  What happens to a job after it was enqueued, and the public ways to enqueue one: retries
  (\<open>rq/job.py\<close>), repeats (\<open>rq/repeat.py\<close>), requeueing and the cleanup of abandoned jobs
  (\<open>rq/registry.py\<close>), cancelling, and \<open>create_job\<close>, \<open>enqueue_call\<close>, \<open>enqueue_at\<close>, \<open>enqueue_in\<close>,
  \<open>parse_args\<close> and \<open>enqueue_many\<close> (\<open>rq/queue.py\<close>, \<open>rq/dependency.py\<close>).
\<close>

section \<open>Retries\<close>

definition seconds_later :: "datetime \<Rightarrow> int \<Rightarrow> datetime" where
  "seconds_later t n = nat (int t + n * int usec)"

text \<open>
  \<open>job.retry\<close> with a pipeline. The status \<open>scheduled\<close> goes to the connection at once, everything else
  to the pipeline, but for the registry entry (see \<open>schedule\<close>).
\<close>

definition retry_job :: "codec \<Rightarrow> 's redis \<Rightarrow> py \<Rightarrow> datetime \<Rightarrow> queue \<Rightarrow> job \<Rightarrow> ('s, job) op" where
  "retry_job C R P t q j =
     bindO (liftE (get_retry_interval j)) (\<lambda>ivl.
       if \<not> retries_truthy j then raiseO AssertionError
       else
         let j1 = j\<lparr>j_retries_left := map_option (\<lambda>n. n - 1) (j_retries_left j)\<rparr> in
         if ivl \<noteq> 0 then
           bindO (set_status_on R False SCHEDULED j1)
             (schedule_job C R t q None (seconds_later t ivl) True False)
         else enqueue_now C R P t q True (j_enqueue_at_front_on_retry j1) False j1)"

text \<open>\<open>_handle_retry_result\<close>; \<open>rv\<close> is the Retry object as the serializer sees it.\<close>

definition handle_retry_result ::
  "codec \<Rightarrow> 's redis \<Rightarrow> py \<Rightarrow> datetime \<Rightarrow> queue \<Rightarrow> retry \<Rightarrow> pyval \<Rightarrow> string \<Rightarrow> exec_info \<Rightarrow> job \<Rightarrow> ('s, job) op" where
  "handle_retry_result C R P t q r rv w ei j =
     bindO (liftE (create_retried C (j_id j) (j_failure_ttl j) rv w ei)) (\<lambda>cs.
     seqO (send R True cs)
       (bindO (liftE (get_interval (opt_default 0 (j_number_of_retries j)) (Some (IList (rt_intervals r))))) (\<lambda>ivl.
          let j1 = j\<lparr>j_number_of_retries := Some (opt_default 0 (j_number_of_retries j) + 1)\<rparr> in
          if ivl \<noteq> 0 then
            bindO (set_status_on R False SCHEDULED j1)
              (schedule_job C R t q None (seconds_later t ivl) True False)
          else enqueue_now C R P t q True False False j1)))"

section \<open>Repeats\<close>

record rpt =
  rp_times :: int
  rp_intervals :: "int list"

definition make_repeat :: "int \<Rightarrow> interval_arg option \<Rightarrow> rpt res" where
  "make_repeat n ivl =
     (if n < 1 then Inl ValueError
      else
        case ivl of
          None \<Rightarrow> Inl TypeError
        | Some (IInt i) \<Rightarrow>
            if i < 0 then Inl ValueError else Inr \<lparr>rp_times = n, rp_intervals = [i]\<rparr>
        | Some (IList is) \<Rightarrow>
            if \<exists>i \<in> set is. i < 0 then Inl ValueError else Inr \<lparr>rp_times = n, rp_intervals = is\<rparr>)"

definition repeat_interval :: "int \<Rightarrow> int list \<Rightarrow> int res" where
  "repeat_interval k ivls =
     (if int (length ivls) \<le> k then py_index ivls (- 1) else py_index ivls k)"

text \<open>
  \<open>Repeat.schedule\<close>. The time is the local one, without a zone; \<open>zone\<close> is its offset from UTC in
  seconds, which \<open>schedule\<close> takes off again.
\<close>

definition schedule_repeat ::
  "codec \<Rightarrow> 's redis \<Rightarrow> py \<Rightarrow> datetime \<Rightarrow> int \<Rightarrow> queue \<Rightarrow> bool \<Rightarrow> job \<Rightarrow> ('s, job) op" where
  "schedule_repeat C R P t zone q piped j =
     (case j_repeats_left j of
        None \<Rightarrow> raiseO ValueError
      | Some left \<Rightarrow>
          if left \<le> 0 then raiseO ValueError
          else
            own_pipe R piped
              (bindO (liftE (case j_repeat_intervals j of
                               None \<Rightarrow> Inr 0
                             | Some is \<Rightarrow> if is = [] then Inr 0 else repeat_interval (left - 1) is)) (\<lambda>ivl.
               bindO (save_on C R True True True (j\<lparr>j_repeats_left := Some (left - 1)\<rparr>)) (\<lambda>j1.
                 if ivl = 0 then enqueue_now C R P t q True False False j1
                 else schedule_job C R t q (Some zone) (seconds_later t (zone + ivl)) True False j1))))"

section \<open>Requeueing\<close>

definition default_queue :: "string \<Rightarrow> queue" where
  "default_queue name = \<lparr>q_name = name, q_default_timeout = 180, q_is_async = True\<rparr>"

definition requeue ::
  "codec \<Rightarrow> 's redis \<Rightarrow> py \<Rightarrow> datetime \<Rightarrow> reg_kind \<Rightarrow> string \<Rightarrow> bool \<Rightarrow> job \<Rightarrow> ('s, job) op" where
  "requeue C R P t d q front j =
     bindO (act (\<lambda>s. (Inr (zrem_count R s (registry_key d q) (j_id j)), run_all R (reg_remove d q (j_id j)) s))) (\<lambda>n.
       if n = 0 then raiseO InvalidJobOperation
       else
         new_pipe
           (bindO (save_on C R False True True (j\<lparr>j_started_at := None, j_ended_at := None, j_exc_info := Some []\<rparr>)) (\<lambda>j1.
            bindO (enqueue_now C R P t (default_queue (j_origin j1)) True front False j1) (\<lambda>j2.
              seqO (execute R) (ret j2)))))"

definition requeue_id ::
  "codec \<Rightarrow> 's redis \<Rightarrow> py \<Rightarrow> datetime \<Rightarrow> reg_kind \<Rightarrow> string \<Rightarrow> bool \<Rightarrow> string \<Rightarrow> ('s, job) op" where
  "requeue_id C R P t d q front i = bindO (ask (\<lambda>s. fetch C R s t i)) (requeue C R P t d q front)"

definition job_requeue :: "codec \<Rightarrow> 's redis \<Rightarrow> py \<Rightarrow> datetime \<Rightarrow> bool \<Rightarrow> job \<Rightarrow> ('s, job) op" where
  "job_requeue C R P t front j = requeue C R P t Failed (j_origin j) front j"

section \<open>Cancelling\<close>

text \<open>
  \<open>job.cancel\<close>. With its own pipeline and \<open>enqueue_dependents\<close> the pipeline watches the dependents and
  sends the commands after that at once; as nobody else writes in between, the state it leaves is
  the same.
\<close>

definition leave_dependencies :: "codec \<Rightarrow> 's redis \<Rightarrow> datetime \<Rightarrow> job \<Rightarrow> ('s, unit) op" where
  "leave_dependencies C R t j =
     bindO (ask (\<lambda>s. fetch_dependencies C R s t j)) (\<lambda>deps.
       send R True (map (\<lambda>d. SRem (dependents_key (j_id d)) [j_id j]) deps))"

definition cancel ::
  "codec \<Rightarrow> 's redis \<Rightarrow> py \<Rightarrow> datetime \<Rightarrow> bool \<Rightarrow> bool \<Rightarrow> bool \<Rightarrow> job \<Rightarrow> ('s, job) op" where
  "cancel C R P t piped with_dependents from_dependencies j =
     bindO (ask (\<lambda>s. get_status R s (j_id j))) (\<lambda>st.
       if st = CANCELED then raiseO InvalidJobOperation
       else
         own_pipe R piped
           (bindO (set_status_on R True CANCELED j) (\<lambda>j1.
            seqO (if with_dependents
                  then enqueue_dependents C R P t (default_queue (j_origin j)) piped (Some (j_id j)) True j1
                  else ret ())
              (seqO (if from_dependencies then leave_dependencies C R t j1 else ret ())
                (bindO (remove_from_registries R t True True j1) (\<lambda>j2.
                   seqO (send R True (reg_add Canceled (j_origin j) (j_id j) 0 False t)) (ret j2)))))))"

section \<open>Abandoned jobs\<close>

text \<open>\<open>str(now())\<close>: the microseconds are left out when there are none.\<close>

definition datetime_text :: "datetime \<Rightarrow> string" where
  "datetime_text t =
     (let s = t div usec; us = t mod usec; tod = s mod 86400 in
      case civil_of_days (s div 86400) of (y, m, d) \<Rightarrow>
        padn 4 y @ ''-'' @ padn 2 m @ ''-'' @ padn 2 d @ '' '' @
        padn 2 (tod div 3600) @ '':'' @ padn 2 (tod div 60 mod 60) @ '':'' @ padn 2 (tod mod 60) @
        (if us = 0 then [] else ''.'' @ padn 6 us) @ ''+00:00'')"

definition abandoned_text :: "datetime \<Rightarrow> string" where
  "abandoned_text t = ''Moved to FailedJobRegistry, due to AbandonedJobError, at '' @ datetime_text t"

text \<open>
  One expired entry of the started jobs. A job that is gone is passed over. The job's failure
  callback and the exception handlers run first, and whatever they raise ends the whole cleanup; the
  handlers are those of the worker that cleans up.
\<close>

definition cleanup_abandoned ::
  "codec \<Rightarrow> 's redis \<Rightarrow> py \<Rightarrow> datetime \<Rightarrow> string \<Rightarrow> string \<Rightarrow> ('s, unit) op" where
  "cleanup_abandoned C R P t q i =
     bindO (ask (\<lambda>s. case fetch C R s t i of Inl NoSuchJobError \<Rightarrow> Inr None | Inl e \<Rightarrow> Inl e | Inr j \<Rightarrow> Inr (Some j)))
       (\<lambda>oj. case oj of
          None \<Rightarrow> ret ()
        | Some j \<Rightarrow>
            seqO (run_callback P (j_failure_callback_name j) j)
              (seqO (liftE (call_handlers (py_handlers P) j (py_trace P AbandonedJobError)))
                (if should_retry j then bindO (retry_job C R P t (default_queue q) j) (\<lambda>_. ret ())
                 else
                   bindO (set_status_on R True FAILED j) (\<lambda>j1.
                   bindO (handle_failure C R t (abandoned_text t) [] no_exec j1) (\<lambda>j2.
                     enqueue_dependents C R P t (default_queue q) False None False j2)))))"

definition started_cleanup ::
  "codec \<Rightarrow> 's redis \<Rightarrow> py \<Rightarrow> datetime \<Rightarrow> string \<Rightarrow> int \<Rightarrow> ('s, unit) op" where
  "started_cleanup C R P t q ts =
     bindO (ask (\<lambda>s. get_expired_job_ids R s Started q ts)) (\<lambda>ids.
       if ids = [] then ret ()
       else
         new_pipe
           (seqO (for_each (cleanup_abandoned C R P t q) ids)
             (seqO (send R True [ZRemRangeByScore (registry_key Started q) ts]) (execute R))))"

definition clean_registries :: "codec \<Rightarrow> 's redis \<Rightarrow> py \<Rightarrow> datetime \<Rightarrow> string \<Rightarrow> ('s, unit) op" where
  "clean_registries C R P t q =
     seqO (send R False (expire_entries Finished q (current_timestamp t)))
       (seqO (started_cleanup C R P t q (current_timestamp t))
         (send R False (expire_entries Failed q (current_timestamp t))))"

section \<open>Creating jobs through a queue\<close>

definition set_repeat :: "rpt option \<Rightarrow> job \<Rightarrow> job" where
  "set_repeat r j =
     (case r of
        None \<Rightarrow> j
      | Some r \<Rightarrow> j\<lparr>j_repeats_left := Some (rp_times r), j_repeat_intervals := Some (rp_intervals r)\<rparr>)"

definition opt_timeout :: "int option \<Rightarrow> timeout" where
  "opt_timeout n = (case n of None \<Rightarrow> TNone | Some i \<Rightarrow> TInt i)"

text \<open>The limits a queue puts on a job: the default timeout, no zero timeout, a positive ttl.\<close>

definition queue_limits :: "queue \<Rightarrow> create_args \<Rightarrow> create_args res" where
  "queue_limits q a =
     bindE (parse_timeout (ca_timeout a)) (\<lambda>tmo.
     bindE (case tmo of
              None \<Rightarrow> Inr (q_default_timeout q)
            | Some n \<Rightarrow> if n = 0 then Inl ValueError else Inr n) (\<lambda>n.
     bindE (parse_timeout (ca_result_ttl a)) (\<lambda>rttl.
     bindE (parse_timeout (ca_failure_ttl a)) (\<lambda>fttl.
     bindE (parse_timeout (ca_ttl a)) (\<lambda>ttl.
       if (case ttl of None \<Rightarrow> False | Some m \<Rightarrow> m \<le> 0) then Inl ValueError
       else Inr (a\<lparr>ca_timeout := TInt n, ca_result_ttl := opt_timeout rttl, ca_failure_ttl := opt_timeout fttl,
                   ca_ttl := opt_timeout ttl, ca_origin := q_name q\<rparr>))))))"

definition create_job ::
  "(pyval \<Rightarrow> string) \<Rightarrow> codec \<Rightarrow> queue \<Rightarrow> create_args \<Rightarrow> rpt option \<Rightarrow> string \<Rightarrow> datetime \<Rightarrow> job res" where
  "create_job repr C q a rpt uid t =
     bindE (queue_limits q a) (\<lambda>a1.
     bindE (create repr C (a1\<lparr>ca_retry := None\<rparr>) uid t) (\<lambda>j.
       Inr (set_repeat rpt (set_retry (ca_retry a) j))))"

definition enqueue_call ::
  "(pyval \<Rightarrow> string) \<Rightarrow> codec \<Rightarrow> 's redis \<Rightarrow> py \<Rightarrow> datetime \<Rightarrow> queue \<Rightarrow> bool \<Rightarrow> bool \<Rightarrow> bool \<Rightarrow> create_args \<Rightarrow>
   rpt option \<Rightarrow> string \<Rightarrow> ('s, job) op" where
  "enqueue_call repr C R P t q piped front unique a rpt uid =
     (if unique \<and> opt_default [] (ca_id a) = [] then raiseO ValueError
      else
        bindO (liftE (create_job repr C q (a\<lparr>ca_status := Some QUEUED, ca_group_id := None\<rparr>) rpt uid t))
          (enqueue_job C R P t q piped front unique))"

definition enqueue_at ::
  "(pyval \<Rightarrow> string) \<Rightarrow> codec \<Rightarrow> 's redis \<Rightarrow> datetime \<Rightarrow> queue \<Rightarrow> int option \<Rightarrow> datetime \<Rightarrow> bool \<Rightarrow> bool \<Rightarrow> create_args \<Rightarrow>
   rpt option \<Rightarrow> string \<Rightarrow> ('s, job) op" where
  "enqueue_at repr C R t q zone dt piped front a rpt uid =
     bindO (liftE (create_job repr C q (a\<lparr>ca_status := Some SCHEDULED, ca_group_id := None\<rparr>) rpt uid t)) (\<lambda>j.
       schedule_job C R t q zone dt piped False (if front then j\<lparr>j_enqueue_at_front := Some True\<rparr> else j))"

text \<open>\<open>delta\<close> is in microseconds.\<close>

definition enqueue_in ::
  "(pyval \<Rightarrow> string) \<Rightarrow> codec \<Rightarrow> 's redis \<Rightarrow> datetime \<Rightarrow> queue \<Rightarrow> int \<Rightarrow> bool \<Rightarrow> bool \<Rightarrow> create_args \<Rightarrow>
   rpt option \<Rightarrow> string \<Rightarrow> ('s, job) op" where
  "enqueue_in repr C R t q delta piped front a rpt uid =
     enqueue_at repr C R t q None (nat (int t + delta)) piped front a rpt uid"

text \<open>
  \<open>parse_args\<close>: the options of RQ are taken out of the keyword arguments. When \<open>args\<close> or \<open>kwargs\<close> is
  among the rest they are the arguments of the call, and every other keyword is dropped.
\<close>

definition option_names :: "string list" where
  "option_names = [''job_timeout'', ''description'', ''result_ttl'', ''ttl'', ''failure_ttl'', ''depends_on'', ''job_id'',
     ''at_front'', ''meta'', ''retry'', ''repeat'', ''on_success'', ''on_failure'', ''on_stopped'', ''pipeline'', ''unique'']"

definition parse_args ::
  "bool \<Rightarrow> 'v list \<Rightarrow> (string \<times> 'v) list \<Rightarrow>
   ((string \<times> 'v) list \<times> ('v list + 'v option) \<times> ((string \<times> 'v) list + 'v option)) res" where
  "parse_args from_main pos kw =
     (let opts = filter (\<lambda>p. fst p \<in> set option_names) kw;
          rest = filter (\<lambda>p. fst p \<notin> set option_names) kw
      in
      if from_main then Inl ValueError
      else if map_of rest ''args'' \<noteq> None \<or> map_of rest ''kwargs'' \<noteq> None then
        (if pos \<noteq> [] then Inl AssertionError
         else Inr (opts, Inr (map_of rest ''args''), Inr (map_of rest ''kwargs'')))
      else Inr (opts, Inl pos, Inl rest))"

text \<open>
  What \<open>create\<close> makes of the two: None is no arguments. Keyword arguments that are no dict cannot be described, which is
  where making the job ends.
\<close>

definition given_args :: "pyval list + pyval option \<Rightarrow> pyval option" where
  "given_args a = (case a of Inl xs \<Rightarrow> Some (PTuple xs) | Inr v \<Rightarrow> if v = Some PNone then None else v)"

definition given_kwargs :: "(string \<times> pyval) list + pyval option \<Rightarrow> (string \<times> pyval) list option res" where
  "given_kwargs k =
     (case k of
        Inl kvs \<Rightarrow> Inr (Some kvs)
      | Inr None \<Rightarrow> Inr None
      | Inr (Some PNone) \<Rightarrow> Inr None
      | Inr (Some (PDict kvs)) \<Rightarrow> Inr (Some kvs)
      | Inr (Some _) \<Rightarrow> Inl AttributeError)"

section \<open>Enqueueing many jobs\<close>

record enqueue_data =
  ed_args :: create_args
  ed_repeat :: "rpt option"
  ed_at_front :: bool
  ed_unique :: bool

text \<open>Whether \<open>depends_on\<close> is truthy: None, an empty text and an empty list are not.\<close>

definition has_depends :: "create_args \<Rightarrow> bool" where
  "has_depends a =
     (case ca_depends_on a of
        None \<Rightarrow> False
      | Some (Several ds) \<Rightarrow> ds \<noteq> []
      | Some (Single d) \<Rightarrow> d \<noteq> DRef (RId []))"

text \<open>\<open>Dependency.get_jobs_with_met_dependencies\<close>, one job: it executes the pipeline it is given.\<close>

definition check_dependencies :: "'s redis \<Rightarrow> datetime \<Rightarrow> job \<Rightarrow> ('s, bool) op" where
  "check_dependencies R t j =
     seqO (send R False (register_dependency t j))
       (bindO (ask (\<lambda>s. dependencies_are_met R s True None None True j)) (\<lambda>met.
          seqO (execute R) (ret met)))"

fun map_each :: "('a \<Rightarrow> ('s, 'b) op) \<Rightarrow> 'a list \<Rightarrow> ('s, 'b list) op" where
  "map_each f [] = ret []"
| "map_each f (x # xs) = bindO (f x) (\<lambda>y. bindO (map_each f xs) (\<lambda>ys. ret (y # ys)))"

text \<open>
  \<open>enqueue_many\<close>: first the unique jobs, each by its script; then the others without dependencies, in
  one pipeline; then those with dependencies, saved as deferred and registered, of which the ones
  whose dependencies are met are enqueued. \<open>uids i\<close> is the uuid of entry \<open>i\<close> when it names no id. The
  result is in the order of the entries; the index of a job is looked up by its id, so that of two
  entries with the same id only the later one has a result.
\<close>

definition validate_many :: "enqueue_data list \<Rightarrow> unit res" where
  "validate_many eds =
     (if \<exists>e \<in> set eds. ed_unique e \<and> (has_depends (ed_args e) \<or> opt_default [] (ca_id (ed_args e)) = [])
      then Inl ValueError else Inr ())"

definition many_job ::
  "(pyval \<Rightarrow> string) \<Rightarrow> codec \<Rightarrow> queue \<Rightarrow> string option \<Rightarrow> (nat \<Rightarrow> string) \<Rightarrow> datetime \<Rightarrow> job_status \<Rightarrow> nat \<times> enqueue_data \<Rightarrow> job res" where
  "many_job repr C q gid uids t st e =
     create_job repr C q ((ed_args (snd e))\<lparr>ca_status := Some st, ca_group_id := gid\<rparr>) (ed_repeat (snd e)) (uids (fst e)) t"

definition many_unique ::
  "(pyval \<Rightarrow> string) \<Rightarrow> codec \<Rightarrow> 's redis \<Rightarrow> queue \<Rightarrow> string option \<Rightarrow> (nat \<Rightarrow> string) \<Rightarrow> datetime \<Rightarrow> nat \<times> enqueue_data \<Rightarrow>
   ('s, nat \<times> job) op" where
  "many_unique repr C R q gid uids t e =
     bindO (liftE (many_job repr C q gid uids t QUEUED e)) (\<lambda>j.
     bindO (save_unique_job C R (q_name q) True (ed_at_front (snd e)) (prepare_for_queue q t j)) (\<lambda>j1. ret (fst e, j1)))"

definition many_normal ::
  "(pyval \<Rightarrow> string) \<Rightarrow> codec \<Rightarrow> 's redis \<Rightarrow> py \<Rightarrow> queue \<Rightarrow> string option \<Rightarrow> (nat \<Rightarrow> string) \<Rightarrow> datetime \<Rightarrow> nat \<times> enqueue_data \<Rightarrow>
   ('s, nat \<times> job) op" where
  "many_normal repr C R P q gid uids t e =
     bindO (liftE (many_job repr C q gid uids t QUEUED e)) (\<lambda>j.
     bindO (enqueue_now C R P t q True (ed_at_front (snd e)) False j) (\<lambda>j1. ret (fst e, j1)))"

definition many_deferred ::
  "(pyval \<Rightarrow> string) \<Rightarrow> codec \<Rightarrow> 's redis \<Rightarrow> queue \<Rightarrow> string option \<Rightarrow> (nat \<Rightarrow> string) \<Rightarrow> datetime \<Rightarrow> nat \<times> enqueue_data \<Rightarrow>
   ('s, nat \<times> job) op" where
  "many_deferred repr C R q gid uids t e =
     bindO (liftE (many_job repr C q gid uids t DEFERRED e)) (\<lambda>j.
     bindO (save_on C R True True True j) (\<lambda>j1. ret (fst e, j1)))"

text \<open>The index of a job by its id: \<open>id_to_idx\<close> keeps the last one.\<close>

definition index_of :: "(nat \<times> job) list \<Rightarrow> job \<Rightarrow> nat" where
  "index_of js j = (case map_of (rev (map (\<lambda>(n, k). (j_id k, n)) js)) (j_id j) of Some n \<Rightarrow> n | None \<Rightarrow> 0)"

definition many_dependent ::
  "codec \<Rightarrow> 's redis \<Rightarrow> py \<Rightarrow> datetime \<Rightarrow> queue \<Rightarrow> (nat \<times> job) list \<Rightarrow> ('s, (nat \<times> job) list) op" where
  "many_dependent C R P t q js =
     bindO (map_each (\<lambda>j. bindO (check_dependencies R t j) (\<lambda>met. ret (met, j))) (map snd js)) (\<lambda>checked.
     bindO (map_each (\<lambda>j. bindO (enqueue_now C R P t q True (opt_default False (j_enqueue_at_front j)) False j)
                (\<lambda>j1. ret (index_of js j, j1)))
              (map snd (filter fst checked))) (\<lambda>met.
       ret (met @ map (\<lambda>j. (index_of js j, j)) (map snd (filter (\<lambda>c. \<not> fst c) checked)))))"

definition execute_unless :: "'s redis \<Rightarrow> bool \<Rightarrow> ('s, unit) op" where
  "execute_unless R piped = (if piped then ret () else execute R)"

definition collect_results :: "nat \<Rightarrow> (nat \<times> job) list \<Rightarrow> job list res" where
  "collect_results n rs =
     mapE (\<lambda>i. case map_of (rev rs) i of Some j \<Rightarrow> Inr j | None \<Rightarrow> Inl KeyError) [0..<n]"

definition enqueue_many_body ::
  "(pyval \<Rightarrow> string) \<Rightarrow> codec \<Rightarrow> 's redis \<Rightarrow> py \<Rightarrow> datetime \<Rightarrow> queue \<Rightarrow> bool \<Rightarrow> string option \<Rightarrow> (nat \<Rightarrow> string) \<Rightarrow>
   enqueue_data list \<Rightarrow> ('s, job list) op" where
  "enqueue_many_body repr C R P t q piped gid uids eds =
     (let ies = enumerate 0 eds;
          unique = filter (\<lambda>e. ed_unique (snd e) \<and> \<not> has_depends (ed_args (snd e))) ies;
          normal = filter (\<lambda>e. \<not> ed_unique (snd e) \<and> \<not> has_depends (ed_args (snd e))) ies;
          dependent = filter (\<lambda>e. has_depends (ed_args (snd e))) ies
      in
      seqO (send R True [SAdd queues_key (queue_key (q_name q))])
        (bindO (map_each (many_unique repr C R q gid uids t) unique) (\<lambda>us.
         bindO (map_each (many_normal repr C R P q gid uids t) normal) (\<lambda>ns.
         seqO (if normal = [] then ret () else execute_unless R piped)
           (bindO (map_each (many_deferred repr C R q gid uids t) dependent) (\<lambda>ds.
            seqO (if dependent = [] then ret () else execute_unless R piped)
              (bindO (if dependent = [] then ret [] else many_dependent C R P t q ds) (\<lambda>rs.
               seqO (if dependent = [] then ret () else execute_unless R piped)
                 (liftE (collect_results (length eds) (us @ ns @ rs)))))))))))"

definition enqueue_many ::
  "(pyval \<Rightarrow> string) \<Rightarrow> codec \<Rightarrow> 's redis \<Rightarrow> py \<Rightarrow> datetime \<Rightarrow> queue \<Rightarrow> bool \<Rightarrow> string option \<Rightarrow> (nat \<Rightarrow> string) \<Rightarrow>
   enqueue_data list \<Rightarrow> ('s, job list) op" where
  "enqueue_many repr C R P t q piped gid uids eds =
     bindO (liftE (validate_many eds)) (\<lambda>_.
       if piped then enqueue_many_body repr C R P t q True gid uids eds
       else new_pipe (enqueue_many_body repr C R P t q False gid uids eds))"

section \<open>Scheduling and retrying\<close>

lemma schedule_job_eq:
  assumes "to_dict C True True (j\<lparr>j_status := SCHEDULED\<rparr>) = Inr (fs, j2)" "ttl_ok j"
  shows "schedule_job C R t q zone dt True False j (s, buf) =
    (Inr j2, (schedule R (q_name q) (j_id j) zone dt s,
       buf @ SAdd queues_key (queue_key (q_name q)) # persist_cmds SCHEDULED fs j))"
  using to_dict_same(1) [OF assms(1)]
  by (simp add: schedule_job_def persist_job_eq [OF assms] seqO_def bindO_def act_eq)

lemma schedule_job_direct:
  assumes "to_dict C True True (j\<lparr>j_status := SCHEDULED\<rparr>) = Inr (fs, j2)" "ttl_ok j"
  shows "schedule_job C R t q zone dt False False j (s, buf) =
    (Inr j2, (run_all R (SAdd queues_key (queue_key (q_name q)) # persist_cmds SCHEDULED fs j)
       (schedule R (q_name q) (j_id j) zone dt s), buf))"
proof -
  note piped = schedule_job_eq [OF assms, of R t q zone dt s "[]", unfolded schedule_job_def if_False own_pipe_piped append_Nil]
  show ?thesis
    unfolding schedule_job_def if_False by (subst own_pipe_direct, rule piped, rule refl)
qed

context redis_server
begin

lemma schedule_run:
  "r_list R (schedule R q i zone dt s) = r_list R s" "sset R (schedule R q i zone dt s) = sset R s"
  "hget R (schedule R q i zone dt s) = hget R s"
  "zscore R (schedule R q i zone dt s) =
     (zscore R s)(registry_key Scheduled q := (zscore R s (registry_key Scheduled q))(i \<mapsto> Fin (to_utc zone dt)))"
  by (simp_all add: schedule_def schedule_cmd_def list_run set_run hash_run zset_run)

lemma persisted_run:
  fixes s :: 's and fs st j q
  assumes "to_dict C True True (j\<lparr>j_status := st\<rparr>) = Inr (fs, j2)" "ttl_ok j"
  defines "s' \<equiv> run_all R (SAdd queues_key (queue_key q) # persist_cmds st fs j) s"
  shows "r_list R s' = r_list R s" "zscore R s' = zscore R s" "get_status R s' (j_id j) = Inr st"
    "queue_key q \<in> sset R s' queues_key" "\<And>k. k \<noteq> queues_key \<Longrightarrow> sset R s' k = sset R s k"
    "map_of (rev fs) f = Some v \<Longrightarrow> hget R s' (job_key (j_id j)) f = Some v"
    "\<And>k. k \<noteq> job_key (j_id j) \<Longrightarrow> hget R s' k = hget R s k"
proof -
  let ?s = "r_run R (SAdd queues_key (queue_key q)) s"
  have s': "s' = run_all R (persist_cmds st fs j) ?s" by (simp add: s'_def)
  note p = persist_run [OF assms(2), of st fs ?s]
  have st: "map_of (rev fs) ''status'' = Some (status_text st)" using to_dict_status [OF assms(1)] by simp
  show "r_list R s' = r_list R s" "zscore R s' = zscore R s" by (simp_all add: s' p list_run zset_run)
  show "get_status R s' (j_id j) = Inr st" by (simp add: s' get_status_def p st)
  show "queue_key q \<in> sset R s' queues_key" "\<And>k. k \<noteq> queues_key \<Longrightarrow> sset R s' k = sset R s k"
    by (simp_all add: s' p set_run)
  show "map_of (rev fs) f = Some v \<Longrightarrow> hget R s' (job_key (j_id j)) f = Some v" by (simp add: s' p)
  show "\<And>k. k \<noteq> job_key (j_id j) \<Longrightarrow> hget R s' k = hget R s k" by (simp add: s' p hash_run)
qed

end

text \<open>The fields of a job that has a number of retries left hold it.\<close>

lemma to_dict_field:
  assumes "to_dict C im ir j = Inr (fs, j')"
  shows "\<exists>d m. map_of (rev fs) f = (case map_of (job_table C ir d m j') f of None \<Rightarrow> None | Some v \<Rightarrow> v)"
proof -
  obtain d m where fs: "fs = present (job_table C ir d m j')" using assms by (rule to_dict_Inr)
  then have "map_of (rev fs) = map_of fs"
    using map_of_rev_distinct [OF present_distinct [OF distinct_job_table]] by simp
  with fs show ?thesis by (auto simp: map_of_job_dict)
qed

lemma to_dict_counters:
  assumes "to_dict C im ir j = Inr (fs, j')"
  shows "map_of (rev fs) ''retries_left'' = map_option str_of_int (j_retries_left j)"
    "map_of (rev fs) ''repeats_left'' = map_option str_of_int (j_repeats_left j)"
    "j_retries_left j' = j_retries_left j" "j_repeats_left j' = j_repeats_left j"
proof -
  obtain d where d: "get_data C j = Inr (d, j')" using assms by (rule to_dict_Inr)
  show same: "j_retries_left j' = j_retries_left j" "j_repeats_left j' = j_repeats_left j"
    by (subst get_data_fields [OF d], simp)+
  show "map_of (rev fs) ''retries_left'' = map_option str_of_int (j_retries_left j)"
    "map_of (rev fs) ''repeats_left'' = map_option str_of_int (j_repeats_left j)"
    using to_dict_field [OF assms, of "''retries_left''"] to_dict_field [OF assms, of "''repeats_left''"]
    by (simp_all add: job_table_lookup same)
qed

text \<open>An operation on a fresh pipeline that is executed at its end.\<close>

definition with_pipe :: "'s redis \<Rightarrow> ('s, 'a) op \<Rightarrow> ('s, 'a) op" where
  "with_pipe R m = new_pipe (bindO m (\<lambda>x. seqO (execute R) (ret x)))"

lemma with_pipe_Inr:
  "m (s, []) = (Inr x, (s1, buf1)) \<Longrightarrow> with_pipe R m (s, buf) = (Inr x, (run_all R buf1 s1, buf))"
  by (simp add: with_pipe_def new_pipe_def bindO_def seqO_def)

lemma with_pipe_Inl: "m (s, []) = (Inl e, (s1, buf1)) \<Longrightarrow> with_pipe R m (s, buf) = (Inl e, (s1, buf))"
  by (simp add: with_pipe_def new_pipe_def bindO_def)

definition retried :: "job \<Rightarrow> job" where
  "retried j = j\<lparr>j_retries_left := map_option (\<lambda>n. n - 1) (j_retries_left j)\<rparr>"

lemma retried_simps [simp]:
  "j_id (retried j) = j_id j" "ttl_ok (retried j) = ttl_ok j" "j_origin (retried j) = j_origin j"
  "j_enqueue_at_front_on_retry (retried j) = j_enqueue_at_front_on_retry j"
  by (simp_all add: retried_def ttl_ok_def)

lemma retry_job_scheduled_eq:
  assumes "get_retry_interval j = Inr ivl" "ivl \<noteq> 0" "retries_truthy j" "ttl_ok j"
    and "to_dict C True True ((retried j)\<lparr>j_status := SCHEDULED\<rparr>) = Inr (fs, j2)"
  shows "retry_job C R P t q j (s, buf) =
    (Inr j2, (schedule R (q_name q) (j_id j) None (seconds_later t ivl)
         (r_run R (HSet (job_key (j_id j)) [(''status'', status_text SCHEDULED)]) s),
       buf @ SAdd queues_key (queue_key (q_name q)) # persist_cmds SCHEDULED fs j))"
proof -
  let ?j = "(retried j)\<lparr>j_status := SCHEDULED\<rparr>"
  have td: "to_dict C True True (?j\<lparr>j_status := SCHEDULED\<rparr>) = Inr (fs, j2)" using assms(5) by simp
  have ok: "ttl_ok ?j" using assms(4) by (simp add: ttl_ok_def retried_def)
  have pc: "persist_cmds SCHEDULED fs ?j = persist_cmds SCHEDULED fs j"
    by (simp add: persist_cmds_def ttl_cmds_def expire_keys_def retried_def split: option.split)
  have j: "j\<lparr>j_retries_left := map_option (\<lambda>n. n - 1) (j_retries_left j), j_status := SCHEDULED\<rparr> = ?j"
    by (simp add: retried_def)
  show ?thesis
    using assms(1-3) schedule_job_eq [OF td ok, of R t q None "seconds_later t ivl"]
    by (simp add: retry_job_def bindO_def seqO_def set_status_on_def set_status_def Let_def pc j)
qed

lemma to_utc_later:
  assumes "0 \<le> int t + (z + n) * int usec"
  shows "to_utc (Some z) (seconds_later t (z + n)) = current_timestamp t + n"
proof -
  have "int (seconds_later t (z + n)) = int t + (z + n) * int usec" using assms by (simp add: seconds_later_def)
  then have "current_timestamp (seconds_later t (z + n)) = (int t + (z + n) * int usec) div int usec"
    by (simp add: current_timestamp_def zdiv_int)
  also have "\<dots> = int t div int usec + (z + n)" by (simp add: usec_def)
  finally show ?thesis by (simp add: to_utc_def current_timestamp_def zdiv_int)
qed

lemma to_utc_now: "to_utc None t = to_utc (Some 0) t"
  by (simp add: to_utc_def)

text \<open>The retries left are untouched by everything that puts a job on its queue again.\<close>

abbreviation keeps_retries :: "int option \<Rightarrow> ('s, job) op \<Rightarrow> bool" where
  "keeps_retries n m \<equiv> yields (\<lambda>j. j_retries_left j = n) m"

lemma keeps_retries_steps:
  "keeps_retries (j_retries_left j) (set_status_on R piped st j)"
  "keeps_retries (j_retries_left j) (save_on C R piped im ir j)"
  "keeps_retries (j_retries_left j) (remove_from_registries R t piped fq j)"
  "keeps_retries (j_retries_left j) (delete_with R t piped fq deps j)"
  "keeps_retries (j_retries_left j) (cleanup C R t piped ttl fq j)"
proof -
  show "keeps_retries (j_retries_left j) (set_status_on R piped st j)"
    by (auto simp: set_status_on_def set_status_def)
  show "keeps_retries (j_retries_left j) (save_on C R piped im ir j)"
    unfolding save_on_def
    by (rule yields_bind [where P = "\<lambda>p. j_retries_left (snd p) = j_retries_left j"])
      (auto simp: save_def bindE_Inr_iff to_dict_counters)
  show r: "keeps_retries (j_retries_left j) (remove_from_registries R t piped fq j)"
    unfolding remove_from_registries_def by (intro yields_seq yields_bind_any) simp
  show d: "keeps_retries (j_retries_left j) (delete_with R t piped fq deps j)" for deps
    unfolding delete_with_def by (rule yields_bind [OF r]) (intro yields_seq, simp)
  show "keeps_retries (j_retries_left j) (cleanup C R t piped ttl fq j)"
    by (auto simp: cleanup_def delete_def d split: option.split)
qed

lemma keeps_retries_cleanup: "j_retries_left j = n \<Longrightarrow> keeps_retries n (cleanup C R t piped ttl fq j)"
  using keeps_retries_steps(5) by blast

lemma keeps_retries_persist: "keeps_retries (j_retries_left j) (persist_job C R t st j)"
  unfolding persist_job_def
proof (rule yields_bind [OF keeps_retries_steps(1)])
  fix j1 :: job assume 1: "j_retries_left j1 = j_retries_left j"
  show "keeps_retries (j_retries_left j) (bindO (save_on C R True True True j1) (\<lambda>j2. cleanup C R t True (j_ttl j2) True j2))"
    by (intro yields_bind [OF keeps_retries_steps(2)] keeps_retries_cleanup) (simp add: 1)
qed

lemma keeps_retries_schedule:
  "j_retries_left j = n \<Longrightarrow> keeps_retries n (schedule_job C R t q zone dt piped False j)"
  unfolding schedule_job_def if_False
  by (intro yields_own_pipe yields_seq yields_bind [OF keeps_retries_persist]) simp

lemma keeps_retries_enqueue:
  "j_retries_left j = n \<Longrightarrow> keeps_retries n (enqueue_async_job C R t q piped front False j)"
  unfolding enqueue_async_job_def Let_def if_False
  using keeps_retries_persist [of "prepare_for_queue q t j" C R t QUEUED]
  by (intro yields_own_pipe yields_seq yields_bind [where P = "\<lambda>x. j_retries_left x = n"])
    (simp_all add: prepare_for_queue_def)

lemma retry_job_counts:
  assumes "retry_job C R P t q j c = (Inr j', c')" "q_is_async q"
  shows "j_retries_left j' = map_option (\<lambda>n. n - 1) (j_retries_left j)"
proof -
  have "keeps_retries (map_option (\<lambda>n. n - 1) (j_retries_left j)) (retry_job C R P t q j)"
    using assms(2)
    by (auto simp: retry_job_def Let_def enqueue_now_def set_status_on_def set_status_def
        intro!: keeps_retries_schedule keeps_retries_enqueue yields_seq yields_bind [where P = "\<lambda>x. j_retries_left x = map_option (\<lambda>n. n - 1) (j_retries_left j)"]
        yields_bind_any [where m = "liftE (get_retry_interval j)"])
  then show ?thesis using assms(1) by (rule yieldsD)
qed

text \<open>
  One retry of a failed job, whatever the server, its state and the clock: the job as the worker
  hands it over and as the retry leaves it.
\<close>

inductive retry_step :: "codec \<Rightarrow> 's redis \<Rightarrow> py \<Rightarrow> job \<Rightarrow> job \<Rightarrow> bool" for C R P where
  "should_retry j \<Longrightarrow> q_is_async q \<Longrightarrow> retry_job C R P t q j c = (Inr j', c') \<Longrightarrow> retry_step C R P j j'"

definition retry_budget :: "job \<Rightarrow> nat" where
  "retry_budget j = nat (opt_default 0 (j_retries_left j))"

lemma retry_step_budget: "retry_step C R P j j' \<Longrightarrow> retry_budget j = Suc (retry_budget j')"
  by (erule retry_step.cases) (auto dest!: retry_job_counts simp: should_retry_def retry_budget_def split: option.splits)

lemma retry_chain: "(retry_step C R P ^^ k) j j' \<Longrightarrow> retry_budget j = k + retry_budget j'"
  by (induction k arbitrary: j') (auto dest!: retry_step_budget)

section \<open>Retries and repeats run\<close>

lemma to_dict_again:
  assumes "to_dict C im ir j = Inr (fs, j1)" "j_data j1 = j_data k" "j_meta j1 = j_meta k"
  shows "\<exists>fs'. to_dict C im ir k = Inr (fs', k)"
proof -
  obtain d m where d: "get_data C j = Inr (d, j1)" "dump_meta C im j1 = Inr m" using assms(1) by (rule to_dict_Inr)
  have "j_data j1 = Val d" by (subst get_data_fields [OF d(1)]) simp
  then have "get_data C k = Inr (d, k)" using assms(2) by (simp add: get_data_def)
  moreover have "dump_meta C im k = Inr m" using d(2) unfolding dump_meta_def assms(3) .
  ultimately show ?thesis by (simp add: to_dict_def)
qed

context redis_server
begin

lemma retry_scheduled_run:
  fixes s :: 's
  assumes "get_retry_interval j = Inr ivl" "0 < ivl" "j_retries_left j = Some n" "0 < n" "ttl_ok j"
    and td: "to_dict C True True ((retried j)\<lparr>j_status := SCHEDULED\<rparr>) = Inr (fs, j2)"
  shows "\<exists>s'. with_pipe R (retry_job C R P t q j) (s, buf) = (Inr j2, (s', buf)) \<and>
    r_list R s' = r_list R s \<and> get_status R s' (j_id j) = Inr SCHEDULED \<and>
    hget R s' (job_key (j_id j)) ''retries_left'' = Some (str_of_int (n - 1)) \<and>
    zscore R s' = (zscore R s)(registry_key Scheduled (q_name q) :=
      (zscore R s (registry_key Scheduled (q_name q)))(j_id j \<mapsto> Fin (current_timestamp t + ivl)))"
proof -
  let ?st = "[(''status'', status_text SCHEDULED)]"
  let ?s1 = "schedule R (q_name q) (j_id j) None (seconds_later t ivl) (r_run R (HSet (job_key (j_id j)) ?st) s)"
  let ?cs = "SAdd queues_key (queue_key (q_name q)) # persist_cmds SCHEDULED fs j"
  have eq: "retry_job C R P t q j (s, []) = (Inr j2, (?s1, ?cs))"
    using retry_job_scheduled_eq [OF assms(1) _ _ assms(5) td, of R P t q s "[]"] assms(2-4)
    by (simp add: retries_truthy_def)
  have td': "to_dict C True True ((retried j)\<lparr>j_status := SCHEDULED\<rparr>\<lparr>j_status := SCHEDULED\<rparr>) = Inr (fs, j2)"
    using td by simp
  have ok: "ttl_ok ((retried j)\<lparr>j_status := SCHEDULED\<rparr>)" using assms(5) by (simp add: ttl_ok_def retried_def)
  have cs: "?cs = SAdd queues_key (queue_key (q_name q)) # persist_cmds SCHEDULED fs ((retried j)\<lparr>j_status := SCHEDULED\<rparr>)"
    by (simp add: persist_cmds_def ttl_cmds_def expire_keys_def retried_def split: option.split)
  note p = persisted_run [OF td' ok, where q = "q_name q" and s = ?s1, folded cs]
  have left: "map_of (rev fs) ''retries_left'' = Some (str_of_int (n - 1))"
    using to_dict_counters(1) [OF td] assms(3) by (simp add: retried_def)
  have ts: "to_utc None (seconds_later t ivl) = current_timestamp t + ivl"
    using to_utc_later [of t 0 ivl] assms(2) by (simp add: to_utc_now)
  have "r_list R (run_all R ?cs ?s1) = r_list R s" using p(1) by (simp add: schedule_run list_run)
  moreover have "get_status R (run_all R ?cs ?s1) (j_id j) = Inr SCHEDULED" using p(3) by simp
  moreover have "hget R (run_all R ?cs ?s1) (job_key (j_id j)) ''retries_left'' = Some (str_of_int (n - 1))"
    using p(6) [OF left] by simp
  moreover have "zscore R (run_all R ?cs ?s1) = (zscore R s)(registry_key Scheduled (q_name q) :=
      (zscore R s (registry_key Scheduled (q_name q)))(j_id j \<mapsto> Fin (current_timestamp t + ivl)))"
    using p(2) by (simp add: schedule_run zset_run ts)
  ultimately show ?thesis
    using with_pipe_Inr [where m = "retry_job C R P t q j", OF eq, of R buf] by blast
qed

lemma repeat_scheduled_run:
  fixes s :: 's
  assumes "j_repeats_left j = Some n" "0 < n" "j_repeat_intervals j = Some is" "is \<noteq> []"
    and ivl: "repeat_interval (n - 1) is = Inr ivl" "0 < ivl" and zone: "0 \<le> int t + zone * int usec" "ttl_ok j"
    and td: "to_dict C True True (j\<lparr>j_repeats_left := Some (n - 1)\<rparr>) = Inr (fs, j1)"
  shows "\<exists>j2 s'. schedule_repeat C R P t zone q False j (s, buf) = (Inr j2, (s', buf)) \<and>
    r_list R s' = r_list R s \<and> get_status R s' (j_id j) = Inr SCHEDULED \<and>
    hget R s' (job_key (j_id j)) ''repeats_left'' = Some (str_of_int (n - 1)) \<and>
    zscore R s' = (zscore R s)(registry_key Scheduled (q_name q) :=
      (zscore R s (registry_key Scheduled (q_name q)))(j_id j \<mapsto> Fin (current_timestamp t + ivl)))"
proof -
  note same = to_dict_same [OF td]
  obtain fs2 where td2: "to_dict C True True (j1\<lparr>j_status := SCHEDULED\<rparr>) = Inr (fs2, j1\<lparr>j_status := SCHEDULED\<rparr>)"
    using to_dict_again [OF td, of "j1\<lparr>j_status := SCHEDULED\<rparr>"] by auto
  have ok: "ttl_ok j1" using same zone(2) by (simp add: ttl_ok_def)
  let ?cs1 = "[HSet (job_key (j_id j)) fs]"
  let ?s1 = "schedule R (q_name q) (j_id j) (Some zone) (seconds_later t (zone + ivl)) s"
  let ?cs2 = "SAdd queues_key (queue_key (q_name q)) # persist_cmds SCHEDULED fs2 j1"
  have id: "j_id j1 = j_id j" using same by simp
  have run: "schedule_repeat C R P t zone q False j (s, buf) =
      (Inr (j1\<lparr>j_status := SCHEDULED\<rparr>), (run_all R (?cs1 @ ?cs2) ?s1, buf))"
    unfolding schedule_repeat_def assms(1) option.case
    using assms(2-4) ivl td schedule_job_eq [OF td2 ok, of R t q "Some zone" "seconds_later t (zone + ivl)" s ?cs1] id
    by (simp add: own_pipe_def new_pipe_def bindO_def seqO_def save_on_def save_def)
  note p = persisted_run [OF td2 ok, where q = "q_name q" and s = "run_all R ?cs1 ?s1"]
  have left: "map_of (rev fs2) ''repeats_left'' = Some (str_of_int (n - 1))"
    using to_dict_counters(2) [OF td2] to_dict_counters(4) [OF td] by simp
  have "0 \<le> int t + (zone + ivl) * int usec" using zone(1) ivl(2) by (simp add: algebra_simps usec_def)
  then have ts: "to_utc (Some zone) (seconds_later t (zone + ivl)) = current_timestamp t + ivl" by (rule to_utc_later)
  have "r_list R (run_all R (?cs1 @ ?cs2) ?s1) = r_list R s" using p(1) by (simp add: schedule_run list_run)
  moreover have "get_status R (run_all R (?cs1 @ ?cs2) ?s1) (j_id j) = Inr SCHEDULED" using p(3) id by simp
  moreover have "hget R (run_all R (?cs1 @ ?cs2) ?s1) (job_key (j_id j)) ''repeats_left'' = Some (str_of_int (n - 1))"
    using p(6) [OF left] id by simp
  moreover have "zscore R (run_all R (?cs1 @ ?cs2) ?s1) = (zscore R s)(registry_key Scheduled (q_name q) :=
      (zscore R s (registry_key Scheduled (q_name q)))(j_id j \<mapsto> Fin (current_timestamp t + ivl)))"
    using p(2) by (simp add: schedule_run zset_run ts)
  ultimately show ?thesis using run by blast
qed

end

section \<open>Requeueing and cancelling run\<close>

text \<open>The registry that holds the jobs of a status, for the statuses that have one for themselves.\<close>

definition status_registry :: "job_status \<Rightarrow> reg_kind option" where
  "status_registry st =
     (case st of
        FINISHED \<Rightarrow> Some Finished | DEFERRED \<Rightarrow> Some Deferred | SCHEDULED \<Rightarrow> Some Scheduled | FAILED \<Rightarrow> Some Failed
      | STOPPED \<Rightarrow> Some Failed | CANCELED \<Rightarrow> Some Canceled | STARTED \<Rightarrow> Some Started | CREATED \<Rightarrow> None | QUEUED \<Rightarrow> None)"

lemma leave_registry_eq:
  "st \<noteq> STARTED \<Longrightarrow> leave_registry R t True j st (s, buf) =
     (Inr (), (s, buf @ (case status_registry st of None \<Rightarrow> [] | Some d \<Rightarrow> reg_remove d (j_origin j) (j_id j))))"
  by (cases st) (simp_all add: leave_registry_def status_registry_def)

lemma default_queue_simps [simp]: "q_name (default_queue n) = n" "q_is_async (default_queue n)"
  by (simp_all add: default_queue_def)

context redis_server
begin

lemma requeue_run:
  fixes s :: 's
  assumes "zscore R s (registry_key d q) (j_id j) \<noteq> None" "ttl_ok j"
    and td: "to_dict C True True (j\<lparr>j_started_at := None, j_ended_at := None, j_exc_info := Some []\<rparr>) = Inr (fs, j1)"
  shows "\<exists>j2 s'. requeue C R P t d q front j (s, buf) = (Inr j2, (s', buf)) \<and>
    r_list R s' = (r_list R s)(queue_key (j_origin j) :=
      (if front then j_id j # r_list R s (queue_key (j_origin j)) else r_list R s (queue_key (j_origin j)) @ [j_id j])) \<and>
    get_status R s' (j_id j) = Inr QUEUED \<and> zscore R s' (registry_key d q) (j_id j) = None"
proof -
  let ?dq = "default_queue (j_origin j)"
  let ?s0 = "run_all R (reg_remove d q (j_id j)) s"
  let ?s1 = "r_run R (HSet (job_key (j_id j)) fs) ?s0"
  note same = to_dict_same [OF td]
  obtain fs2 where td2: "to_dict C True True (prepare_for_queue ?dq t j1) = Inr (fs2, prepare_for_queue ?dq t j1)"
    using to_dict_again [OF td, of "prepare_for_queue ?dq t j1"] by (auto simp: prepare_for_queue_def)
  have ok: "ttl_ok j1" using same assms(2) by (simp add: ttl_ok_def)
  have ids: "j_id j1 = j_id j" "j_origin j1 = j_origin j" using same by simp_all
  let ?rm = "if j_status j1 = DEFERRED then reg_remove Deferred (j_origin j) (j_id j) else []"
  let ?cs = "?rm @ persist_cmds QUEUED fs2 j1 @ push_job_id (j_origin j) front (j_id j)"
  have run: "requeue C R P t d q front j (s, buf) = (Inr (prepare_for_queue ?dq t j1), (run_all R ?cs ?s1, buf))"
    using assms(1) td enqueue_async_eq(1) [OF td2 ok, of R front ?s1 "[]"]
    by (simp add: requeue_def bindO_def seqO_def act_eq zrem_count_def new_pipe_def save_on_def save_def enqueue_now_def ids)
  let ?s2 = "run_all R ?rm ?s1"
  have s': "run_all R ?cs ?s1 = run_all R (push_job_id (j_origin j) front (j_id j)) (run_all R (persist_cmds QUEUED fs2 j1) ?s2)"
    by simp
  note p = persist_run [OF ok, of QUEUED fs2 ?s2]
  have z: "zscore R ?s0 (registry_key d q) (j_id j) = None" by (rule reg_remove_run)
  then have z1: "zscore R ?s1 (registry_key d q) (j_id j) = None" by (simp add: zset_run)
  then have z2: "zscore R ?s2 (registry_key d q) (j_id j) = None" by (simp add: reg_remove_def zset_run restrict_map_def)
  have l: "r_list R ?s2 = r_list R s" by (simp add: reg_remove_run list_run)
  have st: "map_of (rev fs2) ''status'' = Some (status_text QUEUED)"
    using to_dict_status [OF td2] by (simp add: prepare_for_queue_def)
  have "r_list R (run_all R ?cs ?s1) = (r_list R s)(queue_key (j_origin j) :=
      (if front then j_id j # r_list R s (queue_key (j_origin j)) else r_list R s (queue_key (j_origin j)) @ [j_id j]))"
    unfolding s' push_run p l by simp
  moreover have "get_status R (run_all R ?cs ?s1) (j_id j) = Inr QUEUED"
    unfolding s' get_status_def push_run p using st by (simp add: ids)
  moreover have "zscore R (run_all R ?cs ?s1) (registry_key d q) (j_id j) = None"
    unfolding s' push_run p by (rule z2)
  ultimately show ?thesis using run by blast
qed

lemma requeue_missing:
  assumes "zscore R s (registry_key d q) (j_id j) = None"
  shows "requeue C R P t d q front j (s, buf) =
    (Inl InvalidJobOperation, (run_all R (reg_remove d q (j_id j)) s, buf))"
  using assms by (simp add: requeue_def bindO_def act_eq zrem_count_def)

lemma cancel_run:
  fixes s :: 's and j t
  assumes "hget R s (job_key (j_id j)) ''status'' = Some (status_text st)" "st \<noteq> CANCELED" "st \<noteq> STARTED"
  defines "cs \<equiv> [HSet (job_key (j_id j)) [(''status'', status_text CANCELED)]] @ remove (j_origin j) (j_id j) @
      (case status_registry st of None \<Rightarrow> [] | Some d \<Rightarrow> reg_remove d (j_origin j) (j_id j)) @
      reg_add Canceled (j_origin j) (j_id j) 0 False t"
  shows "cancel C R P t False False False j (s, buf) = (Inr (j\<lparr>j_status := st\<rparr>), (run_all R cs s, buf))"
    "r_list R (run_all R cs s) = (r_list R s)(queue_key (j_origin j) := remove1 (j_id j) (r_list R s (queue_key (j_origin j))))"
    "get_status R (run_all R cs s) (j_id j) = Inr CANCELED"
    "zscore R (run_all R cs s) (registry_key Canceled (j_origin j)) (j_id j) = Some (Fin (current_timestamp t))"
    "status_registry st = Some d \<Longrightarrow> zscore R (run_all R cs s) (registry_key d (j_origin j)) (j_id j) = None"
proof -
  have st: "get_status R s (j_id j) = Inr st" using assms(1) by (simp add: get_status_def)
  show "cancel C R P t False False False j (s, buf) = (Inr (j\<lparr>j_status := st\<rparr>), (run_all R cs s, buf))"
    using assms(2,3)
    by (simp add: cancel_def bindO_def seqO_def st own_pipe_def new_pipe_def set_status_on_def set_status_def
        remove_from_registries_def leave_registry_eq cs_def split: option.split)
  show "r_list R (run_all R cs s) = (r_list R s)(queue_key (j_origin j) := remove1 (j_id j) (r_list R s (queue_key (j_origin j))))"
    by (auto simp: cs_def remove_def reg_remove_def reg_add_def list_run split: option.split)
  show "get_status R (run_all R cs s) (j_id j) = Inr CANCELED"
    by (auto simp: get_status_def cs_def remove_def reg_remove_def reg_add_def hash_run split: option.split)
  show "zscore R (run_all R cs s) (registry_key Canceled (j_origin j)) (j_id j) = Some (Fin (current_timestamp t))"
    by (simp add: cs_def reg_add_def zset_run xx_flag_def expiry_score_def current_timestamp_def)
  show "status_registry st = Some d \<Longrightarrow> zscore R (run_all R cs s) (registry_key d (j_origin j)) (j_id j) = None"
  proof -
    assume d: "status_registry st = Some d"
    with assms(2) have "d \<noteq> Canceled" by (cases st) (auto simp: status_registry_def)
    with d show ?thesis by (simp add: cs_def reg_add_def reg_remove_def zset_run xx_flag_def)
  qed
qed

end

section \<open>Jobs made by a queue\<close>

text \<open>What a queue guarantees of its jobs.\<close>

definition queue_ok :: "queue \<Rightarrow> bool" where
  "queue_ok q \<longleftrightarrow> q_default_timeout q \<noteq> 0"

definition job_ok :: "queue \<Rightarrow> job \<Rightarrow> bool" where
  "job_ok q j \<longleftrightarrow> (\<exists>n. j_timeout j = Some n \<and> n \<noteq> 0) \<and> ttl_ok j \<and> j_origin j = q_name q \<and> j_data j = UNEVALUATED"

lemma make_queue_ok:
  assumes "make_queue name tmo asyn = Inr q"
  shows "queue_ok q"
proof -
  obtain n where "q = \<lparr>q_name = name, q_default_timeout = (case n of None \<Rightarrow> 180 | Some m \<Rightarrow> if m = 0 then 180 else m),
      q_is_async = asyn\<rparr>"
    using assms unfolding make_queue_def bindE_Inr_iff by blast
  then show ?thesis by (simp add: queue_ok_def split: option.split)
qed

lemma queue_limits_ok:
  assumes "queue_limits q a = Inr a1" "queue_ok q"
  shows "\<exists>n. ca_timeout a1 = TInt n \<and> n \<noteq> 0" "\<exists>ttl. ca_ttl a1 = opt_timeout ttl \<and> (\<forall>m. ttl = Some m \<longrightarrow> 0 < m)"
    "ca_origin a1 = q_name q" "ca_retry a1 = ca_retry a" "ca_id a1 = ca_id a" "ca_status a1 = ca_status a"
    "ca_depends_on a1 = ca_depends_on a"
proof -
  obtain tmo n rttl fttl ttl where
    tmo: "(case tmo of None \<Rightarrow> Inr (q_default_timeout q) | Some n \<Rightarrow> if n = 0 then Inl ValueError else Inr n) = Inr n" and
    ite: "(if (case ttl of None \<Rightarrow> False | Some m \<Rightarrow> m \<le> 0) then Inl ValueError
      else Inr (a\<lparr>ca_timeout := TInt n, ca_result_ttl := opt_timeout rttl, ca_failure_ttl := opt_timeout fttl,
        ca_ttl := opt_timeout ttl, ca_origin := q_name q\<rparr>)) = Inr a1"
    using assms(1) unfolding queue_limits_def bindE_Inr_iff by blast
  have n: "n \<noteq> 0" using tmo assms(2) by (cases tmo) (auto simp: queue_ok_def split: if_split_asm)
  have ttl: "\<not> (case ttl of None \<Rightarrow> False | Some m \<Rightarrow> m \<le> 0)" and
    a1: "a1 = a\<lparr>ca_timeout := TInt n, ca_result_ttl := opt_timeout rttl, ca_failure_ttl := opt_timeout fttl,
      ca_ttl := opt_timeout ttl, ca_origin := q_name q\<rparr>"
    using ite by (simp_all split: if_split_asm)
  show "\<exists>n. ca_timeout a1 = TInt n \<and> n \<noteq> 0" using n a1 by simp
  show "\<exists>ttl. ca_ttl a1 = opt_timeout ttl \<and> (\<forall>m. ttl = Some m \<longrightarrow> 0 < m)"
    using ttl a1 by (intro exI [of _ ttl]) (auto split: option.split_asm)
  show "ca_origin a1 = q_name q" "ca_retry a1 = ca_retry a" "ca_id a1 = ca_id a" "ca_status a1 = ca_status a"
    "ca_depends_on a1 = ca_depends_on a"
    by (simp_all add: a1)
qed

lemma set_retry_repeat_fields:
  "j_timeout (set_repeat rp (set_retry r j)) = j_timeout j" "j_ttl (set_repeat rp (set_retry r j)) = j_ttl j"
  "j_origin (set_repeat rp (set_retry r j)) = j_origin j" "j_data (set_repeat rp (set_retry r j)) = j_data j"
  "j_id (set_repeat rp (set_retry r j)) = j_id j" "j_status (set_repeat rp (set_retry r j)) = j_status j"
  "j_dependency_ids (set_repeat rp (set_retry r j)) = j_dependency_ids j"
  by (simp_all add: set_repeat_def set_retry_def split: option.split)

lemma parse_timeout_opt: "parse_timeout (opt_timeout n) = Inr n" "parse_timeout (TInt i) = Inr (Some i)"
  by (simp_all add: opt_timeout_def split: option.split)

lemma create_job_Inr:
  assumes "create_job repr C q a rp uid t = Inr j" "queue_ok q"
  shows "job_ok q j" "j_id j = opt_default uid (ca_id a)" "j_status j = opt_default CREATED (ca_status a)"
proof -
  obtain a1 j0 where a1: "queue_limits q a = Inr a1" and j0: "create repr C (a1\<lparr>ca_retry := None\<rparr>) uid t = Inr j0"
    "j = set_repeat rp (set_retry (ca_retry a) j0)"
    using assms(1) by (auto simp: create_job_def bindE_Inr_iff)
  note l = queue_limits_ok [OF a1 assms(2)] and c = create_Inr [OF j0(1)]
  obtain n where n: "ca_timeout a1 = TInt n" "n \<noteq> 0" using l(1) by blast
  obtain ttl where ttl: "ca_ttl a1 = opt_timeout ttl" "\<forall>m. ttl = Some m \<longrightarrow> 0 < m" using l(2) by blast
  have "j_timeout j0 = Some n" "j_ttl j0 = ttl" using c(9,10) n ttl by (simp_all add: parse_timeout_opt)
  then have "j_timeout j = Some n" "j_ttl j = ttl" by (simp_all add: j0(2) set_retry_repeat_fields)
  moreover have "j_origin j = q_name q" "j_data j = UNEVALUATED"
    using c l(3) by (simp_all add: j0(2) set_retry_repeat_fields)
  ultimately show "job_ok q j" using n(2) ttl(2) by (simp add: job_ok_def ttl_ok_def split: option.split)
  show "j_id j = opt_default uid (ca_id a)" "j_status j = opt_default CREATED (ca_status a)"
    using c l(5,6) by (simp_all add: j0(2) set_retry_repeat_fields)
qed

context redis_server
begin

lemma enqueue_at_run:
  fixes s :: 's
  assumes "create_job repr C q (a\<lparr>ca_status := Some SCHEDULED, ca_group_id := None\<rparr>) rp uid t = Inr j" "queue_ok q"
    and td: "to_dict C True True (j\<lparr>j_status := SCHEDULED\<rparr>) = Inr (fs, j2)"
  shows "\<exists>s'. enqueue_at repr C R t q zone dt False False a rp uid (s, buf) = (Inr j2, (s', buf)) \<and>
    r_list R s' = r_list R s \<and> get_status R s' (j_id j) = Inr SCHEDULED \<and>
    (\<forall>k. k \<noteq> queues_key \<longrightarrow> sset R s' k = sset R s k) \<and>
    zscore R s' = (zscore R s)(registry_key Scheduled (q_name q) :=
      (zscore R s (registry_key Scheduled (q_name q)))(j_id j \<mapsto> Fin (to_utc zone dt)))"
proof -
  have ok: "ttl_ok j" using create_job_Inr(1) [OF assms(1,2)] by (simp add: job_ok_def)
  let ?s1 = "schedule R (q_name q) (j_id j) zone dt s"
  let ?cs = "SAdd queues_key (queue_key (q_name q)) # persist_cmds SCHEDULED fs j"
  have run: "enqueue_at repr C R t q zone dt False False a rp uid (s, buf) = (Inr j2, (run_all R ?cs ?s1, buf))"
    using assms(1) schedule_job_direct [OF td ok, of R t q zone dt s buf] by (simp add: enqueue_at_def bindO_def)
  note p = persisted_run [OF td ok, where q = "q_name q" and s = ?s1]
  show ?thesis
    by (rule exI [of _ "run_all R ?cs ?s1"], intro conjI)
      (use run p(1-3,5) in \<open>simp_all add: schedule_run\<close>)
qed

end

lemma cancel_again:
  "get_status R s (j_id j) = Inr CANCELED \<Longrightarrow> cancel C R P t piped deps from_deps j (s, buf) = (Inl InvalidJobOperation, (s, buf))"
  by (simp add: cancel_def bindO_def)

section \<open>Two ways in which an operation stops short\<close>

text \<open>
  A failure callback or a handler that raises ends the cleanup of the started jobs with nothing executed: the
  entry stays, and so does every other expired one.
\<close>

lemma raising_callback_stops_cleanup:
  assumes "get_expired_job_ids R s Started q ts = Inr (i # ids)" "fetch C R s t i = Inr j"
    and "j_failure_callback_name j = Some n" "n \<noteq> []" "\<not> py_callback P n j"
  shows "started_cleanup C R P t q ts (s, buf) = (Inl UserError, (s, buf))"
  using assms by (simp add: started_cleanup_def bindO_def seqO_def new_pipe_def cleanup_abandoned_def run_callback_def)

lemma raising_handler_stops_cleanup:
  assumes "get_expired_job_ids R s Started q ts = Inr (i # ids)" "fetch C R s t i = Inr j" "j_failure_callback_name j = None"
    and "call_handlers (py_handlers P) j (py_trace P AbandonedJobError) = Inl e"
  shows "started_cleanup C R P t q ts (s, buf) = (Inl e, (s, buf))"
  using assms by (simp add: started_cleanup_def bindO_def seqO_def new_pipe_def cleanup_abandoned_def run_callback_def)

text \<open>
  \<open>enqueue_many\<close> with a pipeline of its own and unique entries only never executes that pipeline: the
  set of queue names is as it was, though the queue's list has grown.
\<close>

lemma map_each_preserves:
  assumes "\<And>x s s' r b b'. f x (s, b) = (r, (s', b')) \<Longrightarrow> b' = b \<and> I s' = I s"
  shows "map_each f xs (s, buf) = (r, (s', buf')) \<Longrightarrow> buf' = buf \<and> I s' = I s"
proof (induction xs arbitrary: s r s' buf')
  case (Cons x xs)
  obtain r1 s1 b1 where x: "f x (s, buf) = (r1, (s1, b1))" by (cases "f x (s, buf)") auto
  from assms [OF x] have 1: "b1 = buf" "I s1 = I s" by simp_all
  show ?case
  proof (cases r1)
    case (Inl e)
    then show ?thesis using Cons.prems x 1 by (simp add: bindO_def)
  next
    case (Inr y)
    obtain r2 s2 b2 where xs: "map_each f xs (s1, buf) = (r2, (s2, b2))" by (cases "map_each f xs (s1, buf)") auto
    from Cons.IH [OF xs] have "b2 = buf" "I s2 = I s1" by auto
    then show ?thesis using Cons.prems x xs 1 Inr by (cases r2) (simp_all add: bindO_def)
  qed
qed simp

context redis_server
begin

lemma save_unique_sets:
  "save_unique_job C R q enq front j (s, buf) = (r, (s', buf')) \<Longrightarrow> buf' = buf \<and> sset R s' = sset R s"
  by (auto simp: save_unique_job_def unique_enqueue_script_def bindO_def seqO_def act_def push_job_id_def set_run
      split: sum.splits prod.splits if_splits push_direction.splits)

lemma unique_batch_unregistered:
  assumes "\<forall>e \<in> set eds. ed_unique e \<and> \<not> has_depends (ed_args e)"
    and "enqueue_many repr C R P t q False gid uids eds (s, buf) = (Inr js, (s', buf'))"
  shows "sset R s' = sset R s"
proof -
  have unique: "filter (\<lambda>e. ed_unique (snd e) \<and> \<not> has_depends (ed_args (snd e))) (enumerate 0 eds) = enumerate 0 eds"
    "filter (\<lambda>e. \<not> ed_unique (snd e) \<and> \<not> has_depends (ed_args (snd e))) (enumerate 0 eds) = []"
    "filter (\<lambda>e. has_depends (ed_args (snd e))) (enumerate 0 eds) = []"
    using assms(1) by (auto simp: filter_id_conv filter_empty_conv in_set_enumerate_eq)
  let ?b = "[SAdd queues_key (queue_key (q_name q))]"
  obtain r s1 b where m: "map_each (many_unique repr C R q gid uids t) (enumerate 0 eds) (s, ?b) = (r, (s1, b))"
    by (cases "map_each (many_unique repr C R q gid uids t) (enumerate 0 eds) (s, ?b)") auto
  have step: "buf' = buf \<and> sset R s' = sset R s" if "many_unique repr C R q gid uids t e (s, buf) = (r, (s', buf'))" for e s s' r buf buf'
    using that save_unique_sets [of C "q_name q" True "ed_at_front (snd e)"]
    by (auto simp: many_unique_def bindO_def split: sum.splits prod.splits)
  have "sset R s1 = sset R s"
    by (rule map_each_preserves [where f = "many_unique repr C R q gid uids t" and I = "sset R", OF _ m, THEN conjunct2])
      (rule step)
  then show ?thesis
    using assms(2) m unfolding enqueue_many_def enqueue_many_body_def Let_def unique
    by (auto simp: bindO_def seqO_def new_pipe_def split: sum.splits prod.splits)
qed

end

section \<open>Properties\<close>

text \<open>
  A failed job that still has retries and whose interval is positive is scheduled by \<open>retry\<close> for that
  many seconds later: no queue's list changes, the status is \<open>scheduled\<close>, the stored number of retries
  left is one less, and the registry of scheduled jobs gains exactly this entry.
\<close>

theorem retry_delays:
  assumes "redis_server R" "get_retry_interval j = Inr ivl" "0 < ivl" "j_retries_left j = Some n" "0 < n" "ttl_ok j"
    and "to_dict C True True ((retried j)\<lparr>j_status := SCHEDULED\<rparr>) = Inr (fs, j2)"
  shows "\<exists>s'. with_pipe R (retry_job C R P t q j) (s, buf) = (Inr j2, (s', buf)) \<and>
    r_list R s' = r_list R s \<and> get_status R s' (j_id j) = Inr SCHEDULED \<and>
    hget R s' (job_key (j_id j)) ''retries_left'' = Some (str_of_int (n - 1)) \<and>
    zscore R s' = (zscore R s)(registry_key Scheduled (q_name q) :=
      (zscore R s (registry_key Scheduled (q_name q)))(j_id j \<mapsto> Fin (current_timestamp t + ivl)))"
  by (rule redis_server.retry_scheduled_run [OF assms])

definition retrying_job :: job where
  "retrying_job = (sample_job ''a'')\<lparr>j_retries_left := Some 2, j_retry_intervals := Some [10, 20]\<rparr>"

theorem retry_delays_witness:
  "\<exists>j2 s'. with_pipe mem_redis (retry_job sample_codec mem_redis sample_py 5000000 sample_queue retrying_job) (mem_empty, []) =
     (Inr j2, (s', [])) \<and> get_status mem_redis s' ''a'' = Inr SCHEDULED \<and>
     zscore mem_redis s' (registry_key Scheduled ''q'') ''a'' = Some (Fin 15)"
proof -
  obtain fs j2 where td: "to_dict sample_codec True True ((retried retrying_job)\<lparr>j_status := SCHEDULED\<rparr>) = Inr (fs, j2)"
    by (rule sample_to_dict [of "(retried retrying_job)\<lparr>j_status := SCHEDULED\<rparr>"])
      (simp add: retried_def retrying_job_def)
  have j: "get_retry_interval retrying_job = Inr 10" "(0::int) < 10" "j_retries_left retrying_job = Some 2" "(0::int) < 2"
    "ttl_ok retrying_job" "j_id retrying_job = ''a''"
    by (simp_all add: retrying_job_def get_retry_interval_def retries_truthy_def py_index_def ttl_ok_def)
  have "current_timestamp 5000000 + 10 = 15" by (simp add: current_timestamp_def usec_def)
  with retry_delays [OF mem.redis_server_axioms j(1-5) td, where P = sample_py and t = 5000000 and q = sample_queue
      and s = mem_empty and buf = "[]"] j(6)
  show ?thesis by (auto simp: sample_queue_def)
qed



text \<open>
  A job with a list of repeat intervals that finished with \<open>n\<close> repeats left is scheduled after the
  interval at place \<open>n - 1\<close> of the list, or the last one when the list is shorter: the intervals are
  used from the end of the list to its start. The stored number of repeats left is one less.
\<close>

theorem repeat_reversed:
  assumes "redis_server R" "j_repeats_left j = Some n" "0 < n" "j_repeat_intervals j = Some is" "is \<noteq> []"
    and "ivl = is ! min (nat (n - 1)) (length is - 1)" "0 < ivl" "0 \<le> int t + zone * int usec" "ttl_ok j"
    and "to_dict C True True (j\<lparr>j_repeats_left := Some (n - 1)\<rparr>) = Inr (fs, j1)"
  shows "\<exists>j2 s'. schedule_repeat C R P t zone q False j (s, buf) = (Inr j2, (s', buf)) \<and>
    r_list R s' = r_list R s \<and> get_status R s' (j_id j) = Inr SCHEDULED \<and>
    hget R s' (job_key (j_id j)) ''repeats_left'' = Some (str_of_int (n - 1)) \<and>
    zscore R s' = (zscore R s)(registry_key Scheduled (q_name q) :=
      (zscore R s (registry_key Scheduled (q_name q)))(j_id j \<mapsto> Fin (current_timestamp t + ivl)))"
proof -
  have "repeat_interval (n - 1) is = Inr ivl"
    using assms(3,5,6) length_greater_0_conv [of "is"]
    by (auto simp: repeat_interval_def py_index_def min_def nat_diff_distrib nat_less_iff Suc_le_eq)
  then show ?thesis by (rule redis_server.repeat_scheduled_run [OF assms(1-5) _ assms(7-10)])
qed

definition repeating_job :: job where
  "repeating_job = (sample_job ''a'')\<lparr>j_repeats_left := Some 2, j_repeat_intervals := Some [10, 60]\<rparr>"

theorem repeat_reversed_witness:
  "\<exists>j2 s'. schedule_repeat sample_codec mem_redis sample_py 5000000 0 sample_queue False repeating_job (mem_empty, []) =
     (Inr j2, (s', [])) \<and> zscore mem_redis s' (registry_key Scheduled ''q'') ''a'' = Some (Fin 65)"
proof -
  obtain fs j1 where td: "to_dict sample_codec True True (repeating_job\<lparr>j_repeats_left := Some (2 - 1)\<rparr>) = Inr (fs, j1)"
    by (rule sample_to_dict [of "repeating_job\<lparr>j_repeats_left := Some (2 - 1)\<rparr>"]) (simp add: repeating_job_def)
  have j: "j_repeats_left repeating_job = Some 2" "(0::int) < 2" "j_repeat_intervals repeating_job = Some [10, 60]"
    "[10, 60] \<noteq> ([] :: int list)" "(60::int) = [10, 60] ! min (nat (2 - 1)) (length [10, 60 :: int] - 1)" "(0::int) < 60"
    "0 \<le> int 5000000 + 0 * int usec" "ttl_ok repeating_job" "j_id repeating_job = ''a''"
    by (simp_all add: repeating_job_def ttl_ok_def)
  have "current_timestamp 5000000 + 60 = 65" by (simp add: current_timestamp_def usec_def)
  with repeat_reversed [OF mem.redis_server_axioms j(1-8) td, where P = sample_py and q = sample_queue
      and s = mem_empty and buf = "[]"] j(9)
  show ?thesis by (auto simp: sample_queue_def)
qed

text \<open>
  C32. Requeueing a job of a registry takes it out of the registry and puts it on the queue it came from,
  at the end asked for, with the status \<open>queued\<close>.  A job that is not in the registry raises
  InvalidJobOperation and no list, set or hash has changed.
\<close>

theorem requeue_moves:
  assumes "redis_server R" "ttl_ok j"
    and "to_dict C True True (j\<lparr>j_started_at := None, j_ended_at := None, j_exc_info := Some []\<rparr>) = Inr (fs, j1)"
  shows "if zscore R s (registry_key d q) (j_id j) \<noteq> None
    then \<exists>j2 s'. requeue C R P t d q front j (s, buf) = (Inr j2, (s', buf)) \<and>
      r_list R s' = (r_list R s)(queue_key (j_origin j) :=
        (if front then j_id j # r_list R s (queue_key (j_origin j)) else r_list R s (queue_key (j_origin j)) @ [j_id j])) \<and>
      get_status R s' (j_id j) = Inr QUEUED \<and> zscore R s' (registry_key d q) (j_id j) = None
    else \<exists>s'. requeue C R P t d q front j (s, buf) = (Inl InvalidJobOperation, (s', buf)) \<and>
      r_list R s' = r_list R s \<and> sset R s' = sset R s \<and> hget R s' = hget R s"
  using redis_server.requeue_run [OF assms(1) _ assms(2,3)] redis_server.requeue_missing [OF assms(1)]
    redis_server.reg_remove_run(1-3) [OF assms(1)]
  by (auto simp del: not_None_eq)

definition failed_before :: mem where
  "failed_before = run_all mem_redis [ZAdd ZAny (registry_key Failed ''q'') ''a'' (Fin 9)] mem_empty"

theorem requeue_moves_witness:
  "\<exists>j2 s'. requeue sample_codec mem_redis sample_py 7 Failed ''q'' True (parent_job FAILED) (failed_before, []) =
     (Inr j2, (s', [])) \<and> r_list mem_redis s' (queue_key ''q'') = [''a'']"
proof -
  let ?j = "(parent_job FAILED)\<lparr>j_started_at := None, j_ended_at := None, j_exc_info := Some []\<rparr>"
  obtain fs j1 where td: "to_dict sample_codec True True ?j = Inr (fs, j1)"
    by (rule sample_to_dict [of ?j]) (simp add: parent_job_def)
  have z: "zscore mem_redis failed_before (registry_key Failed ''q'') ''a'' = Some (Fin 9)"
    "r_list mem_redis failed_before k = []" for k
    by (simp_all add: failed_before_def mem.zset_run mem.list_run)
  have o: "j_origin (parent_job FAILED) = ''q''" "ttl_ok (parent_job FAILED)" by (simp_all add: parent_job_def ttl_ok_def)
  from requeue_moves [OF mem.redis_server_axioms o(2) td, of failed_before Failed "''q''" sample_py 7 True "[]"] z(1) o(1)
  show ?thesis by (auto simp: z(2))
qed

text \<open>
  C33. Cancelling a job that has a status other than started takes its id off its queue and out of the
  registry of that status, stores the status \<open>canceled\<close> and files it under the canceled jobs; cancelling
  it again raises InvalidJobOperation and sends nothing.
\<close>

theorem cancel_removes:
  assumes "redis_server R" "hget R s (job_key (j_id j)) ''status'' = Some (status_text st)" "st \<noteq> CANCELED" "st \<noteq> STARTED"
  shows "\<exists>j' s'. cancel C R P t False False False j (s, buf) = (Inr j', (s', buf)) \<and>
    r_list R s' = (r_list R s)(queue_key (j_origin j) := remove1 (j_id j) (r_list R s (queue_key (j_origin j)))) \<and>
    get_status R s' (j_id j) = Inr CANCELED \<and>
    zscore R s' (registry_key Canceled (j_origin j)) (j_id j) = Some (Fin (current_timestamp t)) \<and>
    (\<forall>d. status_registry st = Some d \<longrightarrow> zscore R s' (registry_key d (j_origin j)) (j_id j) = None) \<and>
    cancel C R P t' piped deps from_deps j' (s', buf') = (Inl InvalidJobOperation, (s', buf'))"
proof -
  note run = redis_server.cancel_run [OF assms, where t = t]
  let ?s = "run_all R ([HSet (job_key (j_id j)) [(''status'', status_text CANCELED)]] @ remove (j_origin j) (j_id j) @
      (case status_registry st of None \<Rightarrow> [] | Some d \<Rightarrow> reg_remove d (j_origin j) (j_id j)) @
      reg_add Canceled (j_origin j) (j_id j) 0 False t) s"
  have "get_status R ?s (j_id (j\<lparr>j_status := st\<rparr>)) = Inr CANCELED" using run(3) by simp
  note again = cancel_again [OF this]
  show ?thesis
    by (rule exI [of _ "j\<lparr>j_status := st\<rparr>"], rule exI [of _ ?s])
      (intro conjI allI impI run again)
qed

theorem cancel_removes_witness:
  "\<exists>j' s'. cancel sample_codec mem_redis sample_py 7 False False False (parent_job FAILED)
     (run_all mem_redis [ZAdd ZAny (registry_key Failed ''q'') ''a'' (Fin 9)] (saved (parent_job FAILED)), []) = (Inr j', (s', [])) \<and>
     get_status mem_redis s' ''a'' = Inr CANCELED \<and> zscore mem_redis s' (registry_key Failed ''q'') ''a'' = None"
proof -
  let ?s = "run_all mem_redis [ZAdd ZAny (registry_key Failed ''q'') ''a'' (Fin 9)] (saved (parent_job FAILED))"
  have "hget mem_redis ?s (job_key (j_id (parent_job FAILED))) ''status'' = Some (status_text FAILED)"
    using saved_props(2) [of "parent_job FAILED"] by (simp add: mem.hash_run)
  from cancel_removes [OF mem.redis_server_axioms this, where C = sample_codec and P = sample_py and t = 7 and buf = "[]"
      and t' = 7 and piped = False and deps = False and from_deps = False and buf' = "[]"]
  show ?thesis by (auto simp: status_registry_def parent_job_def)
qed

text \<open>
  C31. The jobs a queue makes are well formed: whatever options they were given, a job that \<open>create_job\<close>
  returns has a timeout, which is not zero, a positive ttl or none, the queue's name as its origin and a
  payload still to be serialized. Everything else is refused with an exception.
\<close>

theorem create_job_well_formed:
  assumes "make_queue name tmo asyn = Inr q" "create_job repr C q a rp uid t = Inr j"
  shows "(\<exists>n. j_timeout j = Some n \<and> n \<noteq> 0) \<and> (\<forall>n. j_ttl j = Some n \<longrightarrow> 0 < n) \<and>
    j_origin j = q_name q \<and> j_data j = UNEVALUATED \<and> j_id j = opt_default uid (ca_id a) \<and>
    j_status j = opt_default CREATED (ca_status a)"
  using create_job_Inr [OF assms(2) make_queue_ok [OF assms(1)]]
  by (auto simp: job_ok_def ttl_ok_def split: option.split_asm)

lemma sample_create_job:
  obtains j where "create_job (\<lambda>_. []) sample_codec sample_queue
      (sample_create_args\<lparr>ca_status := Some SCHEDULED, ca_group_id := None\<rparr>) None [] 0 = Inr j" "j_func_name j \<noteq> UNEVALUATED"
proof -
  have "parse_timeout (TStr ''3m'') = Inr (Some 180)" by code_simp
  moreover have "validate_job_id ''a-1'' = Inr ()" by code_simp
  ultimately have "\<exists>j. create_job (\<lambda>_. []) sample_codec sample_queue
      (sample_create_args\<lparr>ca_status := Some SCHEDULED, ca_group_id := None\<rparr>) None [] 0 = Inr j \<and> j_func_name j \<noteq> UNEVALUATED"
    by (simp add: create_job_def queue_limits_def create_def create_core_def sample_create_args_def set_id_def set_callbacks_def
        resolve_callback_def set_extras_def process_dependencies_def ensure_job_list_def set_retry_def opt_timeout_def set_repeat_def)
  then show ?thesis using that by blast
qed

lemma sample_queue_made: "make_queue ''q'' TNone True = Inr sample_queue"
  by (simp add: make_queue_def sample_queue_def)

theorem create_job_well_formed_witness:
  "\<exists>j. create_job (\<lambda>_. []) sample_codec sample_queue (sample_create_args\<lparr>ca_status := Some SCHEDULED, ca_group_id := None\<rparr>) None [] 0 =
     Inr j \<and> j_origin j = ''q'' \<and> (\<exists>n. j_timeout j = Some n \<and> n \<noteq> 0)"
proof -
  obtain j where j: "create_job (\<lambda>_. []) sample_codec sample_queue
      (sample_create_args\<lparr>ca_status := Some SCHEDULED, ca_group_id := None\<rparr>) None [] 0 = Inr j"
    by (rule sample_create_job)
  from create_job_well_formed [OF sample_queue_made j] j show ?thesis by (simp add: sample_queue_def)
qed

text \<open>
  \<open>enqueue_at\<close> ignores \<open>depends_on\<close>: a job scheduled through it, whatever dependencies it names, is
  filed under the scheduled jobs for its time, and no set but that of the queue names has changed, so
  none of its dependencies learns of it and it will be enqueued at its time whatever becomes of them.
\<close>

theorem enqueue_at_ignores_dependencies:
  assumes "redis_server R" "make_queue name tmo asyn = Inr q"
    and "create_job repr C q (a\<lparr>ca_status := Some SCHEDULED, ca_group_id := None\<rparr>) rp uid t = Inr j"
    and "to_dict C True True (j\<lparr>j_status := SCHEDULED\<rparr>) = Inr (fs, j2)"
  shows "\<exists>s'. enqueue_at repr C R t q zone dt False False a rp uid (s, buf) = (Inr j2, (s', buf)) \<and>
    r_list R s' = r_list R s \<and> get_status R s' (j_id j) = Inr SCHEDULED \<and>
    (\<forall>k. k \<noteq> queues_key \<longrightarrow> sset R s' k = sset R s k) \<and>
    zscore R s' = (zscore R s)(registry_key Scheduled (q_name q) :=
      (zscore R s (registry_key Scheduled (q_name q)))(j_id j \<mapsto> Fin (to_utc zone dt)))"
  by (rule redis_server.enqueue_at_run [OF assms(1,3) make_queue_ok [OF assms(2)] assms(4)])

theorem enqueue_at_ignores_dependencies_witness:
  "\<exists>j2 s'. enqueue_at (\<lambda>_. []) sample_codec mem_redis 0 sample_queue None 9000000 False False sample_create_args None []
     (mem_empty, []) = (Inr j2, (s', [])) \<and> sset mem_redis s' (dependents_key ''p'') = {} \<and>
     (\<exists>i. zscore mem_redis s' (registry_key Scheduled ''q'') i = Some (Fin 9))"
proof -
  obtain j where j: "create_job (\<lambda>_. []) sample_codec sample_queue
      (sample_create_args\<lparr>ca_status := Some SCHEDULED, ca_group_id := None\<rparr>) None [] 0 = Inr j"
    and func: "j_func_name j \<noteq> UNEVALUATED"
    by (rule sample_create_job)
  obtain fs j2 where td: "to_dict sample_codec True True (j\<lparr>j_status := SCHEDULED\<rparr>) = Inr (fs, j2)"
    by (rule sample_to_dict [of "j\<lparr>j_status := SCHEDULED\<rparr>"]) (simp add: func)
  have "to_utc None 9000000 = 9" by (simp add: to_utc_def current_timestamp_def usec_def)
  with enqueue_at_ignores_dependencies [OF mem.redis_server_axioms sample_queue_made j td, where zone = None and dt = 9000000
      and s = mem_empty and buf = "[]"]
  show ?thesis by (auto simp: sample_queue_def)
qed

section \<open>A batch is its jobs one by one\<close>

text \<open>Enqueueing the entries of a batch one after another, each with a pipeline of its own.\<close>

definition enqueue_entry ::
  "(pyval \<Rightarrow> string) \<Rightarrow> codec \<Rightarrow> 's redis \<Rightarrow> py \<Rightarrow> datetime \<Rightarrow> queue \<Rightarrow> string option \<Rightarrow> (nat \<Rightarrow> string) \<Rightarrow>
   nat \<times> enqueue_data \<Rightarrow> ('s, job) op" where
  "enqueue_entry repr C R P t q gid uids e =
     bindO (liftE (many_job repr C q gid uids t QUEUED e)) (enqueue_now C R P t q False (ed_at_front (snd e)) False)"

definition enqueue_singly ::
  "(pyval \<Rightarrow> string) \<Rightarrow> codec \<Rightarrow> 's redis \<Rightarrow> py \<Rightarrow> datetime \<Rightarrow> queue \<Rightarrow> string option \<Rightarrow> (nat \<Rightarrow> string) \<Rightarrow>
   enqueue_data list \<Rightarrow> ('s, job list) op" where
  "enqueue_singly repr C R P t q gid uids eds =
     seqO (send R False [SAdd queues_key (queue_key (q_name q))])
       (map_each (enqueue_entry repr C R P t q gid uids) (enumerate 0 eds))"

text \<open>An entry that can be enqueued: its job can be created and saved.\<close>

definition plain_entry :: "(pyval \<Rightarrow> string) \<Rightarrow> codec \<Rightarrow> queue \<Rightarrow> string option \<Rightarrow> (nat \<Rightarrow> string) \<Rightarrow> datetime \<Rightarrow> nat \<times> enqueue_data \<Rightarrow> bool" where
  "plain_entry repr C q gid uids t e \<longleftrightarrow>
     \<not> ed_unique (snd e) \<and> \<not> has_depends (ed_args (snd e)) \<and>
     (\<exists>j fs j2. many_job repr C q gid uids t QUEUED e = Inr j \<and> ttl_ok j \<and>
        to_dict C True True (prepare_for_queue q t j) = Inr (fs, j2))"

definition plain_result :: "(pyval \<Rightarrow> string) \<Rightarrow> codec \<Rightarrow> queue \<Rightarrow> string option \<Rightarrow> (nat \<Rightarrow> string) \<Rightarrow> datetime \<Rightarrow> nat \<times> enqueue_data \<Rightarrow> job \<times> fields \<times> job" where
  "plain_result repr C q gid uids t e =
     (case many_job repr C q gid uids t QUEUED e of
        Inl _ \<Rightarrow> (new_job [] t, [], new_job [] t)
      | Inr j \<Rightarrow> (case to_dict C True True (prepare_for_queue q t j) of Inr (fs, j2) \<Rightarrow> (j, fs, j2) | Inl _ \<Rightarrow> (new_job [] t, [], new_job [] t)))"

definition plain_cmds :: "(pyval \<Rightarrow> string) \<Rightarrow> codec \<Rightarrow> queue \<Rightarrow> string option \<Rightarrow> (nat \<Rightarrow> string) \<Rightarrow> datetime \<Rightarrow> nat \<times> enqueue_data \<Rightarrow> cmd list" where
  "plain_cmds repr C q gid uids t e =
     (case plain_result repr C q gid uids t e of (j, fs, j2) \<Rightarrow>
        (if j_status j = DEFERRED then reg_remove Deferred (q_name q) (j_id j) else []) @
        persist_cmds QUEUED fs j @ push_job_id (q_name q) (ed_at_front (snd e)) (j_id j))"

lemma plain_entry_run:
  fixes repr C q gid uids t and R :: "'s redis"
  defines "res \<equiv> \<lambda>e. snd (snd (plain_result repr C q gid uids t e))"
  assumes "plain_entry repr C q gid uids t e" "q_is_async q"
  shows "many_normal repr C R P q gid uids t e (s, buf) = (Inr (fst e, res e), (s, buf @ plain_cmds repr C q gid uids t e))"
    "enqueue_entry repr C R P t q gid uids e (s, buf) =
      (Inr (res e), (run_all R (plain_cmds repr C q gid uids t e) s, buf))"
proof -
  obtain j fs j2 where j: "many_job repr C q gid uids t QUEUED e = Inr j" "ttl_ok j"
    "to_dict C True True (prepare_for_queue q t j) = Inr (fs, j2)"
    using assms(2) by (auto simp: plain_entry_def)
  note eq = enqueue_async_eq [OF j(3,2), of R "ed_at_front (snd e)"]
  show "many_normal repr C R P q gid uids t e (s, buf) = (Inr (fst e, res e), (s, buf @ plain_cmds repr C q gid uids t e))"
    "enqueue_entry repr C R P t q gid uids e (s, buf) =
      (Inr (res e), (run_all R (plain_cmds repr C q gid uids t e) s, buf))"
    using assms(3) j(1,3) eq
    by (simp_all add: many_normal_def enqueue_entry_def bindO_def enqueue_now_def plain_cmds_def plain_result_def res_def)
qed

lemma map_each_run:
  assumes "\<forall>e \<in> set es. \<forall>s buf. f e (s, buf) = (Inr (res e), (step e s, buf @ cs e))"
  shows "map_each f es (s, buf) = (Inr (map res es), (fold step es s, buf @ concat (map cs es)))"
  using assms by (induction es arbitrary: s buf) (simp_all add: bindO_def)

lemma fold_run_all: "fold (\<lambda>e. run_all R (cs e)) es s = run_all R (concat (map cs es)) s"
  by (induction es arbitrary: s) simp_all

lemma collect_enumerate:
  "collect_results (length eds) (map (\<lambda>e. (fst e, res e)) (enumerate 0 eds)) = Inr (map res (enumerate 0 eds))"
proof -
  have d: "distinct (map fst (map (\<lambda>e. (fst e, res e)) (enumerate 0 eds)))" by (simp add: comp_def)
  have "map_of (rev (map (\<lambda>e. (fst e, res e)) (enumerate 0 eds))) i = Some (res (i, eds ! i))" if "i < length eds" for i
  proof -
    have "(i, eds ! i) \<in> set (enumerate 0 eds)" using that by (simp add: in_set_enumerate_eq)
    then show ?thesis unfolding map_of_rev_distinct [OF d] map_of_eq_Some_iff [OF d] by force
  qed
  then have "collect_results (length eds) (map (\<lambda>e. (fst e, res e)) (enumerate 0 eds)) = Inr (map (\<lambda>i. res (i, eds ! i)) [0..<length eds])"
    unfolding collect_results_def by (intro mapE_all_Inr) simp
  moreover have "map res (enumerate 0 eds) = map (\<lambda>i. res (i, eds ! i)) [0..<length eds]"
    by (rule nth_equalityI) (simp_all add: nth_enumerate_eq)
  ultimately show ?thesis by simp
qed

lemma enqueue_many_plain:
  fixes R :: "'s redis"
  assumes "eds \<noteq> []" "\<forall>e \<in> set (enumerate 0 eds). plain_entry repr C q gid uids t e" "q_is_async q"
  shows "enqueue_many repr C R P t q False gid uids eds = enqueue_singly repr C R P t q gid uids eds"
proof
  fix c :: "'s conn"
  obtain s buf where c: "c = (s, buf)" by (metis surj_pair)
  let ?es = "enumerate 0 eds" and ?res = "\<lambda>e. snd (snd (plain_result repr C q gid uids t e))"
  let ?cs = "plain_cmds repr C q gid uids t" and ?reg = "SAdd queues_key (queue_key (q_name q))"
  have plain: "\<forall>e \<in> set ?es. \<not> ed_unique (snd e) \<and> \<not> has_depends (ed_args (snd e))"
    using assms(2) by (auto simp: plain_entry_def)
  moreover have "set eds = snd ` set ?es" by (simp flip: set_map)
  ultimately have "\<forall>e \<in> set eds. \<not> ed_unique e \<and> \<not> has_depends (ed_args e)" by simp
  then have ok: "validate_many eds = Inr ()" by (auto simp: validate_many_def)
  have parts: "filter (\<lambda>e. ed_unique (snd e) \<and> \<not> has_depends (ed_args (snd e))) ?es = []"
    "filter (\<lambda>e. \<not> ed_unique (snd e) \<and> \<not> has_depends (ed_args (snd e))) ?es = ?es"
    "filter (\<lambda>e. has_depends (ed_args (snd e))) ?es = []"
    using plain by (auto simp: filter_id_conv filter_empty_conv)
  have batch: "map_each (many_normal repr C R P q gid uids t) ?es (s, b) =
      (Inr (map (\<lambda>e. (fst e, ?res e)) ?es), (s, b @ concat (map ?cs ?es)))" for b
    by (subst map_each_run [where res = "\<lambda>e. (fst e, ?res e)" and step = "\<lambda>_. id" and cs = ?cs])
      (simp_all add: fold_id plain_entry_run(1) [OF bspec [OF assms(2)] assms(3)] del: split_paired_All)
  have single: "map_each (enqueue_entry repr C R P t q gid uids) ?es (s1, buf) = (Inr (map ?res ?es), (run_all R (concat (map ?cs ?es)) s1, buf))" for s1
    by (subst map_each_run [where res = ?res and step = "\<lambda>e. run_all R (?cs e)" and cs = "\<lambda>_. []"])
      (simp_all add: fold_run_all plain_entry_run(2) [OF bspec [OF assms(2)] assms(3)])
  have "?es \<noteq> []" using assms(1) by (simp add: enumerate_eq_zip)
  then show "enqueue_many repr C R P t q False gid uids eds c = enqueue_singly repr C R P t q gid uids eds c"
    unfolding c enqueue_many_def enqueue_many_body_def enqueue_singly_def Let_def parts
    by (simp add: ok batch single bindO_def seqO_def new_pipe_def execute_unless_def collect_enumerate)
qed

section \<open>Properties of batches\<close>


lemma sample_plain_job:
  assumes "valid_id uid"
  shows "\<exists>j. create_job (\<lambda>_. []) sample_codec sample_queue
      (sample_create_args\<lparr>ca_depends_on := None, ca_id := None, ca_status := Some QUEUED, ca_group_id := None\<rparr>) None uid 0 = Inr j \<and>
    j_func_name j \<noteq> UNEVALUATED \<and> ttl_ok j"
proof -
  have "parse_timeout (TStr ''3m'') = Inr (Some 180)" by code_simp
  then show ?thesis
    using assms
    by (simp add: create_job_def queue_limits_def create_def create_core_def sample_create_args_def set_id_def set_callbacks_def
        resolve_callback_def set_extras_def process_dependencies_def ensure_job_list_def set_retry_def opt_timeout_def set_repeat_def
        validate_job_id_iff ttl_ok_def new_job_def)
qed


end
