(* ===== verification/Group.thy ===== *)
theory Group
  imports Lifecycle
begin

text \<open>
  Groups of jobs (\<open>rq/group.py\<close>): a set of job ids under the group's name, and the set of the names. The
  names are the ones the library stored, which are not empty.
\<close>

section \<open>Operations\<close>

text \<open>
  \<open>_add_jobs\<close> executes the pipeline. SADD wants at least one member: without jobs the transaction is
  refused as a whole.
\<close>

definition add_jobs :: "'s redis \<Rightarrow> string \<Rightarrow> job list \<Rightarrow> ('s, unit) op" where
  "add_jobs R g js =
     (if js = [] then (\<lambda>(s, buf). (Inl ResponseError, (s, [])))
      else
        seqO (send R True (map (\<lambda>j. SAdd (group_key g) (j_id j)) js @ [SAdd groups_key g]))
          (execute R))"

definition group_enqueue_many ::
  "(pyval \<Rightarrow> string) \<Rightarrow> codec \<Rightarrow> 's redis \<Rightarrow> py \<Rightarrow> datetime \<Rightarrow> string \<Rightarrow> queue \<Rightarrow> bool \<Rightarrow> (nat \<Rightarrow> string) \<Rightarrow>
   enqueue_data list \<Rightarrow> ('s, job list) op" where
  "group_enqueue_many repr C R P t g q piped uids eds =
     own_pipe R piped
       (bindO (enqueue_many repr C R P t q True (Some g) uids eds) (\<lambda>js. seqO (add_jobs R g js) (ret js)))"

definition group_cleanup :: "'s redis \<Rightarrow> string \<Rightarrow> 's \<Rightarrow> 's" where
  "group_cleanup R g s =
     (let expired = filter (\<lambda>i. \<not> job_exists R s i) (r_set R s (group_key g))
      in if expired = [] then s else r_run R (SRem (group_key g) expired) s)"

definition group_jobs :: "codec \<Rightarrow> 's redis \<Rightarrow> datetime \<Rightarrow> string \<Rightarrow> 's \<Rightarrow> job list res \<times> 's" where
  "group_jobs C R t g s =
     (let s' = group_cleanup R g s
      in (bindE (fetch_many C R s' t (r_set R s' (group_key g))) (\<lambda>js. Inr (compact js)), s'))"

text \<open>\<open>Group.all\<close>: a name without a group is taken out of the names.\<close>

definition all_groups :: "'s redis \<Rightarrow> 's \<Rightarrow> string list \<times> 's" where
  "all_groups R s =
     (let names = r_set R s groups_key
      in (filter (\<lambda>g. group_fetch R g s = Inr ()) names,
          run_all R (map (\<lambda>g. SRem groups_key [g]) (filter (\<lambda>g. group_fetch R g s \<noteq> Inr ()) names)) s))"

definition clean_groups :: "'s redis \<Rightarrow> 's \<Rightarrow> 's" where
  "clean_groups R s =
     (case all_groups R s of
        (gs, s1) \<Rightarrow>
          let s2 = fold (group_cleanup R) gs s1;
              gone = filter (\<lambda>g. \<not> key_exists R s2 (group_key g)) gs
          in if gone = [] then s2 else r_run R (SRem groups_key gone) s2)"

section \<open>Cleaning\<close>

lemma group_fetch_iff: "group_fetch R g s = Inr () \<longleftrightarrow> key_exists R s (group_key g)"
  by (simp add: group_fetch_def)

context redis_server
begin

lemma group_cleanup_run:
  "sset R (group_cleanup R g s) = (sset R s)(group_key g := {i \<in> sset R s (group_key g). job_exists R s i})"
  "k \<noteq> group_key g \<Longrightarrow> key_exists R (group_cleanup R g s) k = key_exists R s k"
proof -
  have "sset R s (group_key g) = set (r_set R s (group_key g))" by (simp add: sset_def)
  then show "sset R (group_cleanup R g s) = (sset R s)(group_key g := {i \<in> sset R s (group_key g). job_exists R s i})"
    by (auto simp: group_cleanup_def Let_def set_run fun_eq_iff filter_empty_conv)
  show "k \<noteq> group_key g \<Longrightarrow> key_exists R (group_cleanup R g s) k = key_exists R s k"
    by (simp add: group_cleanup_def Let_def key_exists_frame)
qed

lemma job_exists_group_cleanup [simp]: "job_exists R (group_cleanup R g s) i = job_exists R s i"
  by (simp add: job_exists_def group_cleanup_run(2))

lemma fold_group_cleanup:
  fixes s :: 's
  shows "sset R (fold (group_cleanup R) gs s) k =
      (if k \<in> group_key ` set gs then {i \<in> sset R s k. job_exists R s i} else sset R s k) \<and>
    job_exists R (fold (group_cleanup R) gs s) i = job_exists R s i"
proof (induction gs arbitrary: s)
  case (Cons g gs)
  show ?case using Cons.IH [of "group_cleanup R g s"] by (auto simp: group_cleanup_run(1))
qed simp

lemma drop_names_run:
  "sset R (run_all R (map (\<lambda>g. SRem groups_key [g]) gs) s) = (sset R s)(groups_key := sset R s groups_key - set gs)"
  "k \<noteq> groups_key \<Longrightarrow> key_exists R (run_all R (map (\<lambda>g. SRem groups_key [g]) gs) s) k = key_exists R s k"
proof -
  show "sset R (run_all R (map (\<lambda>g. SRem groups_key [g]) gs) s) = (sset R s)(groups_key := sset R s groups_key - set gs)"
    by (induction gs arbitrary: s) (simp_all add: set_run Diff_insert2 [symmetric])
  show "k \<noteq> groups_key \<Longrightarrow> key_exists R (run_all R (map (\<lambda>g. SRem groups_key [g]) gs) s) k = key_exists R s k"
    by (induction gs arbitrary: s) (simp_all add: key_exists_frame)
qed

lemma clean_groups_run:
  fixes s :: 's
  shows "g \<in> sset R (clean_groups R s) groups_key \<Longrightarrow> g \<in> sset R s groups_key \<and>
      key_exists R (clean_groups R s) (group_key g) \<and>
      sset R (clean_groups R s) (group_key g) = {i \<in> sset R s (group_key g). job_exists R s i}"
    "g \<in> sset R s groups_key \<Longrightarrow> i \<in> sset R s (group_key g) \<Longrightarrow> job_exists R s i \<Longrightarrow>
      g \<in> sset R (clean_groups R s) groups_key"
proof -
  obtain gs s1 where a: "all_groups R s = (gs, s1)" by (cases "all_groups R s") auto
  let ?s2 = "fold (group_cleanup R) gs s1"
  let ?gone = "filter (\<lambda>g. \<not> key_exists R ?s2 (group_key g)) gs"
  have gs: "set gs = {g \<in> sset R s groups_key. key_exists R s (group_key g)}"
    using a by (auto simp: all_groups_def Let_def group_fetch_iff sset_def)
  have s1: "sset R s1 = (sset R s)(groups_key := set gs)" "job_exists R s1 i = job_exists R s i" for i
  proof -
    have s1: "s1 = run_all R (map (\<lambda>g. SRem groups_key [g]) (filter (\<lambda>g. \<not> key_exists R s (group_key g)) (r_set R s groups_key))) s"
      using a by (simp add: all_groups_def Let_def group_fetch_iff)
    have "sset R s groups_key - {g \<in> sset R s groups_key. \<not> key_exists R s (group_key g)} = set gs" using gs by auto
    moreover have "set (r_set R s groups_key) = sset R s groups_key" by (simp add: sset_def)
    ultimately show "sset R s1 = (sset R s)(groups_key := set gs)" "job_exists R s1 i = job_exists R s i"
      unfolding s1 by (simp_all add: drop_names_run job_exists_def)
  qed
  have s': "clean_groups R s = (if ?gone = [] then ?s2 else r_run R (SRem groups_key ?gone) ?s2)"
    by (simp add: clean_groups_def a Let_def)
  have sets: "sset R (clean_groups R s) = (sset R ?s2)(groups_key := sset R ?s2 groups_key - set ?gone)"
    unfolding s' by (auto simp: set_run fun_eq_iff filter_empty_conv)
  have ex: "key_exists R (clean_groups R s) k = key_exists R ?s2 k" if "k \<noteq> groups_key" for k
    using that unfolding s' by (simp add: key_exists_frame)
  have names: "sset R ?s2 groups_key = set gs"
    using fold_group_cleanup [of gs s1 groups_key] s1(1) by auto
  have live: "sset R ?s2 (group_key h) = {i \<in> sset R s (group_key h). job_exists R s i}" if "h \<in> set gs" for h
    using fold_group_cleanup [of gs s1 "group_key h"] s1 that by auto
  show "g \<in> sset R s groups_key \<and> key_exists R (clean_groups R s) (group_key g) \<and>
      sset R (clean_groups R s) (group_key g) = {i \<in> sset R s (group_key g). job_exists R s i}"
    if g: "g \<in> sset R (clean_groups R s) groups_key"
  proof -
    have "g \<in> set gs" "key_exists R ?s2 (group_key g)" using g sets names by auto
    then show ?thesis using gs ex live sets by auto
  qed
  show "g \<in> sset R (clean_groups R s) groups_key"
    if g: "g \<in> sset R s groups_key" "i \<in> sset R s (group_key g)" "job_exists R s i"
  proof -
    have "key_exists R s (group_key g)" using g(2) by (auto simp: key_exists_iff)
    then have in_gs: "g \<in> set gs" using gs g(1) by simp
    then have "i \<in> sset R ?s2 (group_key g)" using live g(2,3) by simp
    then have "key_exists R ?s2 (group_key g)" by (auto simp: key_exists_iff)
    then show ?thesis using sets names in_gs by simp
  qed
qed

text \<open>What an empty batch does: the transaction with the queue's name in it is refused.\<close>

lemma empty_batch_raises:
  "group_enqueue_many repr C R P t g q False uids [] (s, buf) = (Inl ResponseError, (s, buf))"
  by (simp add: group_enqueue_many_def own_pipe_def new_pipe_def enqueue_many_def enqueue_many_body_def validate_many_def
      bindO_def seqO_def collect_results_def add_jobs_def)

end

section \<open>Properties\<close>

text \<open>
  Cleaning the groups: afterwards every name in the set of groups was there before and has a group
  that exists, and the members of that group are exactly those of before whose job exists. No live
  job is taken out of a group, and a group with a live job keeps its name.
\<close>

theorem clean_groups_exact:
  assumes "redis_server R"
  shows "(\<forall>g \<in> sset R (clean_groups R s) groups_key.
      g \<in> sset R s groups_key \<and> key_exists R (clean_groups R s) (group_key g) \<and>
      sset R (clean_groups R s) (group_key g) = {i \<in> sset R s (group_key g). job_exists R s i}) \<and>
    (\<forall>g \<in> sset R s groups_key. (\<exists>i \<in> sset R s (group_key g). job_exists R s i) \<longrightarrow>
      g \<in> sset R (clean_groups R s) groups_key)"
  using redis_server.clean_groups_run [OF assms] by blast

lemma saved_frame: "k \<noteq> job_key (j_id j) \<Longrightarrow> \<not> key_exists mem_redis (saved j) k"
  by (auto simp: saved_def save_def bindE_def mem.key_exists_frame split: sum.splits prod.splits)

definition grouped :: mem where
  "grouped = run_all mem_redis [SAdd groups_key ''g'', SAdd (group_key ''g'') ''a'', SAdd (group_key ''g'') ''b'',
     SAdd groups_key ''h''] (saved (parent_job QUEUED))"

theorem clean_groups_exact_witness:
  "''b'' \<in> sset mem_redis grouped (group_key ''g'') \<and> ''g'' \<in> sset mem_redis (clean_groups mem_redis grouped) groups_key \<and>
   sset mem_redis (clean_groups mem_redis grouped) (group_key ''g'') = {''a''}"
proof -
  note p = saved_props [of "parent_job QUEUED", simplified]
  have sets: "sset mem_redis grouped groups_key = {''g'', ''h''}" "sset mem_redis grouped (group_key ''g'') = {''a'', ''b''}"
    by (auto simp: grouped_def mem.set_run p)
  have "hget mem_redis grouped (job_key ''a'') \<noteq> Map.empty"
    using p(2) by (auto simp: grouped_def mem.hash_run)
  then have a: "job_exists mem_redis grouped ''a''" by (simp add: job_exists_def mem.key_exists_iff)
  have b: "\<not> job_exists mem_redis grouped ''b''"
    by (simp add: job_exists_def grouped_def mem.key_exists_frame saved_frame)
  from clean_groups_exact [OF mem.redis_server_axioms, of grouped] sets a b
  show ?thesis by auto
qed

end
