(* ===== verification/Worker.thy ===== *)
theory Worker
  imports Group
begin

text \<open>
  The worker as an entry of the server (\<open>rq/worker/base.py\<close>, \<open>rq/worker_registration.py\<close>,
  \<open>rq/suspension.py\<close>): its attributes, its hash, its place in the sets of workers, its state, its
  heartbeats and counters, and the pause of all workers. The host name, the address, the process id and
  the Python version come from the operating system and are attributes of the record.
\<close>

section \<open>The worker object\<close>

datatype worker_class = Forking | Simple | RoundRobin | Randomized | Heroku

record worker =
  w_class :: worker_class
  w_name :: string
  w_queues :: "queue list"
  w_ordered :: "queue list"
  w_ttl :: int
  w_job_monitoring_interval :: int
  w_maintenance_interval :: int
  w_default_result_ttl :: int
  w_disable_default_handler :: bool
  w_state :: string
  w_execution :: "execution option"
  w_stop_requested :: bool
  w_stopped_job_id :: "string option"
  w_last_cleaned_at :: "datetime option"
  w_birth_date :: "datetime option"
  w_last_heartbeat :: "datetime option"
  w_strategy :: "string option"
  w_pid :: "int option"
  w_hostname :: "string option"
  w_ip_address :: "string option"
  w_version :: string
  w_python_version :: string
  w_failed_job_count :: int
  w_successful_job_count :: int
  w_total_working_time :: datetime
  w_current_job_working_time :: datetime

definition default_worker_ttl :: int where
  "default_worker_ttl = 420"

text \<open>\<open>__init__\<close> for what the attributes start with; \<open>worker_ttl\<close> when given and not zero.\<close>

definition new_worker :: "worker_class \<Rightarrow> string \<Rightarrow> queue list \<Rightarrow> int option \<Rightarrow> string \<Rightarrow> worker" where
  "new_worker cl name qs ttl pyver =
     \<lparr>w_class = cl, w_name = name, w_queues = qs, w_ordered = qs,
      w_ttl = (case ttl of None \<Rightarrow> default_worker_ttl | Some n \<Rightarrow> if n = 0 then default_worker_ttl else n),
      w_job_monitoring_interval = 30, w_maintenance_interval = 600, w_default_result_ttl = default_result_ttl,
      w_disable_default_handler = False, w_state = ''starting'', w_execution = None, w_stop_requested = False,
      w_stopped_job_id = None, w_last_cleaned_at = None, w_birth_date = None, w_last_heartbeat = None,
      w_strategy = Some ''default'', w_pid = None, w_hostname = None, w_ip_address = Some ''unknown'',
      w_version = ''2.9.1'', w_python_version = pyver, w_failed_job_count = 0, w_successful_job_count = 0,
      w_total_working_time = 0, w_current_job_working_time = 0\<rparr>"

definition queue_names :: "worker \<Rightarrow> string list" where
  "queue_names w = map q_name (w_queues w)"

definition w_key :: "worker \<Rightarrow> key" where
  "w_key w = worker_key (w_name w)"

definition dequeue_timeout :: "worker \<Rightarrow> int" where
  "dequeue_timeout w = max 1 (w_ttl w - 15)"

definition connection_timeout :: "worker \<Rightarrow> int" where
  "connection_timeout w = dequeue_timeout w + 10"

definition should_run_maintenance_tasks :: "datetime \<Rightarrow> worker \<Rightarrow> bool" where
  "should_run_maintenance_tasks t w =
     (case w_last_cleaned_at w of
        None \<Rightarrow> True
      | Some c \<Rightarrow> w_maintenance_interval w * int usec < int t - int c)"

text \<open>\<open>int(x)\<close> drops the fraction, towards zero; the time worked so far is in microseconds.\<close>

definition whole_seconds :: "int \<Rightarrow> int" where
  "whole_seconds us = (if 0 \<le> us then us div int usec else - ((- us) div int usec))"

definition get_heartbeat_ttl :: "worker \<Rightarrow> job \<Rightarrow> int" where
  "get_heartbeat_ttl w j =
     (if w_class w = Simple then
        (if j_timeout j = Some (- 1) then default_worker_ttl
         else (case j_timeout j of None \<Rightarrow> default_worker_ttl | Some n \<Rightarrow> if n = 0 then default_worker_ttl else n) + 60)
      else
        (case j_timeout j of
           None \<Rightarrow> w_job_monitoring_interval w + 60
         | Some n \<Rightarrow>
             if 0 < n
             then whole_seconds (min (n * int usec - int (w_current_job_working_time w)) (w_job_monitoring_interval w * int usec)) + 60
             else w_job_monitoring_interval w + 60))"

section \<open>Choosing the order of the queues\<close>

fun queue_index :: "string \<Rightarrow> queue list \<Rightarrow> nat option" where
  "queue_index n [] = None"
| "queue_index n (q # qs) = (if q_name q = n then Some 0 else map_option Suc (queue_index n qs))"

definition rotate_queues :: "string \<Rightarrow> worker \<Rightarrow> worker res" where
  "rotate_queues n w =
     (case queue_index n (w_ordered w) of
        None \<Rightarrow> Inl ValueError
      | Some pos \<Rightarrow> Inr (w\<lparr>w_ordered := drop (pos + 1) (w_ordered w) @ take (pos + 1) (w_ordered w)\<rparr>))"

text \<open>\<open>shuffled\<close> is what \<open>random.shuffle\<close> makes of the list.\<close>

definition reorder_queues :: "(queue list \<Rightarrow> queue list) \<Rightarrow> string \<Rightarrow> worker \<Rightarrow> worker res" where
  "reorder_queues shuffled n w =
     (if w_class w = RoundRobin then rotate_queues n w
      else if w_class w = Randomized then Inr (w\<lparr>w_ordered := shuffled (w_ordered w)\<rparr>)
      else
        let w1 = w\<lparr>w_strategy := Some (opt_default ''default'' (w_strategy w))\<rparr>;
            st = opt_default ''default'' (w_strategy w)
        in
        if st \<notin> {''default'', ''random'', ''round_robin''} then Inl ValueError
        else if st = ''default'' then Inr w1
        else if st = ''round_robin'' then rotate_queues n w1
        else Inr (w1\<lparr>w_ordered := shuffled (w_ordered w1)\<rparr>))"

section \<open>Registration\<close>

definition register :: "worker \<Rightarrow> cmd list" where
  "register w = SAdd workers_key (w_key w) # map (\<lambda>n. SAdd (workers_by_queue_key n) (w_key w)) (queue_names w)"

definition unregister :: "worker \<Rightarrow> cmd list" where
  "unregister w = SRem workers_key [w_key w] # map (\<lambda>n. SRem (workers_by_queue_key n) [w_key w]) (queue_names w)"

definition get_keys :: "'s redis \<Rightarrow> 's \<Rightarrow> string option \<Rightarrow> string list" where
  "get_keys R s q = r_set R s (case q of None \<Rightarrow> workers_key | Some n \<Rightarrow> workers_by_queue_key n)"

definition worker_count :: "'s redis \<Rightarrow> 's \<Rightarrow> string option \<Rightarrow> nat" where
  "worker_count R s q = length (get_keys R s q)"

text \<open>\<open>clean_worker_registry\<close>: keys without a hash leave both sets, a thousand at a time.\<close>

definition clean_worker_registry :: "'s redis \<Rightarrow> string \<Rightarrow> 's \<Rightarrow> 's" where
  "clean_worker_registry R q s =
     (let invalid = filter (\<lambda>k. \<not> key_exists R s k) (get_keys R s (Some q))
      in run_all R (concat (map (\<lambda>ks. [SRem (workers_by_queue_key q) ks, SRem workers_key ks]) (segments 1000 invalid))) s)"

text \<open>\<open>serialize\<close>, and what HSET makes of it: the client refuses a value that is None.\<close>

definition serialize :: "worker \<Rightarrow> fields res" where
  "serialize w =
     (case (w_birth_date w, w_last_heartbeat w) of
        (Some b, Some h) \<Rightarrow>
          (case (w_pid w, w_hostname w, w_ip_address w) of
             (Some pid, Some host, Some ip) \<Rightarrow>
               Inr [(''birth'', utcformat b), (''last_heartbeat'', utcformat h), (''queues'', join '','' (queue_names w)),
                    (''pid'', str_of_int pid), (''hostname'', host), (''ip_address'', ip), (''version'', w_version w),
                    (''python_version'', w_python_version w)]
           | _ \<Rightarrow> Inl DataError)
      | _ \<Rightarrow> Inl AssertionError)"

definition register_birth :: "'s redis \<Rightarrow> datetime \<Rightarrow> worker \<Rightarrow> ('s, worker) op" where
  "register_birth R t w =
     bindO (ask (\<lambda>s. Inr (key_exists R s (w_key w) \<and> hget R s (w_key w) ''death'' = None))) (\<lambda>alive.
       if alive then raiseO ValueError
       else
         let w1 = w\<lparr>w_birth_date := Some t, w_last_heartbeat := Some t\<rparr> in
         bindO (liftE (serialize w1)) (\<lambda>fs.
           seqO (send R False ([Del [w_key w], HSet (w_key w) fs] @ register w1 @ [Expire (w_key w) (w_ttl w + 60)]))
             (ret w1)))"

definition register_death :: "'s redis \<Rightarrow> datetime \<Rightarrow> worker \<Rightarrow> ('s, unit) op" where
  "register_death R t w =
     send R False (unregister w @ [HSet (w_key w) [(''death'', utcformat t)], Expire (w_key w) 60])"

section \<open>State, heartbeats and counters\<close>

definition set_state :: "string \<Rightarrow> worker \<Rightarrow> cmd list \<times> worker" where
  "set_state st w = ([HSet (w_key w) [(''state'', st)]], w\<lparr>w_state := st\<rparr>)"

definition set_state_on :: "'s redis \<Rightarrow> bool \<Rightarrow> string \<Rightarrow> worker \<Rightarrow> ('s, worker) op" where
  "set_state_on R piped st w = seqO (send R piped (fst (set_state st w))) (ret (snd (set_state st w)))"

definition set_current_job_id :: "string option \<Rightarrow> worker \<Rightarrow> cmd list" where
  "set_current_job_id i w =
     (case i of None \<Rightarrow> [HDel (w_key w) ''current_job''] | Some i \<Rightarrow> [HSet (w_key w) [(''current_job'', i)]])"

definition get_current_job_id :: "'s redis \<Rightarrow> 's \<Rightarrow> worker \<Rightarrow> string option" where
  "get_current_job_id R s w = hget R s (w_key w) ''current_job''"

definition get_current_job :: "codec \<Rightarrow> 's redis \<Rightarrow> 's \<Rightarrow> datetime \<Rightarrow> worker \<Rightarrow> job option res" where
  "get_current_job C R s t w =
     (case get_current_job_id R s w of None \<Rightarrow> Inr None | Some i \<Rightarrow> bindE (fetch C R s t i) (\<lambda>j. Inr (Some j)))"

text \<open>The text of a number of seconds: an int 0, or a float (as \<open>ts_text\<close>).\<close>

definition set_current_job_working_time :: "datetime \<Rightarrow> bool \<Rightarrow> worker \<Rightarrow> cmd list \<times> worker" where
  "set_current_job_working_time us is_int w =
     ([HSet (w_key w) [(''current_job_working_time'', if is_int then ''0'' else ts_text us)]],
      w\<lparr>w_current_job_working_time := us\<rparr>)"

definition worker_heartbeat :: "int option \<Rightarrow> datetime \<Rightarrow> worker \<Rightarrow> cmd list \<times> worker" where
  "worker_heartbeat timeout t w =
     (let n = (case timeout of None \<Rightarrow> w_ttl w + 60 | Some n \<Rightarrow> if n = 0 then w_ttl w + 60 else n)
      in ([HSet (w_key w) [(''last_heartbeat'', utcformat t)], Expire (w_key w) n], w\<lparr>w_last_heartbeat := Some t\<rparr>))"

definition worker_heartbeat_on :: "'s redis \<Rightarrow> bool \<Rightarrow> int option \<Rightarrow> datetime \<Rightarrow> worker \<Rightarrow> ('s, worker) op" where
  "worker_heartbeat_on R piped timeout t w =
     seqO (send R piped (fst (worker_heartbeat timeout t w))) (ret (snd (worker_heartbeat timeout t w)))"

definition increment_failed_job_count :: "worker \<Rightarrow> cmd list" where
  "increment_failed_job_count w = [HIncrBy (w_key w) ''failed_job_count'' 1]"

definition increment_successful_job_count :: "worker \<Rightarrow> cmd list" where
  "increment_successful_job_count w = [HIncrBy (w_key w) ''successful_job_count'' 1]"

text \<open>The increment is in microseconds.\<close>

definition increment_total_working_time :: "int \<Rightarrow> worker \<Rightarrow> cmd list" where
  "increment_total_working_time us w = [HIncrByFloat (w_key w) ''total_working_time'' us]"

section \<open>Finding workers\<close>

text \<open>\<open>float(s)\<close> of a number of seconds, as microseconds: what is finer is cut off.\<close>

definition parse_seconds :: "string \<Rightarrow> datetime res" where
  "parse_seconds s =
     (case split_on CHR ''.'' s of
        [a] \<Rightarrow> (case int_digits 0 False a of Some m \<Rightarrow> Inr (m * usec) | None \<Rightarrow> Inl ValueError)
      | [a, b] \<Rightarrow> ts_parse (a @ CHR ''.'' # take 6 b)
      | _ \<Rightarrow> Inl ValueError)"

definition int_field :: "fields \<Rightarrow> string \<Rightarrow> int option res" where
  "int_field data k =
     (case fget data k of
        None \<Rightarrow> Inr None
      | Some v \<Rightarrow> (case int_of_str v of None \<Rightarrow> Inl ValueError | Some n \<Rightarrow> Inr (Some n)))"

definition date_field :: "fields \<Rightarrow> string \<Rightarrow> datetime option res" where
  "date_field data k = (case fget data k of None \<Rightarrow> Inr None | Some v \<Rightarrow> bindE (utcparse v) (\<lambda>t. Inr (Some t)))"

definition seconds_field :: "fields \<Rightarrow> string \<Rightarrow> datetime res" where
  "seconds_field data k = (case fget data k of None \<Rightarrow> Inr 0 | Some v \<Rightarrow> parse_seconds v)"

definition refresh_fields :: "string \<Rightarrow> fields \<Rightarrow> worker \<Rightarrow> worker res" where
  "refresh_fields pyver data w =
     bindE (int_field data ''pid'') (\<lambda>pid.
     bindE (date_field data ''last_heartbeat'') (\<lambda>h.
     bindE (date_field data ''birth'') (\<lambda>b.
     bindE (int_field data ''failed_job_count'') (\<lambda>nf.
     bindE (int_field data ''successful_job_count'') (\<lambda>ns.
     bindE (seconds_field data ''total_working_time'') (\<lambda>total.
     bindE (seconds_field data ''current_job_working_time'') (\<lambda>cur.
       Inr (w\<lparr>w_hostname := fget data ''hostname'', w_ip_address := fget data ''ip_address'', w_pid := pid,
              w_version := opt_default ''2.9.1'' (fget data ''version''),
              w_python_version := opt_default pyver (fget data ''python_version''),
              w_state := opt_default ''?'' (map_of data ''state''),
              w_last_heartbeat := h, w_birth_date := b,
              w_failed_job_count := opt_default 0 nf, w_successful_job_count := opt_default 0 ns,
              w_total_working_time := total, w_current_job_working_time := cur,
              w_queues := (case fget data ''queues'' of
                             None \<Rightarrow> w_queues w
                           | Some qs \<Rightarrow> map default_queue (split_on CHR '','' qs))\<rparr>))))))))"

definition refresh_worker :: "'s redis \<Rightarrow> 's \<Rightarrow> string \<Rightarrow> worker \<Rightarrow> worker res" where
  "refresh_worker R s pyver w =
     (let data = r_hash R s (w_key w) in if data = [] then Inr w else refresh_fields pyver data w)"

text \<open>\<open>find_by_key\<close>: a key that is gone is taken out of the set of workers.\<close>

definition find_by_key :: "'s redis \<Rightarrow> worker_class \<Rightarrow> string \<Rightarrow> key \<Rightarrow> 's \<Rightarrow> worker option res \<times> 's" where
  "find_by_key R cl pyver k s =
     (case worker_name_of_key k of
        Inl e \<Rightarrow> (Inl e, s)
      | Inr name \<Rightarrow>
          if \<not> key_exists R s k then (Inr None, r_run R (SRem workers_key [k]) s)
          else (bindE (refresh_worker R s pyver (new_worker cl name [] None pyver)) (\<lambda>w. Inr (Some w)), s))"

fun find_workers :: "'s redis \<Rightarrow> worker_class \<Rightarrow> string \<Rightarrow> key list \<Rightarrow> 's \<Rightarrow> worker option list res \<times> 's" where
  "find_workers R cl pyver [] s = (Inr [], s)"
| "find_workers R cl pyver (k # ks) s =
     (case find_by_key R cl pyver k s of
        (Inl e, s1) \<Rightarrow> (Inl e, s1)
      | (Inr w, s1) \<Rightarrow>
          (case find_workers R cl pyver ks s1 of (r, s2) \<Rightarrow> (bindE r (\<lambda>ws. Inr (w # ws)), s2)))"

definition all_workers :: "'s redis \<Rightarrow> worker_class \<Rightarrow> string \<Rightarrow> string option \<Rightarrow> 's \<Rightarrow> worker list res \<times> 's" where
  "all_workers R cl pyver q s =
     (case find_workers R cl pyver (get_keys R s q) s of (r, s') \<Rightarrow> (bindE r (\<lambda>ws. Inr (compact ws)), s'))"

section \<open>Suspension\<close>

definition is_suspended :: "'s redis \<Rightarrow> datetime \<Rightarrow> worker \<Rightarrow> ('s, bool \<times> worker) op" where
  "is_suspended R t w =
     bindO (worker_heartbeat_on R False None t w) (\<lambda>w1. bindO (ask (\<lambda>s. Inr (key_exists R s suspended_key))) (\<lambda>b. ret (b, w1)))"

definition suspend :: "int option \<Rightarrow> cmd list" where
  "suspend ttl = SetStr suspended_key ''1'' # (case ttl of None \<Rightarrow> [] | Some n \<Rightarrow> [Expire suspended_key n])"

definition resume :: "cmd list" where
  "resume = [Del [suspended_key]]"

section \<open>What a registered worker reads as\<close>

text \<open>What \<open>register_birth\<close> writes reads back.\<close>

definition registrable :: "worker \<Rightarrow> bool" where
  "registrable w \<longleftrightarrow>
     w_queues w \<noteq> [] \<and> (\<forall>q \<in> set (w_queues w). q_name q \<noteq> [] \<and> CHR '','' \<notin> set (q_name q) \<and> q = default_queue (q_name q)) \<and>
     w_pid w \<noteq> None \<and> w_hostname w \<notin> {None, Some []} \<and> w_ip_address w \<notin> {None, Some []} \<and>
     w_version w \<noteq> [] \<and> w_python_version w \<noteq> [] \<and> 0 < w_ttl w + 60"

lemma worker_queues_text:
  assumes "registrable w"
  shows "join '','' (queue_names w) \<noteq> []" "map default_queue (split_on CHR '','' (join '','' (queue_names w))) = w_queues w"
proof -
  have "split_on CHR '','' (join '','' (queue_names w)) = queue_names w"
    using assms by (intro join_split_on) (auto simp: registrable_def queue_names_def)
  moreover have "map (default_queue \<circ> q_name) (w_queues w) = w_queues w"
    using assms by (intro map_idI) (auto simp: registrable_def)
  ultimately show "map default_queue (split_on CHR '','' (join '','' (queue_names w))) = w_queues w"
    by (simp add: queue_names_def)
  show "join '','' (queue_names w) \<noteq> []"
    using assms by (cases "('','', queue_names w)" rule: join.cases) (auto simp: registrable_def queue_names_def)
qed

lemma worker_updates [simp]:
  "w_key (w\<lparr>w_birth_date := b, w_last_heartbeat := h\<rparr>) = w_key w"
  "register (w\<lparr>w_birth_date := b, w_last_heartbeat := h\<rparr>) = register w"
  "queue_names (w\<lparr>w_birth_date := b, w_last_heartbeat := h\<rparr>) = queue_names w"
  "registrable (w\<lparr>w_birth_date := b, w_last_heartbeat := h\<rparr>) = registrable w"
  by (simp_all add: w_key_def register_def queue_names_def registrable_def)

text \<open>A worker with what another process reads of it.\<close>

definition as_found :: "worker \<Rightarrow> worker \<Rightarrow> bool" where
  "as_found w w' \<longleftrightarrow>
     w_name w' = w_name w \<and> w_queues w' = w_queues w \<and> w_pid w' = w_pid w \<and> w_hostname w' = w_hostname w \<and>
     w_ip_address w' = w_ip_address w \<and> w_version w' = w_version w \<and> w_python_version w' = w_python_version w \<and>
     w_birth_date w' = w_birth_date w \<and> w_last_heartbeat w' = w_last_heartbeat w \<and> w_state w' = ''?'' \<and>
     w_failed_job_count w' = 0 \<and> w_successful_job_count w' = 0 \<and> w_total_working_time w' = 0"

lemma refresh_serialized:
  assumes "registrable w" "serialize w = Inr fs" "map_of data = map_of (rev fs)"
    and "w_birth_date w = Some t" "w_last_heartbeat w = Some h" "year_of t \<le> 9999" "year_of h \<le> 9999"
  shows "\<exists>w'. refresh_fields pyver data (new_worker cl (w_name w) [] None pyver') = Inr w' \<and> as_found w w'"
  using assms(1,2,4-7) worker_queues_text [OF assms(1)]
  by (auto simp: serialize_def registrable_def refresh_fields_def int_field_def date_field_def seconds_field_def fget_def assms(3)
      utcparse_utcformat as_found_def new_worker_def opt_default_def)

context redis_server
begin

lemma register_birth_run:
  fixes s :: 's
  assumes "registrable w" "key_exists R s (w_key w) \<Longrightarrow> hget R s (w_key w) ''death'' \<noteq> None"
    "serialize (w\<lparr>w_birth_date := Some t, w_last_heartbeat := Some t\<rparr>) = Inr fs"
  shows "\<exists>s'. register_birth R t w (s, buf) = (Inr (w\<lparr>w_birth_date := Some t, w_last_heartbeat := Some t\<rparr>), (s', buf)) \<and>
    hget R s' (w_key w) = map_of (rev fs) \<and>
    w_key w \<in> sset R s' workers_key \<and> (\<forall>q \<in> set (w_queues w). w_key w \<in> sset R s' (workers_by_queue_key (q_name q)))"
proof -
  let ?s = "run_all R ([Del [w_key w], HSet (w_key w) fs] @ register w @ [Expire (w_key w) (w_ttl w + 60)]) s"
  have run: "register_birth R t w (s, buf) = (Inr (w\<lparr>w_birth_date := Some t, w_last_heartbeat := Some t\<rparr>), (?s, buf))"
    using assms by (cases "key_exists R s (w_key w)") (auto simp: register_birth_def Let_def bindO_def seqO_def)
  let ?s2 = "run_all R [Del [w_key w], HSet (w_key w) fs] s"
  have touch: "\<forall>c \<in> set (register w). w_key w \<notin> set (touches c)" by (auto simp: register_def w_key_def)
  have "hget R (run_all R (register w) ?s2) (w_key w) = map_of (rev fs)"
    unfolding run_all_frame(4) [OF touch] by (simp add: hash_run wipe_def)
  then have 1: "hget R ?s (w_key w) = map_of (rev fs)" using assms(1) by (simp add: hash_run registrable_def)
  have adds: "sset R (run_all R (map (\<lambda>n. SAdd (f n) k) ns) s1) = (\<lambda>x. if x \<in> f ` set ns then insert k (sset R s1 x) else sset R s1 x)"
    for f k ns s1
    by (induction ns arbitrary: s1) (auto simp: set_run fun_eq_iff)
  have names: "set (queue_names w) = q_name ` set (w_queues w)" by (simp add: queue_names_def)
  have "w_key w \<in> sset R ?s workers_key" "\<forall>q \<in> set (w_queues w). w_key w \<in> sset R ?s (workers_by_queue_key (q_name q))"
    using assms(1) by (auto simp: register_def set_run adds registrable_def names)
  with run 1 show ?thesis by blast
qed

lemma registered_worker_found:
  fixes s :: 's
  assumes "registrable w" "key_exists R s (w_key w) \<Longrightarrow> hget R s (w_key w) ''death'' \<noteq> None" "year_of t \<le> 9999"
  shows "\<exists>w1 w2 s'. register_birth R t w (s, buf) = (Inr w1, (s', buf)) \<and>
    w_birth_date w1 = Some t \<and> find_by_key R cl pyver (w_key w) s' = (Inr (Some w2), s') \<and> as_found w1 w2 \<and>
    w_key w \<in> sset R s' workers_key \<and> (\<forall>q \<in> set (w_queues w). w_key w \<in> sset R s' (workers_by_queue_key (q_name q))) \<and>
    (\<forall>w' t'. w_name w' = w_name w \<longrightarrow> register_birth R t' w' (s', buf) = (Inl ValueError, (s', buf)))"
proof -
  let ?w = "w\<lparr>w_birth_date := Some t, w_last_heartbeat := Some t\<rparr>"
  obtain fs where fs: "serialize ?w = Inr fs" using assms(1) by (auto simp: serialize_def registrable_def)
  obtain s' where s': "register_birth R t w (s, buf) = (Inr ?w, (s', buf))" "hget R s' (w_key w) = map_of (rev fs)"
    "w_key w \<in> sset R s' workers_key" "\<forall>q \<in> set (w_queues w). w_key w \<in> sset R s' (workers_by_queue_key (q_name q))"
    using register_birth_run [OF assms(1,2) fs] by blast
  have full: "map_of (rev fs) ''birth'' = Some (utcformat t)" "map_of (rev fs) ''death'' = None"
    using fs by (auto simp: serialize_def split: option.splits)
  then have ex: "key_exists R s' (w_key w)" using s'(2) by (auto simp: key_exists_iff)
  have data: "map_of (r_hash R s' (w_key w)) = map_of (rev fs)" using s'(2) by (simp add: hget_def)
  then have "r_hash R s' (w_key w) \<noteq> []" using full by auto
  moreover obtain w2 where w2: "refresh_fields pyver (r_hash R s' (w_key w)) (new_worker cl (w_name w) [] None pyver) = Inr w2"
    "as_found ?w w2"
    using refresh_serialized [of ?w fs "r_hash R s' (w_key w)" t t pyver cl pyver] assms(1,3) fs data by auto
  ultimately have "find_by_key R cl pyver (w_key w) s' = (Inr (Some w2), s')"
    using ex by (simp add: find_by_key_def refresh_worker_def w_key_def new_worker_def Let_def)
  moreover have "register_birth R t' w' (s', buf) = (Inl ValueError, (s', buf))" if "w_name w' = w_name w" for w' t'
    using that ex s'(2) full by (simp add: register_birth_def bindO_def w_key_def)
  ultimately show ?thesis using s' w2(2) by (intro exI [of _ ?w] exI [of _ w2] exI [of _ s']) simp
qed

end

section \<open>Properties\<close>

text \<open>
  Registering a worker: unless a worker of the same name is alive, \<open>register_birth\<close> succeeds, and
  then any other process finds the worker by its key, with its name, queues, process id, host, address,
  versions and times; it is in the set of all workers and in that of each of its queues; and no other
  worker can register under the name.
\<close>

theorem worker_registration:
  assumes "redis_server R" "registrable w" "year_of t \<le> 9999"
    and "key_exists R s (w_key w) \<Longrightarrow> hget R s (w_key w) ''death'' \<noteq> None"
  shows "\<exists>w1 w2 s'. register_birth R t w (s, buf) = (Inr w1, (s', buf)) \<and>
    w_birth_date w1 = Some t \<and> find_by_key R cl pyver (w_key w) s' = (Inr (Some w2), s') \<and> as_found w1 w2 \<and>
    w_key w \<in> sset R s' workers_key \<and> (\<forall>q \<in> set (w_queues w). w_key w \<in> sset R s' (workers_by_queue_key (q_name q))) \<and>
    (\<forall>w' t'. w_name w' = w_name w \<longrightarrow> register_birth R t' w' (s', buf) = (Inl ValueError, (s', buf)))"
  by (rule redis_server.registered_worker_found [OF assms(1,2) _ assms(3)]) (rule assms(4))

theorem worker_registration_witness:
  "\<exists>w. w_name w = ''w'' \<and> (\<exists>w1 s'. register_birth mem_redis 0 w (mem_empty, []) = (Inr w1, (s', [])) \<and>
     register_birth mem_redis 0 w (s', []) = (Inl ValueError, (s', [])))"
proof -
  let ?w = "(new_worker Simple ''w'' [default_queue ''q''] None ''3'')\<lparr>w_pid := Some 1, w_hostname := Some ''h''\<rparr>"
  have "registrable ?w" "year_of 0 \<le> 9999"
    by (simp_all add: registrable_def new_worker_def default_queue_def default_worker_ttl_def)
  from worker_registration [OF mem.redis_server_axioms this, of mem_empty "[]" Simple "[]"]
  show ?thesis by (intro exI [of _ ?w]) (auto simp: new_worker_def)
qed

end
