(* ===== verification/Work.thy ===== *)
theory Work
  imports Worker
begin

text \<open>
  A worker at work (\<open>rq/worker/base.py\<close>, \<open>rq/worker/worker_classes.py\<close>, \<open>rq/intermediate_queue.py\<close>,
  \<open>prepare_execution\<close> and \<open>cleanup_execution\<close> of \<open>rq/executions.py\<close>): preparing a job, running it, what
  follows its success, its failure and a retry it asks for, the heartbeats of the parent process, the
  maintenance tasks and the loop of \<open>work\<close>.

  \<open>t\<close> is the clock when a job starts and \<open>u\<close> when it has ended. What a step that raised had changed in
  the objects before it raised is dropped, as no code reads it but the handling of the failure.
\<close>

section \<open>Preparing\<close>

text \<open>\<open>prepare_execution\<close> of the parent process; \<open>eid\<close> is a fresh uuid.\<close>

definition prepare_execution :: "'s redis \<Rightarrow> datetime \<Rightarrow> string \<Rightarrow> job \<Rightarrow> worker \<Rightarrow> ('s, worker) op" where
  "prepare_execution R t eid j w =
     (case create_execution (j_origin j) (j_id j) eid (get_heartbeat_ttl w j) t of
        (cs, e) \<Rightarrow>
          seqO (send R False (cs @ fst (set_state ''busy'' w)))
            (ret (snd (set_state ''busy'' w)\<lparr>w_execution := Some e\<rparr>)))"

text \<open>
  \<open>prepare_job_execution\<close> of the process that runs the job. Its last line reads the function's name, which
  raises when the payload cannot be read.
\<close>

definition prepare_cmds :: "datetime \<Rightarrow> bool \<Rightarrow> job \<Rightarrow> worker \<Rightarrow> cmd list" where
  "prepare_cmds t from_intermediate j w =
     set_current_job_id (Some (j_id j)) w @ fst (set_current_job_working_time 0 True w) @
     fst (worker_heartbeat (Some (get_heartbeat_ttl (w\<lparr>w_current_job_working_time := 0\<rparr>) j)) t w) @
     fst (heartbeat t j) @ fst (prepare_for_execution (w_name w) t j) @
     (if from_intermediate then [LRem (intermediate_key (queue_key (j_origin j))) (j_id j)] else [])"

text \<open>A worker of one queue takes its jobs by way of the intermediate queue.\<close>

definition only_queue :: "worker \<Rightarrow> bool" where
  "only_queue w \<longleftrightarrow> length (w_queues w) = 1"

definition prepare_job_execution :: "codec \<Rightarrow> 's redis \<Rightarrow> datetime \<Rightarrow> bool \<Rightarrow> job \<Rightarrow> worker \<Rightarrow> ('s, job) op" where
  "prepare_job_execution C R t from_intermediate j w =
     seqO (send R False (prepare_cmds t from_intermediate j w))
       (bindO (liftE (get_func_name C (snd (prepare_for_execution (w_name w) t j)))) (\<lambda>(_, j1). ret j1))"

definition prepared_worker :: "datetime \<Rightarrow> worker \<Rightarrow> worker" where
  "prepared_worker t w = w\<lparr>w_current_job_working_time := 0, w_last_heartbeat := Some t\<rparr>"

section \<open>After a job\<close>

text \<open>\<open>cleanup_execution\<close> on a pipeline: the commands; the worker then has no execution.\<close>

definition cleanup_execution :: "job \<Rightarrow> worker \<Rightarrow> cmd list" where
  "cleanup_execution j w =
     set_current_job_id None w @
     (case w_execution w of None \<Rightarrow> [] | Some e \<Rightarrow> delete_execution (j_origin j) e)"

definition worker_exec :: "job \<Rightarrow> worker \<Rightarrow> exec_info" where
  "worker_exec j w =
     \<lparr>ei_id = map_option ex_id (w_execution w), ei_started_at = map_option ex_created_at (w_execution w),
      ei_ended_at = j_ended_at j\<rparr>"

definition working_time_cmds :: "job \<Rightarrow> worker \<Rightarrow> cmd list" where
  "working_time_cmds j w =
     (case (j_started_at j, j_ended_at j) of
        (Some a, Some b) \<Rightarrow> increment_total_working_time (int b - int a) w
      | _ \<Rightarrow> [])"

text \<open>\<open>handle_execution_ended\<close>.\<close>

definition handle_execution_ended :: "'s redis \<Rightarrow> datetime \<Rightarrow> job \<Rightarrow> ('s, job) op" where
  "handle_execution_ended R u j =
     seqO (send R False (fst (heartbeat u j))) (ret (j\<lparr>j_ended_at := Some u, j_last_heartbeat := Some u\<rparr>))"

text \<open>What follows a failure in its own right: the dependents are enqueued, and nothing that raises passes.\<close>

definition finish_failure :: "codec \<Rightarrow> 's redis \<Rightarrow> py \<Rightarrow> datetime \<Rightarrow> queue \<Rightarrow> bool \<Rightarrow> job \<Rightarrow> ('s, unit) op" where
  "finish_failure C R P u q dependents j =
     catchO (seqO (execute R) (if dependents then enqueue_dependents C R P u q False None True j else ret ()))
       (\<lambda>e. Some (ret ()))"

definition handle_job_failure ::
  "codec \<Rightarrow> 's redis \<Rightarrow> py \<Rightarrow> datetime \<Rightarrow> queue \<Rightarrow> string \<Rightarrow> job \<Rightarrow> worker \<Rightarrow> ('s, worker \<times> job) op" where
  "handle_job_failure C R P u q exc j w =
     (let stopped = (w_stopped_job_id w = Some (j_id j));
          again = (should_retry j \<and> \<not> stopped);
          w1 = w\<lparr>w_stopped_job_id := (if stopped then None else w_stopped_job_id w), w_execution := None\<rparr>
      in new_pipe
        (bindO (if stopped then set_status_on R True STOPPED j
                else if again then ret j else set_status_on R True FAILED j) (\<lambda>j1.
         seqO (send R True (cleanup_execution j1 w))
           (bindO (if \<not> w_disable_default_handler w \<and> \<not> again
                   then bindO (handle_failure C R u exc (w_name w) (worker_exec j1 w) j1) (\<lambda>j2. seqO (execute R) (ret j2))
                   else ret j1) (\<lambda>j2.
            seqO (send R True (increment_failed_job_count w @ working_time_cmds j2 w))
              (bindO (if again then retry_job C R P u q j2 else ret j2) (\<lambda>j3.
                seqO (finish_failure C R P u q (\<not> again) j3) (ret (w1, j3)))))))))"

text \<open>A job that returned a Retry: \<open>handle_job_retry\<close>.\<close>

definition handle_job_retry ::
  "codec \<Rightarrow> 's redis \<Rightarrow> py \<Rightarrow> datetime \<Rightarrow> queue \<Rightarrow> retry \<Rightarrow> pyval \<Rightarrow> job \<Rightarrow> worker \<Rightarrow> ('s, worker \<times> job) op" where
  "handle_job_retry C R P u q r rv j w =
     (if (case j_number_of_retries j of None \<Rightarrow> False | Some n \<Rightarrow> n \<noteq> 0 \<and> rt_max r \<le> n) then
        new_pipe
          (bindO (set_status_on R True FAILED j) (\<lambda>j1.
           seqO (send R True (cleanup_execution j1 w))
             (bindO (failed_add C R u True (j_failure_ttl j1) [] j1) (\<lambda>j2.
              bindO (liftE (create_max_retries_exceeded C (j_id j2) (j_failure_ttl j2) rv (w_name w) (worker_exec j2 w))) (\<lambda>cs.
                seqO (send R True (cs @ increment_failed_job_count w @ working_time_cmds j2 w))
                  (seqO (finish_failure C R P u q True j2) (ret (w\<lparr>w_execution := None\<rparr>, j2))))))))
      else
        new_pipe
          (seqO (send R True (increment_failed_job_count w @ working_time_cmds j w))
            (bindO (handle_retry_result C R P u q r rv (w_name w) (worker_exec j w) j) (\<lambda>j1.
              seqO (send R True (cleanup_execution j1 w))
                (seqO (execute R) (ret (w\<lparr>w_execution := None\<rparr>, j1)))))))"

text \<open>
  \<open>handle_job_success\<close>, the attempt that succeeds. Its commands are queued on one pipeline, but for the
  entry of a repeat among the scheduled jobs. \<open>zone\<close> is the offset of the local time, for repeats.
\<close>

definition handle_job_success ::
  "codec \<Rightarrow> 's redis \<Rightarrow> py \<Rightarrow> datetime \<Rightarrow> int \<Rightarrow> queue \<Rightarrow> job \<Rightarrow> worker \<Rightarrow> ('s, worker \<times> job) op" where
  "handle_job_success C R P u zone q j w =
     (let ttl = get_result_ttl j (w_default_result_ttl w) in
      new_pipe
        (seqO (enqueue_dependents C R P u q True None True j)
          (seqO (send R True (increment_successful_job_count w @ working_time_cmds j w))
            (bindO (if ttl \<noteq> 0 then handle_success C R u ttl (w_name w) (worker_exec j w) j else ret j) (\<lambda>j1.
             bindO (if (case j_repeats_left j1 of None \<Rightarrow> False | Some n \<Rightarrow> 0 < n)
                    then schedule_repeat C R P u zone q True j1
                    else cleanup C R u True (Some ttl) False j1) (\<lambda>j2.
               seqO (send R True (cleanup_execution j2 w))
                 (seqO (execute R) (ret (w\<lparr>w_execution := None\<rparr>, j2)))))))))"

section \<open>Running a job\<close>

text \<open>
  The part of \<open>perform_job\<close> after the function returned \<open>v\<close>; \<open>as_retry\<close> says whether a value is a Retry
  object.
\<close>

definition after_return ::
  "codec \<Rightarrow> 's redis \<Rightarrow> py \<Rightarrow> (pyval \<Rightarrow> retry option) \<Rightarrow> datetime \<Rightarrow> int \<Rightarrow> queue \<Rightarrow> pyval \<Rightarrow> job \<Rightarrow> worker \<Rightarrow>
   ('s, worker \<times> job) op" where
  "after_return C R P as_retry u zone q v j w =
     (case as_retry v of
        Some r \<Rightarrow> if w_execution w = None then raiseO AssertionError else handle_job_retry C R P u q r v j w
      | None \<Rightarrow>
          seqO (run_callback P (j_success_callback_name j) (j\<lparr>j_status := FINISHED\<rparr>))
            (handle_job_success C R P u zone q (j\<lparr>j_status := FINISHED\<rparr>) w))"

text \<open>
  The \<open>except\<close> branch of \<open>perform_job\<close>. A failure callback that raises replaces the exception; an exception handler that
  raises ends it all.
\<close>

definition job_failed ::
  "codec \<Rightarrow> 's redis \<Rightarrow> py \<Rightarrow> datetime \<Rightarrow> queue \<Rightarrow> string \<Rightarrow> job \<Rightarrow> worker \<Rightarrow> ('s, worker \<times> job) op" where
  "job_failed C R P u q exc j w =
     bindO (handle_execution_ended R u (j\<lparr>j_status := FAILED\<rparr>)) (\<lambda>j1.
     bindO (catchO (seqO (run_callback P (j_failure_callback_name j1) j1) (ret exc)) (\<lambda>e. Some (ret (py_trace P e)))) (\<lambda>exc1.
     bindO (handle_exception C P exc1 j1) (\<lambda>j2.
       handle_job_failure C R P u q exc1 j2 w)))"

definition perform_job ::
  "codec \<Rightarrow> 's redis \<Rightarrow> py \<Rightarrow> (pyval \<Rightarrow> retry option) \<Rightarrow> datetime \<Rightarrow> datetime \<Rightarrow> int \<Rightarrow> queue \<Rightarrow> job \<Rightarrow> worker \<Rightarrow>
   ('s, bool \<times> worker \<times> job) op" where
  "perform_job C R P as_retry t u zone q j w =
     (let w1 = prepared_worker t w;
          fail = (\<lambda>exc j1. bindO (job_failed C R P u q exc j1 w1) (\<lambda>r. ret (False, r)))
      in
      bindO (catchO (bindO (prepare_job_execution C R t (only_queue w) j w) (\<lambda>j1. ret (Inr j1)))
               (\<lambda>e. Some (ret (Inl (py_trace P e))))) (\<lambda>prep.
        case prep of
          Inl exc \<Rightarrow> fail exc (snd (prepare_for_execution (w_name w) t j))
        | Inr j1 \<Rightarrow>
            bindO (perform C R P (j1\<lparr>j_started_at := Some t\<rparr>)) (\<lambda>(r, j2).
              case r of
                Inl exc \<Rightarrow> fail exc j2
              | Inr v \<Rightarrow>
                  bindO (handle_execution_ended R u j2) (\<lambda>j3.
                  bindO
                    (catchO (bindO (after_return C R P as_retry u zone q v j3 w1) (\<lambda>r. ret (Inr r)))
                      (\<lambda>e. Some (ret (Inl (py_trace P e)))))
                    (\<lambda>done. case done of Inr r \<Rightarrow> ret (True, r) | Inl exc \<Rightarrow> fail exc j3)))))"

section \<open>The processes of a job\<close>

text \<open>\<open>SimpleWorker.execute_job\<close>.\<close>

definition execute_job_simple ::
  "codec \<Rightarrow> 's redis \<Rightarrow> py \<Rightarrow> (pyval \<Rightarrow> retry option) \<Rightarrow> datetime \<Rightarrow> datetime \<Rightarrow> int \<Rightarrow> string \<Rightarrow> queue \<Rightarrow> job \<Rightarrow> worker \<Rightarrow>
   ('s, worker) op" where
  "execute_job_simple C R P as_retry t u zone eid q j w =
     bindO (prepare_execution R t eid j w) (\<lambda>w1.
     bindO (perform_job C R P as_retry t u zone q j w1) (\<lambda>(_, w2, _).
       set_state_on R False ''idle'' w2))"

text \<open>
  The work horse is a child process with its own copy of the worker. It runs the job, or is killed
  after some commands; the text is what the parent makes of the way it ended.
\<close>

datatype horse = HorseRuns | HorseKilled "cmd list" string

definition work_horse ::
  "codec \<Rightarrow> 's redis \<Rightarrow> py \<Rightarrow> (pyval \<Rightarrow> retry option) \<Rightarrow> datetime \<Rightarrow> datetime \<Rightarrow> int \<Rightarrow> queue \<Rightarrow> job \<Rightarrow> worker \<Rightarrow> horse \<Rightarrow>
   ('s, string option) op" where
  "work_horse C R P as_retry t u zone q j w h =
     (case h of
        HorseRuns \<Rightarrow>
          catchO (bindO (perform_job C R P as_retry t u zone q j w) (\<lambda>_. ret None))
            (\<lambda>e. Some (ret (Some ''Work-horse terminated unexpectedly; waitpid returned 256; '')))
      | HorseKilled cs exc \<Rightarrow> seqO (send R False cs) (ret (Some exc)))"

text \<open>
  One wake-up of \<open>monitor_work_horse\<close>: the time worked so far is stored, and the horse is killed
  when it is a minute over its timeout, otherwise the heartbeats are sent.
\<close>

definition overdue :: "datetime \<Rightarrow> datetime \<Rightarrow> job \<Rightarrow> bool" where
  "overdue start t j =
     (case j_timeout j of None \<Rightarrow> False | Some n \<Rightarrow> n \<noteq> - 1 \<and> (n + 60) * int usec < int t - int start)"

text \<open>
  \<open>maintain_heartbeats\<close>. HSET replies with the number of new fields: a 1 for the job means that its hash
  was gone and has just come back with this one field, so it is deleted; a 1 for the worker means the
  same of its hash, which is then written in full.
\<close>

definition maintain_heartbeats :: "'s redis \<Rightarrow> datetime \<Rightarrow> job \<Rightarrow> worker \<Rightarrow> ('s, worker) op" where
  "maintain_heartbeats R t j w =
     (case w_execution w of
        None \<Rightarrow> raiseO AttributeError
      | Some e \<Rightarrow>
          let (cs, w1) = worker_heartbeat (Some (w_job_monitoring_interval w + 60)) t w;
              (es, e1) = heartbeat_execution (j_origin j) (get_heartbeat_ttl w1 j) t e;
              w2 = w1\<lparr>w_execution := Some e1\<rparr>
          in
          bindO (ask (\<lambda>s. Inr (hget R (run_all R (cs @ es) s) (job_key (j_id j)) ''last_heartbeat'' = None,
                               hget R s (w_key w) ''last_heartbeat'' = None))) (\<lambda>(job_new, worker_new).
          seqO (send R False (cs @ es @ fst (heartbeat t j)))
            (bindO (if worker_new then bindO (liftE (serialize w2)) (\<lambda>fs. ret [HSet (w_key w) fs]) else ret []) (\<lambda>ws.
              seqO (send R False ((if job_new then [Del [job_key (j_id j)]] else []) @ ws)) (ret w2)))))"

definition monitor_tick :: "'s redis \<Rightarrow> datetime \<Rightarrow> datetime \<Rightarrow> job \<Rightarrow> worker \<Rightarrow> ('s, bool \<times> worker) op" where
  "monitor_tick R start t j w =
     (case set_current_job_working_time (t - start) False w of
        (cs, w1) \<Rightarrow>
          seqO (send R False cs)
            (if overdue start t j
             then bindO (worker_heartbeat_on R False (Some (w_job_monitoring_interval w + 60)) t w1) (\<lambda>w2. ret (True, w2))
             else bindO (maintain_heartbeats R t j w1) (\<lambda>w2. ret (False, w2))))"

text \<open>What the parent does when the horse has ended, with \<open>None\<close> for an exit code of 0.\<close>

definition after_horse ::
  "codec \<Rightarrow> 's redis \<Rightarrow> py \<Rightarrow> datetime \<Rightarrow> queue \<Rightarrow> job \<Rightarrow> worker \<Rightarrow> string option \<Rightarrow> ('s, worker) op" where
  "after_horse C R P u q j w ended =
     (case set_current_job_working_time 0 True w of
        (cs, w1) \<Rightarrow>
          seqO (send R False cs)
            (case ended of
               None \<Rightarrow> ret w1
             | Some exc \<Rightarrow>
                 bindO (ask (\<lambda>s. case get_status R s (j_id j) of
                                   Inl InvalidJobOperation \<Rightarrow> Inr None | Inl e \<Rightarrow> Inl e | Inr st \<Rightarrow> Inr (Some st))) (\<lambda>ost.
                   case ost of
                     None \<Rightarrow> ret w1
                   | Some st \<Rightarrow>
                       let j1 = j\<lparr>j_status := st\<rparr> in
                       if w_stopped_job_id w = Some (j_id j) then
                         seqO (run_callback P (j_stopped_callback_name j1) j1)
                           (bindO (handle_job_failure C R P u q ''Job stopped by user, work-horse terminated.'' j1 w1)
                              (\<lambda>r. ret (fst r)))
                       else if st \<notin> {FINISHED, FAILED} then
                         bindO (handle_job_failure C R P u q exc (j1\<lparr>j_ended_at := Some u\<rparr>) w1) (\<lambda>r. ret (fst r))
                       else ret w1)))"

text \<open>\<open>Worker.execute_job\<close>, the wake-ups of the parent left out.\<close>

definition execute_job_forked ::
  "codec \<Rightarrow> 's redis \<Rightarrow> py \<Rightarrow> (pyval \<Rightarrow> retry option) \<Rightarrow> datetime \<Rightarrow> datetime \<Rightarrow> int \<Rightarrow> string \<Rightarrow> horse \<Rightarrow> queue \<Rightarrow> job \<Rightarrow>
   worker \<Rightarrow> ('s, worker) op" where
  "execute_job_forked C R P as_retry t u zone eid h q j w =
     bindO (prepare_execution R t eid j w) (\<lambda>w1.
     bindO (work_horse C R P as_retry t u zone q j w1 h) (\<lambda>ended.
     bindO (after_horse C R P u q (j\<lparr>j_started_at := Some t\<rparr>) w1 ended) (\<lambda>w2.
       set_state_on R False ''idle'' w2)))"

section \<open>The intermediate queue\<close>

text \<open>A job that was taken from its queue by LMOVE and has not been started yet.\<close>

definition intermediate_ids :: "'s redis \<Rightarrow> 's \<Rightarrow> string \<Rightarrow> string list" where
  "intermediate_ids R s q = r_list R s (intermediate_key (queue_key q))"

definition intermediate_remove :: "string \<Rightarrow> string \<Rightarrow> cmd list" where
  "intermediate_remove q i = [LRem (intermediate_key (queue_key q)) i]"

definition set_first_seen :: "'s redis \<Rightarrow> datetime \<Rightarrow> string \<Rightarrow> string \<Rightarrow> ('s, bool) op" where
  "set_first_seen R t q i =
     act (\<lambda>s. (Inr (\<not> key_exists R s (first_seen_key (queue_key q) i)),
               r_run R (SetNX (first_seen_key (queue_key q) i) (ts_text t) 86400) s))"

definition get_first_seen :: "'s redis \<Rightarrow> 's \<Rightarrow> string \<Rightarrow> string \<Rightarrow> datetime option res" where
  "get_first_seen R s q i =
     (case r_str R s (first_seen_key (queue_key q) i) of
        None \<Rightarrow> Inr None
      | Some v \<Rightarrow> if v = [] then Inr None else bindE (ts_parse v) (\<lambda>t. Inr (Some t)))"

definition should_be_cleaned_up :: "'s redis \<Rightarrow> 's \<Rightarrow> datetime \<Rightarrow> string \<Rightarrow> string \<Rightarrow> bool res" where
  "should_be_cleaned_up R s t q i =
     bindE (get_first_seen R s q i) (\<lambda>f.
       Inr (case f of None \<Rightarrow> False | Some f \<Rightarrow> int (60 * usec) < int t - int f))"

definition intermediate_step ::
  "codec \<Rightarrow> 's redis \<Rightarrow> py \<Rightarrow> datetime \<Rightarrow> queue \<Rightarrow> string \<Rightarrow> worker \<Rightarrow> ('s, worker) op" where
  "intermediate_step C R P t q i w =
     bindO (act (queue_fetch_job C R t (q_name q) i)) (\<lambda>oj.
     bindO (ask (\<lambda>s. reg_contains R s Started (q_name q) i)) (\<lambda>started.
       if started then ret w
       else
         case oj of
           None \<Rightarrow> seqO (send R False (intermediate_remove (q_name q) i)) (ret w)
         | Some j \<Rightarrow>
             bindO (set_first_seen R t (q_name q) i) (\<lambda>first.
               if first then ret w
               else
                 bindO (ask (\<lambda>s. should_be_cleaned_up R s t (q_name q) i)) (\<lambda>due.
                   if due then
                     bindO (handle_job_failure C R P t q ''Job was stuck in intermediate queue.'' j w) (\<lambda>r.
                       seqO (send R False (intermediate_remove (q_name q) i)) (ret (fst r)))
                   else ret w))))"

primrec thread :: "('a \<Rightarrow> 'b \<Rightarrow> ('s, 'b) op) \<Rightarrow> 'a list \<Rightarrow> 'b \<Rightarrow> ('s, 'b) op" where
  "thread f [] w = ret w"
| "thread f (x # xs) w = bindO (f x w) (thread f xs)"

definition intermediate_cleanup :: "codec \<Rightarrow> 's redis \<Rightarrow> py \<Rightarrow> datetime \<Rightarrow> queue \<Rightarrow> worker \<Rightarrow> ('s, worker) op" where
  "intermediate_cleanup C R P t q w =
     bindO (ask (\<lambda>s. Inr (intermediate_ids R s (q_name q)))) (\<lambda>ids. thread (intermediate_step C R P t q) ids w)"

section \<open>Maintenance\<close>

definition clean_queue :: "codec \<Rightarrow> 's redis \<Rightarrow> py \<Rightarrow> datetime \<Rightarrow> queue \<Rightarrow> worker \<Rightarrow> ('s, worker) op" where
  "clean_queue C R P t q w =
     bindO (act (\<lambda>s. case acquire_maintenance_lock R (q_name q) s of (b, s') \<Rightarrow> (Inr b, s'))) (\<lambda>locked.
       if locked then
         seqO (clean_registries C R P t (q_name q))
           (seqO (act (\<lambda>s. (Inr (), clean_worker_registry R (q_name q) s)))
             (bindO (intermediate_cleanup C R P t q w) (\<lambda>w1.
               seqO (send R False (release_maintenance_lock (q_name q))) (ret w1))))
       else ret w)"

definition worker_clean_registries :: "codec \<Rightarrow> 's redis \<Rightarrow> py \<Rightarrow> datetime \<Rightarrow> worker \<Rightarrow> ('s, worker) op" where
  "worker_clean_registries C R P t w =
     bindO (thread (clean_queue C R P t) (w_queues w) w) (\<lambda>w1. ret (w1\<lparr>w_last_cleaned_at := Some t\<rparr>))"

text \<open>The scheduler process of the worker, which this may restart, is in theory \<open>Scheduler\<close>.\<close>

definition run_maintenance_tasks :: "codec \<Rightarrow> 's redis \<Rightarrow> py \<Rightarrow> datetime \<Rightarrow> worker \<Rightarrow> ('s, worker) op" where
  "run_maintenance_tasks C R P t w =
     bindO (worker_clean_registries C R P t w) (\<lambda>w1. seqO (act (\<lambda>s. (Inr (), clean_groups R s))) (ret w1))"

section \<open>The loop of \<open>work\<close>\<close>

text \<open>
  What the loop meets, by the number of the poll: the clock, what other clients have done since the
  last poll, the uuids of the executions and the fate of the horses. \<open>None\<close> as the result of an
  operation is running out of fuel. The server's version is fixed, and connections do not fail;
  in theory \<open>Outages\<close> they do.
\<close>

record 's world =
  wd_clock :: "nat \<Rightarrow> datetime"
  wd_others :: "nat \<Rightarrow> 's \<Rightarrow> 's"
  wd_uuid :: "nat \<Rightarrow> string"
  wd_horse :: "nat \<Rightarrow> horse"
  wd_shuffle :: "queue list \<Rightarrow> queue list"
  wd_zone :: int
  wd_version :: "int \<times> int \<times> int"
  wd_as_retry :: "pyval \<Rightarrow> retry option"

definition others :: "'s world \<Rightarrow> nat \<Rightarrow> ('s, unit) op" where
  "others W k = act (\<lambda>s. (Inr (), wd_others W k s))"

text \<open>The rest of \<open>check_for_suspension\<close>: \<open>before\<close> is the state to come back to, once it was changed.\<close>

fun suspended_loop ::
  "'s redis \<Rightarrow> 's world \<Rightarrow> bool \<Rightarrow> nat \<Rightarrow> nat \<Rightarrow> string option \<Rightarrow> worker \<Rightarrow> ('s, (nat \<times> worker) option) op" where
  "suspended_loop R W burst 0 k before w = ret None"
| "suspended_loop R W burst (Suc n) k before w =
     (if w_stop_requested w then
        (case before of
           None \<Rightarrow> ret (Some (k, w))
         | Some st \<Rightarrow> if st = [] then ret (Some (k, w)) else bindO (set_state_on R False st w) (\<lambda>w1. ret (Some (k, w1))))
      else
        seqO (others W k)
          (bindO (is_suspended R (wd_clock W k) w) (\<lambda>(b, w1).
             if \<not> b then
               (case before of
                  None \<Rightarrow> ret (Some (Suc k, w1))
                | Some st \<Rightarrow>
                    if st = [] then ret (Some (Suc k, w1))
                    else bindO (set_state_on R False st w1) (\<lambda>w2. ret (Some (Suc k, w2))))
             else if burst then raiseO StopRequested
             else
               (case before of
                  None \<Rightarrow> bindO (set_state_on R False ''suspended'' w1) (suspended_loop R W burst n (Suc k) (Some (w_state w1)))
                | Some st \<Rightarrow> suspended_loop R W burst n (Suc k) before w1))))"

definition check_for_suspension ::
  "'s redis \<Rightarrow> 's world \<Rightarrow> bool \<Rightarrow> nat \<Rightarrow> nat \<Rightarrow> worker \<Rightarrow> ('s, (nat \<times> worker) option) op" where
  "check_for_suspension R W burst n k w = suspended_loop R W burst n k None w"

definition maintain :: "codec \<Rightarrow> 's redis \<Rightarrow> py \<Rightarrow> datetime \<Rightarrow> worker \<Rightarrow> ('s, worker) op" where
  "maintain C R P t w = (if should_run_maintenance_tasks t w then run_maintenance_tasks C R P t w else ret w)"

text \<open>\<open>dequeue_any\<close> with the fuel that is always enough, as theory \<open>Queue\<close> shows.\<close>

definition take_job :: "codec \<Rightarrow> 's redis \<Rightarrow> 's world \<Rightarrow> datetime \<Rightarrow> int option \<Rightarrow> worker \<Rightarrow> ('s, (job \<times> string) option) op" where
  "take_job C R W t timeout w =
     act (\<lambda>s. case dequeue_any C R t (wd_version W) (Suc (length (waiting R (map (queue_key \<circ> q_name) (w_ordered w)) s)))
                  (map q_name (w_ordered w)) timeout s of
                None \<Rightarrow> (Inr None, s)
              | Some r \<Rightarrow> r)"

definition named_queue :: "worker \<Rightarrow> string \<Rightarrow> queue" where
  "named_queue w n = (case find (\<lambda>q. q_name q = n) (w_ordered w) of None \<Rightarrow> default_queue n | Some q \<Rightarrow> q)"

text \<open>
  The inner loop of \<open>dequeue_job_and_maintain_ttl\<close>. A DequeueTimeout goes on with the next poll, or ends
  it when the worker has been idle for long enough; \<open>timeout\<close> only ever shrinks.
\<close>

fun dequeue_polls ::
  "codec \<Rightarrow> 's redis \<Rightarrow> py \<Rightarrow> 's world \<Rightarrow> int option \<Rightarrow> datetime \<Rightarrow> nat \<Rightarrow> nat \<Rightarrow> int option \<Rightarrow> int option \<Rightarrow> worker \<Rightarrow>
   ('s, (nat \<times> (job \<times> string) option \<times> worker) option) op" where
  "dequeue_polls C R P W max_idle since 0 k timeout idle_left w = ret None"
| "dequeue_polls C R P W max_idle since (Suc n) k timeout idle_left w =
     seqO (others W k)
       (bindO (worker_heartbeat_on R False None (wd_clock W k) w) (\<lambda>w1.
        bindO (maintain C R P (wd_clock W k) w1) (\<lambda>w2.
          let timeout1 = (case (timeout, idle_left) of (Some a, Some b) \<Rightarrow> Some (min a b) | _ \<Rightarrow> timeout) in
          bindO (catchO (bindO (take_job C R W (wd_clock W k) timeout1 w2) (\<lambda>r. ret (Some r)))
                   (\<lambda>e. if e = DequeueTimeout then Some (ret None) else None)) (\<lambda>r.
            case r of
              Some None \<Rightarrow> ret (Some (Suc k, None, w2))
            | Some (Some (j, q)) \<Rightarrow>
                bindO (liftE (reorder_queues (wd_shuffle W) q w2)) (\<lambda>w3. ret (Some (Suc k, Some (j, q), w3)))
            | None \<Rightarrow>
                (case max_idle of
                   None \<Rightarrow> dequeue_polls C R P W max_idle since n (Suc k) timeout1 idle_left w2
                 | Some m \<Rightarrow>
                     let left = ceildiv (m * int usec - (int (wd_clock W k) - int since)) (int usec) in
                     if left \<le> 0 then ret (Some (Suc k, None, w2))
                     else dequeue_polls C R P W max_idle since n (Suc k) timeout1 (Some left) w2)))))"

definition dequeue_job_and_maintain_ttl ::
  "codec \<Rightarrow> 's redis \<Rightarrow> py \<Rightarrow> 's world \<Rightarrow> int option \<Rightarrow> int option \<Rightarrow> nat \<Rightarrow> nat \<Rightarrow> worker \<Rightarrow>
   ('s, (nat \<times> (job \<times> string) option \<times> worker) option) op" where
  "dequeue_job_and_maintain_ttl C R P W timeout max_idle n k w =
     bindO (set_state_on R False ''idle'' w) (\<lambda>w1.
     bindO (dequeue_polls C R P W max_idle (wd_clock W k) n k timeout max_idle w1) (\<lambda>r.
       case r of
         None \<Rightarrow> ret None
       | Some (k1, found, w2) \<Rightarrow>
           bindO (worker_heartbeat_on R False None (wd_clock W k1) w2) (\<lambda>w3. ret (Some (k1, found, w3)))))"

definition execute_job_of ::
  "codec \<Rightarrow> 's redis \<Rightarrow> py \<Rightarrow> 's world \<Rightarrow> nat \<Rightarrow> queue \<Rightarrow> job \<Rightarrow> worker \<Rightarrow> ('s, worker) op" where
  "execute_job_of C R P W k q j w =
     (if w_class w = Simple
      then execute_job_simple C R P (wd_as_retry W) (wd_clock W k) (wd_clock W (Suc k)) (wd_zone W) (wd_uuid W k) q j w
      else execute_job_forked C R P (wd_as_retry W) (wd_clock W k) (wd_clock W (Suc k)) (wd_zone W) (wd_uuid W k)
             (wd_horse W k) q j w)"

text \<open>
  One round of \<open>work\<close>: \<open>None\<close> when the fuel ran out, otherwise whether a job was done and whether to stop.
\<close>

definition work_round ::
  "codec \<Rightarrow> 's redis \<Rightarrow> py \<Rightarrow> 's world \<Rightarrow> bool \<Rightarrow> int option \<Rightarrow> nat \<Rightarrow> nat \<Rightarrow> worker \<Rightarrow> ('s, (nat \<times> bool \<times> worker) option) op" where
  "work_round C R P W burst max_idle n k w =
     bindO (check_for_suspension R W burst n k w) (\<lambda>r.
       case r of
         None \<Rightarrow> ret None
       | Some (k1, w1) \<Rightarrow>
           bindO (maintain C R P (wd_clock W k1) w1) (\<lambda>w2.
             if w_stop_requested w2 then ret (Some (k1, False, w2))
             else
               bindO (dequeue_job_and_maintain_ttl C R P W (if burst then None else Some (dequeue_timeout w2)) max_idle n k1 w2)
                 (\<lambda>r. case r of
                        None \<Rightarrow> ret None
                      | Some (k2, None, w3) \<Rightarrow> ret (Some (k2, False, w3))
                      | Some (k2, Some (j, q), w3) \<Rightarrow>
                          bindO (execute_job_of C R P W k2 (named_queue w3 q) j w3) (\<lambda>w4.
                          bindO (worker_heartbeat_on R False None (wd_clock W (Suc k2)) w4) (\<lambda>w5.
                            ret (Some (Suc (Suc k2), True, w5)))))))"

text \<open>Whatever a round raises ends the loop; the jobs done before count.\<close>

fun work_loop ::
  "codec \<Rightarrow> 's redis \<Rightarrow> py \<Rightarrow> 's world \<Rightarrow> bool \<Rightarrow> int option \<Rightarrow> int option \<Rightarrow> nat \<Rightarrow> nat \<Rightarrow> nat \<Rightarrow> worker \<Rightarrow>
   ('s, (nat \<times> nat \<times> worker) option) op" where
  "work_loop C R P W burst max_jobs max_idle 0 k done w = ret None"
| "work_loop C R P W burst max_jobs max_idle (Suc n) k done w =
     bindO (catchO (bindO (work_round C R P W burst max_idle n k w) (\<lambda>r. ret (Inr r))) (\<lambda>e. Some (ret (Inl ())))) (\<lambda>r.
       case r of
         Inl _ \<Rightarrow> ret (Some (k, done, w))
       | Inr None \<Rightarrow> ret None
       | Inr (Some (k1, False, w1)) \<Rightarrow> ret (Some (k1, done, w1))
       | Inr (Some (k1, True, w1)) \<Rightarrow>
           if (case max_jobs of None \<Rightarrow> False | Some m \<Rightarrow> m \<le> int (Suc done)) then ret (Some (k1, Suc done, w1))
           else work_loop C R P W burst max_jobs max_idle n k1 (Suc done) w1)"

text \<open>
  \<open>work\<close>: registering, the loop, and \<open>teardown\<close>, which registers the death. The listener for commands and
  the scheduler process are in the theories \<open>Signals\<close>, \<open>Scheduler\<close> and \<open>Console\<close>.
\<close>

definition work ::
  "codec \<Rightarrow> 's redis \<Rightarrow> py \<Rightarrow> 's world \<Rightarrow> bool \<Rightarrow> int option \<Rightarrow> int option \<Rightarrow> nat \<Rightarrow> worker \<Rightarrow> ('s, bool option) op" where
  "work C R P W burst max_jobs max_idle n w =
     bindO (register_birth R (wd_clock W 0) w) (\<lambda>w1.
     bindO (set_state_on R False ''started'' w1) (\<lambda>w2.
     bindO (work_loop C R P W burst max_jobs max_idle n 0 0 w2) (\<lambda>r.
       case r of
         None \<Rightarrow> ret None
       | Some (k, done, w3) \<Rightarrow> seqO (register_death R (wd_clock W k) w3) (ret (Some (0 < done))))))"

section \<open>A job that returns\<close>

text \<open>Reading the payload of a job changes nothing of the object but the payload.\<close>

definition reloaded :: "job \<Rightarrow> job \<Rightarrow> bool" where
  "reloaded j j' \<longleftrightarrow>
     j' = j\<lparr>j_func_name := j_func_name j', j_instance := j_instance j', j_args := j_args j', j_kwargs := j_kwargs j',
           j_data := j_data j'\<rparr>"

lemma reloaded_refl [simp]: "reloaded j j"
  by (simp add: reloaded_def)

lemma reloaded_trans:
  assumes "reloaded j1 j2" "reloaded j2 j3"
  shows "reloaded j1 j3"
  unfolding reloaded_def by (subst assms(2) [unfolded reloaded_def], subst assms(1) [unfolded reloaded_def]) simp

lemma reloaded_fields:
  assumes "reloaded j j'"
  shows "j_id j' = j_id j" "j_origin j' = j_origin j" "j_ttl j' = j_ttl j" "j_result_ttl j' = j_result_ttl j"
    "j_success_callback_name j' = j_success_callback_name j" "j_failure_callback_name j' = j_failure_callback_name j"
    "j_repeats_left j' = j_repeats_left j" "j_retries_left j' = j_retries_left j" "j_started_at j' = j_started_at j"
    "j_failure_ttl j' = j_failure_ttl j" "j_status j' = j_status j" "j_retry_intervals j' = j_retry_intervals j"
    "j_ended_at j' = j_ended_at j"
  by (subst assms [unfolded reloaded_def], simp)+

lemma get_data_reloaded:
  assumes "get_data C j = Inr (d, j')"
  shows "reloaded j j'"
proof -
  note e = get_data_fields [OF assms]
  have f: "j_func_name j' = j_func_name j" "j_data j' = Val d" by (subst e, simp)+
  show ?thesis unfolding reloaded_def f by (rule trans [OF e]) simp
qed

lemma lazy_get_Inr:
  assumes "lazy_get C attr j = Inr (v, j')"
  shows "j' = j \<or> deserialize_data C j = Inr j'"
proof (cases "attr j")
  case (Val x)
  then show ?thesis using assms by (simp add: lazy_get_def)
next
  case UNEVALUATED
  then obtain x where "deserialize_data C j = Inr x" "(case attr x of Val v \<Rightarrow> Inr (v, x) | UNEVALUATED \<Rightarrow> Inl DeserializationError) = Inr (v, j')"
    using assms unfolding lazy_get_def by (auto simp: bindE_Inr_iff)
  then show ?thesis by (cases "attr x") simp_all
qed

lemma deserialize_data_Inr:
  assumes "deserialize_data C j = Inr j'"
  obtains d j1 f i a k where "get_data C j = Inr (d, j1)"
    "j' = j1\<lparr>j_func_name := Val f, j_instance := Val i, j_args := Val a, j_kwargs := Val k\<rparr>"
  using assms by (auto simp: deserialize_data_def split: sum.splits prod.splits option.splits list.splits)

lemma lazy_get_reloaded:
  assumes "lazy_get C attr j = Inr (v, j')"
  shows "reloaded j j'"
  using lazy_get_Inr [OF assms]
proof
  assume "deserialize_data C j = Inr j'"
  then obtain d j1 f i a k where j1: "get_data C j = Inr (d, j1)"
    "j' = j1\<lparr>j_func_name := Val f, j_instance := Val i, j_args := Val a, j_kwargs := Val k\<rparr>"
    by (rule deserialize_data_Inr)
  have "reloaded j1 j'" unfolding j1(2) reloaded_def by simp
  then show ?thesis using get_data_reloaded [OF j1(1)] reloaded_trans by blast
qed simp

lemma get_func_reloaded:
  assumes "get_func C j = Inr (f, j')"
  shows "reloaded j j'"
proof -
  obtain n j1 where n: "get_func_name C j = Inr (n, j1)" using assms by (auto simp: get_func_def bindE_Inr_iff)
  then have 1: "reloaded j j1" by (auto simp: get_func_name_def dest: lazy_get_reloaded)
  show ?thesis
  proof (cases "n = PNone")
    case True
    then show ?thesis using 1 assms n by (simp add: get_func_def)
  next
    case False
    then obtain i where "get_instance C j1 = Inr (i, j')"
      using assms n by (auto simp: get_func_def bindE_Inr_iff split: if_splits pyval.splits)
    then show ?thesis using 1 reloaded_trans by (auto simp: get_instance_def dest: lazy_get_reloaded)
  qed
qed

lemma execute_job_reloaded:
  assumes "execute_job C P j = (r, j')"
  shows "reloaded j j'"
proof (cases "get_func C j")
  case (Inl e)
  then show ?thesis using assms by (simp add: execute_job_def)
next
  case (Inr p)
  then obtain f j1 where f: "get_func C j = Inr (f, j1)" by (cases p) auto
  then have 1: "reloaded j j1" by (rule get_func_reloaded)
  show ?thesis
  proof (cases f)
    case None
    then show ?thesis using assms f 1 by (simp add: execute_job_def)
  next
    case (Some g)
    have 2: "reloaded j1 j3" if "get_args C j1 = Inr (a, j2)" "get_kwargs C j2 = Inr (k, j3)" for a k j2 j3
      using that reloaded_trans lazy_get_reloaded unfolding get_args_def get_kwargs_def by blast
    show ?thesis
      using assms f Some 1 reloaded_trans 2
      by (auto simp: execute_job_def split: sum.splits simp: bindE_Inr_iff bindE_Inl_iff)
  qed
qed

lemma read_call_reloaded: "reloaded j (read_call C j)"
proof (cases "bindE (get_func_name C j) (\<lambda>(_, j1). bindE (get_args C j1) (\<lambda>(_, j2). get_kwargs C j2))")
  case (Inl e)
  then show ?thesis by (simp add: read_call_def reloaded_def)
next
  case (Inr p)
  then show ?thesis
    using reloaded_trans lazy_get_reloaded
    by (auto simp: read_call_def bindE_Inr_iff get_func_name_def get_args_def get_kwargs_def split: sum.splits) blast
qed

lemmas read_call_fields [simp] = reloaded_fields [OF read_call_reloaded]

definition success_cmds :: "datetime \<Rightarrow> int \<Rightarrow> fields \<Rightarrow> cmd list \<Rightarrow> job \<Rightarrow> worker \<Rightarrow> cmd list" where
  "success_cmds u ttl fs rc j w =
     increment_successful_job_count w @ working_time_cmds j w @
     [HSet (job_key (j_id j)) [(''status'', status_text FINISHED)], HSet (job_key (j_id j)) fs] @ rc @
     reg_add Finished (j_origin j) (j_id j) ttl False u @ expire_keys j ttl @ cleanup_execution j w"

lemma expire_keys_same: "j_id k = j_id j \<Longrightarrow> expire_keys k n = expire_keys j n"
  by (simp add: expire_keys_def)

lemma cleanup_execution_same: "j_origin k = j_origin j \<Longrightarrow> cleanup_execution k w = cleanup_execution j w"
  by (simp add: cleanup_execution_def split: option.split)

lemma handle_job_success_eq:
  assumes "dependent_ids R s (j_id j) = []" "j_repeats_left j = None" "get_result_ttl j (w_default_result_ttl w) = ttl" "0 < ttl"
    and td: "to_dict C False False (j\<lparr>j_status := FINISHED\<rparr>) = Inr (fs, j3)"
    and rc: "create_result C (j_id j) SUCCESSFUL (Some ttl) (j_result j) None (w_name w) (worker_exec j w) = Inr rc"
  shows "handle_job_success C R P u zone q j w (s, buf) =
    (Inr (w\<lparr>w_execution := None\<rparr>, j3), (run_all R (success_cmds u ttl fs rc j w) s, buf))"
proof -
  obtain d where d: "get_data C (j\<lparr>j_status := FINISHED\<rparr>) = Inr (d, j3)" using td by (rule to_dict_Inr)
  have same: "j_id j3 = j_id j" "j_origin j3 = j_origin j" "j_result j3 = j_result j" "j_repeats_left j3 = j_repeats_left j"
    by (subst get_data_fields [OF d], simp)+
  show ?thesis
    using assms(1-4) td rc same
    by (simp add: handle_job_success_def enqueue_dependents_def new_pipe_def bindO_def seqO_def handle_success_def
        set_status_on_def set_status_def save_on_def save_def cleanup_def success_cmds_def
        expire_keys_same [OF same(1)] cleanup_execution_same [OF same(2)])
qed

lemma create_result_cmds:
  assumes "create_result C i y ttl v exc w ei = Inr rc" "c \<in> set rc"
  shows "touches c = [results_key i]"
  using assms by (auto simp: create_result_def save_result_def bindE_Inr_iff split: option.splits if_splits)

lemma delete_execution_touches:
  "c \<in> set (delete_execution q e) \<Longrightarrow> k \<in> set (touches c) \<Longrightarrow>
     k = ex_key e \<or> k = registry_key Started q \<or> k = executions_key (ex_job_id e)"
  by (auto simp: delete_execution_def remove_execution_def exreg_remove_def)

lemma cleanup_execution_touches:
  "c \<in> set (cleanup_execution j w) \<Longrightarrow> k \<in> set (touches c) \<Longrightarrow>
     k = w_key w \<or> k = registry_key Started (j_origin j) \<or>
     (\<exists>e. w_execution w = Some e \<and> (k = ex_key e \<or> k = executions_key (ex_job_id e)))"
  by (cases "w_execution w") (auto simp: cleanup_execution_def set_current_job_id_def dest!: delete_execution_touches)

lemma w_key_fam [simp]: "fam (w_key w) = ''worker''"
  by (simp add: w_key_def)

lemma ex_key_fam [simp]: "fam (ex_key e) = ''execution''"
  by (simp add: ex_key_def)

lemma entity_key_neq [simp]:
  "fam k \<noteq> ''worker'' \<Longrightarrow> w_key w \<noteq> k" "fam k \<noteq> ''worker'' \<Longrightarrow> k \<noteq> w_key w"
  "fam k \<noteq> ''execution'' \<Longrightarrow> ex_key e \<noteq> k" "fam k \<noteq> ''execution'' \<Longrightarrow> k \<noteq> ex_key e"
  by auto

context redis_server
begin

lemma expire_keys_run:
  fixes s :: 's
  assumes "0 < n"
  shows "r_list R (run_all R (expire_keys j n) s) = r_list R s" "sset R (run_all R (expire_keys j n) s) = sset R s"
    "zscore R (run_all R (expire_keys j n) s) = zscore R s" "hget R (run_all R (expire_keys j n) s) = hget R s"
    "r_str R (run_all R (expire_keys j n) s) = r_str R s"
  using assms by (simp_all add: expire_keys_def list_run set_run zset_run hash_run str_run)

lemma delete_execution_run:
  fixes s :: 's
  shows "r_list R (run_all R (delete_execution q e) s) k = (if k = ex_key e then [] else r_list R s k)"
    "zscore R (run_all R (delete_execution q e) s) (registry_key Started q) (ex_composite e) = None"
    "zscore R (run_all R (delete_execution q e) s) (executions_key (ex_job_id e)) (ex_id e) = None"
    "hget R (run_all R (delete_execution q e) s) (ex_key e) = Map.empty"
  by (simp_all add: delete_execution_def remove_execution_def exreg_remove_def list_run zset_run hash_run wipe_def ex_key_def)

lemma cleanup_execution_run:
  fixes s :: 's
  shows "hget R (run_all R (cleanup_execution j w) s) (w_key w) ''current_job'' = None"
    "w_execution w = Some e \<Longrightarrow>
       zscore R (run_all R (cleanup_execution j w) s) (registry_key Started (j_origin j)) (ex_composite e) = None \<and>
       hget R (run_all R (cleanup_execution j w) s) (ex_key e) = Map.empty"
proof -
  let ?s = "r_run R (HDel (w_key w) ''current_job'') s"
  have 0: "hget R ?s (w_key w) ''current_job'' = None" by (simp add: hash_run)
  show "hget R (run_all R (cleanup_execution j w) s) (w_key w) ''current_job'' = None"
  proof (cases "w_execution w")
    case (Some e)
    have "\<forall>c \<in> set (delete_execution (j_origin j) e). w_key w \<notin> set (touches c)"
      by (auto dest!: delete_execution_touches)
    from run_all_frame(4) [OF this] 0 Some show ?thesis by (simp add: cleanup_execution_def set_current_job_id_def)
  qed (use 0 in \<open>simp add: cleanup_execution_def set_current_job_id_def\<close>)
  show "w_execution w = Some e \<Longrightarrow>
       zscore R (run_all R (cleanup_execution j w) s) (registry_key Started (j_origin j)) (ex_composite e) = None \<and>
       hget R (run_all R (cleanup_execution j w) s) (ex_key e) = Map.empty"
    by (simp add: cleanup_execution_def set_current_job_id_def delete_execution_run)
qed

lemma success_run:
  fixes s :: 's and u ttl fs rc j w
  assumes "0 < ttl" and rc: "create_result C (j_id j) SUCCESSFUL (Some ttl) v None wn ei = Inr rc"
    and st: "map_of (rev fs) ''status'' = Some (status_text FINISHED)"
  defines "s' \<equiv> run_all R (success_cmds u ttl fs rc j w) s"
  shows "get_status R s' (j_id j) = Inr FINISHED"
    "zscore R s' (registry_key Finished (j_origin j)) (j_id j) = Some (Fin (current_timestamp u + ttl))"
    "hget R s' (w_key w) ''current_job'' = None"
    "w_execution w = Some e \<Longrightarrow> zscore R s' (registry_key Started (j_origin j)) (ex_composite e) = None \<and>
       hget R s' (ex_key e) = Map.empty"
    "r_list R s' (queue_key p) = r_list R s (queue_key p)"
proof -
  let ?s1 = "run_all R (increment_successful_job_count w @ working_time_cmds j w) s"
  let ?s2 = "run_all R [HSet (job_key (j_id j)) [(''status'', status_text FINISHED)], HSet (job_key (j_id j)) fs] ?s1"
  let ?s3 = "run_all R rc ?s2"
  let ?s4 = "run_all R (reg_add Finished (j_origin j) (j_id j) ttl False u) ?s3"
  let ?s5 = "run_all R (expire_keys j ttl) ?s4"
  have s': "s' = run_all R (cleanup_execution j w) ?s5" by (simp add: s'_def success_cmds_def)
  have rc_frame: "\<forall>c \<in> set rc. k \<notin> set (touches c)" if "k \<noteq> results_key (j_id j)" for k
    using create_result_cmds [OF rc] that by auto
  have clean: "\<forall>c \<in> set (cleanup_execution j w). k \<notin> set (touches c)"
    if "fam k \<notin> {''worker'', ''wip'', ''execution'', ''executions''}" for k
    using that by (auto dest!: cleanup_execution_touches)
  have "hget R ?s2 (job_key (j_id j)) ''status'' = Some (status_text FINISHED)" using st by (simp add: hash_run)
  then have "hget R ?s4 (job_key (j_id j)) ''status'' = Some (status_text FINISHED)"
    using run_all_frame(4) [OF rc_frame] by (simp add: reg_add_def hash_run)
  then have "hget R s' (job_key (j_id j)) ''status'' = Some (status_text FINISHED)"
    using run_all_frame(4) [OF clean [of "job_key (j_id j)"]] expire_keys_run(4) [OF assms(1)] by (simp add: s')
  then show "get_status R s' (j_id j) = Inr FINISHED" by (simp add: get_status_def)
  have "zscore R ?s4 (registry_key Finished (j_origin j)) (j_id j) = Some (Fin (current_timestamp u + ttl))"
    using assms(1) by (simp add: reg_add_def zset_run xx_flag_def expiry_score_def current_timestamp_def)
  then show "zscore R s' (registry_key Finished (j_origin j)) (j_id j) = Some (Fin (current_timestamp u + ttl))"
    using run_all_frame(3) [OF clean [of "registry_key Finished (j_origin j)"]] expire_keys_run(3) [OF assms(1)]
    by (simp add: s')
  show "hget R s' (w_key w) ''current_job'' = None"
    "w_execution w = Some e \<Longrightarrow> zscore R s' (registry_key Started (j_origin j)) (ex_composite e) = None \<and>
       hget R s' (ex_key e) = Map.empty"
    by (simp_all only: s' cleanup_execution_run)
  have "r_list R ?s1 (queue_key p) = r_list R s (queue_key p)"
    by (simp add: increment_successful_job_count_def working_time_cmds_def increment_total_working_time_def list_run
        split: option.split)
  then have "r_list R ?s4 (queue_key p) = r_list R s (queue_key p)"
    using run_all_frame(1) [OF rc_frame [of "queue_key p"]] by (simp add: reg_add_def list_run)
  then show "r_list R s' (queue_key p) = r_list R s (queue_key p)"
    using run_all_frame(1) [OF clean [of "queue_key p"]] expire_keys_run(1) [OF assms(1)] by (simp add: s')
qed

end

text \<open>The object after the function returned \<open>v\<close>, and the state in which the worker goes on.\<close>

definition returned :: "datetime \<Rightarrow> pyval \<Rightarrow> job \<Rightarrow> job" where
  "returned u v j = j\<lparr>j_result := v, j_ended_at := Some u, j_last_heartbeat := Some u, j_status := FINISHED\<rparr>"

definition started_cmds :: "datetime \<Rightarrow> datetime \<Rightarrow> job \<Rightarrow> worker \<Rightarrow> cmd list" where
  "started_cmds t u j w =
     prepare_cmds t (only_queue w) j w @ Persist (job_key (j_id j)) # fst (heartbeat u j)"

lemma prepared_worker_simps [simp]:
  "w_name (prepared_worker t w) = w_name w" "w_execution (prepared_worker t w) = w_execution w"
  "w_key (prepared_worker t w) = w_key w" "w_default_result_ttl (prepared_worker t w) = w_default_result_ttl w"
  "w_stopped_job_id (prepared_worker t w) = w_stopped_job_id w"
  "w_disable_default_handler (prepared_worker t w) = w_disable_default_handler w"
  by (simp_all add: prepared_worker_def w_key_def)

lemma perform_job_returns:
  assumes name: "get_func_name C (snd (prepare_for_execution (w_name w) t j)) = Inr (fn, j1)"
    and exec: "execute_job C P (j1\<lparr>j_started_at := Some t\<rparr>) = (Inr v, j2)"
    and "as_retry v = None" "j_success_callback_name j2 = None" "j_id j1 = j_id j" "j_id j2 = j_id j"
    and ok: "handle_job_success C R P u zone q (returned u v j2) (prepared_worker t w) (run_all R (started_cmds t u j w) s, buf) =
      (Inr r, (s', buf))"
  shows "perform_job C R P as_retry t u zone q j w (s, buf) = (Inr (True, r), (s', buf))"
proof -
  have prep: "prepare_job_execution C R t (only_queue w) j w (s, buf) =
      (Inr j1, (run_all R (prepare_cmds t (only_queue w) j w) s, buf))"
    using name by (simp add: prepare_job_execution_def bindO_def seqO_def)
  have j: "j2\<lparr>j_result := v, j_ended_at := Some u, j_last_heartbeat := Some u\<rparr>\<lparr>j_status := FINISHED\<rparr> = returned u v j2"
    by (simp add: returned_def)
  have h: "fst (heartbeat u (j2\<lparr>j_result := v\<rparr>)) = fst (heartbeat u j)" using assms(6) by (simp add: heartbeat_def)
  have ended: "handle_execution_ended R u (j2\<lparr>j_result := v\<rparr>) c =
      (case c of (s, buf) \<Rightarrow> (Inr (j2\<lparr>j_result := v, j_ended_at := Some u, j_last_heartbeat := Some u\<rparr>),
        (run_all R (fst (heartbeat u j)) s, buf)))" for c
    by (cases c) (simp add: handle_execution_ended_def h bindO_def seqO_def)
  have after: "after_return C R P as_retry u zone q v (j2\<lparr>j_result := v, j_ended_at := Some u, j_last_heartbeat := Some u\<rparr>)
      (prepared_worker t w) (run_all R (started_cmds t u j w) s, buf) = (Inr r, (s', buf))"
    using ok assms(3,4) by (simp add: after_return_def run_callback_def j [simplified] bindO_def seqO_def)
  have perf: "perform C R P (j1\<lparr>j_started_at := Some t\<rparr>) (s, buf) =
      (Inr (Inr v, j2\<lparr>j_result := v\<rparr>), (r_run R (Persist (job_key (j_id j))) s, buf))" for s buf
    using exec assms(5) by (simp add: perform_def bindO_def seqO_def)
  have st: "run_all R (started_cmds t u j w) s =
      run_all R (fst (heartbeat u j)) (r_run R (Persist (job_key (j_id j))) (run_all R (prepare_cmds t (only_queue w) j w) s))"
    by (simp add: started_cmds_def)
  have a: "bindO (prepare_job_execution C R t (only_queue w) j w) (\<lambda>j1. ret (Inr j1)) (s, buf) =
      (Inr (Inr j1), (run_all R (prepare_cmds t (only_queue w) j w) s, buf))"
    by (simp add: prep bindO_def)
  have b: "catchO (bindO (after_return C R P as_retry u zone q v (j2\<lparr>j_result := v, j_ended_at := Some u, j_last_heartbeat := Some u\<rparr>)
        (prepared_worker t w)) (\<lambda>r. ret (Inr r))) h (run_all R (started_cmds t u j w) s, buf) = (Inr (Inr r), (s', buf))" for h
    by (simp add: catchO_def bindO_def after)
  show ?thesis
    unfolding perform_job_def Let_def
    apply (subst bindO_Inr [where x = "Inr j1"])
     apply (simp add: catchO_def a)
    apply (simp add: perf ended st [symmetric])
    apply (subst bindO_Inr [where x = "Inr r"])
     apply (rule b)
    apply simp
    done
qed

lemma job_read:
  assumes "get_func_name C (snd (prepare_for_execution wn t j)) = Inr (fn, j1)"
    and "execute_job C P (j1\<lparr>j_started_at := Some t\<rparr>) = (r, j2)"
  shows "j_id j1 = j_id j" "j_id j2 = j_id j" "j_origin j2 = j_origin j" "j_success_callback_name j2 = j_success_callback_name j"
    "j_failure_callback_name j2 = j_failure_callback_name j" "j_repeats_left j2 = j_repeats_left j"
    "j_retries_left j2 = j_retries_left j" "j_result_ttl j2 = j_result_ttl j" "j_failure_ttl j2 = j_failure_ttl j"
    "j_ttl j2 = j_ttl j"
proof -
  have "reloaded (snd (prepare_for_execution wn t j)) j1"
    using assms(1) by (simp add: get_func_name_def lazy_get_reloaded)
  note 1 = reloaded_fields [OF this] and 2 = reloaded_fields [OF execute_job_reloaded [OF assms(2)]]
  show "j_id j1 = j_id j" "j_id j2 = j_id j" "j_origin j2 = j_origin j" "j_success_callback_name j2 = j_success_callback_name j"
    "j_failure_callback_name j2 = j_failure_callback_name j" "j_repeats_left j2 = j_repeats_left j"
    "j_retries_left j2 = j_retries_left j" "j_result_ttl j2 = j_result_ttl j" "j_failure_ttl j2 = j_failure_ttl j"
    "j_ttl j2 = j_ttl j"
    using 1 2 by (simp_all add: prepare_for_execution_def)
qed

lemma to_dict_status_any:
  assumes "to_dict C im ir j = Inr (fs, j')"
  shows "map_of (rev fs) ''status'' = Some (status_text (j_status j))"
proof -
  obtain d where d: "get_data C j = Inr (d, j')" using assms by (rule to_dict_Inr)
  then have "j_status j' = j_status j" using get_data_id by blast
  then show ?thesis using to_dict_field [OF assms, of "''status''"] by (auto simp: job_table_lookup)
qed

lemma returned_simps [simp]:
  "j_id (returned u v j) = j_id j" "j_origin (returned u v j) = j_origin j" "j_repeats_left (returned u v j) = j_repeats_left j"
  "j_result_ttl (returned u v j) = j_result_ttl j" "j_result (returned u v j) = v" "j_status (returned u v j) = FINISHED"
  "(returned u v j)\<lparr>j_status := FINISHED\<rparr> = returned u v j"
  by (simp_all add: returned_def)

context redis_server
begin

lemma started_run:
  fixes s :: 's
  shows "queue_key p \<noteq> intermediate_key (queue_key (j_origin j)) \<Longrightarrow>
      r_list R (run_all R (started_cmds t u j w) s) (queue_key p) = r_list R s (queue_key p)"
    "sset R (run_all R (started_cmds t u j w) s) (dependents_key i) = sset R s (dependents_key i)"
  by (simp_all add: started_cmds_def prepare_cmds_def set_current_job_id_def set_current_job_working_time_def
      worker_heartbeat_def heartbeat_def prepare_for_execution_def Let_def list_run set_run wipe_def)

lemma perform_job_success_run:
  fixes s :: 's
  assumes "get_func_name C (snd (prepare_for_execution (w_name w) t j)) = Inr (fn, j1)"
    and "execute_job C P (j1\<lparr>j_started_at := Some t\<rparr>) = (Inr v, j2)"
    and "as_retry v = None" "j_success_callback_name j = None" "sset R s (dependents_key (j_id j)) = {}"
    and "j_repeats_left j = None" "get_result_ttl j (w_default_result_ttl w) = ttl" "0 < ttl"
    and td: "to_dict C False False (returned u v j2) = Inr (fs, j3)"
    and rc: "create_result C (j_id j) SUCCESSFUL (Some ttl) v None (w_name w) (worker_exec (returned u v j2) w) = Inr rc"
  shows "\<exists>w' s'. perform_job C R P as_retry t u zone q j w (s, buf) = (Inr (True, w', j3), (s', buf)) \<and>
    w_execution w' = None \<and> get_status R s' (j_id j) = Inr FINISHED \<and>
    zscore R s' (registry_key Finished (j_origin j)) (j_id j) = Some (Fin (current_timestamp u + ttl)) \<and>
    hget R s' (w_key w) ''current_job'' = None \<and>
    (\<forall>e. w_execution w = Some e \<longrightarrow> zscore R s' (registry_key Started (j_origin j)) (ex_composite e) = None \<and>
       hget R s' (ex_key e) = Map.empty) \<and>
    (\<forall>p. queue_key p \<noteq> intermediate_key (queue_key (j_origin j)) \<longrightarrow> r_list R s' (queue_key p) = r_list R s (queue_key p))"
proof -
  let ?j = "returned u v j2" and ?w = "prepared_worker t w"
  let ?s1 = "run_all R (started_cmds t u j w) s"
  note rd = job_read [OF assms(1,2)]
  have dep: "dependent_ids R ?s1 (j_id ?j) = []"
    using started_run(2) [of t u j w s "j_id j"] assms(5) by (simp add: dependent_ids_def rd set_empty_iff)
  have ttl: "get_result_ttl ?j (w_default_result_ttl ?w) = ttl" using assms(7) by (simp add: get_result_ttl_def rd)
  have ex: "worker_exec ?j ?w = worker_exec ?j w" by (simp add: worker_exec_def)
  have rc': "create_result C (j_id ?j) SUCCESSFUL (Some ttl) (j_result ?j) None (w_name ?w) (worker_exec ?j ?w) = Inr rc"
    using rc by (simp add: rd ex)
  have td': "to_dict C False False (?j\<lparr>j_status := FINISHED\<rparr>) = Inr (fs, j3)" using td by simp
  have rep: "j_repeats_left ?j = None" using assms(6) by (simp add: rd)
  let ?cs = "success_cmds u ttl fs rc ?j ?w"
  have ok: "handle_job_success C R P u zone q ?j ?w (?s1, buf) = (Inr (?w\<lparr>w_execution := None\<rparr>, j3), (run_all R ?cs ?s1, buf))"
    by (rule handle_job_success_eq [OF dep rep ttl assms(8) td' rc'])
  have scb: "j_success_callback_name j2 = None" using assms(4) rd by simp
  have run: "perform_job C R P as_retry t u zone q j w (s, buf) =
      (Inr (True, ?w\<lparr>w_execution := None\<rparr>, j3), (run_all R ?cs ?s1, buf))"
    by (rule perform_job_returns [where as_retry = as_retry and C = C and P = P and r = "(?w\<lparr>w_execution := None\<rparr>, j3)",
        OF assms(1,2,3) scb rd(1,2) ok])
  have st: "map_of (rev fs) ''status'' = Some (status_text FINISHED)" using to_dict_status_any [OF td] by simp
  note eff = success_run [OF assms(8) rc' st, where s = ?s1 and u = u and w = ?w]
  have lists: "\<forall>p. queue_key p \<noteq> intermediate_key (queue_key (j_origin j)) \<longrightarrow> r_list R (run_all R ?cs ?s1) (queue_key p) = r_list R s (queue_key p)"
    using eff(5) started_run(1) by simp
  show ?thesis
    by (rule exI [of _ "?w\<lparr>w_execution := None\<rparr>"], rule exI [of _ "run_all R ?cs ?s1"])
      (use run eff(1-4) lists rd in simp)
qed

end

section \<open>A job that fails for good\<close>

definition failure_cmds :: "job_status \<Rightarrow> datetime \<Rightarrow> int \<Rightarrow> fields \<Rightarrow> cmd list \<Rightarrow> job \<Rightarrow> worker \<Rightarrow> cmd list" where
  "failure_cmds st u n fs rc j w =
     HSet (job_key (j_id j)) [(''status'', status_text st)] # cleanup_execution j w @
     HSet (job_key (j_id j)) fs # expire_keys j n @
     ZAdd ZAny (registry_key Failed (j_origin j)) (j_id j) (Fin (current_timestamp u + n)) # rc @
     increment_failed_job_count w @ working_time_cmds j w"

lemma working_time_same:
  "j_started_at k = j_started_at j \<Longrightarrow> j_ended_at k = j_ended_at j \<Longrightarrow> working_time_cmds k w = working_time_cmds j w"
  by (simp add: working_time_cmds_def)

text \<open>The final failure of a job: no retry is left, and no stop was asked for.\<close>

definition final_failure :: "job \<Rightarrow> worker \<Rightarrow> bool" where
  "final_failure j w \<longleftrightarrow> \<not> should_retry j \<and> w_stopped_job_id w \<noteq> Some (j_id j) \<and> \<not> w_disable_default_handler w"

text \<open>A failure with no retry to come: of a job that was stopped by the user, or one that is final.\<close>

definition fails_as :: "job_status \<Rightarrow> job \<Rightarrow> worker \<Rightarrow> bool" where
  "fails_as st j w \<longleftrightarrow>
     \<not> w_disable_default_handler w \<and>
     (if w_stopped_job_id w = Some (j_id j) then st = STOPPED else st = FAILED \<and> \<not> should_retry j)"

lemma final_failure_as: "final_failure j w \<Longrightarrow> fails_as FAILED j w"
  by (simp add: final_failure_def fails_as_def)

context redis_server
begin

lemma failure_run:
  fixes s :: 's and st u n fs rc j w
  assumes "0 < n" and rc: "create_failure C (j_id j) ttl exc wn ei = Inr rc"
    and status: "map_of (rev fs) ''status'' = Some (status_text st)"
  defines "s' \<equiv> run_all R (failure_cmds st u n fs rc j w) s"
  shows "get_status R s' (j_id j) = Inr st"
    "zscore R s' (registry_key Failed (j_origin j)) (j_id j) = Some (Fin (current_timestamp u + n))"
    "hget R s' (w_key w) ''current_job'' = None"
    "w_execution w = Some e \<Longrightarrow> zscore R s' (registry_key Started (j_origin j)) (ex_composite e) = None \<and>
       hget R s' (ex_key e) = Map.empty"
    "r_list R s' (queue_key p) = r_list R s (queue_key p)"
    "sset R s' (dependents_key i) = sset R s (dependents_key i)"
proof -
  let ?s1 = "r_run R (HSet (job_key (j_id j)) [(''status'', status_text st)]) s"
  let ?s2 = "run_all R (cleanup_execution j w) ?s1"
  let ?s3 = "run_all R (expire_keys j n) (r_run R (HSet (job_key (j_id j)) fs) ?s2)"
  let ?s4 = "r_run R (ZAdd ZAny (registry_key Failed (j_origin j)) (j_id j) (Fin (current_timestamp u + n))) ?s3"
  let ?s5 = "run_all R rc ?s4"
  let ?tail = "increment_failed_job_count w @ working_time_cmds j w"
  have s': "s' = run_all R ?tail ?s5" by (simp add: s'_def failure_cmds_def)
  have rc_frame: "\<forall>c \<in> set rc. k \<notin> set (touches c)" if "k \<noteq> results_key (j_id j)" for k
    using create_result_cmds [OF rc [unfolded create_failure_def]] that by auto
  have clean: "\<forall>c \<in> set (cleanup_execution j w). k \<notin> set (touches c)"
    if "fam k \<notin> {''worker'', ''wip'', ''execution'', ''executions''}" for k
    using that by (auto dest!: cleanup_execution_touches)
  have tail: "\<forall>c \<in> set ?tail. k \<notin> set (touches c)" if "fam k \<noteq> ''worker''" for k
    using that by (auto simp: increment_failed_job_count_def working_time_cmds_def increment_total_working_time_def
        split: option.split)
  note e = expire_keys_run [OF assms(1), of j]
  have "hget R ?s4 (job_key (j_id j)) ''status'' = Some (status_text st)" using status e by (simp add: hash_run)
  then have "hget R s' (job_key (j_id j)) ''status'' = Some (status_text st)"
    using run_all_frame(4) [OF rc_frame [of "job_key (j_id j)"]] run_all_frame(4) [OF tail [of "job_key (j_id j)"]]
    by (simp add: s')
  then show "get_status R s' (j_id j) = Inr st" by (simp add: get_status_def)
  have "zscore R ?s4 (registry_key Failed (j_origin j)) (j_id j) = Some (Fin (current_timestamp u + n))"
    by (simp add: zset_run)
  then show "zscore R s' (registry_key Failed (j_origin j)) (j_id j) = Some (Fin (current_timestamp u + n))"
    using run_all_frame(3) [OF rc_frame [of "registry_key Failed (j_origin j)"]]
      run_all_frame(3) [OF tail [of "registry_key Failed (j_origin j)"]] by (simp add: s')
  have "hget R ?s4 (w_key w) ''current_job'' = None"
    using cleanup_execution_run(1) [of j w ?s1] e by (simp add: hash_run)
  then have "hget R ?s5 (w_key w) ''current_job'' = None"
    using run_all_frame(4) [OF rc_frame [of "w_key w"]] by simp
  then show "hget R s' (w_key w) ''current_job'' = None"
    by (simp add: s' increment_failed_job_count_def working_time_cmds_def increment_total_working_time_def hash_run
        split: option.split)
  show "zscore R s' (registry_key Started (j_origin j)) (ex_composite e) = None \<and> hget R s' (ex_key e) = Map.empty"
    if "w_execution w = Some e"
    using cleanup_execution_run(2) [OF that, of j ?s1] e
      run_all_frame(3) [OF rc_frame [of "registry_key Started (j_origin j)"]]
      run_all_frame(3) [OF tail [of "registry_key Started (j_origin j)"]]
      run_all_frame(4) [OF rc_frame [of "ex_key e"]] run_all_frame(4) [OF tail [of "ex_key e"]]
    by (simp add: s' zset_run hash_run)
  show "r_list R s' (queue_key p) = r_list R s (queue_key p)"
    using run_all_frame(1) [OF tail [of "queue_key p"]] run_all_frame(1) [OF rc_frame [of "queue_key p"]]
      run_all_frame(1) [OF clean [of "queue_key p"]] e by (simp add: s' list_run)
  show "sset R s' (dependents_key i) = sset R s (dependents_key i)"
    using run_all_frame(2) [OF tail [of "dependents_key i"]] run_all_frame(2) [OF rc_frame [of "dependents_key i"]]
      run_all_frame(2) [OF clean [of "dependents_key i"]] e by (simp add: s' set_run)
qed

lemma handle_job_failure_as:
  fixes s :: 's
  assumes "fails_as st j w" "sset R s (dependents_key (j_id j)) = {}"
    and n: "n = opt_default default_failure_ttl (j_failure_ttl j)" "0 < n"
    and td: "to_dict C False False (j\<lparr>j_status := st, j_exc_info := Some exc\<rparr>) = Inr (fs, j3)"
    and rc: "create_failure C (j_id j) (j_failure_ttl j) exc (w_name w) (worker_exec j w) = Inr rc"
  shows "handle_job_failure C R P u q exc j w (s, buf) =
    (Inr (w\<lparr>w_stopped_job_id := (if w_stopped_job_id w = Some (j_id j) then None else w_stopped_job_id w), w_execution := None\<rparr>, j3),
     (run_all R (failure_cmds st u n fs rc j w) s, buf))"
proof -
  obtain d where d: "get_data C (j\<lparr>j_status := st, j_exc_info := Some exc\<rparr>) = Inr (d, j3)" using td by (rule to_dict_Inr)
  have same: "j_id j3 = j_id j" "j_origin j3 = j_origin j" "j_failure_ttl j3 = j_failure_ttl j"
    "j_started_at j3 = j_started_at j" "j_ended_at j3 = j_ended_at j"
    by (subst get_data_fields [OF d], simp)+
  let ?s' = "run_all R (failure_cmds st u n fs rc j w) s"
  have status: "map_of (rev fs) ''status'' = Some (status_text st)" using to_dict_status_any [OF td] by simp
  have "dependent_ids R ?s' (j_id j) = []"
    using failure_run(6) [OF n(2) rc status, where s = s and w = w and u = u and i = "j_id j"] assms(2)
    by (simp add: dependent_ids_def set_empty_iff)
  then have fin: "finish_failure C R P u q True j3 (run_all R (take k (failure_cmds st u n fs rc j w)) s, drop k (failure_cmds st u n fs rc j w)) =
      (Inr (), (?s', []))" for k
  proof -
    have "run_all R (drop k (failure_cmds st u n fs rc j w)) (run_all R (take k (failure_cmds st u n fs rc j w)) s) = ?s'"
      using run_all_simps(3) [of R "take k (failure_cmds st u n fs rc j w)" "drop k (failure_cmds st u n fs rc j w)" s] by simp
    with \<open>dependent_ids R ?s' (j_id j) = []\<close> show ?thesis
      by (simp add: finish_failure_def catchO_def bindO_def seqO_def enqueue_dependents_def own_pipe_def new_pipe_def same)
  qed
  have ex: "j_ended_at j3 = j_ended_at j" "worker_exec (j\<lparr>j_status := st\<rparr>) w = worker_exec j w"
    by (simp_all add: same worker_exec_def)
  let ?c1 = "HSet (job_key (j_id j)) [(''status'', status_text st)] # cleanup_execution j w @
     HSet (job_key (j_id j)) fs # expire_keys j n @
     ZAdd ZAny (registry_key Failed (j_origin j)) (j_id j) (Fin (current_timestamp u + n)) # rc"
  let ?c2 = "increment_failed_job_count w @ working_time_cmds j w"
  have split: "failure_cmds st u n fs rc j w = ?c1 @ ?c2" by (simp add: failure_cmds_def)
  note fin' = fin [of "length ?c1", unfolded split, simplified]
  have ok: "w_stopped_job_id w = Some (j_id j) \<or> \<not> should_retry j" "\<not> w_disable_default_handler w"
    "st = (if w_stopped_job_id w = Some (j_id j) then STOPPED else FAILED)"
    using assms(1) by (auto simp: fails_as_def split: if_splits)
  have fa: "failed_add C R u True (j_failure_ttl j) exc (j\<lparr>j_status := st\<rparr>) (s, b) =
      (Inr j3, (s, b @ HSet (job_key (j_id j)) fs # expire_keys j n @
        [ZAdd ZAny (registry_key Failed (j_origin j)) (j_id j) (Fin (current_timestamp u + n))]))" for b
    using td n by (simp add: failed_add_def Let_def save_on_def save_def bindO_def seqO_def cleanup_def same
        expire_keys_same [OF same(1)])
  have status_step: "(if w_stopped_job_id w = Some (j_id j) then set_status_on R True STOPPED j
      else if should_retry j \<and> w_stopped_job_id w \<noteq> Some (j_id j) then ret j else set_status_on R True FAILED j) = set_status_on R True st j"
    using ok by auto
  have again: "(should_retry j \<and> w_stopped_job_id w \<noteq> Some (j_id j)) = False" using ok(1) by blast
  show ?thesis
    unfolding handle_job_failure_def Let_def status_step unfolding again
    using ok(2) rc fin'
    by (simp add: Let_def new_pipe_def bindO_def seqO_def set_status_on_def set_status_def
        handle_failure_def fa same ex cleanup_execution_same [of "j\<lparr>j_status := st\<rparr>" j]
        working_time_same [of j3 j] split)
qed

lemma handle_job_failure_eq:
  fixes s :: 's
  assumes "final_failure j w" "sset R s (dependents_key (j_id j)) = {}"
    and n: "n = opt_default default_failure_ttl (j_failure_ttl j)" "0 < n"
    and td: "to_dict C False False (j\<lparr>j_status := FAILED, j_exc_info := Some exc\<rparr>) = Inr (fs, j3)"
    and rc: "create_failure C (j_id j) (j_failure_ttl j) exc (w_name w) (worker_exec j w) = Inr rc"
  shows "handle_job_failure C R P u q exc j w (s, buf) =
    (Inr (w\<lparr>w_execution := None\<rparr>, j3), (run_all R (failure_cmds FAILED u n fs rc j w) s, buf))"
proof -
  have w: "w\<lparr>w_stopped_job_id := w_stopped_job_id w, w_execution := None\<rparr> = w\<lparr>w_execution := None\<rparr>" by simp
  show ?thesis
    using handle_job_failure_as [OF final_failure_as [OF assms(1)] assms(2) n td rc, where u = u and P = P and q = q and buf = buf]
      assms(1) w by (simp add: final_failure_def)
qed

end

definition raised :: "datetime \<Rightarrow> job \<Rightarrow> job" where
  "raised u j = j\<lparr>j_status := FAILED, j_ended_at := Some u, j_last_heartbeat := Some u\<rparr>"

lemma raised_simps [simp]:
  "j_id (raised u j) = j_id j" "j_origin (raised u j) = j_origin j" "j_failure_ttl (raised u j) = j_failure_ttl j"
  "j_retries_left (raised u j) = j_retries_left j" "j_failure_callback_name (raised u j) = j_failure_callback_name j"
  "j_status (raised u j) = FAILED" "should_retry (raised u j) = should_retry j"
  by (simp_all add: raised_def should_retry_def)

definition running_cmds :: "datetime \<Rightarrow> job \<Rightarrow> worker \<Rightarrow> cmd list" where
  "running_cmds t j w = prepare_cmds t (only_queue w) j w @ [Persist (job_key (j_id j))]"

lemma perform_job_fail_eq:
  assumes name: "get_func_name C (snd (prepare_for_execution (w_name w) t j)) = Inr (fn, j1)"
    and exec: "execute_job C P (j1\<lparr>j_started_at := Some t\<rparr>) = (Inl exc, j2)"
  shows "perform_job C R P as_retry t u zone q j w (s, buf) =
    bindO (job_failed C R P u q exc j2 (prepared_worker t w)) (\<lambda>r. ret (False, r)) (run_all R (running_cmds t j w) s, buf)"
proof -
  let ?s1 = "run_all R (prepare_cmds t (only_queue w) j w) s"
  have prep: "bindO (prepare_job_execution C R t (only_queue w) j w) (\<lambda>j1. ret (Inr j1)) (s, buf) = (Inr (Inr j1), (?s1, buf))"
    using name by (simp add: prepare_job_execution_def bindO_def seqO_def)
  have perf: "perform C R P (j1\<lparr>j_started_at := Some t\<rparr>) (?s1, buf) = (Inr (Inl exc, j2), (run_all R (running_cmds t j w) s, buf))"
    using exec job_read(1) [OF name exec] by (simp add: perform_def bindO_def seqO_def running_cmds_def)
  show ?thesis
    unfolding perform_job_def Let_def
    apply (subst bindO_Inr [where x = "Inr j1"])
     apply (simp add: catchO_def prep)
    apply (simp add: perf bindO_def)
    done
qed

lemma job_failed_eq:
  assumes "j_id j2 = j_id j" "j_failure_callback_name j2 = None"
  shows "job_failed C R P u q exc j2 w1 (run_all R (running_cmds t j w) s, buf) =
    bindO (handle_exception C P exc (raised u j2)) (\<lambda>j3. handle_job_failure C R P u q exc j3 w1) (run_all R (started_cmds t u j w) s, buf)"
proof -
  have j: "(j2\<lparr>j_status := FAILED\<rparr>)\<lparr>j_ended_at := Some u, j_last_heartbeat := Some u\<rparr> = raised u j2" by (simp add: raised_def)
  have h: "fst (heartbeat u (j2\<lparr>j_status := FAILED\<rparr>)) = fst (heartbeat u j)" using assms(1) by (simp add: heartbeat_def)
  have st: "run_all R (fst (heartbeat u j)) (run_all R (running_cmds t j w) s) = run_all R (started_cmds t u j w) s"
    by (simp add: started_cmds_def running_cmds_def)
  show ?thesis
    using assms(2) h
    by (simp add: job_failed_def handle_execution_ended_def bindO_def seqO_def catchO_def run_callback_def j [simplified] st)
qed

lemma perform_job_raises:
  assumes name: "get_func_name C (snd (prepare_for_execution (w_name w) t j)) = Inr (fn, j1)"
    and exec: "execute_job C P (j1\<lparr>j_started_at := Some t\<rparr>) = (Inl exc, j2)"
    and "j_failure_callback_name j2 = None" "handlers_return P"
    and ok: "handle_job_failure C R P u q exc (read_call C (raised u j2)) (prepared_worker t w) (run_all R (started_cmds t u j w) s, buf) =
      (Inr r, (s', buf))"
  shows "perform_job C R P as_retry t u zone q j w (s, buf) = (Inr (False, r), (s', buf))"
  using job_failed_eq [OF job_read(2) [OF name exec] assms(3), where t = t and w = w and s = s and buf = buf] ok
  by (simp add: perform_job_fail_eq [OF name exec] handle_exception_return [OF assms(4)] bindO_def)

text \<open>
  An exception handler that raises ends \<open>perform_job\<close> before the failure is handled: the server is as while the job ran, and
  the exception goes on to whoever called.
\<close>

lemma raising_handler_abandons:
  assumes name: "get_func_name C (snd (prepare_for_execution (w_name w) t j)) = Inr (fn, j1)"
    and exec: "execute_job C P (j1\<lparr>j_started_at := Some t\<rparr>) = (Inl exc, j2)"
    and "j_failure_callback_name j2 = None"
    and h: "call_handlers (py_handlers P) (read_call C (raised u j2)) exc = Inl e"
  shows "perform_job C R P as_retry t u zone q j w (s, buf) = (Inl e, (run_all R (started_cmds t u j w) s, buf))"
  using job_failed_eq [OF job_read(2) [OF name exec] assms(3), where t = t and w = w and s = s and buf = buf] h
  by (simp add: perform_job_fail_eq [OF name exec] handle_exception_def Let_def bindO_def)

context redis_server
begin

lemma perform_job_failure_run:
  fixes s :: 's
  assumes "get_func_name C (snd (prepare_for_execution (w_name w) t j)) = Inr (fn, j1)"
    and "execute_job C P (j1\<lparr>j_started_at := Some t\<rparr>) = (Inl exc, j2)"
    and "j_failure_callback_name j = None" "sset R s (dependents_key (j_id j)) = {}" "final_failure j w"
    and n: "n = opt_default default_failure_ttl (j_failure_ttl j)" "0 < n"
    and td: "to_dict C False False ((read_call C (raised u j2))\<lparr>j_exc_info := Some exc\<rparr>) = Inr (fs, j3)"
    and rc: "create_failure C (j_id j) (j_failure_ttl j) exc (w_name w) (worker_exec (raised u j2) w) = Inr rc"
    and hr: "handlers_return P"
  shows "\<exists>w' s'. perform_job C R P as_retry t u zone q j w (s, buf) = (Inr (False, w', j3), (s', buf)) \<and>
    w_execution w' = None \<and> get_status R s' (j_id j) = Inr FAILED \<and>
    zscore R s' (registry_key Failed (j_origin j)) (j_id j) = Some (Fin (current_timestamp u + n)) \<and>
    hget R s' (w_key w) ''current_job'' = None \<and>
    (\<forall>e. w_execution w = Some e \<longrightarrow> zscore R s' (registry_key Started (j_origin j)) (ex_composite e) = None \<and>
       hget R s' (ex_key e) = Map.empty) \<and>
    (\<forall>p. queue_key p \<noteq> intermediate_key (queue_key (j_origin j)) \<longrightarrow> r_list R s' (queue_key p) = r_list R s (queue_key p))"
proof -
  let ?j = "read_call C (raised u j2)" and ?w = "prepared_worker t w"
  let ?s1 = "run_all R (started_cmds t u j w) s"
  note rd = job_read [OF assms(1,2)]
  have fin: "final_failure ?j ?w" using assms(5) by (simp add: final_failure_def rd should_retry_def)
  have dep: "sset R ?s1 (dependents_key (j_id ?j)) = {}"
    using started_run(2) [of t u j w s "j_id j"] assms(4) by (simp add: rd)
  have n1: "n = opt_default default_failure_ttl (j_failure_ttl ?j)" using n(1) by (simp add: rd)
  have f: "?j\<lparr>j_status := FAILED, j_exc_info := Some exc\<rparr> = ?j\<lparr>j_exc_info := Some exc\<rparr>"
    using read_call_fields(11) [of C "raised u j2"] by (cases ?j) simp
  have td': "to_dict C False False (?j\<lparr>j_status := FAILED, j_exc_info := Some exc\<rparr>) = Inr (fs, j3)" unfolding f by (rule td)
  have ex: "worker_exec ?j ?w = worker_exec ?j w" by (simp add: worker_exec_def)
  have rc': "create_failure C (j_id ?j) (j_failure_ttl ?j) exc (w_name ?w) (worker_exec ?j ?w) = Inr rc"
    using rc by (simp add: rd ex worker_exec_def)
  let ?cs = "failure_cmds FAILED u n fs rc ?j ?w"
  note ok = handle_job_failure_eq [OF fin dep n1 n(2) td' rc', where u = u and q = q and P = P and buf = buf]
  have fcb: "j_failure_callback_name j2 = None" using assms(3) rd by simp
  have run: "perform_job C R P as_retry t u zone q j w (s, buf) =
      (Inr (False, ?w\<lparr>w_execution := None\<rparr>, j3), (run_all R ?cs ?s1, buf))"
    by (rule perform_job_raises [where C = C and P = P and r = "(?w\<lparr>w_execution := None\<rparr>, j3)", OF assms(1,2) fcb hr ok])
  have st: "map_of (rev fs) ''status'' = Some (status_text FAILED)"
    using to_dict_status_any [OF td] by simp
  note eff = failure_run [OF n(2) rc' st, where s = ?s1 and u = u and w = ?w]
  have lists: "\<forall>p. queue_key p \<noteq> intermediate_key (queue_key (j_origin j)) \<longrightarrow>
      r_list R (run_all R ?cs ?s1) (queue_key p) = r_list R s (queue_key p)"
    using eff(5) started_run(1) by simp
  show ?thesis
    by (rule exI [of _ "?w\<lparr>w_execution := None\<rparr>"], rule exI [of _ "run_all R ?cs ?s1"])
      (use run eff(1-4) lists rd in simp)
qed

end

section \<open>Heartbeats of the parent\<close>

context redis_server
begin

lemma maintain_heartbeats_run:
  fixes s :: 's
  assumes "maintain_heartbeats R t j w (s, buf) = (Inr w', (s', buf'))"
    and "w_execution w = Some e" "ex_job_id e = j_id j"
  shows "hget R s' (job_key (j_id j)) =
    (if hget R s (job_key (j_id j)) ''last_heartbeat'' = None then Map.empty
     else (hget R s (job_key (j_id j)))(''last_heartbeat'' \<mapsto> utcformat t))"
proof -
  obtain cs w1 where h: "worker_heartbeat (Some (w_job_monitoring_interval w + 60)) t w = (cs, w1)" by fastforce
  obtain es e1 where he: "heartbeat_execution (j_origin j) (get_heartbeat_ttl w1 j) t e = (es, e1)" by fastforce
  have touch: "\<forall>c \<in> set (cs @ es). job_key (j_id j) \<notin> set (touches c)"
    using h he by (auto simp: worker_heartbeat_def heartbeat_execution_def add_execution_def exreg_add_def Let_def)
  have same: "hget R (run_all R (cs @ es) s) (job_key (j_id j)) = hget R s (job_key (j_id j))"
    by (rule run_all_frame(4) [OF touch])
  have after: "hget R (run_all R (cs @ es @ fst (heartbeat t j)) s) (job_key (j_id j)) =
      (hget R s (job_key (j_id j)))(''last_heartbeat'' \<mapsto> utcformat t)"
    using same by (simp add: heartbeat_def hash_run)
  have ws: "hget R (r_run R (HSet (w_key w) fs) s1) (job_key (j_id j)) = hget R s1 (job_key (j_id j))" for fs s1
    by (simp add: hash_run)
  show ?thesis
    using assms(1,2) h he same after ws
    by (auto simp: maintain_heartbeats_def Let_def bindO_def seqO_def hash_run wipe_def split: sum.splits if_splits)
qed

end

section \<open>The loop ends\<close>

text \<open>DequeueTimeout comes from a blocking wait alone: reading a job never raises it.\<close>

lemma bindE_not: "m \<noteq> Inl e \<Longrightarrow> (\<And>x. f x \<noteq> Inl e) \<Longrightarrow> bindE m f \<noteq> Inl e"
  by (simp add: bindE_Inl_iff)

lemma read_not:
  "(\<And>x. f x \<noteq> Inl e) \<Longrightarrow> read_opt f v \<noteq> Inl e"
  "to_int x \<noteq> Inl DequeueTimeout" "to_timeout x \<noteq> Inl DequeueTimeout" "to_flag x \<noteq> Inl DequeueTimeout"
  "to_list g x \<noteq> Inl DequeueTimeout" "str_to_date x \<noteq> Inl DequeueTimeout" "status_of x \<noteq> Inl DequeueTimeout"
  by (auto simp: read_opt_def to_int_def to_timeout_def to_flag_def to_list_def str_to_date_def utcparse_def status_of_def
      bindE_Inl_iff split: option.splits if_splits)

lemma restore_not: "restore C t obj j \<noteq> Inl DequeueTimeout"
proof -
  have "restore_times t obj j \<noteq> Inl DequeueTimeout" for j
    unfolding restore_times_def by (intro bindE_not read_not) simp
  moreover have "restore_ttls C obj j \<noteq> Inl DequeueTimeout" for j
    unfolding restore_ttls_def by (intro bindE_not read_not) simp
  moreover have "restore_callbacks obj j \<noteq> Inl DequeueTimeout" for j
    unfolding restore_callbacks_def by (intro bindE_not read_not) simp
  moreover have "restore_deps C obj j \<noteq> Inl DequeueTimeout" for j
    unfolding restore_deps_def by (intro bindE_not read_not) (simp_all add: read_not split: option.split)
  moreover have "restore_retries C obj j \<noteq> Inl DequeueTimeout" for j
    unfolding restore_retries_def by (intro bindE_not read_not) simp
  ultimately show ?thesis
    by (simp add: restore_def bindE_Inl_iff split: option.split)
qed

lemma fetch_not: "fetch C R s t i \<noteq> Inl DequeueTimeout"
  using restore_not
  by (auto simp: fetch_def job_init_def validate_job_id_def refresh_def Let_def bindE_Inl_iff split: if_splits)

lemma take_next_not: "take_next R ver ks None s = (Inl e, s') \<Longrightarrow> e \<noteq> DequeueTimeout"
  by (auto simp: take_next_def lmove_def lpop_def split: list.splits if_splits option.splits)

lemma dequeue_loop_not: "dequeue_loop C R t ver n ks None s = Some (Inl e, s') \<Longrightarrow> e \<noteq> DequeueTimeout"
proof (induction n arbitrary: s)
  case (Suc n)
  have q: "queue_name_of_key k = Inl e \<Longrightarrow> e \<noteq> DequeueTimeout" for k
    by (auto simp: queue_name_of_key_def strip_prefix_def split: if_splits)
  show ?case
    using Suc.prems Suc.IH take_next_not [of R ver ks s e s'] q fetch_not [of C R _ t]
    by (auto split: prod.splits sum.splits option.splits if_splits)
qed simp

lemma take_job_not: "take_job C R W t None w c \<noteq> (Inl DequeueTimeout, c')"
  by (cases c) (auto simp: take_job_def dequeue_any_def act_def simp del: dequeue_loop.simps
      dest: dequeue_loop_not split: option.splits prod.splits)

text \<open>An operation that does not run out of fuel, whatever the state.\<close>

abbreviation enough :: "('s, 'a option) op \<Rightarrow> bool" where
  "enough \<equiv> yields (\<lambda>r. r \<noteq> None)"

lemma suspension_enough: "enough (check_for_suspension R W True (Suc n) k w)"
  unfolding check_for_suspension_def suspended_loop.simps
  by (auto intro!: yields_seq yields_bind_any split: option.splits prod.splits)

lemma burst_dequeue_enough: "enough (dequeue_job_and_maintain_ttl C R P W None max_idle (Suc n) k w)"
proof -
  have "enough (dequeue_polls C R P W max_idle since (Suc n) k None left w)" for since left w
  proof -
    have "yields (\<lambda>r. r \<noteq> None) (catchO (bindO (take_job C R W t None w2) (\<lambda>r. ret (Some r)))
        (\<lambda>e. if e = DequeueTimeout then Some (ret None) else None))" for t w2
      using take_job_not [of C R W t w2]
      by (auto intro!: yieldsI simp: catchO_def bindO_def split: prod.splits sum.splits if_splits)
    then show ?thesis
      unfolding dequeue_polls.simps Let_def
      by (intro yields_seq yields_bind_any yields_bind [where P = "\<lambda>r. r \<noteq> None"])
        (auto intro!: yields_bind_any split: option.splits)
  qed
  then show ?thesis
    unfolding dequeue_job_and_maintain_ttl_def
    by (intro yields_bind_any yields_bind [where P = "\<lambda>r. r \<noteq> None"]) (auto intro!: yields_bind_any split: option.splits)
qed

lemma burst_round_enough: "enough (work_round C R P W True max_idle (Suc n) k w)"
  unfolding work_round_def if_True
  by (auto intro!: yields_bind [OF suspension_enough] yields_bind [OF burst_dequeue_enough]
      yields_bind_any [where m = "maintain C R P t w" for t w]
      yields_bind_any [where m = "execute_job_of C R P W k q j w" for k q j w]
      yields_bind_any [where m = "worker_heartbeat_on R False None t w" for t w] simp del: not_None_eq split: option.splits)

lemma burst_loop_enough:
  "max 1 (m - int done) + 1 \<le> int n \<Longrightarrow> enough (work_loop C R P W True (Some m) max_idle n k done w)"
proof (induction n arbitrary: k "done" w)
  case (Suc n)
  then obtain n' where n: "n = Suc n'" by (cases n) auto
  have caught: "yields (\<lambda>r. r \<noteq> Inr None)
      (catchO (bindO (work_round C R P W True max_idle n k w) (\<lambda>r. ret (Inr r))) (\<lambda>e. Some (ret (Inl ()))))"
    by (rule yieldsI) (auto simp: catchO_def bindO_def split: prod.splits sum.splits
        dest: yieldsD [OF burst_round_enough [of C R P W max_idle n' k w, folded n]])
  show ?case
    unfolding work_loop.simps
    by (rule yields_bind [OF caught]) (use Suc in \<open>auto split: sum.splits option.splits bool.splits\<close>)
qed simp

section \<open>Round robin\<close>

lemma take_next_first: "take_next R ver ks timeout s = (Inr (Some (k, i)), s') \<Longrightarrow> first_nonempty R s ks = Some (k, i)"
  by (auto simp: take_next_def lmove_def lpop_def split: list.splits if_splits option.splits)

lemma queue_index_split:
  "queue_index n qs = Some p \<Longrightarrow> \<exists>q. p < length qs \<and> qs ! p = q \<and> q_name q = n \<and> (\<forall>x \<in> set (take p qs). q_name x \<noteq> n)"
  by (induction qs arbitrary: p) (auto split: if_splits)

lemma queue_index_append:
  "queue_index n (xs @ ys) =
     (case queue_index n xs of Some p \<Rightarrow> Some p | None \<Rightarrow> map_option (\<lambda>p. p + length xs) (queue_index n ys))"
  by (induction xs) (auto split: option.splits simp: option.map_comp comp_def option.map_ident)

lemma queue_index_rotate:
  assumes "queue_index n qs = Some pos" "queue_index q qs = Some p" "pos < p"
  shows "queue_index q (drop (pos + 1) qs @ take (pos + 1) qs) = Some (p - (pos + 1))"
proof -
  have len: "pos + 1 \<le> length qs" using queue_index_split [OF assms(1)] by simp
  have "queue_index q qs = queue_index q (take (pos + 1) qs @ drop (pos + 1) qs)" by simp
  also have "\<dots> = (case queue_index q (take (pos + 1) qs) of Some r \<Rightarrow> Some r
      | None \<Rightarrow> map_option (\<lambda>r. r + length (take (pos + 1) qs)) (queue_index q (drop (pos + 1) qs)))"
    by (rule queue_index_append)
  finally have e: "Some p = (case queue_index q (take (pos + 1) qs) of Some r \<Rightarrow> Some r
      | None \<Rightarrow> map_option (\<lambda>r. r + length (take (pos + 1) qs)) (queue_index q (drop (pos + 1) qs)))"
    using assms(2) by simp
  have "queue_index q (take (pos + 1) qs) \<noteq> Some p"
    using queue_index_split [of q "take (pos + 1) qs" p] assms(3) by auto
  then have "queue_index q (drop (pos + 1) qs) = Some (p - (pos + 1))"
    using e len by (auto split: option.splits)
  then show ?thesis by (simp add: queue_index_append)
qed

lemma first_nonempty_index:
  "queue_index q qs = Some p \<Longrightarrow> r_list R s (queue_key q) \<noteq> [] \<Longrightarrow>
   first_nonempty R s (map (queue_key \<circ> q_name) qs) = Some (queue_key n, i) \<Longrightarrow>
   \<exists>pos. queue_index n qs = Some pos \<and> pos \<le> p \<and> (pos = p \<longrightarrow> n = q)"
proof (induction qs arbitrary: p)
  case (Cons x qs)
  show ?case
  proof (cases "r_list R s (queue_key (q_name x)) = []")
    case True
    with Cons.prems have "q_name x \<noteq> q" by auto
    with Cons.prems True obtain p' where p: "p = Suc p'" "queue_index q qs = Some p'" by auto
    from Cons.IH [OF p(2) Cons.prems(2)] Cons.prems(3) True
    obtain pos where pos: "queue_index n qs = Some pos" "pos \<le> p'" "pos = p' \<longrightarrow> n = q" by auto
    have "q_name x \<noteq> n"
    proof
      assume "q_name x = n"
      moreover have "r_list R s (queue_key n) \<noteq> []"
        using Cons.prems(3) True by (induction qs) (auto split: list.splits)
      ultimately show False using True by simp
    qed
    with pos p show ?thesis by auto
  next
    case False
    then have "q_name x = n" using Cons.prems(3) by (auto split: list.splits)
    with Cons.prems(1) show ?thesis by (auto split: if_splits)
  qed
qed simp

definition round_robin :: "worker \<Rightarrow> bool" where
  "round_robin w \<longleftrightarrow> w_class w = RoundRobin \<or> w_class w \<noteq> Randomized \<and> w_strategy w = Some ''round_robin''"

text \<open>
  \<open>passed_over R ver q k w w'\<close>: the worker took \<open>k\<close> jobs one after another, none of them from the queue
  \<open>q\<close>, though each time that queue had jobs. Between two of them anything may happen on the server.
\<close>

inductive passed_over :: "'s redis \<Rightarrow> int \<times> int \<times> int \<Rightarrow> string \<Rightarrow> nat \<Rightarrow> worker \<Rightarrow> worker \<Rightarrow> bool" for R ver q where
  none: "passed_over R ver q 0 w w"
| other: "passed_over R ver q k w w1 \<Longrightarrow> r_list R s (queue_key q) \<noteq> [] \<Longrightarrow>
    take_next R ver (map (queue_key \<circ> q_name) (w_ordered w1)) timeout s = (Inr (Some (queue_key n, i)), s') \<Longrightarrow> n \<noteq> q \<Longrightarrow>
    reorder_queues sh n w1 = Inr w2 \<Longrightarrow> passed_over R ver q (Suc k) w w2"

lemma reorder_round_robin:
  assumes "round_robin w" "reorder_queues sh n w = Inr w'"
  shows "round_robin w'" "\<exists>pos. queue_index n (w_ordered w) = Some pos \<and>
    w_ordered w' = drop (pos + 1) (w_ordered w) @ take (pos + 1) (w_ordered w)"
  using assms
  by (auto simp: round_robin_def reorder_queues_def rotate_queues_def Let_def split: if_splits option.splits)

lemma passed_over_index:
  assumes "passed_over R ver q k w w'" "round_robin w" "queue_index q (w_ordered w) = Some p"
  shows "round_robin w' \<and> (\<exists>p'. queue_index q (w_ordered w') = Some p' \<and> p' + k \<le> p)"
  using assms
proof (induction rule: passed_over.induct)
  case (other k w w1 s timeout n i s' sh w2)
  then obtain p' where p: "round_robin w1" "queue_index q (w_ordered w1) = Some p'" "p' + k \<le> p" by blast
  obtain pos where pos: "queue_index n (w_ordered w1) = Some pos" "pos \<le> p'" "pos = p' \<longrightarrow> n = q"
    using first_nonempty_index [OF p(2) other.hyps(2) take_next_first [OF other.hyps(3)]] by blast
  have "pos < p'" using pos other.hyps(4) by (cases "pos = p'") auto
  with queue_index_rotate [OF pos(1) p(2)] reorder_round_robin [OF p(1) other.hyps(5)] pos(1) p(3)
  show ?case by auto
qed simp

section \<open>Suspended workers\<close>

context redis_server
begin

text \<open>As long as the workers are suspended, polling takes nothing from any queue and does not come back.\<close>

lemma is_suspended_run:
  fixes s :: 's
  assumes "key_exists R s suspended_key"
  shows "\<exists>s'. is_suspended R t w (s, buf) = (Inr (True, w\<lparr>w_last_heartbeat := Some t\<rparr>), (s', buf)) \<and>
    (\<forall>q. r_list R s' (queue_key q) = r_list R s (queue_key q))"
proof -
  let ?s = "run_all R (fst (worker_heartbeat None t w)) s"
  have touch: "\<forall>c \<in> set (fst (worker_heartbeat None t w)). k \<notin> set (touches c)" if "fam k \<noteq> ''worker''" for k
    using that by (auto simp: worker_heartbeat_def Let_def)
  have "is_suspended R t w (s, buf) = (Inr (True, w\<lparr>w_last_heartbeat := Some t\<rparr>), (?s, buf))"
    using assms run_all_frame(7) [OF touch [of suspended_key], of s]
    by (simp add: is_suspended_def worker_heartbeat_on_def bindO_def seqO_def worker_heartbeat_def Let_def)
  moreover have "r_list R ?s (queue_key q) = r_list R s (queue_key q)" for q
    by (rule run_all_frame(1) [OF touch]) simp
  ultimately show ?thesis by blast
qed

lemma suspended_loop_waits:
  fixes W :: "'s world"
  assumes "\<forall>k s. key_exists R (wd_others W k s) suspended_key"
    "\<forall>k s q. r_list R (wd_others W k s) (queue_key q) = r_list R s (queue_key q)"
  shows "suspended_loop R W burst n k before w (s, buf) = (r, (s', buf')) \<Longrightarrow> \<not> w_stop_requested w \<Longrightarrow>
    (r = Inr None \<or> burst \<and> r = Inl StopRequested) \<and> (\<forall>q. r_list R s' (queue_key q) = r_list R s (queue_key q))"
proof (induction n arbitrary: k before w s)
  case (Suc n)
  let ?w = "w\<lparr>w_last_heartbeat := Some (wd_clock W k)\<rparr>"
  obtain s2 where s2: "is_suspended R (wd_clock W k) w (wd_others W k s, buf) = (Inr (True, ?w), (s2, buf))"
    "\<forall>q. r_list R s2 (queue_key q) = r_list R s (queue_key q)"
    using is_suspended_run [of "wd_others W k s" "wd_clock W k" w buf] assms by auto
  have other: "others W k (s, buf) = (Inr (), (wd_others W k s, buf))" by (simp add: others_def act_eq)
  show ?case
  proof (cases burst)
    case True
    then show ?thesis using Suc.prems s2 by (auto simp: seqO_def bindO_def other)
  next
    case False
    show ?thesis
    proof (cases before)
      case (Some st)
      then have "suspended_loop R W burst n (Suc k) before ?w (s2, buf) = (r, (s', buf'))"
        using Suc.prems False s2(1) by (simp add: seqO_def bindO_def other)
      from Suc.IH [OF this] Suc.prems(2) s2(2) show ?thesis by simp
    next
      case None
      let ?w2 = "?w\<lparr>w_state := ''suspended''\<rparr>" and ?s3 = "r_run R (HSet (w_key w) [(''state'', ''suspended'')]) s2"
      have "suspended_loop R W burst n (Suc k) (Some (w_state w)) ?w2 (?s3, buf) = (r, (s', buf'))"
        using Suc.prems False s2(1) None by (simp add: seqO_def bindO_def other set_state_on_def set_state_def w_key_def)
      from Suc.IH [OF this] Suc.prems(2) s2(2) show ?thesis by (simp add: list_run)
    qed
  qed
qed simp

end

section \<open>Properties\<close>

text \<open>
  C3. A job whose function returns (with no success callback, no dependents, no repeats and a positive
  result ttl), run by a worker. Afterwards it is finished and in the registry of finished jobs until its
  result expires, the worker has neither a current job nor an execution, the execution is no longer
  among the started jobs nor on the server, and no queue has changed.
\<close>

theorem perform_job_succeeds:
  assumes "redis_server R"
    and "get_func_name C (snd (prepare_for_execution (w_name w) t j)) = Inr (fn, j1)"
    and "execute_job C P (j1\<lparr>j_started_at := Some t\<rparr>) = (Inr v, j2)"
    and "as_retry v = None" "j_success_callback_name j = None" "sset R s (dependents_key (j_id j)) = {}"
    and "j_repeats_left j = None" "get_result_ttl j (w_default_result_ttl w) = ttl" "0 < ttl"
    and "to_dict C False False (returned u v j2) = Inr (fs, j3)"
    and "create_result C (j_id j) SUCCESSFUL (Some ttl) v None (w_name w) (worker_exec (returned u v j2) w) = Inr rc"
  shows "\<exists>w' s'. perform_job C R P as_retry t u zone q j w (s, buf) = (Inr (True, w', j3), (s', buf)) \<and>
    w_execution w' = None \<and> get_status R s' (j_id j) = Inr FINISHED \<and>
    zscore R s' (registry_key Finished (j_origin j)) (j_id j) = Some (Fin (current_timestamp u + ttl)) \<and>
    hget R s' (w_key w) ''current_job'' = None \<and>
    (\<forall>e. w_execution w = Some e \<longrightarrow> zscore R s' (registry_key Started (j_origin j)) (ex_composite e) = None \<and>
       hget R s' (ex_key e) = Map.empty) \<and>
    (\<forall>p. queue_key p \<noteq> intermediate_key (queue_key (j_origin j)) \<longrightarrow> r_list R s' (queue_key p) = r_list R s (queue_key p))"
  by (rule redis_server.perform_job_success_run [where as_retry = as_retry, OF assms(1-11)])

text \<open>A worker for the examples.\<close>

definition sample_worker :: worker where
  "sample_worker = new_worker Simple ''w'' [sample_queue] None ''3.12''"

lemma sample_worker_simps [simp]:
  "w_name sample_worker = ''w''" "w_execution sample_worker = None" "w_default_result_ttl sample_worker = 500"
  "w_stopped_job_id sample_worker = None" "w_disable_default_handler sample_worker = False"
  "w_key sample_worker = worker_key ''w''" "w_stop_requested sample_worker = False" "w_class sample_worker = Simple"
  by (simp_all add: sample_worker_def new_worker_def default_result_ttl_def w_key_def)

lemma sample_func_name:
  "get_func_name sample_codec (snd (prepare_for_execution ''w'' t (sample_job ''a''))) =
     Inr (PStr ''m.f'', snd (prepare_for_execution ''w'' t (sample_job ''a'')))"
  by (simp add: get_func_name_def lazy_get_def prepare_for_execution_def)

lemma lazy_get_data:
  assumes "j_data j = Val d" "lazy_get C attr j = Inr (v, j')"
  shows "j_data j' = Val d"
  using lazy_get_Inr [OF assms(2)] assms(1) by (auto elim!: deserialize_data_Inr simp: get_data_def)

lemma read_call_data: "j_data j = Val d \<Longrightarrow> j_data (read_call C j) = Val d"
  by (auto simp: read_call_def bindE_Inr_iff get_func_name_def get_args_def get_kwargs_def dest: lazy_get_data split: sum.splits)

lemma sample_execute:
  obtains f j2 where "execute_job sample_codec P ((snd (prepare_for_execution ''w'' t (sample_job ''a'')))\<lparr>j_started_at := Some t\<rparr>) =
    (py_call P f (PTuple []) (PDict []), j2)" "j_data j2 = Val ''p''"
  by (auto simp: execute_job_def get_func_def lazy_get_def get_instance_def get_args_def get_kwargs_def get_func_name_def
     prepare_for_execution_def deserialize_data_def get_data_def sample_codec_def py_items_def sample_job_def new_job_def truthy_def
     split: option.splits sum.splits)

lemma sample_result:
  obtains rc where "create_result sample_codec i y ttl v exc w ei = Inr rc"
proof -
  have "serialized_value sample_codec v = Inr ''p''" by (simp add: serialized_value_def sample_codec_def)
  then show ?thesis using that by (auto simp: create_result_def save_result_def serialize_result_def)
qed

theorem perform_job_succeeds_witness:
  "\<exists>w' j' s'. perform_job sample_codec mem_redis sample_py (\<lambda>_. None) 0 0 0 sample_queue (sample_job ''a'') sample_worker (mem_empty, []) =
     (Inr (True, w', j'), (s', [])) \<and> get_status mem_redis s' ''a'' = Inr FINISHED \<and>
     zscore mem_redis s' (registry_key Finished ''q'') ''a'' = Some (Fin 500)"
proof -
  let ?j = "sample_job ''a''"
  obtain f j2 where "execute_job sample_codec sample_py ((snd (prepare_for_execution ''w'' 0 ?j))\<lparr>j_started_at := Some 0\<rparr>) =
      (py_call sample_py f (PTuple []) (PDict []), j2)" and data: "j_data j2 = Val ''p''"
    by (rule sample_execute)
  then have ex: "execute_job sample_codec sample_py ((snd (prepare_for_execution (w_name sample_worker) 0 ?j))\<lparr>j_started_at := Some 0\<rparr>) =
      (Inr PNone, j2)" by (simp add: sample_py_def)
  obtain fs j3 where td: "to_dict sample_codec False False (returned 0 PNone j2) = Inr (fs, j3)"
    by (rule sample_to_dict [of "returned 0 PNone j2"]) (use data in \<open>simp_all add: returned_def\<close>)
  obtain rc where rc: "create_result sample_codec (j_id ?j) SUCCESSFUL (Some 500) PNone None (w_name sample_worker)
      (worker_exec (returned 0 PNone j2) sample_worker) = Inr rc"
    by (rule sample_result)
  note name = sample_func_name [folded sample_worker_simps(1), of 0]
  have more: "j_success_callback_name ?j = None" "sset mem_redis mem_empty (dependents_key (j_id ?j)) = {}"
    "j_repeats_left ?j = None" "get_result_ttl ?j (w_default_result_ttl sample_worker) = 500"
    by (simp_all add: get_result_ttl_def sample_job_def new_job_def)
  show ?thesis
    using perform_job_succeeds [where as_retry = "\<lambda>_. None" and u = 0 and buf = "[]" and q = sample_queue and zone = 0,
        OF mem.redis_server_axioms name ex refl more _ td rc]
    by (auto simp: current_timestamp_def)
qed

text \<open>
  C4. A job whose function raises, when no retry is left and nobody asked to stop it (no failure callback,
  no dependents, exception handlers that return). Afterwards it is failed and in the registry of failed jobs for the failure ttl, the worker has
  neither a current job nor an execution, the execution is gone from the server, and no queue has
  changed.
\<close>

theorem perform_job_fails:
  assumes "redis_server R"
    and "get_func_name C (snd (prepare_for_execution (w_name w) t j)) = Inr (fn, j1)"
    and "execute_job C P (j1\<lparr>j_started_at := Some t\<rparr>) = (Inl exc, j2)"
    and "j_failure_callback_name j = None" "sset R s (dependents_key (j_id j)) = {}" "final_failure j w"
    and "n = opt_default default_failure_ttl (j_failure_ttl j)" "0 < n"
    and "to_dict C False False ((read_call C (raised u j2))\<lparr>j_exc_info := Some exc\<rparr>) = Inr (fs, j3)"
    and "create_failure C (j_id j) (j_failure_ttl j) exc (w_name w) (worker_exec (raised u j2) w) = Inr rc"
    and "handlers_return P"
  shows "\<exists>w' s'. perform_job C R P as_retry t u zone q j w (s, buf) = (Inr (False, w', j3), (s', buf)) \<and>
    w_execution w' = None \<and> get_status R s' (j_id j) = Inr FAILED \<and>
    zscore R s' (registry_key Failed (j_origin j)) (j_id j) = Some (Fin (current_timestamp u + n)) \<and>
    hget R s' (w_key w) ''current_job'' = None \<and>
    (\<forall>e. w_execution w = Some e \<longrightarrow> zscore R s' (registry_key Started (j_origin j)) (ex_composite e) = None \<and>
       hget R s' (ex_key e) = Map.empty) \<and>
    (\<forall>p. queue_key p \<noteq> intermediate_key (queue_key (j_origin j)) \<longrightarrow> r_list R s' (queue_key p) = r_list R s (queue_key p))"
  by (rule redis_server.perform_job_failure_run [OF assms])

theorem perform_job_fails_witness:
  "\<exists>w' j' s'. perform_job sample_codec mem_redis (sample_py\<lparr>py_call := (\<lambda>_ _ _. Inl ''boom'')\<rparr>) (\<lambda>_. None) 0 0 0 sample_queue
     (sample_job ''a'') sample_worker (mem_empty, []) = (Inr (False, w', j'), (s', [])) \<and>
     get_status mem_redis s' ''a'' = Inr FAILED \<and>
     zscore mem_redis s' (registry_key Failed ''q'') ''a'' = Some (Fin default_failure_ttl)"
proof -
  let ?j = "sample_job ''a''" and ?P = "sample_py\<lparr>py_call := (\<lambda>_ _ _. Inl ''boom'')\<rparr>"
  obtain f j2 where "execute_job sample_codec ?P ((snd (prepare_for_execution ''w'' 0 ?j))\<lparr>j_started_at := Some 0\<rparr>) =
      (py_call ?P f (PTuple []) (PDict []), j2)" and data: "j_data j2 = Val ''p''"
    by (rule sample_execute)
  then have ex: "execute_job sample_codec ?P ((snd (prepare_for_execution (w_name sample_worker) 0 ?j))\<lparr>j_started_at := Some 0\<rparr>) =
      (Inl ''boom'', j2)" by simp
  obtain fs j3 where td: "to_dict sample_codec False False ((read_call sample_codec (raised 0 j2))\<lparr>j_exc_info := Some ''boom''\<rparr>) = Inr (fs, j3)"
    by (rule sample_to_dict [of "(read_call sample_codec (raised 0 j2))\<lparr>j_exc_info := Some ''boom''\<rparr>"])
      (use data in \<open>simp_all add: read_call_data raised_def\<close>)
  obtain rc where rc: "create_failure sample_codec (j_id ?j) (j_failure_ttl ?j) ''boom'' (w_name sample_worker)
      (worker_exec (raised 0 j2) sample_worker) = Inr rc"
    unfolding create_failure_def by (rule sample_result)
  have hr: "handlers_return ?P" by (simp add: handlers_return_def sample_py_def)
  note name = sample_func_name [folded sample_worker_simps(1), of 0]
  have more: "j_failure_callback_name ?j = None" "sset mem_redis mem_empty (dependents_key (j_id ?j)) = {}"
    "final_failure ?j sample_worker" "default_failure_ttl = opt_default default_failure_ttl (j_failure_ttl ?j)" "0 < default_failure_ttl"
    by (simp_all add: final_failure_def should_retry_def default_failure_ttl_def sample_job_def new_job_def)
  show ?thesis
    using perform_job_fails [where as_retry = "\<lambda>_. None" and u = 0 and buf = "[]" and q = sample_queue and zone = 0,
        OF mem.redis_server_axioms name ex more td rc hr]
    by (auto simp: current_timestamp_def)
qed

text \<open>
  The heartbeats of the parent never bring a deleted job back: whatever the state of the job's hash,
  after \<open>maintain_heartbeats\<close> it is as before with the new heartbeat, and it does not exist
  when it had no heartbeat before, so when the hash had been deleted.
\<close>

theorem heartbeat_no_resurrection:
  assumes "redis_server R" "maintain_heartbeats R t j w (s, buf) = (Inr w', (s', buf'))"
    and "w_execution w = Some e" "ex_job_id e = j_id j"
  shows "hget R s' (job_key (j_id j)) =
    (if hget R s (job_key (j_id j)) ''last_heartbeat'' = None then Map.empty
     else (hget R s (job_key (j_id j)))(''last_heartbeat'' \<mapsto> utcformat t))"
  by (rule redis_server.maintain_heartbeats_run [OF assms])

lemma maintain_heartbeats_returns:
  assumes "w_execution w = Some e" "w_birth_date w = Some b" "w_pid w = Some p" "w_hostname w = Some h" "w_ip_address w = Some ip"
  obtains w' s' where "maintain_heartbeats R t j w (s, buf) = (Inr w', (s', buf))"
proof -
  obtain cs where h: "worker_heartbeat (Some (w_job_monitoring_interval w + 60)) t w = (cs, w\<lparr>w_last_heartbeat := Some t\<rparr>)"
    by (simp add: worker_heartbeat_def Let_def)
  obtain es e1 where he: "heartbeat_execution (j_origin j) (get_heartbeat_ttl (w\<lparr>w_last_heartbeat := Some t\<rparr>) j) t e = (es, e1)"
    by fastforce
  have "\<exists>fs. serialize (w\<lparr>w_last_heartbeat := Some t, w_execution := Some e1\<rparr>) = Inr fs"
    using assms by (simp add: serialize_def)
  then obtain fs where "serialize (w\<lparr>w_last_heartbeat := Some t, w_execution := Some e1\<rparr>) = Inr fs" ..
  then show ?thesis
    using assms(1) h he that
    by (cases "hget R s (w_key w) ''last_heartbeat'' = None") (simp_all add: maintain_heartbeats_def Let_def bindO_def seqO_def)
qed

theorem heartbeat_no_resurrection_witness:
  "\<exists>w e. w_execution w = Some e \<and> ex_job_id e = ''a'' \<and>
     (\<exists>w' s'. maintain_heartbeats mem_redis 0 (sample_job ''a'') w (mem_empty, []) = (Inr w', (s', [])) \<and>
        hget mem_redis s' (job_key ''a'') = Map.empty)"
proof -
  let ?e = "\<lparr>ex_id = ''e'', ex_job_id = ''a'', ex_created_at = 0, ex_last_heartbeat = 0\<rparr>"
  let ?w = "sample_worker\<lparr>w_execution := Some ?e, w_birth_date := Some 0, w_pid := Some 1, w_hostname := Some ''h'', w_ip_address := Some ''i''\<rparr>"
  obtain w' s' where m: "maintain_heartbeats mem_redis 0 (sample_job ''a'') ?w (mem_empty, []) = (Inr w', (s', []))"
    by (rule maintain_heartbeats_returns [of ?w ?e]) simp_all
  from heartbeat_no_resurrection [OF mem.redis_server_axioms m, of ?e] m
  have "hget mem_redis s' (job_key ''a'') = Map.empty" by simp
  with m show ?thesis by (intro exI [of _ ?w] exI [of _ ?e]) auto
qed

text \<open>A server on which another client pauses the workers all the time.\<close>

definition paused_world :: "mem world" where
  "paused_world = \<lparr>wd_clock = (\<lambda>k. k * usec), wd_others = (\<lambda>_. r_run mem_redis (SetStr suspended_key ''1'')), wd_uuid = (\<lambda>_. ''e''),
     wd_horse = (\<lambda>_. HorseRuns), wd_shuffle = id, wd_zone = 0, wd_version = (7, 0, 0), wd_as_retry = (\<lambda>_. None)\<rparr>"



text \<open>
  C26. Round robin is fair: while a queue at place \<open>p\<close> of the worker's order always has jobs, at most \<open>p\<close>
  jobs of other queues are taken before one of its own, whatever happens on the server in between.
\<close>

theorem round_robin_fair:
  assumes "passed_over R ver q k w w'" "round_robin w" "queue_index q (w_ordered w) = Some p"
  shows "k \<le> p"
  using passed_over_index [OF assms] by auto

theorem round_robin_fair_witness:
  "\<exists>w'. passed_over mem_redis (7, 0, 0) ''b'' 1 (new_worker RoundRobin ''w'' [default_queue ''a'', default_queue ''b''] None []) w' \<and>
     (1::nat) \<le> 1"
proof -
  let ?w = "new_worker RoundRobin ''w'' [default_queue ''a'', default_queue ''b''] None []"
  let ?s = "run_all mem_redis [RPush (queue_key ''a'') ''x'', RPush (queue_key ''b'') ''y''] mem_empty"
  have lists: "r_list mem_redis ?s (queue_key ''a'') = [''x'']" "r_list mem_redis ?s (queue_key ''b'') = [''y'']"
    by (simp_all add: mem.list_run)
  have ord: "w_ordered ?w = [default_queue ''a'', default_queue ''b'']" "round_robin ?w"
    by (simp_all add: new_worker_def round_robin_def)
  obtain w' where w': "reorder_queues id ''a'' ?w = Inr w'"
    by (simp add: reorder_queues_def rotate_queues_def ord new_worker_def default_queue_def)
  have take: "take_next mem_redis (7, 0, 0) (map (queue_key \<circ> q_name) (w_ordered ?w)) None ?s =
      (Inr (Some (queue_key ''a'', ''x'')), r_run mem_redis (LPop (queue_key ''a'')) ?s)"
    using lists by (simp add: take_next_def lpop_def ord)
  have "passed_over mem_redis (7, 0, 0) ''b'' (Suc 0) ?w w'"
    by (rule passed_over.other [OF passed_over.none _ take _ w']) (use lists in simp_all)
  moreover from round_robin_fair [OF this ord(2), of 1] have "(1::nat) \<le> 1" by (simp add: ord default_queue_def)
  ultimately show ?thesis by auto
qed

text \<open>
  While the workers are suspended, a worker that starts a round takes nothing: however long it polls,
  no queue changes, and it comes back only in burst mode, by raising StopRequested.
\<close>

theorem suspended_takes_nothing:
  assumes "redis_server R" "\<forall>k s. key_exists R (wd_others W k s) suspended_key"
    "\<forall>k s q. r_list R (wd_others W k s) (queue_key q) = r_list R s (queue_key q)" "\<not> w_stop_requested w"
    and "work_round C R P W burst max_idle n k w (s, buf) = (r, (s', buf'))"
  shows "(r = Inr None \<or> burst \<and> r = Inl StopRequested) \<and> (\<forall>q. r_list R s' (queue_key q) = r_list R s (queue_key q))"
proof -
  obtain r1 s1 b1 where c: "check_for_suspension R W burst n k w (s, buf) = (r1, (s1, b1))" by (metis surj_pair)
  have "(r1 = Inr None \<or> burst \<and> r1 = Inl StopRequested) \<and> (\<forall>q. r_list R s1 (queue_key q) = r_list R s (queue_key q))"
    using redis_server.suspended_loop_waits [OF assms(1-3) c [unfolded check_for_suspension_def] assms(4)] .
  then show ?thesis using assms(5) c by (auto simp: work_round_def bindO_def)
qed

lemma paused_world_run:
  "\<forall>k s. key_exists mem_redis (wd_others paused_world k s) suspended_key"
  "\<forall>k s q. r_list mem_redis (wd_others paused_world k s) (queue_key q) = r_list mem_redis s (queue_key q)"
  by (simp_all add: paused_world_def key_exists_def mem.str_run mem.list_run)

theorem suspended_takes_nothing_witness:
  "\<exists>r s'. work_round sample_codec mem_redis sample_py paused_world True None 5 0 sample_worker
     (run_all mem_redis [RPush (queue_key ''q'') ''a''] mem_empty, []) = (r, s') \<and>
     (r = Inr None \<or> r = Inl StopRequested) \<and> r_list mem_redis (fst s') (queue_key ''q'') = [''a'']"
proof -
  let ?s = "run_all mem_redis [RPush (queue_key ''q'') ''a''] mem_empty"
  obtain r s' b where r: "work_round sample_codec mem_redis sample_py paused_world True None 5 0 sample_worker (?s, []) = (r, (s', b))"
    by (metis surj_pair)
  have list: "r_list mem_redis ?s (queue_key ''q'') = [''a'']" by (simp add: mem.list_run)
  have "\<not> w_stop_requested sample_worker" by simp
  from suspended_takes_nothing [OF mem.redis_server_axioms paused_world_run this r]
  have "r = Inr None \<or> r = Inl StopRequested" "r_list mem_redis s' (queue_key ''q'') = r_list mem_redis ?s (queue_key ''q'')"
    by simp_all
  with r show ?thesis unfolding list by (intro exI [of _ r] exI [of _ "(s', b)"]) simp
qed

section \<open>Jobs in between\<close>

context redis_server
begin

lemma intermediate_grace_run:
  fixes s :: 's
  assumes "fetch C R s t i = Inr j" "reg_contains R s Started (q_name q) i = Inr started"
    and seen: "started \<or> get_first_seen R s (q_name q) i = Inr f \<and> (\<forall>f0. f = Some f0 \<longrightarrow> int t - int f0 \<le> int (60 * usec))"
    and "j_origin j = q_name q"
  shows "\<exists>s'. intermediate_step C R P t q i w (s, buf) = (Inr w, (s', buf)) \<and>
    r_list R s' = r_list R s \<and> hget R s' = hget R s \<and> zscore R s' = zscore R s"
proof (cases started)
  case True
  then show ?thesis using assms by (simp add: intermediate_step_def queue_fetch_job_def bindO_def act_eq)
next
  case False
  let ?k = "first_seen_key (queue_key (q_name q)) i"
  let ?s = "r_run R (SetNX ?k (ts_text t) 86400) s"
  have due: "key_exists R s ?k \<Longrightarrow> should_be_cleaned_up R ?s t (q_name q) i = Inr False"
    using False seen by (auto simp: should_be_cleaned_up_def get_first_seen_def str_run bindE_Inr_iff split: option.splits if_splits)
  then show ?thesis using assms False by (simp add: intermediate_step_def queue_fetch_job_def set_first_seen_def bindO_def seqO_def act_eq list_run hash_run zset_run)
qed

end

text \<open>
  A job waiting in the intermediate queue is left alone by the cleanup when it has been started, when nobody has
  seen it there before, and for a minute after it was first seen: no list, no hash and no registry
  changes, so a worker that is about to start it finds everything in place.
\<close>

theorem intermediate_grace:
  assumes "redis_server R" "fetch C R s t i = Inr j" "reg_contains R s Started (q_name q) i = Inr started"
    and "started \<or> get_first_seen R s (q_name q) i = Inr f \<and> (\<forall>f0. f = Some f0 \<longrightarrow> int t - int f0 \<le> int (60 * usec))"
    and "j_origin j = q_name q"
  shows "\<exists>s'. intermediate_step C R P t q i w (s, buf) = (Inr w, (s', buf)) \<and>
    r_list R s' = r_list R s \<and> hget R s' = hget R s \<and> zscore R s' = zscore R s"
  by (rule redis_server.intermediate_grace_run [OF assms])

theorem intermediate_grace_witness:
  "\<exists>j s'. fetch sample_codec mem_redis (saved (parent_job QUEUED)) 0 ''a'' = Inr j \<and>
     intermediate_step sample_codec mem_redis sample_py 0 sample_queue ''a'' sample_worker (saved (parent_job QUEUED), []) =
       (Inr sample_worker, (s', []))"
proof -
  have j: "fetch sample_codec mem_redis (saved (parent_job QUEUED)) 0 ''a'' = Inr (persisted ''p'' (parent_job QUEUED))"
    "j_origin (persisted ''p'' (parent_job QUEUED)) = q_name sample_queue"
    using saved_props(1) [of "parent_job QUEUED"] sample_family(8) [of QUEUED]
    by (simp, simp add: persisted_def set_data_def parent_job_def sample_queue_def)
  have str: "r_str mem_redis (saved x) k = None" for x k
    by (simp add: saved_def save_def bindE_def mem.str_run split: sum.splits)
  have "zrange mem_redis (saved (parent_job QUEUED)) k 0 (- 1) False = []" for k
    using saved_props(5) [of "parent_job QUEUED"] mem.zset_empty_iff by (simp add: zrange_def)
  then have "reg_contains mem_redis (saved (parent_job QUEUED)) Started (q_name sample_queue) ''a'' = Inr False"
    "get_first_seen mem_redis (saved (parent_job QUEUED)) (q_name sample_queue) ''a'' = Inr None"
    using str by (simp_all add: reg_contains_def reg_job_ids_def get_first_seen_def)
  with intermediate_grace [OF mem.redis_server_axioms j(1) this(1) _ j(2), of None sample_py sample_worker "[]"] j(1)
  show ?thesis by auto
qed

end
