(* ===== verification/Scheduler.thy ===== *)
theory Scheduler
  imports Work
begin

text \<open>
  The scheduler (\<open>rq/scheduler.py\<close>): a process that moves the jobs of the registries of scheduled jobs to their
  queues when they are due. One scheduler serves a queue at a time, by a lock with an expiry that it keeps
  extending. The forked process, its signals and the logging are left out; \<open>stop\<close> says when a signal has
  asked the loop to end. A set of queue names is a list in the order in which Python goes through it.
\<close>

section \<open>The scheduler object\<close>

datatype scheduler_status = SStarted | SWorking | SStopped

record scheduler =
  sc_queue_names :: "string list"
  sc_acquired_locks :: "string list"
  sc_registries :: "string list"
  sc_lock_time :: "datetime option"
  sc_interval :: int
  sc_status :: scheduler_status
  sc_pid :: int

definition new_scheduler :: "string list \<Rightarrow> int \<Rightarrow> int \<Rightarrow> scheduler" where
  "new_scheduler names interval pid =
     \<lparr>sc_queue_names = remdups names, sc_acquired_locks = [], sc_registries = [], sc_lock_time = None, sc_interval = interval,
      sc_status = SStopped, sc_pid = pid\<rparr>"

definition scheduler_fallback_period :: int where
  "scheduler_fallback_period = 120"

definition should_reacquire_locks :: "datetime \<Rightarrow> scheduler \<Rightarrow> bool" where
  "should_reacquire_locks t sc =
     (if set (sc_queue_names sc) = set (sc_acquired_locks sc) then False
      else case sc_lock_time sc of
             None \<Rightarrow> True
           | Some u \<Rightarrow> scheduler_fallback_period * int usec < int t - int u)"

section \<open>Locks\<close>

text \<open>\<open>SET key pid NX EX interval+60\<close> for every queue: the names whose lock was free.\<close>

primrec take_locks :: "'s redis \<Rightarrow> scheduler \<Rightarrow> string list \<Rightarrow> 's \<Rightarrow> string list \<times> 's" where
  "take_locks R sc [] s = ([], s)"
| "take_locks R sc (n # ns) s =
     (let free = (\<not> key_exists R s (scheduler_lock_key n));
          s1 = r_run R (SetNX (scheduler_lock_key n) (str_of_int (sc_pid sc)) (sc_interval sc + 60)) s;
          (got, s2) = take_locks R sc ns s1
      in (if free then n # got else got, s2))"

definition acquire_locks :: "'s redis \<Rightarrow> datetime \<Rightarrow> scheduler \<Rightarrow> ('s, string list \<times> scheduler) op" where
  "acquire_locks R t sc =
     bindO (act (\<lambda>s. case take_locks R sc (sc_queue_names sc) s of (got, s') \<Rightarrow> (Inr got, s'))) (\<lambda>got.
       ret (got, sc\<lparr>sc_registries := [],
                    sc_acquired_locks := sc_acquired_locks sc @ filter (\<lambda>n. n \<notin> set (sc_acquired_locks sc)) got,
                    sc_lock_time := Some t\<rparr>))"

text \<open>The locks are extended whoever holds them.\<close>

definition scheduler_heartbeat :: "'s redis \<Rightarrow> scheduler \<Rightarrow> ('s, unit) op" where
  "scheduler_heartbeat R sc =
     send R False (map (\<lambda>n. Expire (scheduler_lock_key n) (sc_interval sc + 60)) (sc_acquired_locks sc))"

text \<open>DEL without a key is refused by the server.\<close>

definition release_locks :: "'s redis \<Rightarrow> scheduler \<Rightarrow> ('s, scheduler) op" where
  "release_locks R sc =
     (if sc_acquired_locks sc = [] then raiseO ResponseError
      else seqO (send R False [Del (map scheduler_lock_key (sc_acquired_locks sc))]) (ret (sc\<lparr>sc_acquired_locks := []\<rparr>)))"

definition stop_scheduler :: "'s redis \<Rightarrow> scheduler \<Rightarrow> ('s, scheduler) op" where
  "stop_scheduler R sc = bindO (release_locks R sc) (\<lambda>sc1. ret (sc1\<lparr>sc_status := SStopped\<rparr>))"

section \<open>Enqueueing what is due\<close>

definition prepare_registries :: "string list option \<Rightarrow> scheduler \<Rightarrow> scheduler" where
  "prepare_registries names sc =
     sc\<lparr>sc_registries := (case names of None \<Rightarrow> sc_acquired_locks sc | Some ns \<Rightarrow> if ns = [] then sc_acquired_locks sc else ns)\<rparr>"

text \<open>The bodies of the loop over the jobs and of the loop over the registries, for the queue \<open>n\<close>.\<close>

definition enqueue_due_job :: "codec \<Rightarrow> 's redis \<Rightarrow> py \<Rightarrow> datetime \<Rightarrow> string \<Rightarrow> job \<Rightarrow> ('s, unit) op" where
  "enqueue_due_job C R P t n j =
     bindO (enqueue_now C R P t (default_queue n) True (should_enqueue_at_front j) False j) (\<lambda>_. ret ())"

definition enqueue_due :: "codec \<Rightarrow> 's redis \<Rightarrow> py \<Rightarrow> datetime \<Rightarrow> string \<Rightarrow> ('s, unit) op" where
  "enqueue_due C R P t n =
     bindO (ask (\<lambda>s. Inr (get_jobs_to_schedule R s n (current_timestamp t) 1000))) (\<lambda>ids.
       if ids = [] then ret ()
       else
         new_pipe
           (bindO (ask (\<lambda>s. fetch_many C R s t ids)) (\<lambda>jobs.
            seqO (for_each (enqueue_due_job C R P t n) (compact jobs))
              (seqO (for_each (\<lambda>i. send R True (reg_remove Scheduled n i)) ids) (execute R)))))"

definition enqueue_scheduled_jobs :: "codec \<Rightarrow> 's redis \<Rightarrow> py \<Rightarrow> datetime \<Rightarrow> scheduler \<Rightarrow> ('s, scheduler) op" where
  "enqueue_scheduled_jobs C R P t sc =
     (let sc1 = sc\<lparr>sc_status := SWorking\<rparr>;
          sc2 = (if sc_registries sc1 = [] \<and> sc_acquired_locks sc1 \<noteq> [] then prepare_registries None sc1 else sc1)
      in seqO (for_each (enqueue_due C R P t) (sc_registries sc2)) (ret (sc2\<lparr>sc_status := SStarted\<rparr>)))"

section \<open>The process\<close>

text \<open>
  \<open>start\<close>: the worker keeps its object, and the process works on a copy of it, \<open>child\<close> being its pid. From then on the two
  know nothing of each other's locks.
\<close>

definition start_process :: "int \<Rightarrow> scheduler \<Rightarrow> scheduler \<times> scheduler" where
  "start_process child sc = (let sc1 = sc\<lparr>sc_status := SStarted\<rparr> in (sc1, sc1\<lparr>sc_pid := child\<rparr>))"

text \<open>\<open>acquire_locks(auto_start=True)\<close>; \<open>live\<close> tells whether there is a process that lives.\<close>

definition acquire_and_start ::
  "'s redis \<Rightarrow> datetime \<Rightarrow> bool \<Rightarrow> int \<Rightarrow> scheduler \<Rightarrow> ('s, string list \<times> scheduler \<times> scheduler option) op" where
  "acquire_and_start R t live child sc =
     bindO (acquire_locks R t sc) (\<lambda>(got, sc1).
       if sc_acquired_locks sc1 \<noteq> [] \<and> \<not> live
       then (case start_process child sc1 of (sc2, p) \<Rightarrow> ret (got, sc2, Some p))
       else ret (got, sc1, None))"

text \<open>\<open>BaseWorker._start_scheduler\<close>: in burst mode the worker does the scheduler's work once itself.\<close>

definition start_scheduler ::
  "codec \<Rightarrow> 's redis \<Rightarrow> py \<Rightarrow> datetime \<Rightarrow> bool \<Rightarrow> int \<Rightarrow> int \<Rightarrow> worker \<Rightarrow> ('s, scheduler \<times> scheduler option) op" where
  "start_scheduler C R P t burst pid child w =
     bindO (acquire_locks R t (new_scheduler (queue_names w) 1 pid)) (\<lambda>(_, sc).
       if sc_acquired_locks sc = [] then ret (sc, None)
       else if burst
       then bindO (enqueue_scheduled_jobs C R P t sc) (\<lambda>sc1. bindO (release_locks R sc1) (\<lambda>sc2. ret (sc2, None)))
       else (case start_process child sc of (sc1, p) \<Rightarrow> ret (sc1, Some p)))"

text \<open>The part of \<open>run_maintenance_tasks\<close> that looks after the scheduler of a worker that has one.\<close>

definition maintain_scheduler ::
  "'s redis \<Rightarrow> datetime \<Rightarrow> bool \<Rightarrow> int \<Rightarrow> worker \<Rightarrow> scheduler option \<Rightarrow> ('s, scheduler option \<times> scheduler option) op" where
  "maintain_scheduler R t live child w osc =
     (case osc of
        None \<Rightarrow> ret (None, None)
      | Some sc \<Rightarrow>
          if w_last_cleaned_at w \<noteq> None \<and> \<not> live
          then bindO (acquire_and_start R t live child sc) (\<lambda>(_, sc1, p). ret (Some sc1, p))
          else ret (Some sc, None))"

section \<open>The loop of \<open>work\<close>\<close>

text \<open>\<open>clock k\<close>, \<open>stop k\<close> and \<open>meanwhile k\<close> describe the \<open>k\<close>-th round; the result is None when the fuel ran out.\<close>

fun scheduler_loop ::
  "codec \<Rightarrow> 's redis \<Rightarrow> py \<Rightarrow> (nat \<Rightarrow> datetime) \<Rightarrow> (nat \<Rightarrow> bool) \<Rightarrow> (nat \<Rightarrow> 's \<Rightarrow> 's) \<Rightarrow> nat \<Rightarrow> nat \<Rightarrow> scheduler \<Rightarrow>
   ('s, scheduler option) op" where
  "scheduler_loop C R P clock stop meanwhile 0 k sc = ret None"
| "scheduler_loop C R P clock stop meanwhile (Suc n) k sc =
     seqO (act (\<lambda>s. (Inr (), meanwhile k s)))
       (if stop k then bindO (stop_scheduler R sc) (\<lambda>sc1. ret (Some sc1))
        else
          bindO (if should_reacquire_locks (clock k) sc then bindO (acquire_locks R (clock k) sc) (\<lambda>(_, sc1). ret sc1)
                 else ret sc) (\<lambda>sc1.
          bindO (enqueue_scheduled_jobs C R P (clock k) sc1) (\<lambda>sc2.
          seqO (scheduler_heartbeat R sc2) (scheduler_loop C R P clock stop meanwhile n (Suc k) sc2))))"

section \<open>One scheduler per queue\<close>

text \<open>
  Several schedulers on one server, by number. A lock no scheduler holds may lapse, a scheduler may crash
  without releasing its locks, and everything else that happens leaves the locks alone. A crash takes the copy of
  the scheduler that a worker keeps with it; a worker that lives on and starts its scheduler again is looked at on its own below.
\<close>

inductive lock_step :: "'s redis \<Rightarrow> 's \<times> (nat \<Rightarrow> scheduler) \<Rightarrow> 's \<times> (nat \<Rightarrow> scheduler) \<Rightarrow> bool" for R where
  acquire: "acquire_locks R t (f i) (s, []) = (Inr (got, sc), (s', [])) \<Longrightarrow> lock_step R (s, f) (s', f(i := sc))"
| beat: "scheduler_heartbeat R (f i) (s, []) = (Inr (), (s', [])) \<Longrightarrow> lock_step R (s, f) (s', f)"
| release: "release_locks R (f i) (s, []) = (Inr sc, (s', [])) \<Longrightarrow> lock_step R (s, f) (s', f(i := sc))"
| crash: "lock_step R (s, f) (s, f(i := (f i)\<lparr>sc_acquired_locks := []\<rparr>))"
| lapse: "\<forall>i. n \<notin> set (sc_acquired_locks (f i)) \<Longrightarrow> lock_step R (s, f) (r_run R (Del [scheduler_lock_key n]) s, f)"
| other: "\<forall>n. key_exists R s' (scheduler_lock_key n) = key_exists R s (scheduler_lock_key n) \<Longrightarrow> lock_step R (s, f) (s', f)"

definition locks_ok :: "'s redis \<Rightarrow> 's \<times> (nat \<Rightarrow> scheduler) \<Rightarrow> bool" where
  "locks_ok R c \<longleftrightarrow>
     (\<forall>i. 0 \<le> sc_interval (snd c i)) \<and>
     (\<forall>i n. n \<in> set (sc_acquired_locks (snd c i)) \<longrightarrow> key_exists R (fst c) (scheduler_lock_key n)) \<and>
     (\<forall>i j n. n \<in> set (sc_acquired_locks (snd c i)) \<longrightarrow> n \<in> set (sc_acquired_locks (snd c j)) \<longrightarrow> i = j)"

context redis_server
begin

lemma take_locks_run:
  fixes s :: 's
  assumes "take_locks R sc ns s = (got, s')"
  shows "n \<in> set got \<longleftrightarrow> n \<in> set ns \<and> \<not> key_exists R s (scheduler_lock_key n)"
    "key_exists R s' (scheduler_lock_key n) \<longleftrightarrow> n \<in> set ns \<or> key_exists R s (scheduler_lock_key n)"
proof -
  have setnx: "key_exists R (r_run R (SetNX (scheduler_lock_key m) v x) s) (scheduler_lock_key n) \<longleftrightarrow>
      m = n \<or> key_exists R s (scheduler_lock_key n)" for m v x and s :: 's
  proof (cases "m = n")
    case True
    then show ?thesis by (simp add: key_exists_iff str_run)
  qed (simp add: key_exists_frame)
  have "(n \<in> set got \<longleftrightarrow> n \<in> set ns \<and> \<not> key_exists R s (scheduler_lock_key n)) \<and>
      (key_exists R s' (scheduler_lock_key n) \<longleftrightarrow> n \<in> set ns \<or> key_exists R s (scheduler_lock_key n))"
    using assms
  proof (induction ns arbitrary: got s)
    case (Cons m ns)
    obtain got1 where t: "take_locks R sc ns (r_run R (SetNX (scheduler_lock_key m) (str_of_int (sc_pid sc)) (sc_interval sc + 60)) s) =
        (got1, s')" using Cons.prems by (auto simp: Let_def split: prod.splits)
    from Cons.IH [OF t] Cons.prems t setnx show ?case by (auto simp: Let_def split: if_splits)
  qed simp
  then show "n \<in> set got \<longleftrightarrow> n \<in> set ns \<and> \<not> key_exists R s (scheduler_lock_key n)"
    "key_exists R s' (scheduler_lock_key n) \<longleftrightarrow> n \<in> set ns \<or> key_exists R s (scheduler_lock_key n)" by auto
qed

lemma expire_exists:
  fixes s :: 's
  assumes "0 < n"
  shows "key_exists R (run_all R (map (\<lambda>k. Expire (f k) n) ks) s) k = key_exists R s k"
  using assms
  by (induction ks arbitrary: s) (simp_all add: key_exists_iff list_run set_run zset_run hash_run str_run stream_run)

lemma del_exists:
  fixes s :: 's
  shows "key_exists R (r_run R (Del ks) s) k \<longleftrightarrow> k \<notin> set ks \<and> key_exists R s k"
  by (auto simp: key_exists_iff list_run set_run zset_run hash_run str_run stream_run wipe_def)

text \<open>The invariant of the locks.\<close>

lemma lock_step_ok:
  assumes "lock_step R c c'" "locks_ok R c"
  shows "locks_ok R c'"
  using assms
proof (induction rule: lock_step.induct)
  case (acquire t f i s got sc s')
  obtain got' where t: "take_locks R (f i) (sc_queue_names (f i)) s = (got', s')"
    using acquire.hyps by (auto simp: acquire_locks_def bindO_def act_eq split: prod.splits)
  then have sc: "set (sc_acquired_locks sc) = set (sc_acquired_locks (f i)) \<union> set got'" "sc_interval sc = sc_interval (f i)"
    using acquire.hyps by (auto simp: acquire_locks_def bindO_def act_eq)
  have got: "n \<in> set got' \<Longrightarrow> n \<notin> set (sc_acquired_locks (f j))" for n j
    using take_locks_run(1) [OF t] acquire.prems by (auto simp: locks_ok_def)
  show ?case
    using acquire.prems sc got take_locks_run [OF t] by (auto simp: locks_ok_def)
next
  case (beat f i s s')
  have "0 \<le> sc_interval (f i)" using beat.prems by (simp add: locks_ok_def)
  then have "\<forall>k. key_exists R s' k = key_exists R s k"
    using beat.hyps by (auto simp: scheduler_heartbeat_def intro!: expire_exists)
  then show ?case using beat.prems by (simp add: locks_ok_def)
next
  case (release f i s sc s')
  then have "sc = (f i)\<lparr>sc_acquired_locks := []\<rparr>" "s' = r_run R (Del (map scheduler_lock_key (sc_acquired_locks (f i)))) s"
    by (auto simp: release_locks_def seqO_def bindO_def split: if_splits)
  then show ?case using release.prems by (auto simp: locks_ok_def del_exists)
qed (auto simp: locks_ok_def del_exists)

lemma reachable_locks_ok: "(lock_step R)\<^sup>*\<^sup>* c c' \<Longrightarrow> locks_ok R c \<Longrightarrow> locks_ok R c'"
  by (induction rule: rtranclp_induct) (auto dest: lock_step_ok)

end

section \<open>A process started again\<close>

context redis_server
begin

lemma take_locks_held:
  fixes s :: 's
  assumes "\<forall>m \<in> set ns. r_str R s (scheduler_lock_key m) \<noteq> None"
  shows "\<exists>s'. take_locks R sc ns s = ([], s') \<and> r_str R s' = r_str R s"
  using assms
proof (induction ns arbitrary: s)
  case (Cons m ns)
  let ?s = "r_run R (SetNX (scheduler_lock_key m) (str_of_int (sc_pid sc)) (sc_interval sc + 60)) s"
  have same: "r_str R ?s = r_str R s" using Cons.prems by (auto simp: str_run)
  obtain s' where "take_locks R sc ns ?s = ([], s')" "r_str R s' = r_str R ?s"
    using Cons.IH [of ?s] Cons.prems same by auto
  moreover have "key_exists R s (scheduler_lock_key m)" using Cons.prems by (simp add: key_exists_def)
  ultimately show ?case using same by (simp add: Let_def)
qed simp

lemma acquire_held:
  fixes s :: 's
  assumes "\<forall>m \<in> set (sc_queue_names sc). r_str R s (scheduler_lock_key m) \<noteq> None"
  shows "\<exists>s'. acquire_locks R t sc (s, buf) = (Inr ([], sc\<lparr>sc_registries := [], sc_lock_time := Some t\<rparr>), (s', buf)) \<and> r_str R s' = r_str R s"
  using take_locks_held [OF assms, of sc] by (auto simp: acquire_locks_def bindO_def act_eq)

end

section \<open>Due jobs\<close>

definition due_fields :: "codec \<Rightarrow> datetime \<Rightarrow> string \<Rightarrow> job \<Rightarrow> fields" where
  "due_fields C t n j = (case to_dict C True True (prepare_for_queue (default_queue n) t j) of Inr (fs, _) \<Rightarrow> fs | Inl _ \<Rightarrow> [])"

definition due_cmds :: "codec \<Rightarrow> datetime \<Rightarrow> string \<Rightarrow> job \<Rightarrow> cmd list" where
  "due_cmds C t n j =
     (if j_status j = DEFERRED then reg_remove Deferred n (j_id j) else []) @
     persist_cmds QUEUED (due_fields C t n j) j @ push_job_id n (should_enqueue_at_front j) (j_id j)"

text \<open>The queue after the jobs \<open>js\<close> were pushed one after another, each at the end it asks for.\<close>

definition push_all :: "job list \<Rightarrow> string list \<Rightarrow> string list" where
  "push_all js l = fold (\<lambda>j l. if should_enqueue_at_front j then j_id j # l else l @ [j_id j]) js l"

lemma push_all_ends:
  "push_all js l = rev (map j_id (filter should_enqueue_at_front js)) @ l @ map j_id (filter (\<lambda>j. \<not> should_enqueue_at_front j) js)"
  unfolding push_all_def by (induction js arbitrary: l) simp_all

lemma for_each_enqueue_due:
  assumes "\<forall>j \<in> set js. ttl_ok j \<and> (\<exists>fs j'. to_dict C True True (prepare_for_queue (default_queue n) t j) = Inr (fs, j'))"
  shows "for_each (enqueue_due_job C R P t n) js (s, buf) =
    (Inr (), (s, buf @ concat (map (due_cmds C t n) js)))"
  using assms
proof (induction js arbitrary: buf)
  case (Cons j js)
  then obtain fs j' where td: "to_dict C True True (prepare_for_queue (default_queue n) t j) = Inr (fs, j')" "ttl_ok j"
    by auto
  have "enqueue_due_job C R P t n j (s, buf) =
      (Inr (), (s, buf @ due_cmds C t n j))" for buf
    using enqueue_async_eq(1) [OF td, of R "should_enqueue_at_front j" s buf] td(1)
    by (simp add: enqueue_due_job_def enqueue_now_def bindO_def due_cmds_def due_fields_def default_queue_def)
  with Cons show ?case by simp
qed simp

lemma enqueue_due_eq:
  assumes "get_jobs_to_schedule R s n (current_timestamp t) 1000 = ids" "fetch_many C R s t ids = Inr jobs"
    and "\<forall>j \<in> set (compact jobs). ttl_ok j \<and> (\<exists>fs j'. to_dict C True True (prepare_for_queue (default_queue n) t j) = Inr (fs, j'))"
  shows "enqueue_due C R P t n (s, buf) =
    (Inr (), (run_all R (concat (map (due_cmds C t n) (compact jobs)) @ concat (map (reg_remove Scheduled n) ids)) s, buf))"
proof (cases "ids = []")
  case True
  with assms(2) have "jobs = []" by (simp add: fetch_many_def)
  with True assms(1) show ?thesis by (simp add: enqueue_due_def bindO_def compact_def)
next
  case False
  then show ?thesis
    using assms for_each_enqueue_due [OF assms(3), where R = R and P = P and s = s and buf = "[]"]
    by (simp add: enqueue_due_def bindO_def seqO_def new_pipe_def for_each_sends)
qed

context redis_server
begin

lemma due_cmds_run:
  fixes s :: 's
  assumes "ttl_ok j" "to_dict C True True (prepare_for_queue (default_queue n) t j) = Inr (fs, j')"
  defines "s' \<equiv> run_all R (due_cmds C t n j) s"
  shows "r_list R s' = (r_list R s)(queue_key n := push_all [j] (r_list R s (queue_key n)))"
    "zscore R s' (registry_key Scheduled q) = zscore R s (registry_key Scheduled q)"
    "hget R s' (job_key i) ''status'' = (if i = j_id j then Some (status_text QUEUED) else hget R s (job_key i) ''status'')"
proof -
  let ?s1 = "run_all R (if j_status j = DEFERRED then reg_remove Deferred n (j_id j) else []) s"
  have s': "s' = run_all R (push_job_id n (should_enqueue_at_front j) (j_id j)) (run_all R (persist_cmds QUEUED fs j) ?s1)"
    by (simp add: s'_def due_cmds_def due_fields_def assms(2))
  have s1: "r_list R ?s1 = r_list R s" "hget R ?s1 = hget R s"
    "zscore R ?s1 (registry_key Scheduled q) = zscore R s (registry_key Scheduled q)"
    by (simp_all add: reg_remove_run) (simp add: reg_remove_def zset_run)
  have "map_of (rev fs) ''status'' = Some (status_text QUEUED)"
    using to_dict_status [OF assms(2)] by (simp add: prepare_for_queue_def)
  then show "r_list R s' = (r_list R s)(queue_key n := push_all [j] (r_list R s (queue_key n)))"
    "zscore R s' (registry_key Scheduled q) = zscore R s (registry_key Scheduled q)"
    "hget R s' (job_key i) ''status'' = (if i = j_id j then Some (status_text QUEUED) else hget R s (job_key i) ''status'')"
    by (simp_all only: s' push_run persist_run [OF assms(1), of QUEUED fs ?s1] s1, simp_all add: push_all_def)
qed

lemma all_due_cmds_run:
  fixes s :: 's
  assumes "\<forall>j \<in> set js. ttl_ok j \<and> (\<exists>fs j'. to_dict C True True (prepare_for_queue (default_queue n) t j) = Inr (fs, j'))"
  shows "r_list R (run_all R (concat (map (due_cmds C t n) js)) s) =
      (r_list R s)(queue_key n := push_all js (r_list R s (queue_key n))) \<and>
    zscore R (run_all R (concat (map (due_cmds C t n) js)) s) (registry_key Scheduled q) = zscore R s (registry_key Scheduled q) \<and>
    hget R (run_all R (concat (map (due_cmds C t n) js)) s) (job_key i) ''status'' =
      (if i \<in> j_id ` set js then Some (status_text QUEUED) else hget R s (job_key i) ''status'')"
  using assms
proof (induction js arbitrary: s)
  case (Cons j js)
  then obtain fs j' where td: "to_dict C True True (prepare_for_queue (default_queue n) t j) = Inr (fs, j')" "ttl_ok j"
    by auto
  note one = due_cmds_run [OF td(2,1), of s]
  have "\<forall>j \<in> set js. ttl_ok j \<and> (\<exists>fs j'. to_dict C True True (prepare_for_queue (default_queue n) t j) = Inr (fs, j'))"
    using Cons.prems by simp
  note rest = Cons.IH [OF this, of "run_all R (due_cmds C t n j) s"]
  have push: "push_all js (push_all [j] l) = push_all (j # js) l" for l by (simp add: push_all_def)
  have cmds: "concat (map (due_cmds C t n) (j # js)) = due_cmds C t n j @ concat (map (due_cmds C t n) js)" by simp
  show ?case
    unfolding cmds run_all_simps(3) using rest unfolding one by (simp add: push fun_eq_iff)
qed (simp add: push_all_def)

lemma remove_scheduled_run:
  fixes s :: 's
  shows "r_list R (run_all R (concat (map (reg_remove d n) ids)) s) = r_list R s \<and>
    hget R (run_all R (concat (map (reg_remove d n) ids)) s) = hget R s \<and>
    zscore R (run_all R (concat (map (reg_remove d n) ids)) s) (registry_key d n) = zscore R s (registry_key d n) |` (- set ids)"
proof (induction ids arbitrary: s)
  case (Cons i ids)
  have one: "zscore R (run_all R (reg_remove d n i) s) (registry_key d n) = zscore R s (registry_key d n) |` (- {i})"
    by (simp add: reg_remove_def zset_run)
  have "m |` (- set (i # ids)) = m |` (- {i}) |` (- set ids)" for m :: "string \<rightharpoonup> score"
    by (auto simp: restrict_map_def fun_eq_iff)
  with Cons.IH [of "run_all R (reg_remove d n i) s"] show ?case
    by (simp only: list.map concat.simps run_all_simps(3) reg_remove_run one)
qed (simp add: restrict_map_def)

lemma enqueue_due_run:
  fixes s :: 's
  assumes "get_jobs_to_schedule R s n (current_timestamp t) 1000 = ids" "fetch_many C R s t ids = Inr jobs"
    and "\<forall>j \<in> set (compact jobs). ttl_ok j \<and> (\<exists>fs j'. to_dict C True True (prepare_for_queue (default_queue n) t j) = Inr (fs, j'))"
  shows "\<exists>s'. enqueue_due C R P t n (s, buf) = (Inr (), (s', buf)) \<and>
    r_list R s' = (r_list R s)(queue_key n := push_all (compact jobs) (r_list R s (queue_key n))) \<and>
    (\<forall>j \<in> set (compact jobs). get_status R s' (j_id j) = Inr QUEUED) \<and>
    zscore R s' (registry_key Scheduled n) = zscore R s (registry_key Scheduled n) |` (- set ids)"
proof -
  let ?s1 = "run_all R (concat (map (due_cmds C t n) (compact jobs))) s"
  let ?s2 = "run_all R (concat (map (reg_remove Scheduled n) ids)) ?s1"
  note a = all_due_cmds_run [OF assms(3), of s]
  have "enqueue_due C R P t n (s, buf) = (Inr (), (?s2, buf))" using enqueue_due_eq [OF assms] by simp
  moreover have "r_list R ?s2 = (r_list R s)(queue_key n := push_all (compact jobs) (r_list R s (queue_key n)))"
    "hget R ?s2 = hget R ?s1" "zscore R ?s2 (registry_key Scheduled n) = zscore R s (registry_key Scheduled n) |` (- set ids)"
    using remove_scheduled_run [of Scheduled n ids ?s1] a by simp_all
  moreover have "get_status R ?s2 (j_id j) = Inr QUEUED" if "j \<in> set (compact jobs)" for j
    using that a [of n "j_id j"] \<open>hget R ?s2 = hget R ?s1\<close> by (simp add: get_status_def)
  ultimately show ?thesis by blast
qed

end

text \<open>
  Two schedulers that never hold a lock together under the steps above do once a lock may lapse while its
  holder is only slow: releasing does not look at who holds the lock. And a scheduler without any
  lock cannot stop.
\<close>

lemma release_without_locks_raises: "sc_acquired_locks sc = [] \<Longrightarrow> stop_scheduler R sc c = (Inl ResponseError, c)"
  by (cases c) (simp add: stop_scheduler_def release_locks_def bindO_def raiseO_def)

section \<open>Properties\<close>



text \<open>
  C15. What is due is enqueued: for a queue the scheduler serves, every due job that still exists is put on
  the queue, at the end it asks for and in the order of the times they were scheduled for, with the status
  queued; the ids that were due, those of deleted jobs included, leave the registry of scheduled jobs, and
  the others stay.
\<close>

theorem due_jobs_enqueued:
  assumes "redis_server R" "get_jobs_to_schedule R s n (current_timestamp t) 1000 = ids" "fetch_many C R s t ids = Inr jobs"
    and "\<forall>j \<in> set (compact jobs). ttl_ok j \<and> (\<exists>fs j'. to_dict C True True (prepare_for_queue (default_queue n) t j) = Inr (fs, j'))"
  shows "\<exists>s'. enqueue_due C R P t n (s, buf) = (Inr (), (s', buf)) \<and>
    r_list R s' (queue_key n) =
      rev (map j_id (filter should_enqueue_at_front (compact jobs))) @ r_list R s (queue_key n) @
      map j_id (filter (\<lambda>j. \<not> should_enqueue_at_front j) (compact jobs)) \<and>
    (\<forall>k. k \<noteq> queue_key n \<longrightarrow> r_list R s' k = r_list R s k) \<and>
    (\<forall>j \<in> set (compact jobs). get_status R s' (j_id j) = Inr QUEUED) \<and>
    zscore R s' (registry_key Scheduled n) = zscore R s (registry_key Scheduled n) |` (- set ids)"
  using redis_server.enqueue_due_run [OF assms, of P buf] by (auto simp: push_all_ends)

theorem due_jobs_enqueued_witness:
  "\<exists>s s'. get_jobs_to_schedule mem_redis s ''q'' 5 1000 = [''a''] \<and>
     enqueue_due sample_codec mem_redis sample_py 5000000 ''q'' (s, []) = (Inr (), (s', [])) \<and>
     r_list mem_redis s' (queue_key ''q'') = [''a''] \<and> zscore mem_redis s' (registry_key Scheduled ''q'') = [''later'' \<mapsto> Fin 9]"
proof -
  let ?s = "run_all mem_redis [ZAdd ZAny (registry_key Scheduled ''q'') ''later'' (Fin 9), ZAdd ZAny (registry_key Scheduled ''q'') ''a'' (Fin 3)]
      (saved (parent_job SCHEDULED))"
  let ?a = "persisted ''p'' (parent_job SCHEDULED)"
  let ?p = "prepare_for_queue (default_queue ''q'') 5000000 ?a"
  note p = saved_props [of "parent_job SCHEDULED", simplified]
  have z: "zscore mem_redis ?s (registry_key Scheduled ''q'') = [''later'' \<mapsto> Fin 9, ''a'' \<mapsto> Fin 3]"
    by (simp add: mem.zset_run p(5))
  have "set (zrangebyscore mem_redis ?s (registry_key Scheduled ''q'') 5) = {''a''}"
    unfolding set_eq_iff mem.mem_zrangebyscore z by (auto split: if_splits)
  from single_member [OF mem.distinct_zrangebyscore this]
  have ids: "get_jobs_to_schedule mem_redis ?s ''q'' (current_timestamp 5000000) 1000 = [''a'']"
    by (simp add: get_jobs_to_schedule_def current_timestamp_def usec_def)
  have "fetch sample_codec mem_redis ?s 5000000 ''a'' = fetch sample_codec mem_redis (saved (parent_job SCHEDULED)) 5000000 ''a''"
    by (rule fetch_cong) (simp add: mem.hash_run)
  then have "fetch_one sample_codec mem_redis ?s 5000000 ''a'' = Inr (Some ?a)" using p(1) by (intro fetch_one_fetch) simp_all
  then have f: "fetch_many sample_codec mem_redis ?s 5000000 [''a''] = Inr [Some ?a]"
    by (simp add: fetch_many_def parse_job_id_valid)
  have a: "j_id ?a = ''a''" "\<not> should_enqueue_at_front ?a" "ttl_ok ?a"
    by (simp_all add: persisted_def set_data_def parent_job_def sample_job_def new_job_def ttl_ok_def should_enqueue_at_front_def)
  obtain fs j2 where "to_dict sample_codec True True ?p = Inr (fs, j2)"
    by (rule sample_to_dict [of ?p]) (simp add: prepare_for_queue_def persisted_def set_data_def)
  with a(3) have ok: "\<forall>j \<in> set (compact [Some ?a]). ttl_ok j \<and>
      (\<exists>fs j'. to_dict sample_codec True True (prepare_for_queue (default_queue ''q'') 5000000 j) = Inr (fs, j'))" by simp
  obtain s' where "enqueue_due sample_codec mem_redis sample_py 5000000 ''q'' (?s, []) = (Inr (), (s', []))"
    "r_list mem_redis s' (queue_key ''q'') = [''a'']"
    "zscore mem_redis s' (registry_key Scheduled ''q'') = [''later'' \<mapsto> Fin 9, ''a'' \<mapsto> Fin 3] |` (- set [''a''])"
    using due_jobs_enqueued [OF mem.redis_server_axioms ids f ok, of sample_py "[]"] a p(3) unfolding z
    by (auto simp: mem.list_run)
  moreover have "[''later'' \<mapsto> Fin 9, ''a'' \<mapsto> Fin 3] |` (- set [''a'']) = [''later'' \<mapsto> Fin 9]" by (auto simp: restrict_map_def fun_eq_iff)
  moreover have "current_timestamp 5000000 = 5" by (simp add: current_timestamp_def usec_def)
  ultimately show ?thesis using ids by (intro exI [of _ ?s] exI [of _ s']) simp
qed

text \<open>
  C37. A worker whose scheduler process has died starts it again with the locks it once had, whoever holds them now: the
  locks are all taken and stay with their holders, none is acquired, and still there is a new process that counts them as its
  own, does not try to acquire them and enqueues what is due on their queues beside the scheduler that holds them.
\<close>

theorem restart_without_locks:
  assumes "redis_server R" "w_last_cleaned_at w \<noteq> None" "sc_queue_names sc = [n]" "sc_acquired_locks sc = [n]"
    and "r_str R s (scheduler_lock_key n) = Some holder"
  shows "\<exists>sc1 p s'. maintain_scheduler R t False child w (Some sc) (s, buf) = (Inr (Some sc1, Some p), (s', buf)) \<and>
    r_str R s' (scheduler_lock_key n) = Some holder \<and> sc_pid p = child \<and> sc_acquired_locks p = [n] \<and>
    (\<forall>u. \<not> should_reacquire_locks u p \<and> enqueue_scheduled_jobs C R P u p =
       bindO (enqueue_due C R P u n) (\<lambda>_. ret (p\<lparr>sc_registries := [n], sc_status := SStarted\<rparr>)))"
proof -
  obtain s' where a: "acquire_locks R t sc (s, buf) = (Inr ([], sc\<lparr>sc_registries := [], sc_lock_time := Some t\<rparr>), (s', buf))"
    "r_str R s' = r_str R s"
    using redis_server.acquire_held [OF assms(1), of sc s t buf] assms(3,5) by auto
  let ?c = "sc\<lparr>sc_registries := [], sc_lock_time := Some t, sc_status := SStarted\<rparr>"
  have "maintain_scheduler R t False child w (Some sc) (s, buf) = (Inr (Some ?c, Some (?c\<lparr>sc_pid := child\<rparr>)), (s', buf))"
    using assms(2,4) a by (simp add: maintain_scheduler_def acquire_and_start_def start_process_def Let_def bindO_def)
  moreover have "enqueue_scheduled_jobs C R P u (?c\<lparr>sc_pid := child\<rparr>) =
      bindO (enqueue_due C R P u n) (\<lambda>_. ret ((?c\<lparr>sc_pid := child\<rparr>)\<lparr>sc_registries := [n], sc_status := SStarted\<rparr>))" for u
    using assms(4)
    by (simp add: enqueue_scheduled_jobs_def prepare_registries_def Let_def fun_eq_iff seqO_def bindO_def split: sum.splits prod.splits)
  ultimately show ?thesis
    using assms(3-5) a(2) by (auto simp: should_reacquire_locks_def)
qed

definition sample_stale :: scheduler where
  "sample_stale = (new_scheduler [''q''] 1 7)\<lparr>sc_acquired_locks := [''q''], sc_lock_time := Some 0\<rparr>"

theorem restart_without_locks_witness:
  "\<exists>w sc1 p s'. maintain_scheduler mem_redis 900 False 9 w (Some sample_stale)
       (r_run mem_redis (SetNX (scheduler_lock_key ''q'') ''8'' 61) mem_empty, []) = (Inr (Some sc1, Some p), (s', [])) \<and>
     r_str mem_redis s' (scheduler_lock_key ''q'') = Some ''8'' \<and> sc_pid p = 9 \<and> sc_acquired_locks p = [''q'']"
proof -
  let ?w = "sample_worker\<lparr>w_last_cleaned_at := Some 1\<rparr>"
  let ?s = "r_run mem_redis (SetNX (scheduler_lock_key ''q'') ''8'' 61) mem_empty"
  have "r_str mem_redis ?s (scheduler_lock_key ''q'') = Some ''8''" by (simp add: mem.str_run)
  moreover have "w_last_cleaned_at ?w \<noteq> None" "sc_queue_names sample_stale = [''q'']" "sc_acquired_locks sample_stale = [''q'']"
    by (simp_all add: sample_stale_def new_scheduler_def)
  ultimately show ?thesis
    using restart_without_locks [OF mem.redis_server_axioms, of ?w sample_stale "''q''" ?s "''8''" 900 9 "[]"] by blast
qed

end
