(* ===== verification/System.thy ===== *)
theory System
  imports Scheduler
begin

text \<open>
  The system as one state machine: enqueueing, taking, preparing, finishing, failing, scheduling and cancelling jobs,
  by any number of clients and workers in any order. Its abstraction is a board with the lists of the
  queues and the status of every job; each operation of the code moves the board by one abstract step,
  and no queued job is ever lost, not even when a worker dies between two commands.
\<close>

section \<open>The board\<close>

record board =
  b_list :: "key \<Rightarrow> string list"
  b_status :: "string \<rightharpoonup> string"

definition board_of :: "'s redis \<Rightarrow> 's \<Rightarrow> board" where
  "board_of R s =
     \<lparr>b_list = (\<lambda>k. if fam k = ''queue'' then r_list R s k else []), b_status = (\<lambda>i. hget R s (job_key i) ''status'')\<rparr>"

definition b_put :: "key \<Rightarrow> bool \<Rightarrow> string \<Rightarrow> board \<Rightarrow> board" where
  "b_put k front i b = b\<lparr>b_list := (b_list b)(k := (if front then i # b_list b k else b_list b k @ [i]))\<rparr>"

definition b_drop :: "key \<Rightarrow> string \<Rightarrow> board \<Rightarrow> board" where
  "b_drop k i b = b\<lparr>b_list := (b_list b)(k := remove1 i (b_list b k))\<rparr>"

definition b_mark :: "string \<Rightarrow> string \<Rightarrow> board \<Rightarrow> board" where
  "b_mark i st b = b\<lparr>b_status := (b_status b)(i \<mapsto> st)\<rparr>"

text \<open>
  The abstract steps: a job is put on a queue and queued; the first of a queue moves to the list of the
  jobs in between; a job in between is started; any job gets another status; a job leaves its queue.
\<close>

inductive board_step :: "board \<Rightarrow> board \<Rightarrow> bool" where
  put: "board_step b (b_mark i (status_text QUEUED) (b_put (queue_key q) front i b))"
| take: "b_list b (queue_key q) = i # is \<Longrightarrow>
    board_step b (b_put (intermediate_key (queue_key q)) False i (b_drop (queue_key q) i b))"
| start: "board_step b (b_mark i (status_text STARTED) (b_drop (intermediate_key (queue_key q)) i b))"
| mark: "st \<noteq> QUEUED \<Longrightarrow> board_step b (b_mark i (status_text st) b)"
| leave: "st \<noteq> QUEUED \<Longrightarrow> board_step b (b_mark i (status_text st) (b_drop (queue_key q) i b))"
| idle: "board_step b b"

text \<open>The keys of the lists that hold jobs to be done; a job is present when one of them has it.\<close>

definition holder :: "key \<Rightarrow> bool" where
  "holder k \<longleftrightarrow> (\<exists>q. k = queue_key q \<or> k = intermediate_key (queue_key q))"

definition present_on :: "board \<Rightarrow> string \<Rightarrow> bool" where
  "present_on b i \<longleftrightarrow> (\<exists>k. holder k \<and> i \<in> set (b_list b k))"

text \<open>Every queued job is on a queue or in between.\<close>

definition nothing_lost :: "board \<Rightarrow> bool" where
  "nothing_lost b \<longleftrightarrow> (\<forall>i. b_status b i = Some (status_text QUEUED) \<longrightarrow> present_on b i)"

lemma holder_simps [simp]: "holder (queue_key q)" "holder (intermediate_key (queue_key q))"
  by (auto simp: holder_def)

lemma queued_text [simp]: "status_text st = status_text QUEUED \<longleftrightarrow> st = QUEUED"
  by (cases st) simp_all

lemma board_simps [simp]:
  "b_list (b_put k f i b) = (b_list b)(k := (if f then i # b_list b k else b_list b k @ [i]))"
  "b_list (b_drop k i b) = (b_list b)(k := remove1 i (b_list b k))"
  "b_list (b_mark i st b) = b_list b" "b_status (b_put k f i b) = b_status b" "b_status (b_drop k i b) = b_status b"
  "b_status (b_mark i st b) = (b_status b)(i \<mapsto> st)"
  by (simp_all add: b_put_def b_drop_def b_mark_def)

lemma present_mark [simp]: "present_on (b_mark i st b) i' = present_on b i'"
  by (simp add: present_on_def)

lemma present_put:
  assumes "holder k"
  shows "present_on (b_put k front i b) i' \<longleftrightarrow> i' = i \<or> present_on b i'"
proof -
  have eq: "i' \<in> set (b_list (b_put k front i b) l) \<longleftrightarrow> l = k \<and> i' = i \<or> i' \<in> set (b_list b l)" for l
    by (cases "l = k"; cases front) auto
  show ?thesis using assms unfolding present_on_def eq by blast
qed

lemma present_drop:
  assumes "i' \<noteq> i"
  shows "present_on (b_drop k i b) i' = present_on b i'"
proof -
  have eq: "i' \<in> set (b_list (b_drop k i b) l) \<longleftrightarrow> i' \<in> set (b_list b l)" for l using assms by simp
  show ?thesis unfolding present_on_def eq by (rule refl)
qed

lemma board_step_keeps:
  assumes "board_step b b'" "nothing_lost b"
  shows "nothing_lost b'"
  using assms
proof (induction rule: board_step.induct)
  case (take b q i "is")
  then show ?case by (auto simp: nothing_lost_def present_put) (metis present_drop)
next
  case (start b i q)
  moreover have "STARTED \<noteq> QUEUED" by simp
  ultimately show ?case unfolding nothing_lost_def by (auto simp: present_drop simp del: job_status.distinct)
qed (auto simp: nothing_lost_def present_put present_drop)

lemma board_steps_keep: "board_step\<^sup>*\<^sup>* b b' \<Longrightarrow> nothing_lost b \<Longrightarrow> nothing_lost b'"
  by (induction rule: rtranclp_induct) (auto intro: board_step_keeps)

section \<open>The steps of the code\<close>

text \<open>
  Operations that return, on a server state and with nothing queued. \<open>quiet\<close> is anything else that changes neither
  the lists of the queues nor the status of a job: heartbeats, registries, results, workers coming
  and going.
\<close>

inductive sys_step :: "codec \<Rightarrow> 's redis \<Rightarrow> py \<Rightarrow> 's \<Rightarrow> 's \<Rightarrow> bool" for C R P where
  enqueue: "ttl_ok j \<Longrightarrow> enqueue_async_job C R t q False front False j (s, []) = (Inr j', (s', b)) \<Longrightarrow> sys_step C R P s s'"
| schedule: "ttl_ok j \<Longrightarrow> schedule_job C R t q zone dt False False j (s, []) = (Inr j', (s', b)) \<Longrightarrow> sys_step C R P s s'"
| take: "lmove R (queue_key q) timeout s = (Inr (Some (k, i)), s') \<Longrightarrow> sys_step C R P s s'"
| prepare: "prepare_job_execution C R t True j w (s, []) = (Inr j', (s', b)) \<Longrightarrow> sys_step C R P s s'"
| succeed: "dependent_ids R s (j_id j) = [] \<Longrightarrow> j_repeats_left j = None \<Longrightarrow> 0 < get_result_ttl j (w_default_result_ttl w) \<Longrightarrow>
    handle_job_success C R P u zone q j w (s, []) = (Inr r, (s', b)) \<Longrightarrow> sys_step C R P s s'"
| fail: "final_failure j w \<Longrightarrow> sset R s (dependents_key (j_id j)) = {} \<Longrightarrow> 0 < opt_default default_failure_ttl (j_failure_ttl j) \<Longrightarrow>
    handle_job_failure C R P u q exc j w (s, []) = (Inr r, (s', b)) \<Longrightarrow> sys_step C R P s s'"
| cancel: "hget R s (job_key (j_id j)) ''status'' = Some (status_text st) \<Longrightarrow> st \<noteq> STARTED \<Longrightarrow>
    cancel C R P t False False False j (s, []) = (Inr j', (s', b)) \<Longrightarrow> sys_step C R P s s'"
| quiet: "board_of R s' = board_of R s \<Longrightarrow> sys_step C R P s s'"

lemma enqueue_async_Inr:
  assumes "enqueue_async_job C R t q False front False j c = (Inr j', c')"
  shows "\<exists>fs j2. to_dict C True True (prepare_for_queue q t j) = Inr (fs, j2)"
proof (cases "to_dict C True True (prepare_for_queue q t j)")
  case (Inl e)
  have st: "(prepare_for_queue q t j)\<lparr>j_status := QUEUED\<rparr> = prepare_for_queue q t j" by (simp add: prepare_for_queue_def)
  from Inl assms show ?thesis
    by (cases c) (simp add: enqueue_async_job_def own_pipe_def new_pipe_def persist_job_def save_on_def save_def bindO_def seqO_def
        set_status_on_def set_status_def st Let_def split: if_splits)
next
  case (Inr p)
  then show ?thesis by (cases p) blast
qed

lemma schedule_job_Inr:
  assumes "schedule_job C R t q zone dt False False j c = (Inr j', c')"
  shows "\<exists>fs j2. to_dict C True True (j\<lparr>j_status := SCHEDULED\<rparr>) = Inr (fs, j2)"
proof (cases "to_dict C True True (j\<lparr>j_status := SCHEDULED\<rparr>)")
  case (Inl e)
  from Inl assms show ?thesis
    by (cases c) (simp add: schedule_job_def own_pipe_def new_pipe_def persist_job_def save_on_def save_def bindO_def seqO_def
        set_status_on_def set_status_def Let_def split: if_splits)
next
  case (Inr p)
  then show ?thesis by (cases p) blast
qed

lemma get_status_Inr: "get_status R s i = Inr st \<Longrightarrow> hget R s (job_key i) ''status'' = Some (status_text st)"
  by (auto simp: get_status_def status_of_def find_Some_iff split: option.splits if_splits)

text \<open>The keys whose lists or hashes an operation on the job \<open>i\<close> must not touch.\<close>

definition foreign :: "string \<Rightarrow> key \<Rightarrow> bool" where
  "foreign i k \<longleftrightarrow> fam k = ''queue'' \<or> (\<exists>i'. i' \<noteq> i \<and> k = job_key i')"

lemma foreign_fam: "foreign i k \<Longrightarrow> fam k = ''queue'' \<or> fam k = ''job''"
  by (auto simp: foreign_def)

lemma foreign_simps [simp]: "fam k = ''queue'' \<Longrightarrow> foreign i k" "i' \<noteq> i \<Longrightarrow> foreign i (job_key i')" "\<not> foreign i (job_key i)"
  by (auto simp: foreign_def)

context redis_server
begin

lemma board_eqI:
  assumes "\<And>k. fam k = ''queue'' \<Longrightarrow> r_list R s' k = b_list b k" "\<And>k. fam k \<noteq> ''queue'' \<Longrightarrow> b_list b k = []"
    and "\<And>i. hget R s' (job_key i) ''status'' = b_status b i"
  shows "board_of R s' = b"
  using assms by (cases b) (auto simp: board_of_def fun_eq_iff)

lemma board_put:
  fixes s :: 's
  assumes "fam k = ''queue''" "r_list R s' = (r_list R s)(k := (if front then i # r_list R s k else r_list R s k @ [i]))"
    and "\<And>i'. hget R s' (job_key i') ''status'' = (if i' = i then Some st else hget R s (job_key i') ''status'')"
  shows "board_of R s' = b_mark i st (b_put k front i (board_of R s))"
  using assms by (intro board_eqI) (auto simp: board_of_def)

lemma board_mark:
  fixes s :: 's
  assumes "\<And>k. fam k = ''queue'' \<Longrightarrow> r_list R s' k = r_list R s k"
    and "\<And>i'. hget R s' (job_key i') ''status'' = (if i' = i then Some st else hget R s (job_key i') ''status'')"
  shows "board_of R s' = b_mark i st (board_of R s)"
  using assms by (intro board_eqI) (auto simp: board_of_def)

lemma board_settled:
  fixes s :: 's
  assumes "\<And>k. foreign i k \<Longrightarrow> r_list R s' k = r_list R s k \<and> hget R s' k = hget R s k" "get_status R s' i = Inr st"
  shows "board_of R s' = b_mark i (status_text st) (board_of R s)"
  using assms(1) get_status_Inr [OF assms(2)] by (intro board_mark) simp_all

lemma foreign_frame:
  fixes s :: 's
  assumes "\<forall>c \<in> set cs. \<not> foreign i k \<or> k \<notin> set (touches c)" "\<forall>c \<in> set ds. \<not> foreign i k \<or> k \<notin> set (touches c)" "0 < n" "foreign i k"
  shows "r_list R (run_all R (cs @ expire_keys j n @ ds) s) k = r_list R s k \<and> hget R (run_all R (cs @ expire_keys j n @ ds) s) k = hget R s k"
proof -
  have "\<forall>c \<in> set cs. k \<notin> set (touches c)" "\<forall>c \<in> set ds. k \<notin> set (touches c)" using assms by auto
  note f = run_all_frame [OF this(1)] run_all_frame [OF this(2)]
  show ?thesis using f expire_keys_run [OF assms(3)] by simp
qed

lemma board_drop:
  fixes s :: 's
  assumes "fam k = ''queue''" "\<And>l. fam l = ''queue'' \<Longrightarrow> r_list R s' l = (if l = k then remove1 i (r_list R s k) else r_list R s l)"
    and "\<And>i'. hget R s' (job_key i') ''status'' = (if i' = i then Some st else hget R s (job_key i') ''status'')"
  shows "board_of R s' = b_mark i st (b_drop k i (board_of R s))"
  using assms by (intro board_eqI) (auto simp: board_of_def)

lemma enqueue_board:
  assumes "ttl_ok j" "enqueue_async_job C R t q False front False j (s, b) = (Inr j', (s', b'))"
  shows "board_of R s' = b_mark (j_id j) (status_text QUEUED) (b_put (queue_key (q_name q)) front (j_id j) (board_of R s))"
proof -
  obtain fs j2 where td: "to_dict C True True (prepare_for_queue q t j) = Inr (fs, j2)"
    using enqueue_async_Inr [OF assms(2)] by blast
  let ?rm = "if j_status j = DEFERRED then reg_remove Deferred (q_name q) (j_id j) else []"
  let ?s1 = "run_all R ?rm s"
  have eq: "s' = run_all R (push_job_id (q_name q) front (j_id j)) (run_all R (persist_cmds QUEUED fs j) ?s1)"
    using enqueue_async_eq(2) [OF td assms(1), of R front s b] assms(2) by simp
  have s1: "r_list R ?s1 = r_list R s" "hget R ?s1 = hget R s" by (simp_all add: reg_remove_run)
  note p = persist_run [OF assms(1), of QUEUED fs ?s1]
  have "map_of (rev fs) ''status'' = Some (status_text QUEUED)"
    using to_dict_status [OF td] by (simp add: prepare_for_queue_def)
  then show ?thesis
    by (intro board_put) (simp_all only: eq push_run p s1, simp_all)
qed

lemma schedule_board:
  assumes "ttl_ok j" "schedule_job C R t q zone dt False False j (s, b) = (Inr j', (s', b'))"
  shows "board_of R s' = b_mark (j_id j) (status_text SCHEDULED) (board_of R s)"
proof -
  obtain fs j2 where td: "to_dict C True True (j\<lparr>j_status := SCHEDULED\<rparr>) = Inr (fs, j2)"
    using schedule_job_Inr [OF assms(2)] by blast
  let ?s1 = "r_run R (SAdd queues_key (queue_key (q_name q))) (schedule R (q_name q) (j_id j) zone dt s)"
  have eq: "s' = run_all R (persist_cmds SCHEDULED fs j) ?s1"
    using schedule_job_direct [OF td assms(1), of R t q zone dt s b] assms(2) by simp
  have s1: "r_list R ?s1 = r_list R s" "hget R ?s1 = hget R s" by (simp_all add: schedule_run list_run hash_run)
  have "map_of (rev fs) ''status'' = Some (status_text SCHEDULED)" using to_dict_status [OF td] by simp
  then show ?thesis
    by (intro board_mark) (simp_all only: eq persist_run [OF assms(1), of SCHEDULED fs ?s1] s1, simp_all)
qed

lemma take_board:
  assumes "lmove R (queue_key q) timeout s = (Inr (Some (k, i)), s')"
  shows "\<exists>is. b_list (board_of R s) (queue_key q) = i # is \<and>
    board_of R s' = b_put (intermediate_key (queue_key q)) False i (b_drop (queue_key q) i (board_of R s))"
proof -
  obtain "is" where l: "r_list R s (queue_key q) = i # is" "s' = r_run R (LMove (queue_key q) (intermediate_key (queue_key q))) s"
    using assms by (auto simp: lmove_def split: if_splits list.splits)
  have "board_of R s' = b_put (intermediate_key (queue_key q)) False i (b_drop (queue_key q) i (board_of R s))"
    by (rule board_eqI) (auto simp: l board_of_def list_run hash_run)
  with l(1) show ?thesis by (simp add: board_of_def)
qed

lemma prepare_board:
  assumes "prepare_job_execution C R t True j w (s, b) = (Inr j', (s', b'))"
  shows "board_of R s' = b_mark (j_id j) (status_text STARTED) (b_drop (intermediate_key (queue_key (j_origin j))) (j_id j) (board_of R s))"
proof -
  have s': "s' = run_all R (prepare_cmds t True j w) s"
    using assms by (auto simp: prepare_job_execution_def seqO_def bindO_def split: sum.splits prod.splits)
  show ?thesis
    unfolding s'
    by (rule board_drop)
      (simp_all add: prepare_cmds_def set_current_job_id_def set_current_job_working_time_def worker_heartbeat_def heartbeat_def
        prepare_for_execution_def Let_def list_run hash_run wipe_def w_key_def)
qed

lemma handle_job_success_Inr:
  assumes "dependent_ids R s (j_id j) = []" "j_repeats_left j = None" "get_result_ttl j (w_default_result_ttl w) = ttl" "0 < ttl"
    and "handle_job_success C R P u zone q j w (s, b) = (Inr r, c')"
  shows "\<exists>fs j3 rc. to_dict C False False (j\<lparr>j_status := FINISHED\<rparr>) = Inr (fs, j3) \<and>
    create_result C (j_id j) SUCCESSFUL (Some ttl) (j_result j) None (w_name w) (worker_exec j w) = Inr rc"
proof (cases "to_dict C False False (j\<lparr>j_status := FINISHED\<rparr>)")
  case (Inl e)
  then show ?thesis
    using assms
    by (simp add: handle_job_success_def enqueue_dependents_def new_pipe_def bindO_def seqO_def handle_success_def
        set_status_on_def set_status_def save_on_def save_def)
next
  case (Inr p)
  then obtain fs j3 where td: "to_dict C False False (j\<lparr>j_status := FINISHED\<rparr>) = Inr (fs, j3)" by (cases p) blast
  obtain d where d: "get_data C (j\<lparr>j_status := FINISHED\<rparr>) = Inr (d, j3)" using td by (rule to_dict_Inr)
  have same: "j_id j3 = j_id j" "j_result j3 = j_result j" by (subst get_data_fields [OF d], simp)+
  show ?thesis
    using assms td same
    by (cases "create_result C (j_id j) SUCCESSFUL (Some ttl) (j_result j) None (w_name w) (worker_exec j w)")
      (simp_all add: handle_job_success_def enqueue_dependents_def new_pipe_def bindO_def seqO_def handle_success_def
        set_status_on_def set_status_def save_on_def save_def)
qed

lemma succeed_board:
  fixes s :: 's
  assumes "dependent_ids R s (j_id j) = []" "j_repeats_left j = None" "0 < get_result_ttl j (w_default_result_ttl w)"
    and "handle_job_success C R P u zone q j w (s, b) = (Inr r, (s', b'))"
  shows "board_of R s' = b_mark (j_id j) (status_text FINISHED) (board_of R s)"
proof -
  let ?ttl = "get_result_ttl j (w_default_result_ttl w)"
  obtain fs j3 rc where td: "to_dict C False False (j\<lparr>j_status := FINISHED\<rparr>) = Inr (fs, j3)"
    and rc: "create_result C (j_id j) SUCCESSFUL (Some ?ttl) (j_result j) None (w_name w) (worker_exec j w) = Inr rc"
    using handle_job_success_Inr [OF assms(1,2) refl assms(3,4)] by blast
  have s': "s' = run_all R (success_cmds u ?ttl fs rc j w) s"
    using handle_job_success_eq [OF assms(1,2) refl assms(3) td rc] assms(4) by simp
  let ?A = "increment_successful_job_count w @ working_time_cmds j w @
     [HSet (job_key (j_id j)) [(''status'', status_text FINISHED)], HSet (job_key (j_id j)) fs] @ rc @
     reg_add Finished (j_origin j) (j_id j) ?ttl False u"
  have split: "s' = run_all R (?A @ expire_keys j ?ttl @ cleanup_execution j w) s" by (simp add: s' success_cmds_def)
  have st: "map_of (rev fs) ''status'' = Some (status_text FINISHED)" using to_dict_status_any [OF td] by simp
  show ?thesis
  proof (rule board_settled)
    show "get_status R s' (j_id j) = Inr FINISHED" unfolding s' by (rule success_run(1) [OF assms(3) rc st])
    fix k
    assume k: "foreign (j_id j) k"
    have "\<forall>c \<in> set ?A. \<not> foreign (j_id j) k \<or> k \<notin> set (touches c)"
      using k foreign_fam [OF k] create_result_cmds [OF rc]
      by (auto simp: increment_successful_job_count_def working_time_cmds_def increment_total_working_time_def reg_add_def
          split: option.splits)
    moreover have "\<forall>c \<in> set (cleanup_execution j w). \<not> foreign (j_id j) k \<or> k \<notin> set (touches c)"
      using foreign_fam [OF k] by (auto dest!: cleanup_execution_touches)
    ultimately show "r_list R s' k = r_list R s k \<and> hget R s' k = hget R s k"
      unfolding split by (rule foreign_frame) (rule assms(3), rule k)
  qed
qed

lemma handle_job_failure_Inr:
  assumes "final_failure j w" "0 < opt_default default_failure_ttl (j_failure_ttl j)"
    and "handle_job_failure C R P u q exc j w (s, b) = (Inr r, c')"
  shows "\<exists>fs j3 rc. to_dict C False False (j\<lparr>j_status := FAILED, j_exc_info := Some exc\<rparr>) = Inr (fs, j3) \<and>
    create_failure C (j_id j) (j_failure_ttl j) exc (w_name w) (worker_exec j w) = Inr rc"
proof -
  have ok: "\<not> should_retry j" "w_stopped_job_id w \<noteq> Some (j_id j)" "\<not> w_disable_default_handler w"
    using assms(1) by (simp_all add: final_failure_def)
  have ex: "worker_exec (j\<lparr>j_status := FAILED\<rparr>) w = worker_exec j w" by (simp add: worker_exec_def)
  show ?thesis
  proof (cases "to_dict C False False (j\<lparr>j_status := FAILED, j_exc_info := Some exc\<rparr>)")
    case (Inl e)
    then show ?thesis
      using assms(3) ok
      by (simp add: handle_job_failure_def new_pipe_def bindO_def seqO_def set_status_on_def set_status_def handle_failure_def
          failed_add_def Let_def save_on_def save_def)
  next
    case (Inr p)
    then obtain fs j3 where td: "to_dict C False False (j\<lparr>j_status := FAILED, j_exc_info := Some exc\<rparr>) = Inr (fs, j3)"
      by (cases p) blast
    obtain d where d: "get_data C (j\<lparr>j_status := FAILED, j_exc_info := Some exc\<rparr>) = Inr (d, j3)" using td by (rule to_dict_Inr)
    have same: "j_id j3 = j_id j" "j_failure_ttl j3 = j_failure_ttl j" by (subst get_data_fields [OF d], simp)+
    show ?thesis
      using assms(2,3) ok td same ex
      by (cases "create_failure C (j_id j) (j_failure_ttl j) exc (w_name w) (worker_exec j w)")
        (simp_all add: handle_job_failure_def new_pipe_def bindO_def seqO_def set_status_on_def set_status_def handle_failure_def
          failed_add_def Let_def save_on_def save_def cleanup_def)
  qed
qed

lemma fail_board:
  fixes s :: 's
  assumes "final_failure j w" "sset R s (dependents_key (j_id j)) = {}" "0 < opt_default default_failure_ttl (j_failure_ttl j)"
    and "handle_job_failure C R P u q exc j w (s, b) = (Inr r, (s', b'))"
  shows "board_of R s' = b_mark (j_id j) (status_text FAILED) (board_of R s)"
proof -
  let ?n = "opt_default default_failure_ttl (j_failure_ttl j)"
  obtain fs j3 rc where td: "to_dict C False False (j\<lparr>j_status := FAILED, j_exc_info := Some exc\<rparr>) = Inr (fs, j3)"
    and rc: "create_failure C (j_id j) (j_failure_ttl j) exc (w_name w) (worker_exec j w) = Inr rc"
    using handle_job_failure_Inr [OF assms(1,3,4)] by blast
  have s': "s' = run_all R (failure_cmds FAILED u ?n fs rc j w) s"
    using handle_job_failure_eq [OF assms(1,2) refl assms(3) td rc] assms(4) by simp
  let ?A = "HSet (job_key (j_id j)) [(''status'', status_text FAILED)] # cleanup_execution j w @ [HSet (job_key (j_id j)) fs]"
  let ?B = "ZAdd ZAny (registry_key Failed (j_origin j)) (j_id j) (Fin (current_timestamp u + ?n)) # rc @
     increment_failed_job_count w @ working_time_cmds j w"
  have split: "s' = run_all R (?A @ expire_keys j ?n @ ?B) s" by (simp add: s' failure_cmds_def)
  have st: "map_of (rev fs) ''status'' = Some (status_text FAILED)" using to_dict_status_any [OF td] by simp
  show ?thesis
  proof (rule board_settled)
    show "get_status R s' (j_id j) = Inr FAILED" unfolding s' by (rule failure_run(1) [OF assms(3) rc st])
    fix k
    assume k: "foreign (j_id j) k"
    have "\<forall>c \<in> set ?A. \<not> foreign (j_id j) k \<or> k \<notin> set (touches c)"
      using k foreign_fam [OF k] by (auto dest!: cleanup_execution_touches)
    moreover have "\<forall>c \<in> set ?B. \<not> foreign (j_id j) k \<or> k \<notin> set (touches c)"
      using foreign_fam [OF k] create_result_cmds [OF rc [unfolded create_failure_def]]
      by (auto simp: increment_failed_job_count_def working_time_cmds_def increment_total_working_time_def split: option.splits)
    ultimately show "r_list R s' k = r_list R s k \<and> hget R s' k = hget R s k"
      unfolding split by (rule foreign_frame) (rule assms(3), rule k)
  qed
qed

lemma cancel_board:
  fixes s :: 's
  assumes "hget R s (job_key (j_id j)) ''status'' = Some (status_text st)" "st \<noteq> STARTED"
    and "cancel C R P t False False False j (s, b) = (Inr r, (s', b'))"
  shows "board_of R s' = b_mark (j_id j) (status_text CANCELED) (b_drop (queue_key (j_origin j)) (j_id j) (board_of R s))"
proof -
  have "st \<noteq> CANCELED"
  proof
    assume "st = CANCELED"
    then have "get_status R s (j_id j) = Inr CANCELED" using assms(1) by (simp add: get_status_def)
    then show False using assms(3) by (simp add: cancel_def bindO_def)
  qed
  note run = cancel_run [OF assms(1) this assms(2), where t = t]
  let ?cs = "[HSet (job_key (j_id j)) [(''status'', status_text CANCELED)]] @ remove (j_origin j) (j_id j) @
      (case status_registry st of None \<Rightarrow> [] | Some d \<Rightarrow> reg_remove d (j_origin j) (j_id j)) @
      reg_add Canceled (j_origin j) (j_id j) 0 False t"
  have s': "s' = run_all R ?cs s" using run(1) [of C P b] assms(3) by simp
  have "\<forall>c \<in> set ?cs. job_key i \<notin> set (touches c)" if "i \<noteq> j_id j" for i
    using that by (auto simp: remove_def reg_remove_def reg_add_def split: option.splits)
  note frame = run_all_frame(4) [OF this]
  show ?thesis
    unfolding s'
    by (rule board_drop) (use run(2) frame get_status_Inr [OF run(3)] in auto)
qed

lemma step_refines: "sys_step C R P s s' \<Longrightarrow> board_step (board_of R s) (board_of R s')"
proof (induction rule: sys_step.induct)
  case (take q timeout s k i s')
  from take_board [OF this] board_step.take show ?case by auto
qed (auto simp: enqueue_board schedule_board prepare_board succeed_board fail_board cancel_board
    intro: board_step.intros)

lemma steps_refine: "(sys_step C R P)\<^sup>*\<^sup>* s s' \<Longrightarrow> board_step\<^sup>*\<^sup>* (board_of R s) (board_of R s')"
  by (induction rule: rtranclp_induct) (auto dest: step_refines intro: rtranclp.rtrancl_into_rtrancl)

end

section \<open>Properties\<close>


text \<open>A server with one enqueued job.\<close>

lemma one_enqueued:
  obtains s' where "sys_step sample_codec mem_redis sample_py mem_empty s'"
    "board_of mem_redis s' = b_mark ''a'' (status_text QUEUED) (b_put (queue_key ''q'') False ''a'' (board_of mem_redis mem_empty))"
proof -
  let ?p = "prepare_for_queue sample_queue 0 (sample_job ''a'')"
  obtain fs j2 where td: "to_dict sample_codec True True ?p = Inr (fs, j2)"
    by (rule sample_to_dict [of ?p]) (simp add: prepare_for_queue_def)
  have ok: "ttl_ok (sample_job ''a'')" by (simp add: ttl_ok_def)
  obtain s' where s': "enqueue_async_job sample_codec mem_redis 0 sample_queue False False False (sample_job ''a'') (mem_empty, []) =
      (Inr j2, (s', []))"
    using enqueue_async_eq(2) [OF td ok, of mem_redis False mem_empty "[]"] by blast
  have "sys_step sample_codec mem_redis sample_py mem_empty s'" by (rule sys_step.enqueue [OF ok s'])
  moreover have "board_of mem_redis s' = b_mark ''a'' (status_text QUEUED) (b_put (queue_key ''q'') False ''a'' (board_of mem_redis mem_empty))"
    using mem.enqueue_board [OF ok s'] by (simp add: sample_queue_def)
  ultimately show ?thesis by (rule that)
qed




end
