(* ===== verification/Json.thy ===== *)
theory Json
  imports Utils
begin

text \<open>
  The part of the standard library's \<open>json\<close> that the program uses, on the Python values of theory \<open>Utils\<close>:
  \<open>dumps\<close> with its default separators, \<open>loads\<close>, \<open>safe_json_dumps\<close> (\<open>rq/utils.py\<close>) and the JSON serializer
  (\<open>rq/serializers.py\<close>). The text of a float and its value are those of the interpreter (\<open>fl_repr\<close>,
  \<open>fl_of\<close>); the three texts for infinities and not-a-number, which are no rationals, are not read.
\<close>

record floats =
  fl_repr :: "rat \<Rightarrow> string"
  fl_of :: "string \<Rightarrow> rat"

section \<open>Writing\<close>

text \<open>Bytes and opaque objects have no JSON text: \<open>dumps\<close> raises TypeError on a value that holds one.\<close>

fun serialisable :: "pyval \<Rightarrow> bool" where
  "serialisable (PBytes s) = False"
| "serialisable (PObj s) = False"
| "serialisable (PList xs) = list_all serialisable xs"
| "serialisable (PTuple xs) = list_all serialisable xs"
| "serialisable (PDict kvs) = list_all (\<lambda>kv. serialisable (snd kv)) kvs"
| "serialisable _ = True"

definition member_text :: "string \<times> string \<Rightarrow> string" where
  "member_text m = json_str (fst m) @ '': '' @ snd m"

fun jtext :: "floats \<Rightarrow> pyval \<Rightarrow> string" where
  "jtext F PNone = ''null''"
| "jtext F (PBool b) = (if b then ''true'' else ''false'')"
| "jtext F (PInt i) = str_of_int i"
| "jtext F (PFloat x) = fl_repr F x"
| "jtext F (PStr s) = json_str s"
| "jtext F (PList xs) = json_list (map (jtext F) xs)"
| "jtext F (PTuple xs) = json_list (map (jtext F) xs)"
| "jtext F (PDict kvs) =
     CHR ''{'' # join '', '' (map (\<lambda>kv. member_text (fst kv, jtext F (snd kv))) kvs) @ [CHR ''}'']"
| "jtext F (PBytes s) = []"
| "jtext F (PObj s) = []"

definition json_dumps :: "floats \<Rightarrow> pyval \<Rightarrow> string res" where
  "json_dumps F v = (if serialisable v then Inr (jtext F v) else Inl TypeError)"

definition not_json_serializable :: string where
  "not_json_serializable = ''<not JSON serializable>''"

definition safe_json_dumps :: "floats \<Rightarrow> pyval \<Rightarrow> string" where
  "safe_json_dumps F v = (case json_dumps F v of Inl _ \<Rightarrow> not_json_serializable | Inr s \<Rightarrow> s)"

section \<open>Reading\<close>

text \<open>
  A number: an optional minus, a whole part without leading zeros, and with a fraction or an exponent it is a
  float. The parts are what the decoder's pattern matches, each with the rest of the text.
\<close>

definition whole_part :: "string \<Rightarrow> (string \<times> string) option" where
  "whole_part s =
     (case s of
        [] \<Rightarrow> None
      | c # cs \<Rightarrow>
          if c = CHR ''0'' then Some ([c], cs)
          else if is_digit c then Some (takeWhile is_digit s, dropWhile is_digit s)
          else None)"

definition frac_part :: "string \<Rightarrow> string \<times> string" where
  "frac_part s =
     (case s of
        d # c # cs \<Rightarrow> if d = CHR ''.'' \<and> is_digit c then (d # takeWhile is_digit (c # cs), dropWhile is_digit (c # cs)) else ([], s)
      | _ \<Rightarrow> ([], s))"

definition exp_part :: "string \<Rightarrow> string \<times> string" where
  "exp_part s =
     (case s of
        e # c # cs \<Rightarrow>
          if e \<in> {CHR ''e'', CHR ''E''} then
            (if is_digit c then (e # takeWhile is_digit (c # cs), dropWhile is_digit (c # cs))
             else if c \<in> {CHR ''+'', CHR ''-''} \<and> cs \<noteq> [] \<and> is_digit (hd cs)
             then (e # c # takeWhile is_digit cs, dropWhile is_digit cs)
             else ([], s))
          else ([], s)
      | _ \<Rightarrow> ([], s))"

definition read_number :: "floats \<Rightarrow> string \<Rightarrow> (pyval \<times> string) option" where
  "read_number F s =
     (let (sg, r) = (if take 1 s = ''-'' then (''-'', drop 1 s) else ([], s)) in
      case whole_part r of
        None \<Rightarrow> None
      | Some (w, r1) \<Rightarrow>
          (let (f, r2) = frac_part r1; (e, r3) = exp_part r2 in
           if f = [] \<and> e = [] then map_option (\<lambda>i. (PInt i, r3)) (int_of_str (sg @ w))
           else Some (PFloat (fl_of F (sg @ w @ f @ e)), r3)))"

definition read_word :: "floats \<Rightarrow> string \<Rightarrow> (pyval \<times> string) option" where
  "read_word F s =
     (if take 4 s = ''null'' then Some (PNone, drop 4 s)
      else if take 4 s = ''true'' then Some (PBool True, drop 4 s)
      else if take 5 s = ''false'' then Some (PBool False, drop 5 s)
      else read_number F s)"

definition read_member :: "(string \<Rightarrow> (pyval \<times> string) option) \<Rightarrow> string \<Rightarrow> ((string \<times> pyval) \<times> string) option" where
  "read_member rd s =
     (case read_str s of
        None \<Rightarrow> None
      | Some (k, r) \<Rightarrow>
          (case skip_ws r of
             [] \<Rightarrow> None
           | c # cs \<Rightarrow> if c = CHR '':'' then map_option (\<lambda>(v, q). ((k, v), q)) (rd (skip_ws cs)) else None))"

text \<open>\<open>dict(pairs)\<close>: of two members with one name the later gives the value, at the place of the first.\<close>

definition dict_of :: "(string \<times> 'v) list \<Rightarrow> (string \<times> 'v) list" where
  "dict_of ms = fold (\<lambda>m. AList.update (fst m) (snd m)) ms []"

text \<open>What stands between brackets, of which the opening one has been read.\<close>

definition read_group :: "char \<Rightarrow> (string \<Rightarrow> ('a \<times> string) option) \<Rightarrow> string \<Rightarrow> ('a list \<times> string) option" where
  "read_group close rd s =
     (case skip_ws s of
        [] \<Rightarrow> None
      | c # cs \<Rightarrow> if c = close then Some ([], cs) else read_elems close (length s) rd s)"

text \<open>The number bounds the nesting, which is less than the length of the text.\<close>

fun read_json :: "floats \<Rightarrow> nat \<Rightarrow> string \<Rightarrow> (pyval \<times> string) option" where
  "read_json F 0 s = None"
| "read_json F (Suc n) s =
     (case s of
        [] \<Rightarrow> None
      | c # cs \<Rightarrow>
          if c = CHR 0x22 then map_option (\<lambda>(x, r). (PStr x, r)) (unescape cs)
          else if c = CHR ''['' then map_option (\<lambda>(xs, r). (PList xs, r)) (read_group CHR '']'' (read_json F n) cs)
          else if c = CHR ''{'' then
            map_option (\<lambda>(ms, r). (PDict (dict_of ms), r)) (read_group CHR ''}'' (read_member (read_json F n)) cs)
          else read_word F s)"

text \<open>None is JSONDecodeError.\<close>

definition json_loads :: "floats \<Rightarrow> string \<Rightarrow> pyval option" where
  "json_loads F s =
     (case read_json F (length s) (skip_ws s) of
        None \<Rightarrow> None
      | Some (v, r) \<Rightarrow> if skip_ws r = [] then Some v else None)"

section \<open>Reading back\<close>

text \<open>
  \<open>ends r\<close>: what may follow a value. \<open>float_ok F x\<close>: the interpreter's text of \<open>x\<close> is a number and reads as \<open>x\<close>.
  \<open>jsonable F v\<close>: \<open>v\<close> is what \<open>loads\<close> can return, so \<open>v\<close> has no tuple, bytes or object in it, and a dict has
  distinct keys.
\<close>

definition ends :: "string \<Rightarrow> bool" where
  "ends r \<longleftrightarrow> r = [] \<or> hd r \<in> {CHR '','', CHR '']'', CHR ''}''}"

definition float_ok :: "floats \<Rightarrow> rat \<Rightarrow> bool" where
  "float_ok F x \<longleftrightarrow> read_number F (fl_repr F x) = Some (PFloat x, [])"

fun jsonable :: "floats \<Rightarrow> pyval \<Rightarrow> bool" where
  "jsonable F (PFloat x) = float_ok F x"
| "jsonable F (PBytes s) = False"
| "jsonable F (PObj s) = False"
| "jsonable F (PTuple xs) = False"
| "jsonable F (PList xs) = list_all (jsonable F) xs"
| "jsonable F (PDict kvs) = (distinct (map fst kvs) \<and> list_all (\<lambda>kv. jsonable F (snd kv)) kvs)"
| "jsonable F _ = True"

lemma ends_hd: "ends r \<Longrightarrow> r = [] \<or> (\<exists>c cs. r = c # cs \<and> \<not> is_digit c \<and> c \<notin> {CHR ''.'', CHR ''e'', CHR ''E'', CHR ''+'', CHR ''-''})"
  by (cases r) (auto simp: ends_def is_digit_def)

lemma digits_append:
  assumes "ends t"
  shows "takeWhile is_digit (s @ t) = takeWhile is_digit s" "dropWhile is_digit (s @ t) = dropWhile is_digit s @ t"
proof -
  have "takeWhile is_digit t = []" "dropWhile is_digit t = t" using ends_hd [OF assms] by auto
  then show "takeWhile is_digit (s @ t) = takeWhile is_digit s" "dropWhile is_digit (s @ t) = dropWhile is_digit s @ t"
    by (induction s) auto
qed

lemma whole_part_append: "ends t \<Longrightarrow> whole_part s = Some (w, r) \<Longrightarrow> whole_part (s @ t) = Some (w, r @ t)"
  using digits_append [of t s] by (cases s) (auto simp: whole_part_def split: if_splits)

lemma frac_part_append:
  assumes "ends t"
  shows "frac_part (s @ t) = (fst (frac_part s), snd (frac_part s) @ t)"
proof (cases s)
  case Nil
  then show ?thesis using ends_hd [OF assms] by (auto simp: frac_part_def split: list.splits)
next
  case (Cons d ds)
  then show ?thesis using ends_hd [OF assms] digits_append [OF assms]
    by (cases ds) (auto simp: frac_part_def split: list.splits)
qed

lemma exp_part_append:
  assumes "ends t"
  shows "exp_part (s @ t) = (fst (exp_part s), snd (exp_part s) @ t)"
proof -
  consider "s = []" | e where "s = [e]" | e c where "s = [e, c]" | e c d ds where "s = e # c # d # ds"
    by (metis list.exhaust)
  then show ?thesis
  proof cases
    case 1
    then show ?thesis using ends_hd [OF assms] by (auto simp: exp_part_def split: list.splits)
  next
    case (2 e)
    then show ?thesis using ends_hd [OF assms] by (auto simp: exp_part_def split: list.splits)
  next
    case (3 e c)
    then show ?thesis using ends_hd [OF assms] digits_append [OF assms, of "[c]"] 
      by (auto simp: exp_part_def split: list.splits)
  next
    case (4 e c d ds)
    then show ?thesis using digits_append [OF assms, of "c # d # ds"] digits_append [OF assms, of "d # ds"]
      by (auto simp: exp_part_def)
  qed
qed

lemma read_number_append:
  assumes "ends t" "read_number F s = Some (v, r)"
  shows "read_number F (s @ t) = Some (v, r @ t)"
proof -
  define sg where "sg = (if take 1 s = ''-'' then ''-'' else [])"
  define b where "b = (if take 1 s = ''-'' then drop 1 s else s)"
  have split: "(if take 1 s = ''-'' then (''-'', drop 1 s) else ([], s)) = (sg, b)" by (simp add: sg_def b_def)
  have ne: "s \<noteq> []" using assms(2) by (auto simp: read_number_def whole_part_def)
  then have split': "(if take 1 (s @ t) = ''-'' then (''-'', drop 1 (s @ t)) else ([], s @ t)) = (sg, b @ t)"
    by (cases s) (auto simp: sg_def b_def)
  obtain w r1 where w: "whole_part b = Some (w, r1)"
    using assms(2) split by (auto simp: read_number_def Let_def split: option.splits)
  obtain f r2 where f: "frac_part r1 = (f, r2)" by fastforce
  obtain e r3 where e: "exp_part r2 = (e, r3)" by fastforce
  have "whole_part (b @ t) = Some (w, r1 @ t)" "frac_part (r1 @ t) = (f, r2 @ t)" "exp_part (r2 @ t) = (e, r3 @ t)"
    using whole_part_append [OF assms(1) w] frac_part_append [OF assms(1), of r1] exp_part_append [OF assms(1), of r2] f e
    by simp_all
  then show ?thesis using assms(2) unfolding read_number_def split split'
    by (auto simp: w f e split: if_splits)
qed

text \<open>\<open>reads n u v\<close>: the value \<open>v\<close> is read from its text \<open>u\<close> whatever follows it.\<close>

definition reads :: "floats \<Rightarrow> nat \<Rightarrow> string \<Rightarrow> pyval \<Rightarrow> bool" where
  "reads F n u v \<longleftrightarrow>
     (\<forall>r. ends r \<longrightarrow> read_json F n (u @ r) = Some (v, r)) \<and>
     (\<exists>c cs. u = c # cs \<and> c \<notin> {CHR '' '', CHR 0x09, CHR 0x0A, CHR 0x0D, CHR '']'', CHR ''}''})"

lemma reads_elem: "reads F n u v \<Longrightarrow> close \<in> {CHR '']'', CHR ''}''} \<Longrightarrow> elem_ok close (read_json F n) u v"
  by (auto simp: reads_def elem_ok_def ends_def)

lemma number_start:
  assumes "read_number F s = Some (v, r)"
  obtains c cs where "s = c # cs" "is_digit c \<or> c = CHR ''-''"
proof (cases s)
  case Nil
  then show ?thesis using assms by (simp add: read_number_def whole_part_def)
next
  case (Cons c cs)
  have "is_digit CHR ''0''" by (simp add: is_digit_def)
  then have "is_digit c \<or> c = CHR ''-''"
    using assms Cons by (auto simp: read_number_def whole_part_def Let_def split: if_splits option.splits)
  with Cons that show ?thesis by blast
qed

lemma reads_number:
  assumes "read_number F u = Some (v, [])" "n > 0"
  shows "reads F n u v"
proof -
  obtain m where m: "n = Suc m" using assms(2) by (cases n) auto
  obtain c cs where u: "u = c # cs" and c: "is_digit c \<or> c = CHR ''-''" using number_start [OF assms(1)] .
  have no: "c \<notin> {CHR '' '', CHR 0x09, CHR 0x0A, CHR 0x0D, CHR '']'', CHR ''}'', CHR 0x22, CHR ''['', CHR ''{'', CHR ''n'', CHR ''t'', CHR ''f''}"
    using c by (auto simp: is_digit_def)
  have "read_json F n (u @ r) = Some (v, r)" if "ends r" for r
    using read_number_append [OF that assms(1)] no u m by (simp add: read_word_def)
  with u no show ?thesis by (auto simp: reads_def)
qed

text \<open>A number written without a fraction has no leading zero.\<close>

lemma str_of_nat_lead: "0 < n \<Longrightarrow> hd (str_of_nat n) \<noteq> CHR ''0''"
proof (induction n rule: str_of_nat.induct)
  case (1 n)
  show ?case
  proof (cases "n < 10")
    case True
    then have "(of_char (digit_char n) :: nat) \<noteq> of_char CHR ''0''" using 1(2) by simp
    then show ?thesis using True by (subst str_of_nat.simps) (metis list.sel(1))
  next
    case False
    then have "hd (str_of_nat (n div 10)) \<noteq> CHR ''0''" using 1(1) by simp
    then show ?thesis using False by (subst str_of_nat.simps) simp
  qed
qed

lemma whole_part_str_of_nat: "whole_part (str_of_nat n) = Some (str_of_nat n, [])"
proof (cases "n = 0")
  case True
  have "(char_of (of_char CHR ''0'' :: nat) :: char) = CHR ''0''" by (rule char_of_char)
  then have "str_of_nat 0 = ''0''" by (subst str_of_nat.simps) (simp add: digit_char_def del: char_of_char)
  with True show ?thesis by (simp add: whole_part_def)
next
  case False
  obtain c cs where c: "str_of_nat n = c # cs" "is_digit c" using str_of_nat_Cons by blast
  have "c \<noteq> CHR ''0''" using str_of_nat_lead [of n] False c by simp
  moreover have "takeWhile is_digit (str_of_nat n) = str_of_nat n" "dropWhile is_digit (str_of_nat n) = []"
    using str_of_nat_digits [of n] by (simp_all add: takeWhile_eq_all_conv)
  ultimately show ?thesis using c by (simp add: whole_part_def)
qed

lemma read_number_str_of_int: "read_number F (str_of_int i) = Some (PInt i, [])"
proof -
  have parts: "frac_part [] = ([], [])" "exp_part [] = ([], [])" by (simp_all add: frac_part_def exp_part_def)
  show ?thesis
  proof (cases "i < 0")
    case True
    then show ?thesis using int_of_str_of_int [of i]
      by (simp add: read_number_def whole_part_str_of_nat parts str_of_int_def)
  next
    case False
    obtain c cs where c: "str_of_nat (nat i) = c # cs" "is_digit c" using str_of_nat_Cons by blast
    have "c \<noteq> CHR ''-''" using c(2) by (auto simp: is_digit_def)
    then show ?thesis using False c int_of_str_of_int [of i] whole_part_str_of_nat [of "nat i"]
      by (simp add: read_number_def parts str_of_int_def)
  qed
qed

text \<open>Lists and objects: what stands between the brackets.\<close>

lemma read_group_join:
  assumes ok: "\<forall>x \<in> set xs. elem_ok close rd (w x) x" and close: "close \<in> {CHR '']'', CHR ''}''}"
  shows "read_group close rd (join '', '' (map w xs) @ close # r) = Some (xs, r)"
proof (cases xs)
  case Nil
  have "skip_ws (close # r) = close # r" using close by (auto simp: skip_ws_def)
  with Nil show ?thesis by (simp add: read_group_def)
next
  case (Cons y ys)
  have ne: "\<forall>u \<in> set (map w xs). u \<noteq> []" using ok by (auto simp: elem_ok_def)
  then have len: "length xs \<le> length (join '', '' (map w xs) @ close # r)" using length_join [OF ne, of "'', ''"] by simp
  have ne': "xs \<noteq> []" using Cons by simp
  have rd: "read_elems close (length (join '', '' (map w xs) @ close # r)) rd (join '', '' (map w xs) @ close # r) = Some (xs, r)"
    using close by (intro read_elems_join [OF ok ne' len]) auto
  have y: "elem_ok close rd (w y) y" using ok Cons by simp
  obtain t where t: "join '', '' (map w xs) = w y @ t" using join_Cons_start [of "map w xs"] Cons by auto
  obtain d ds where d: "w y = d # ds" "d \<noteq> close" using y close unfolding elem_ok_def by auto
  have "skip_ws (join '', '' (map w xs) @ close # r) = d # ds @ t @ close # r"
    using elem_ok_skip [OF y] t d by simp
  then show ?thesis using rd d t by (simp add: read_group_def)
qed

lemma update_fresh: "k \<notin> fst ` set al \<Longrightarrow> AList.update k v al = al @ [(k, v)]"
  by (induction al) auto

lemma dict_of_distinct: "distinct (map fst ms) \<Longrightarrow> dict_of ms = ms"
proof -
  have "distinct (map fst (acc @ ms)) \<Longrightarrow> fold (\<lambda>m. AList.update (fst m) (snd m)) ms acc = acc @ ms" for acc
  proof (induction ms arbitrary: acc)
    case (Cons m ms)
    have "AList.update (fst m) (snd m) acc = acc @ [m]" using Cons.prems by (simp add: update_fresh)
    then show ?case using Cons.IH [of "acc @ [m]"] Cons.prems by simp
  qed simp
  from this [of "[]"] show "distinct (map fst ms) \<Longrightarrow> dict_of ms = ms" by (simp add: dict_of_def)
qed

lemma length_in_join: "u \<in> set us \<Longrightarrow> length u \<le> length (join sep us)"
  by (induction sep us rule: join.induct) auto

lemma member_elem:
  assumes "reads F n u v" "close \<in> {CHR '']'', CHR ''}''}"
  shows "elem_ok close (read_member (read_json F n)) (member_text (k, u)) (k, v)"
proof -
  have "read_member (read_json F n) (member_text (k, u) @ c # r) = Some ((k, v), c # r)"
    if "c \<in> {CHR '','', close}" for c r
  proof -
    obtain d ds where d: "u = d # ds" "d \<notin> {CHR '' '', CHR 0x09, CHR 0x0A, CHR 0x0D, CHR '']'', CHR ''}''}"
      using assms(1) unfolding reads_def by blast
    then have ws: "skip_ws (CHR '' '' # u @ c # r) = u @ c # r" "skip_ws (CHR '':'' # t) = CHR '':'' # t" for t
      by (simp_all add: skip_ws_def)
    have "ends (c # r)" using that assms(2) by (auto simp: ends_def)
    then have "read_json F n (u @ c # r) = Some (v, c # r)" using assms(1) by (simp add: reads_def)
    then show ?thesis
      by (simp add: read_member_def member_text_def json_str_def read_str_def unescape_string ws)
  qed
  then show ?thesis by (simp add: elem_ok_def member_text_def json_str_def)
qed

lemma reads_list:
  assumes "\<forall>x \<in> set xs. reads F n (w x) x"
  shows "reads F (Suc n) (json_list (map w xs)) (PList xs)"
proof -
  have "\<forall>x \<in> set xs. elem_ok CHR '']'' (read_json F n) (w x) x" using assms reads_elem by blast
  then have "read_group CHR '']'' (read_json F n) (join '', '' (map w xs) @ CHR '']'' # r) = Some (xs, r)" for r
    by (rule read_group_join) simp
  then show ?thesis by (simp add: reads_def json_list_def)
qed

lemma reads_dict:
  assumes "\<forall>kv \<in> set kvs. reads F n (w (snd kv)) (snd kv)" "distinct (map fst kvs)"
  shows "reads F (Suc n) (CHR ''{'' # join '', '' (map (\<lambda>kv. member_text (fst kv, w (snd kv))) kvs) @ [CHR ''}'']) (PDict kvs)"
proof -
  have "\<forall>kv \<in> set kvs. elem_ok CHR ''}'' (read_member (read_json F n)) (member_text (fst kv, w (snd kv))) kv"
    using assms(1) member_elem by (metis insertCI prod.collapse)
  then have "read_group CHR ''}'' (read_member (read_json F n))
      (join '', '' (map (\<lambda>kv. member_text (fst kv, w (snd kv))) kvs) @ CHR ''}'' # r) = Some (kvs, r)" for r
    by (rule read_group_join) simp
  then show ?thesis using assms(2) by (simp add: reads_def dict_of_distinct)
qed

text \<open>The main lemma, by induction on the value: the length of the text is fuel enough.\<close>

lemma reads_text: "jsonable F v \<Longrightarrow> length (jtext F v) \<le> n \<Longrightarrow> reads F n (jtext F v) v"
proof (induction v arbitrary: n)
  case PNone
  then obtain m where "n = Suc m" by (cases n) auto
  then show ?case by (simp add: reads_def read_word_def)
next
  case (PBool b)
  then obtain m where "n = Suc m" by (cases n) (auto split: if_splits)
  then show ?case by (simp add: reads_def read_word_def)
next
  case (PInt i)
  obtain c cs where "str_of_int i = c # cs" by (cases "str_of_int i") auto
  with PInt have "n > 0" by auto
  then show ?case using reads_number [OF read_number_str_of_int [of F i]] by simp
next
  case (PFloat x)
  then have x: "read_number F (fl_repr F x) = Some (PFloat x, [])"
    by (simp add: float_ok_def)
  obtain c cs where "fl_repr F x = c # cs" using number_start [OF x] by blast
  then have "n > 0" using PFloat by auto
  then show ?case using reads_number [OF x] by simp
next
  case (PStr s)
  then obtain m where "n = Suc m" by (cases n) (auto simp: json_str_def)
  then show ?case by (auto simp: reads_def json_str_def unescape_string)
next
  case (PList xs)
  then obtain m where m: "n = Suc m" by (cases n) (auto simp: json_list_def)
  have "reads F m (jtext F x) x" if "x \<in> set xs" for x
    using PList.IH [OF that, of m] PList.prems m that length_in_join [of "jtext F x" "map (jtext F) xs" "'', ''"]
    by (auto simp: list_all_iff json_list_def)
  then show ?case using reads_list [of xs F m "jtext F"] m by simp
next
  case (PDict kvs)
  then obtain m where m: "n = Suc m" by (cases n) auto
  have "reads F m (jtext F (snd kv)) (snd kv)" if kv: "kv \<in> set kvs" for kv
  proof -
    have "length (member_text (fst kv, jtext F (snd kv))) \<le> m"
      using length_in_join [of "member_text (fst kv, jtext F (snd kv))" "map (\<lambda>kv. member_text (fst kv, jtext F (snd kv))) kvs" "'', ''"]
        kv m PDict.prems by auto
    then have "length (jtext F (snd kv)) \<le> m" by (simp add: member_text_def)
    moreover have "jsonable F (snd kv)" using PDict.prems kv by (auto simp: list_all_iff)
    ultimately show ?thesis using PDict.IH [of kv "snd kv" m] kv by (cases kv) auto
  qed
  then show ?case using reads_dict [of kvs F m "jtext F"] PDict.prems m by simp
qed simp_all

lemma jsonable_serialisable: "jsonable F v \<Longrightarrow> serialisable v"
  by (induction v) (auto simp: list_all_iff)

lemma json_dumps_jsonable: "jsonable F v \<Longrightarrow> json_dumps F v = Inr (jtext F v)"
  by (simp add: json_dumps_def jsonable_serialisable)

lemma json_loads_text:
  assumes "jsonable F v"
  shows "json_loads F (jtext F v) = Some v"
proof -
  have r: "reads F (length (jtext F v)) (jtext F v) v" using assms by (rule reads_text) simp
  then have "read_json F (length (jtext F v)) (jtext F v) = Some (v, [])"
    by (auto simp: reads_def ends_def dest: spec [of _ "[]"])
  moreover have "skip_ws (jtext F v) = jtext F v"
    using r unfolding reads_def by (auto simp: skip_ws_def)
  moreover have "skip_ws [] = []" by (simp add: skip_ws_def)
  ultimately show ?thesis by (simp add: json_loads_def)
qed

lemma jtext_nonempty: "jsonable F v \<Longrightarrow> jtext F v \<noteq> []"
  using reads_text [of F v "length (jtext F v)"] by (auto simp: reads_def)

end
