(* ===== verification/Serializers.thy ===== *)
theory Serializers
  imports Json JobStore
begin

text \<open>
  The serializers (\<open>rq/serializers.py\<close>): which one an argument names, and the JSON serializer as the codec of
  theory \<open>Job\<close>, with \<open>json\<close> as theory \<open>Json\<close> has it. Pickle is the other serializer the library ships; its
  format is not modelled. \<open>zlib\<close> stays a parameter.
\<close>

text \<open>The two the library defines, and any other object.\<close>

datatype 'o serializer = PickleSerializer | JSONSerializer | Custom 'o

datatype 'o serializer_arg = SNone | SName string | SObject "'o serializer"

definition serializer_aliases :: "string \<rightharpoonup> 'o serializer" where
  "serializer_aliases = [''json'' \<mapsto> JSONSerializer, ''pickle'' \<mapsto> PickleSerializer]"

text \<open>\<open>imp\<close> is \<open>import_attribute\<close>; \<open>has_methods\<close> whether an object has \<open>dumps\<close> and \<open>loads\<close>.\<close>

definition resolve_serializer ::
  "(string \<Rightarrow> 'o serializer res) \<Rightarrow> ('o \<Rightarrow> bool) \<Rightarrow> 'o serializer_arg \<Rightarrow> 'o serializer res" where
  "resolve_serializer imp has_methods arg =
     (let checked = (\<lambda>x. case x of Custom o' \<Rightarrow> if has_methods o' then Inr x else Inl NotImplementedError | _ \<Rightarrow> Inr x) in
      case arg of
        SNone \<Rightarrow> Inr PickleSerializer
      | SName n \<Rightarrow>
          if n = [] then Inr PickleSerializer
          else (case serializer_aliases n of Some x \<Rightarrow> checked x | None \<Rightarrow> bindE (imp n) checked)
      | SObject x \<Rightarrow> checked x)"

text \<open>\<open>JSONSerializer\<close>. The text is ASCII, so encoding it as UTF-8 changes nothing.\<close>

definition json_serializer :: "floats \<Rightarrow> codec \<Rightarrow> codec" where
  "json_serializer F Z =
     Z\<lparr>dumps := (\<lambda>v. case json_dumps F v of Inl _ \<Rightarrow> None | Inr s \<Rightarrow> Some s), loads := json_loads F\<rparr>"

lemma json_serializer_simps [simp]:
  "dumps (json_serializer F Z) v = (case json_dumps F v of Inl _ \<Rightarrow> None | Inr s \<Rightarrow> Some s)"
  "loads (json_serializer F Z) = json_loads F"
  "zip_keeps (json_serializer F Z) = zip_keeps Z"
  by (simp_all add: json_serializer_def zip_keeps_def fun_eq_iff)

lemma json_codec_keeps: "jsonable F v \<Longrightarrow> codec_keeps (json_serializer F Z) v"
  by (simp add: codec_keeps_def json_dumps_jsonable json_loads_text jtext_nonempty)

text \<open>The payload of a job: the tuple is written as a list, and read as one.\<close>

definition json_payload :: "floats \<Rightarrow> pyval \<Rightarrow> pyval \<Rightarrow> pyval list \<Rightarrow> (string \<times> pyval) list \<Rightarrow> string" where
  "json_payload F f i xs kvs = jtext F (PList [f, i, PList xs, PDict kvs])"

lemma json_get_data:
  assumes "j_data j = UNEVALUATED" "j_func_name j = Val f" "j_instance j = Val i" "j_args j = Val (PTuple xs)"
    "j_kwargs j = Val (PDict kvs)" and "jsonable F f" "jsonable F i" "list_all (jsonable F) xs" "jsonable F (PDict kvs)"
  shows "get_data (json_serializer F Z) j = Inr (json_payload F f i xs kvs, j\<lparr>j_data := Val (json_payload F f i xs kvs)\<rparr>)"
proof -
  have "json_dumps F (job_tuple j) = Inr (json_payload F f i xs kvs)"
    using assms jsonable_serialisable [of F] unfolding json_dumps_def json_payload_def
    by (auto simp: job_tuple_def list_all_iff)
  moreover have "j\<lparr>j_instance := or_val PNone (j_instance j), j_args := or_val (PTuple []) (j_args j),
      j_kwargs := or_val (PDict []) (j_kwargs j)\<rparr> = j"
    using assms by (simp add: or_val_def)
  ultimately show ?thesis using assms by (simp add: get_data_def or_val_def)
qed

lemma json_deserialize:
  assumes "j_data k = Val (json_payload F f i xs kvs)"
    and "jsonable F f" "jsonable F i" "list_all (jsonable F) xs" "jsonable F (PDict kvs)"
  shows "deserialize_data (json_serializer F Z) k =
    Inr (k\<lparr>j_func_name := Val f, j_instance := Val i, j_args := Val (PList xs), j_kwargs := Val (PDict kvs)\<rparr>)"
proof -
  have "jsonable F (PList [f, i, PList xs, PDict kvs])" using assms by simp
  then have "json_loads F (json_payload F f i xs kvs) = Some (PList [f, i, PList xs, PDict kvs])"
    unfolding json_payload_def by (rule json_loads_text)
  then show ?thesis using assms(1) by (simp add: deserialize_data_def get_data_Val py_items_def)
qed

section \<open>Properties\<close>

text \<open>
  C21. A job kept with the JSON serializer: saved and fetched again, its function, instance, arguments and keyword
  arguments are those it was created with, for values JSON can represent; the positional arguments come back
  as a list where they were a tuple.
\<close>

theorem json_serializer_roundtrip:
  assumes "redis_server R" "valid_id (j_id j)" "r_hash R s (job_key (j_id j)) = []"
    and "j_data j = UNEVALUATED" "j_func_name j = Val f" "j_instance j = Val i" "j_args j = Val (PTuple xs)"
      "j_kwargs j = Val (PDict kvs)"
    and "jsonable F f" "jsonable F i" "list_all (jsonable F) xs" "jsonable F (PDict kvs)"
    and "storable (json_serializer F Z) j" "zip_keeps Z (json_payload F f i xs kvs)"
  shows "\<exists>cs j' k. save (json_serializer F Z) True True j = Inr (cs, j') \<and>
    fetch (json_serializer F Z) R (run_all R cs s) t (j_id j) = Inr k \<and>
    bindE (get_func_name (json_serializer F Z) k) (\<lambda>p. Inr (fst p)) = Inr f \<and>
    bindE (get_instance (json_serializer F Z) k) (\<lambda>p. Inr (fst p)) = Inr i \<and>
    bindE (get_args (json_serializer F Z) k) (\<lambda>p. Inr (fst p)) = Inr (PList xs) \<and>
    bindE (get_kwargs (json_serializer F Z) k) (\<lambda>p. Inr (fst p)) = Inr (PDict kvs)"
proof -
  let ?C = "json_serializer F Z" and ?d = "json_payload F f i xs kvs"
  note data = json_get_data [OF assms(4-8) assms(9-12), of Z]
  obtain cs where cs: "save ?C True True j = Inr (cs, j\<lparr>j_data := Val ?d\<rparr>)"
    using save_succeeds [OF data assms(13)] by blast
  have "fetch ?C R (run_all R cs s) t (j_id j) = Inr (persisted ?d j)"
    using assms(14) by (intro redis_server.fetch_after_save [OF assms(1-3) cs data assms(13)]) simp
  moreover have "j_data (persisted ?d j) = Val ?d" "j_func_name (persisted ?d j) = UNEVALUATED"
    "j_instance (persisted ?d j) = UNEVALUATED" "j_args (persisted ?d j) = UNEVALUATED"
    "j_kwargs (persisted ?d j) = UNEVALUATED"
    by (simp_all add: persisted_def set_data_def)
  ultimately show ?thesis using cs json_deserialize [OF _ assms(9-12), of "persisted ?d j" Z]
    by (simp add: get_func_name_def get_instance_def get_args_def get_kwargs_def lazy_get_def)
qed

text \<open>An interpreter for the example: it writes no float.\<close>

definition no_floats :: floats where
  "no_floats = \<lparr>fl_repr = \<lambda>_. ''0.0'', fl_of = \<lambda>_. 0\<rparr>"

definition json_job :: job where
  "json_job = (sample_job ''a'')\<lparr>j_instance := Val PNone, j_args := Val (PTuple [PInt (- 7), PStr ''x'']),
     j_kwargs := Val (PDict [(''deep'', PList [PBool True, PNone])])\<rparr>"

theorem json_serializer_roundtrip_witness:
  "\<exists>cs j' k. save (json_serializer no_floats sample_codec) True True json_job = Inr (cs, j') \<and>
    fetch (json_serializer no_floats sample_codec) mem_redis (run_all mem_redis cs mem_empty) 5 ''a'' = Inr k \<and>
    bindE (get_args (json_serializer no_floats sample_codec) k) (\<lambda>p. Inr (fst p)) = Inr (PList [PInt (- 7), PStr ''x''])"
proof -
  have v: "valid_id ''a''" by code_simp
  have z: "zip_keeps sample_codec d \<longleftrightarrow> d \<noteq> []" for d by (simp add: zip_keeps_def sample_codec_def)
  have p: "json_payload no_floats (PStr ''m.f'') PNone [PInt (- 7), PStr ''x''] [(''deep'', PList [PBool True, PNone])] \<noteq> []"
    by (simp add: json_payload_def json_list_def)
  show ?thesis
    using json_serializer_roundtrip [OF mem.redis_server_axioms, of json_job mem_empty "PStr ''m.f''" PNone
        "[PInt (- 7), PStr ''x'']" "[(''deep'', PList [PBool True, PNone])]" no_floats sample_codec 5] v z p
    by (fastforce simp: json_job_def storable_def dates_ok_def truthy_def)
qed

end
