(* ===== verification/Cron.thy ===== *)
theory Cron
  imports Lifecycle Serializers
begin

text \<open>
  The cron scheduler (\<open>rq/cron.py\<close>) and its registry (\<open>rq/cron_scheduler_registry.py\<close>): jobs that are enqueued
  again and again, every so many seconds or when a cron expression says so; the loop that enqueues the due ones
  and sleeps until the next; the scheduler's hash, its place in the registry, its heartbeat.

  \<open>croniter\<close> is not part of the repository: \<open>nc e t\<close> is the first time after \<open>t\<close> that matches the expression \<open>e\<close>, or
  the error for an expression it refuses. The scores of the registry are instants, here in microseconds.
  A function is known by its module and its two names; the process's signals and sleeping are events of the loop.
\<close>

section \<open>A job of the scheduler\<close>

record pyfunc =
  fn_module :: string
  fn_name :: string
  fn_qualname :: string

definition dotted_name :: "pyfunc \<Rightarrow> string" where
  "dotted_name f = fn_module f @ ''.'' @ fn_name f"

text \<open>The arguments of the constructor, which are those of \<open>register\<close>.\<close>

record cron_data =
  cd_queue_name :: string
  cd_func :: "pyfunc option"
  cd_func_name :: "string option"
  cd_args :: "pyval option"
  cd_kwargs :: "pyval option"
  cd_interval :: "int option"
  cd_cron :: "string option"
  cd_job_timeout :: "int option"
  cd_result_ttl :: "int option"
  cd_ttl :: "int option"
  cd_failure_ttl :: "int option"
  cd_meta :: "pyval option"

text \<open>The dictionary \<open>job_options\<close> holds the five options that are given.\<close>

record cron_job =
  cj_queue_name :: string
  cj_func :: "pyfunc option"
  cj_func_name :: string
  cj_args :: pyval
  cj_kwargs :: pyval
  cj_interval :: "int option"
  cj_cron :: "string option"
  cj_job_timeout :: "int option"
  cj_result_ttl :: "int option"
  cj_ttl :: "int option"
  cj_failure_ttl :: "int option"
  cj_meta :: "pyval option"
  cj_latest :: "datetime option"
  cj_next :: "datetime option"

definition given_int :: "int option \<Rightarrow> bool" where
  "given_int n \<longleftrightarrow> n \<noteq> None \<and> n \<noteq> Some 0"

definition given_str :: "string option \<Rightarrow> bool" where
  "given_str s \<longleftrightarrow> s \<noteq> None \<and> s \<noteq> Some []"

text \<open>\<open>v or d\<close>\<close>

definition or_empty :: "pyval option \<Rightarrow> pyval \<Rightarrow> pyval" where
  "or_empty v d = (case v of None \<Rightarrow> d | Some x \<Rightarrow> if truthy x then x else d)"

definition cron_job_init :: "(string \<Rightarrow> datetime \<Rightarrow> datetime res) \<Rightarrow> datetime \<Rightarrow> cron_data \<Rightarrow> cron_job res" where
  "cron_job_init nc t d =
     (if given_int (cd_interval d) \<and> given_str (cd_cron d) then Inl ValueError
      else if \<not> given_int (cd_interval d) \<and> \<not> given_str (cd_cron d) then Inl ValueError
      else
        bindE (case cd_func d of
                 Some f \<Rightarrow> Inr (dotted_name f)
               | None \<Rightarrow> if given_str (cd_func_name d) then Inr (the (cd_func_name d)) else Inl ValueError) (\<lambda>name.
        bindE (if given_str (cd_cron d) then bindE (nc (the (cd_cron d)) t) (\<lambda>n. Inr (Some n)) else Inr None) (\<lambda>first.
          Inr \<lparr>cj_queue_name = cd_queue_name d, cj_func = cd_func d, cj_func_name = name,
               cj_args = or_empty (cd_args d) (PTuple []), cj_kwargs = or_empty (cd_kwargs d) (PDict []),
               cj_interval = cd_interval d, cj_cron = cd_cron d, cj_job_timeout = cd_job_timeout d,
               cj_result_ttl = cd_result_ttl d, cj_ttl = cd_ttl d, cj_failure_ttl = cd_failure_ttl d,
               cj_meta = cd_meta d, cj_latest = None, cj_next = first\<rparr>)))"

text \<open>\<open>datetime.max\<close>, and the sum of an instant and seconds: OverflowError after it.\<close>

definition datetime_max :: datetime where
  "datetime_max = 253402300799999999"

definition plus_seconds :: "datetime \<Rightarrow> int \<Rightarrow> datetime res" where
  "plus_seconds t n = (if int datetime_max < int t + n * int usec then Inl OverflowError else Inr (seconds_later t n))"

definition get_next_enqueue_time :: "(string \<Rightarrow> datetime \<Rightarrow> datetime res) \<Rightarrow> datetime \<Rightarrow> cron_job \<Rightarrow> datetime res" where
  "get_next_enqueue_time nc t cj =
     (if given_str (cj_cron cj) then nc (the (cj_cron cj)) (opt_default t (cj_latest cj))
      else case cj_latest cj of
             Some l \<Rightarrow> if given_int (cj_interval cj) then plus_seconds l (the (cj_interval cj)) else Inr datetime_max
           | None \<Rightarrow> Inr datetime_max)"

definition should_run :: "datetime \<Rightarrow> cron_job \<Rightarrow> bool" where
  "should_run t cj =
     (if cj_latest cj = None \<and> \<not> given_str (cj_cron cj) then True
      else case cj_next cj of Some n \<Rightarrow> n \<le> t | None \<Rightarrow> False)"

text \<open>The time of the last enqueueing is kept even when the next one cannot be computed.\<close>

definition set_enqueue_time ::
  "(string \<Rightarrow> datetime \<Rightarrow> datetime res) \<Rightarrow> datetime \<Rightarrow> cron_job \<Rightarrow> unit res \<times> cron_job" where
  "set_enqueue_time nc t cj =
     (let cj1 = cj\<lparr>cj_latest := Some t\<rparr> in
      if cj_interval cj \<noteq> None \<or> cj_cron cj \<noteq> None then
        (case get_next_enqueue_time nc t cj1 of
           Inl e \<Rightarrow> (Inl e, cj1)
         | Inr n \<Rightarrow> (Inr (), cj1\<lparr>cj_next := Some n\<rparr>))
      else (Inr (), cj1))"

text \<open>
  \<open>enqueue\<close>. The options go to \<open>queue.enqueue\<close> as keywords beside the job's own, where a name given twice is a
  TypeError. \<open>rd\<close> reads RQ's options among the job's own keyword arguments, which are Python values, as the typed
  arguments of theory \<open>Job\<close>: the arguments, the repetition, whether at the front, whether unique.
\<close>

definition option_keys :: "cron_job \<Rightarrow> string list" where
  "option_keys cj =
     map fst (filter snd [(''job_timeout'', cj_job_timeout cj \<noteq> None), (''result_ttl'', cj_result_ttl cj \<noteq> None),
       (''ttl'', cj_ttl cj \<noteq> None), (''failure_ttl'', cj_failure_ttl cj \<noteq> None), (''meta'', cj_meta cj \<noteq> None)])"

definition cron_create_args :: "cron_job \<Rightarrow> pyfunc \<Rightarrow> pyval option \<Rightarrow> (string \<times> pyval) list option \<Rightarrow> create_args" where
  "cron_create_args cj f a k =
     \<lparr>ca_func = FFunction (fn_module f) (fn_qualname f), ca_args = a, ca_kwargs = k,
      ca_result_ttl = opt_timeout (cj_result_ttl cj), ca_ttl = opt_timeout (cj_ttl cj), ca_status = None,
      ca_description = None, ca_depends_on = None, ca_timeout = opt_timeout (cj_job_timeout cj), ca_retry = None,
      ca_id = None, ca_origin = cj_queue_name cj,
      ca_meta = (case cj_meta cj of Some (PDict m) \<Rightarrow> Some m | _ \<Rightarrow> None),
      ca_failure_ttl = opt_timeout (cj_failure_ttl cj), ca_group_id = None, ca_on_success = CbNone, ca_on_failure = CbNone,
      ca_on_stopped = CbNone\<rparr>"

type_synonym opt_reader = "(string \<times> pyval) list \<Rightarrow> create_args \<Rightarrow> create_args \<times> rpt option \<times> bool \<times> bool"

definition pv_dict :: "pyval \<Rightarrow> (string \<times> pyval) list res" where
  "pv_dict v = (case v of PDict kvs \<Rightarrow> Inr kvs | _ \<Rightarrow> Inl TypeError)"

definition cron_call :: "opt_reader \<Rightarrow> cron_job \<Rightarrow> (create_args \<times> rpt option \<times> bool \<times> bool) res" where
  "cron_call rd cj =
     (case cj_func cj of
        None \<Rightarrow> Inl ValueError
      | Some f \<Rightarrow>
          bindE (py_items (cj_args cj)) (\<lambda>pos.
          bindE (pv_dict (cj_kwargs cj)) (\<lambda>kw.
            if set (map fst kw) \<inter> set (option_keys cj) \<noteq> {} then Inl TypeError
            else
              bindE (parse_args (fn_module f = ''__main__'') pos kw) (\<lambda>(opts, a, k).
              bindE (given_kwargs k) (\<lambda>k1.
                let ca = cron_create_args cj f (given_args a) k1 in
                Inr (if opts = [] then (ca, None, False, False) else rd opts ca))))))"

definition cron_enqueue ::
  "(pyval \<Rightarrow> string) \<Rightarrow> codec \<Rightarrow> 's redis \<Rightarrow> py \<Rightarrow> opt_reader \<Rightarrow> datetime \<Rightarrow> string \<Rightarrow> cron_job \<Rightarrow> ('s, job) op" where
  "cron_enqueue repr C R P rd t uid cj =
     bindO (liftE (cron_call rd cj)) (\<lambda>(ca, rpt, front, unique).
       enqueue_call repr C R P t (default_queue (cj_queue_name cj)) False front unique ca rpt uid)"

section \<open>Jobs as text\<close>

definition pv_opt_int :: "int option \<Rightarrow> pyval" where
  "pv_opt_int n = (case n of None \<Rightarrow> PNone | Some i \<Rightarrow> PInt i)"

definition pv_opt_str :: "string option \<Rightarrow> pyval" where
  "pv_opt_str s = (case s of None \<Rightarrow> PNone | Some x \<Rightarrow> PStr x)"

definition pv_opt_time :: "datetime option \<Rightarrow> pyval" where
  "pv_opt_time t = (case t of None \<Rightarrow> PNone | Some x \<Rightarrow> PStr (utcformat x))"

definition opt_item :: "string \<Rightarrow> pyval option \<Rightarrow> (string \<times> pyval) list" where
  "opt_item k v = (case v of None \<Rightarrow> [] | Some x \<Rightarrow> [(k, x)])"

definition cron_job_dict :: "floats \<Rightarrow> cron_job \<Rightarrow> (string \<times> pyval) list" where
  "cron_job_dict F cj =
     [(''func_name'', PStr (cj_func_name cj)), (''queue_name'', PStr (cj_queue_name cj)),
      (''args'', if truthy (cj_args cj) then PStr (safe_json_dumps F (cj_args cj)) else PNone),
      (''kwargs'', if truthy (cj_kwargs cj) then PStr (safe_json_dumps F (cj_kwargs cj)) else PNone),
      (''interval'', pv_opt_int (cj_interval cj)), (''cron'', pv_opt_str (cj_cron cj)),
      (''latest_enqueue_time'', pv_opt_time (cj_latest cj)), (''next_enqueue_time'', pv_opt_time (cj_next cj))] @
     opt_item ''job_timeout'' (map_option PInt (cj_job_timeout cj)) @
     opt_item ''result_ttl'' (map_option PInt (cj_result_ttl cj)) @
     opt_item ''ttl'' (map_option PInt (cj_ttl cj)) @
     opt_item ''failure_ttl'' (map_option PInt (cj_failure_ttl cj)) @
     opt_item ''meta'' (map_option (\<lambda>m. PStr (safe_json_dumps F m)) (cj_meta cj))"

text \<open>
  \<open>from_dict\<close>. A value that is not of the type the annotations give (a number for the interval, say, that is a
  text) is a TypeError here.
\<close>

definition item :: "(string \<times> pyval) list \<Rightarrow> string \<Rightarrow> pyval" where
  "item d k = (case map_of d k of None \<Rightarrow> PNone | Some v \<Rightarrow> v)"

definition need :: "(string \<times> pyval) list \<Rightarrow> string \<Rightarrow> pyval res" where
  "need d k = (case map_of d k of None \<Rightarrow> Inl KeyError | Some v \<Rightarrow> Inr v)"

definition as_opt_int :: "pyval \<Rightarrow> int option res" where
  "as_opt_int v = (case v of PNone \<Rightarrow> Inr None | PInt i \<Rightarrow> Inr (Some i) | _ \<Rightarrow> Inl TypeError)"

definition as_opt_str :: "pyval \<Rightarrow> string option res" where
  "as_opt_str v = (case v of PNone \<Rightarrow> Inr None | PStr s \<Rightarrow> Inr (Some s) | _ \<Rightarrow> Inl TypeError)"

definition as_opt_time :: "pyval \<Rightarrow> datetime option res" where
  "as_opt_time v =
     (case v of
        PNone \<Rightarrow> Inr None
      | PStr s \<Rightarrow> if s = [] then Inr None else bindE (utcparse s) (\<lambda>t. Inr (Some t))
      | _ \<Rightarrow> Inl TypeError)"

text \<open>The text of a value, unless there is none or it is the placeholder: \<open>post\<close> is applied to what it loads to.\<close>

definition load_text :: "floats \<Rightarrow> (pyval \<Rightarrow> pyval res) \<Rightarrow> pyval \<Rightarrow> pyval option res" where
  "load_text F post v =
     (if \<not> truthy v then Inr (if v = PNone then None else Some v)
      else case v of
        PStr s \<Rightarrow>
          if s = not_json_serializable then Inr (Some v)
          else (case json_loads F s of None \<Rightarrow> Inl JSONDecodeError | Some x \<Rightarrow> bindE (post x) (\<lambda>y. Inr (Some y)))
      | _ \<Rightarrow> Inl TypeError)"

definition as_tuple :: "pyval \<Rightarrow> pyval res" where
  "as_tuple v = bindE (py_items v) (\<lambda>xs. Inr (PTuple xs))"

definition cron_data_of ::
  "floats \<Rightarrow> (string \<times> pyval) list \<Rightarrow> cron_data res" where
  "cron_data_of F d =
     bindE (load_text F as_tuple (item d ''args'')) (\<lambda>args.
     bindE (load_text F Inr (item d ''kwargs'')) (\<lambda>kwargs.
     bindE (load_text F Inr (item d ''meta'')) (\<lambda>meta.
     bindE (bindE (need d ''queue_name'') as_opt_str) (\<lambda>qn.
     bindE (bindE (need d ''func_name'') as_opt_str) (\<lambda>fname.
     bindE (as_opt_int (item d ''interval'')) (\<lambda>ivl.
     bindE (as_opt_str (item d ''cron'')) (\<lambda>cron.
     bindE (as_opt_int (item d ''job_timeout'')) (\<lambda>tmo.
     bindE (case map_of d ''result_ttl'' of None \<Rightarrow> Inr (Some default_result_ttl) | Some v \<Rightarrow> as_opt_int v) (\<lambda>rttl.
     bindE (as_opt_int (item d ''ttl'')) (\<lambda>ttl.
     bindE (as_opt_int (item d ''failure_ttl'')) (\<lambda>fttl.
       Inr \<lparr>cd_queue_name = opt_default [] qn, cd_func = None, cd_func_name = fname, cd_args = args, cd_kwargs = kwargs,
            cd_interval = ivl, cd_cron = cron, cd_job_timeout = tmo, cd_result_ttl = rttl, cd_ttl = ttl,
            cd_failure_ttl = fttl, cd_meta = meta\<rparr>)))))))))))"

definition cron_job_from_dict ::
  "floats \<Rightarrow> (string \<Rightarrow> datetime \<Rightarrow> datetime res) \<Rightarrow> datetime \<Rightarrow> pyval \<Rightarrow> cron_job res" where
  "cron_job_from_dict F nc t v =
     (case v of
        PDict d \<Rightarrow>
          bindE (cron_data_of F d) (\<lambda>cd.
          bindE (cron_job_init nc t cd) (\<lambda>cj.
          bindE (as_opt_time (item d ''latest_enqueue_time'')) (\<lambda>latest.
          bindE (as_opt_time (item d ''next_enqueue_time'')) (\<lambda>next.
            Inr (cj\<lparr>cj_latest := (if latest = None then cj_latest cj else latest),
                    cj_next := (if next = None then cj_next cj else next)\<rparr>)))))
      | _ \<Rightarrow> Inl AttributeError)"

section \<open>The scheduler\<close>

record cron_scheduler =
  cs_name :: string
  cs_hostname :: string
  cs_pid :: int
  cs_config_file :: string
  cs_created_at :: datetime
  cs_jobs :: "cron_job list"

text \<open>\<open>__init__\<close>: \<open>uid\<close> is six hexadecimal digits. Two schedulers are equal when their names are.\<close>

definition new_cron_scheduler :: "string \<Rightarrow> int \<Rightarrow> string \<Rightarrow> datetime \<Rightarrow> string \<Rightarrow> cron_scheduler" where
  "new_cron_scheduler host pid uid t name =
     \<lparr>cs_name = (if name = [] then host @ '':'' @ str_of_int pid @ '':'' @ uid else name), cs_hostname = host, cs_pid = pid,
      cs_config_file = [], cs_created_at = t, cs_jobs = []\<rparr>"

definition same_scheduler :: "cron_scheduler \<Rightarrow> cron_scheduler \<Rightarrow> bool" where
  "same_scheduler a b \<longleftrightarrow> cs_name a = cs_name b"

definition cron_register ::
  "(string \<Rightarrow> datetime \<Rightarrow> datetime res) \<Rightarrow> datetime \<Rightarrow> cron_data \<Rightarrow> cron_scheduler \<Rightarrow> (cron_job \<times> cron_scheduler) res" where
  "cron_register nc t d cs =
     bindE (cron_job_init nc t d) (\<lambda>cj. Inr (cj, cs\<lparr>cs_jobs := cs_jobs cs @ [cj]\<rparr>))"

text \<open>The module-level \<open>register\<close> only notes the arguments; \<open>create_cron\<close> makes a scheduler of what was noted.\<close>

definition note_job :: "cron_data \<Rightarrow> cron_data list \<Rightarrow> cron_data list" where
  "note_job d noted = noted @ [d]"

fun register_all ::
  "(string \<Rightarrow> datetime \<Rightarrow> datetime res) \<Rightarrow> datetime \<Rightarrow> cron_data list \<Rightarrow> cron_scheduler \<Rightarrow> cron_scheduler res" where
  "register_all nc t [] cs = Inr cs"
| "register_all nc t (d # ds) cs = bindE (cron_register nc t d cs) (\<lambda>(cj, cs1). register_all nc t ds cs1)"

definition create_cron ::
  "(string \<Rightarrow> datetime \<Rightarrow> datetime res) \<Rightarrow> datetime \<Rightarrow> cron_data list \<Rightarrow> cron_scheduler \<Rightarrow> cron_scheduler res" where
  "create_cron nc t noted cs = register_all nc t noted cs"

text \<open>
  \<open>load_config_from_file\<close>. What the file system and the import of the module do is an outcome: \<open>exists\<close> and
  \<open>is_file\<close> for an absolute path, then the exception the import raises, if any, and the jobs the module noted. A job
  that is refused is passed over. The result is the scheduler and the jobs still noted; \<open>UserError\<close> stands for the plain
  \<open>Exception\<close> that replaces one of the module's.
\<close>

definition validate_absolute_path :: "bool \<Rightarrow> bool \<Rightarrow> unit res" where
  "validate_absolute_path exists is_file =
     (if \<not> exists then Inl FileNotFoundError else if \<not> is_file then Inl IsADirectoryError else Inr ())"

fun register_good ::
  "(string \<Rightarrow> datetime \<Rightarrow> datetime res) \<Rightarrow> datetime \<Rightarrow> cron_data list \<Rightarrow> cron_scheduler \<Rightarrow> cron_scheduler" where
  "register_good nc t [] cs = cs"
| "register_good nc t (d # ds) cs =
     register_good nc t ds (case cron_register nc t d cs of Inl _ \<Rightarrow> cs | Inr (cj, cs1) \<Rightarrow> cs1)"

definition load_config_from_file ::
  "(string \<Rightarrow> datetime \<Rightarrow> datetime res) \<Rightarrow> datetime \<Rightarrow> string \<Rightarrow> bool \<Rightarrow> bool \<Rightarrow> bool \<Rightarrow> err option \<times> cron_data list \<Rightarrow> cron_scheduler \<Rightarrow>
   unit res \<times> cron_scheduler \<times> cron_data list" where
  "load_config_from_file nc t path absolute exists is_file imported cs =
     (let cs1 = cs\<lparr>cs_config_file := path\<rparr> in
      case (if absolute then validate_absolute_path exists is_file else Inr ()) of
        Inl e \<Rightarrow> (Inl e, cs1, [])
      | Inr _ \<Rightarrow>
          (case imported of
             (Some e, noted) \<Rightarrow> (Inl (if absolute \<or> e = ImportError then ImportError else UserError), cs1, noted)
           | (None, noted) \<Rightarrow> (Inr (), register_good nc t noted cs1, [])))"

text \<open>One pass over the jobs, and the places in the list of those it enqueued. An exception ends it.\<close>

fun enqueue_each ::
  "(pyval \<Rightarrow> string) \<Rightarrow> codec \<Rightarrow> 's redis \<Rightarrow> py \<Rightarrow> opt_reader \<Rightarrow> (string \<Rightarrow> datetime \<Rightarrow> datetime res) \<Rightarrow> datetime \<Rightarrow>
   (nat \<Rightarrow> string) \<Rightarrow> nat \<Rightarrow> cron_job list \<Rightarrow> 's conn \<Rightarrow> (err option \<times> cron_job list \<times> nat list) \<times> 's conn" where
  "enqueue_each repr C R P rd nc t uids i [] c = ((None, [], []), c)"
| "enqueue_each repr C R P rd nc t uids i (cj # cjs) c =
     (if should_run t cj then
        (case cron_enqueue repr C R P rd t (uids i) cj c of
           (Inl e, c1) \<Rightarrow> ((Some e, cj # cjs, []), c1)
         | (Inr j, c1) \<Rightarrow>
             (case set_enqueue_time nc t cj of
                (Inl e, cj1) \<Rightarrow> ((Some e, cj1 # cjs, []), c1)
              | (Inr u, cj1) \<Rightarrow>
                  (case enqueue_each repr C R P rd nc t uids (Suc i) cjs c1 of
                     ((e, cjs1, is), c2) \<Rightarrow> ((e, cj1 # cjs1, i # is), c2))))
      else
        (case enqueue_each repr C R P rd nc t uids (Suc i) cjs c of ((e, cjs1, is), c1) \<Rightarrow> ((e, cj # cjs1, is), c1)))"

definition enqueue_jobs ::
  "(pyval \<Rightarrow> string) \<Rightarrow> codec \<Rightarrow> 's redis \<Rightarrow> py \<Rightarrow> opt_reader \<Rightarrow> (string \<Rightarrow> datetime \<Rightarrow> datetime res) \<Rightarrow> datetime \<Rightarrow>
   (nat \<Rightarrow> string) \<Rightarrow> cron_scheduler \<Rightarrow> 's conn \<Rightarrow> (nat list res \<times> cron_scheduler) \<times> 's conn" where
  "enqueue_jobs repr C R P rd nc t uids cs c =
     (case enqueue_each repr C R P rd nc t uids 0 (cs_jobs cs) c of
        ((e, cjs, is), c1) \<Rightarrow> ((case e of None \<Rightarrow> Inr is | Some x \<Rightarrow> Inl x, cs\<lparr>cs_jobs := cjs\<rparr>), c1))"

text \<open>In microseconds.\<close>

definition calculate_sleep_interval :: "datetime \<Rightarrow> cron_scheduler \<Rightarrow> int" where
  "calculate_sleep_interval t cs =
     (let times = compact (map cj_next (cs_jobs cs)) in
      if times = [] then 60 * int usec
      else let d = int (Min (set times)) - int t in if d \<le> 0 then 0 else min d (60 * int usec))"

section \<open>The scheduler's hash\<close>

definition cs_key :: "cron_scheduler \<Rightarrow> key" where
  "cs_key cs = cron_key (cs_name cs)"

definition jobs_text :: "floats \<Rightarrow> cron_scheduler \<Rightarrow> string" where
  "jobs_text F cs = jtext F (PList (map (\<lambda>cj. PDict (cron_job_dict F cj)) (cs_jobs cs)))"

definition cron_to_dict :: "floats \<Rightarrow> cron_scheduler \<Rightarrow> fields" where
  "cron_to_dict F cs =
     [(''hostname'', cs_hostname cs), (''pid'', str_of_int (cs_pid cs)), (''name'', cs_name cs),
      (''created_at'', utcformat (cs_created_at cs)), (''config_file'', cs_config_file cs), (''cron_jobs'', jobs_text F cs)]"

definition cron_save :: "floats \<Rightarrow> cron_scheduler \<Rightarrow> cmd list" where
  "cron_save F cs = [HSet (cs_key cs) (cron_to_dict F cs), Expire (cs_key cs) 60]"

definition save_jobs_data :: "floats \<Rightarrow> cron_scheduler \<Rightarrow> cmd list" where
  "save_jobs_data F cs = [HSet (cs_key cs) [(''cron_jobs'', jobs_text F cs)]]"

definition need_field :: "fields \<Rightarrow> string \<Rightarrow> string res" where
  "need_field obj k = (case map_of obj k of None \<Rightarrow> Inl KeyError | Some v \<Rightarrow> Inr v)"

text \<open>The jobs of a hash that cannot be read are dropped, for three kinds of error; others pass.\<close>

definition read_cron_jobs ::
  "floats \<Rightarrow> (string \<Rightarrow> datetime \<Rightarrow> datetime res) \<Rightarrow> datetime \<Rightarrow> string \<Rightarrow> cron_job list res" where
  "read_cron_jobs F nc t s =
     (case json_loads F s of
        None \<Rightarrow> Inr []
      | Some v \<Rightarrow>
          (case bindE (py_items v) (mapE (cron_job_from_dict F nc t)) of
             Inr cjs \<Rightarrow> Inr cjs
           | Inl e \<Rightarrow> if e \<in> {JSONDecodeError, KeyError, TypeError} then Inr [] else Inl e))"

definition cron_restore ::
  "floats \<Rightarrow> (string \<Rightarrow> datetime \<Rightarrow> datetime res) \<Rightarrow> datetime \<Rightarrow> fields \<Rightarrow> cron_scheduler \<Rightarrow> cron_scheduler res" where
  "cron_restore F nc t obj cs =
     bindE (need_field obj ''hostname'') (\<lambda>host.
     bindE (case map_of obj ''pid'' of None \<Rightarrow> Inr 0 | Some s \<Rightarrow> to_int s) (\<lambda>pid.
     bindE (need_field obj ''name'') (\<lambda>name.
     bindE (bindE (need_field obj ''created_at'') str_to_date) (\<lambda>created.
     bindE (need_field obj ''config_file'') (\<lambda>config.
     bindE (case fget obj ''cron_jobs'' of None \<Rightarrow> Inr [] | Some s \<Rightarrow> read_cron_jobs F nc t s) (\<lambda>cjs.
       Inr (cs\<lparr>cs_hostname := host, cs_pid := pid, cs_name := name, cs_created_at := created, cs_config_file := config,
              cs_jobs := cjs\<rparr>)))))))"

definition cron_fetch ::
  "floats \<Rightarrow> (string \<Rightarrow> datetime \<Rightarrow> datetime res) \<Rightarrow> 's redis \<Rightarrow> 's \<Rightarrow> datetime \<Rightarrow> string \<Rightarrow> int \<Rightarrow> string \<Rightarrow> string \<Rightarrow> cron_scheduler res" where
  "cron_fetch F nc R s t host pid uid name =
     (let raw = r_hash R s (cron_key name) in
      if raw = [] then Inl SchedulerNotFound
      else cron_restore F nc t raw (new_cron_scheduler host pid uid t name))"

section \<open>The registry\<close>

text \<open>
  ZADD and ZREM reply with the number of members added or removed; on a pipeline the reply is the pipeline, so
  that neither \<open>added_count == 0\<close> nor \<open>not result\<close> holds and no exception is raised.
\<close>

definition cron_registry_register :: "'s redis \<Rightarrow> bool \<Rightarrow> datetime \<Rightarrow> cron_scheduler \<Rightarrow> ('s, unit) op" where
  "cron_registry_register R piped t cs =
     bindO (ask (\<lambda>s. Inr (zscore R s crons_key (cs_name cs) \<noteq> None))) (\<lambda>present.
       seqO (send R piped [ZAdd ZNX crons_key (cs_name cs) (Fin (int t))])
         (if \<not> piped \<and> present then raiseO DuplicateSchedulerError else ret ()))"

definition cron_registry_unregister :: "'s redis \<Rightarrow> bool \<Rightarrow> cron_scheduler \<Rightarrow> ('s, unit) op" where
  "cron_registry_unregister R piped cs =
     bindO (ask (\<lambda>s. Inr (zscore R s crons_key (cs_name cs) \<noteq> None))) (\<lambda>present.
       seqO (send R piped [ZRem crons_key [cs_name cs]])
         (if \<not> piped \<and> \<not> present then raiseO SchedulerNotFound else ret ()))"

definition cron_names :: "'s redis \<Rightarrow> 's \<Rightarrow> string list" where
  "cron_names R s = zrange R s crons_key 0 (- 1) False"

definition cron_cleanup :: "datetime \<Rightarrow> int \<Rightarrow> cmd list" where
  "cron_cleanup t threshold = [ZRemRangeByScore crons_key (int t - threshold * int usec)]"

definition cron_register_birth :: "floats \<Rightarrow> 's redis \<Rightarrow> datetime \<Rightarrow> cron_scheduler \<Rightarrow> ('s, unit) op" where
  "cron_register_birth F R t cs =
     new_pipe (seqO (cron_registry_register R True t cs) (seqO (send R True (cron_save F cs)) (execute R)))"

definition cron_register_death :: "'s redis \<Rightarrow> bool \<Rightarrow> cron_scheduler \<Rightarrow> ('s, unit) op" where
  "cron_register_death R piped cs = cron_registry_unregister R piped cs"

definition cron_heartbeat :: "datetime \<Rightarrow> cron_scheduler \<Rightarrow> cmd list" where
  "cron_heartbeat t cs = [ZAdd ZXX crons_key (cs_name cs) (Fin (int t)), Expire (cs_key cs) 120]"

definition last_heartbeat :: "'s redis \<Rightarrow> 's \<Rightarrow> cron_scheduler \<Rightarrow> datetime option" where
  "last_heartbeat R s cs =
     (case zscore R s crons_key (cs_name cs) of Some (Fin n) \<Rightarrow> Some (nat n) | _ \<Rightarrow> None)"

text \<open>\<open>all\<close>: those the registry names, without the ones whose hash is gone.\<close>

fun fetch_crons ::
  "floats \<Rightarrow> (string \<Rightarrow> datetime \<Rightarrow> datetime res) \<Rightarrow> 's redis \<Rightarrow> 's \<Rightarrow> datetime \<Rightarrow> string \<Rightarrow> int \<Rightarrow> string \<Rightarrow> string list \<Rightarrow> cron_scheduler list res" where
  "fetch_crons F nc R s t host pid uid [] = Inr []"
| "fetch_crons F nc R s t host pid uid (n # ns) =
     (case cron_fetch F nc R s t host pid uid n of
        Inl e \<Rightarrow> if e = SchedulerNotFound then fetch_crons F nc R s t host pid uid ns else Inl e
      | Inr cs \<Rightarrow> bindE (fetch_crons F nc R s t host pid uid ns) (\<lambda>css. Inr (cs # css)))"

definition all_crons ::
  "floats \<Rightarrow> (string \<Rightarrow> datetime \<Rightarrow> datetime res) \<Rightarrow> 's redis \<Rightarrow> datetime \<Rightarrow> string \<Rightarrow> int \<Rightarrow> string \<Rightarrow> bool \<Rightarrow> 's \<Rightarrow>
   cron_scheduler list res \<times> 's" where
  "all_crons F nc R t host pid uid tidy s =
     (let s1 = (if tidy then run_all R (cron_cleanup t 120) s else s)
      in (fetch_crons F nc R s1 t host pid uid (cron_names R s1), s1))"

section \<open>The loop\<close>

text \<open>
  One turn of \<open>start\<close>, at one reading of the clock: the sleep it ends with, in microseconds. The turns go on until
  a signal arrives while the scheduler sleeps, which raises StopRequested or KeyboardInterrupt: the list holds the readings
  of the turns before that. Whatever ends the loop, \<open>register_death\<close> runs; an exception of its own replaces that of the loop.
\<close>

definition cron_turn ::
  "floats \<Rightarrow> (pyval \<Rightarrow> string) \<Rightarrow> codec \<Rightarrow> 's redis \<Rightarrow> py \<Rightarrow> opt_reader \<Rightarrow> (string \<Rightarrow> datetime \<Rightarrow> datetime res) \<Rightarrow>
   (nat \<Rightarrow> string) \<Rightarrow> datetime \<Rightarrow> cron_scheduler \<Rightarrow> 's conn \<Rightarrow> (int res \<times> nat list \<times> cron_scheduler) \<times> 's conn" where
  "cron_turn F repr C R P rd nc uids t cs c =
     (case enqueue_jobs repr C R P rd nc t uids cs c of
        ((Inl e, cs1), c1) \<Rightarrow> ((Inl e, [], cs1), c1)
      | ((Inr is, cs1), (s1, buf)) \<Rightarrow>
          ((Inr (calculate_sleep_interval t cs1), is, cs1),
           (run_all R ((if is = [] then [] else save_jobs_data F cs1) @ cron_heartbeat t cs1) s1, buf)))"

fun cron_turns ::
  "floats \<Rightarrow> (pyval \<Rightarrow> string) \<Rightarrow> codec \<Rightarrow> 's redis \<Rightarrow> py \<Rightarrow> opt_reader \<Rightarrow> (string \<Rightarrow> datetime \<Rightarrow> datetime res) \<Rightarrow>
   (nat \<Rightarrow> nat \<Rightarrow> string) \<Rightarrow> datetime list \<Rightarrow> cron_scheduler \<Rightarrow> 's conn \<Rightarrow>
   (unit res \<times> (datetime \<times> nat list) list \<times> cron_scheduler) \<times> 's conn" where
  "cron_turns F repr C R P rd nc uids [] cs c = ((Inr (), [], cs), c)"
| "cron_turns F repr C R P rd nc uids (t # ts) cs c =
     (case cron_turn F repr C R P rd nc (uids t) t cs c of
        ((Inl e, is, cs1), c1) \<Rightarrow> ((Inl e, [], cs1), c1)
      | ((Inr d, is, cs1), c1) \<Rightarrow>
          (case cron_turns F repr C R P rd nc uids ts cs1 c1 of
             ((r, trail, cs2), c2) \<Rightarrow> ((r, (t, is) # trail, cs2), c2)))"

definition cron_start ::
  "floats \<Rightarrow> (pyval \<Rightarrow> string) \<Rightarrow> codec \<Rightarrow> 's redis \<Rightarrow> py \<Rightarrow> opt_reader \<Rightarrow> (string \<Rightarrow> datetime \<Rightarrow> datetime res) \<Rightarrow>
   (nat \<Rightarrow> nat \<Rightarrow> string) \<Rightarrow> datetime \<Rightarrow> datetime list \<Rightarrow> cron_scheduler \<Rightarrow> 's conn \<Rightarrow>
   (unit res \<times> (datetime \<times> nat list) list \<times> cron_scheduler) \<times> 's conn" where
  "cron_start F repr C R P rd nc uids t0 ts cs c =
     (case cron_register_birth F R t0 cs c of
        (Inl e, c1) \<Rightarrow> ((Inl e, [], cs), c1)
      | (Inr u, c1) \<Rightarrow>
          (case cron_turns F repr C R P rd nc uids ts cs c1 of
             ((r, trail, cs1), c2) \<Rightarrow>
               (case cron_register_death R False cs1 c2 of
                  (Inl e, c3) \<Rightarrow> ((Inl e, trail, cs1), c3)
                | (Inr v, c3) \<Rightarrow> ((r, trail, cs1), c3))))"

end
