(* ===== verification/CronTurns.thy ===== *)
theory CronTurns
  imports Cron
begin

text \<open>
  When the cron scheduler enqueues a job, and how long it sleeps: what the log of its turns says of the job at one
  place of its list, by induction over the turns, for jobs with an interval and for jobs with an expression.
\<close>

section \<open>When a job is enqueued\<close>

definition tick :: "(string \<Rightarrow> datetime \<Rightarrow> datetime res) \<Rightarrow> datetime \<Rightarrow> cron_job \<Rightarrow> cron_job" where
  "tick nc t cj = (if should_run t cj then snd (set_enqueue_time nc t cj) else cj)"

text \<open>What the log of the turns says of the job at place \<open>k\<close>, from the state \<open>cj\<close> it had before them.\<close>

primrec log_ok :: "(string \<Rightarrow> datetime \<Rightarrow> datetime res) \<Rightarrow> nat \<Rightarrow> cron_job \<Rightarrow> (datetime \<times> nat list) list \<Rightarrow> bool" where
  "log_ok nc k cj [] = True"
| "log_ok nc k cj (e # trail) =
     ((k \<in> set (snd e) \<longleftrightarrow> should_run (fst e) cj) \<and>
      (should_run (fst e) cj \<longrightarrow> fst (set_enqueue_time nc (fst e) cj) = Inr ()) \<and> log_ok nc k (tick nc (fst e) cj) trail)"

lemma enqueue_each_ok:
  assumes "enqueue_each repr C R P rd nc t uids i cjs c = ((None, cjs', is), c')"
  shows "length cjs' = length cjs \<and> set is \<subseteq> {i..<i + length cjs} \<and>
    (\<forall>k < length cjs. cjs' ! k = tick nc t (cjs ! k) \<and> (i + k \<in> set is \<longleftrightarrow> should_run t (cjs ! k)) \<and>
      (should_run t (cjs ! k) \<longrightarrow> fst (set_enqueue_time nc t (cjs ! k)) = Inr ()))"
  using assms
proof (induction cjs arbitrary: i c cjs' "is")
  case (Cons cj cjs)
  obtain cjs1 is1 c1 where rec: "enqueue_each repr C R P rd nc t uids (Suc i) cjs c1 = ((None, cjs1, is1), c')"
    and cjs': "cjs' = tick nc t cj # cjs1" and is_eq: "is = (if should_run t cj then i # is1 else is1)"
    and ok: "should_run t cj \<longrightarrow> fst (set_enqueue_time nc t cj) = Inr ()"
    using Cons.prems by (auto simp: tick_def split: if_splits prod.splits sum.splits)
  have IH: "length cjs1 = length cjs" "set is1 \<subseteq> {Suc i..<Suc i + length cjs}"
    "\<And>k. k < length cjs \<Longrightarrow> cjs1 ! k = tick nc t (cjs ! k) \<and> (Suc i + k \<in> set is1 \<longleftrightarrow> should_run t (cjs ! k)) \<and>
      (should_run t (cjs ! k) \<longrightarrow> fst (set_enqueue_time nc t (cjs ! k)) = Inr ())"
    using Cons.IH [OF rec] by auto
  have "i \<notin> set is1" using IH(2) by auto
  then have "cjs' ! k = tick nc t ((cj # cjs) ! k) \<and> (i + k \<in> set is \<longleftrightarrow> should_run t ((cj # cjs) ! k)) \<and>
      (should_run t ((cj # cjs) ! k) \<longrightarrow> fst (set_enqueue_time nc t ((cj # cjs) ! k)) = Inr ())"
    if "k < length (cj # cjs)" for k
    using that IH(3) [of "k - 1"] cjs' is_eq ok by (cases k) auto
  then show ?case using IH(1,2) cjs' is_eq by auto
qed simp

lemma cron_turn_ok:
  assumes "cron_turn F repr C R P rd nc uids t cs c = ((Inr d, is, cs'), c')"
  shows "length (cs_jobs cs') = length (cs_jobs cs)"
    "k < length (cs_jobs cs) \<Longrightarrow> cs_jobs cs' ! k = tick nc t (cs_jobs cs ! k)"
    "k < length (cs_jobs cs) \<Longrightarrow> k \<in> set is \<longleftrightarrow> should_run t (cs_jobs cs ! k)"
    "k < length (cs_jobs cs) \<Longrightarrow> should_run t (cs_jobs cs ! k) \<Longrightarrow> fst (set_enqueue_time nc t (cs_jobs cs ! k)) = Inr ()"
    "d = calculate_sleep_interval t cs'" "cs_name cs' = cs_name cs"
proof -
  obtain cjs c1 where e: "enqueue_each repr C R P rd nc t uids 0 (cs_jobs cs) c = ((None, cjs, is), c1)"
    and cs': "cs' = cs\<lparr>cs_jobs := cjs\<rparr>" and d: "d = calculate_sleep_interval t cs'"
    using assms by (auto simp: cron_turn_def enqueue_jobs_def split: prod.splits sum.splits option.splits)
  note ok = enqueue_each_ok [OF e]
  show "length (cs_jobs cs') = length (cs_jobs cs)"
    "k < length (cs_jobs cs) \<Longrightarrow> cs_jobs cs' ! k = tick nc t (cs_jobs cs ! k)"
    "k < length (cs_jobs cs) \<Longrightarrow> k \<in> set is \<longleftrightarrow> should_run t (cs_jobs cs ! k)"
    "k < length (cs_jobs cs) \<Longrightarrow> should_run t (cs_jobs cs ! k) \<Longrightarrow> fst (set_enqueue_time nc t (cs_jobs cs ! k)) = Inr ()"
    using ok cs' by auto
  show "d = calculate_sleep_interval t cs'" "cs_name cs' = cs_name cs" using d cs' by simp_all
qed

lemma cron_turns_log:
  assumes "cron_turns F repr C R P rd nc uids ts cs c = ((r, trail, cs'), c')" "k < length (cs_jobs cs)"
  shows "log_ok nc k (cs_jobs cs ! k) trail \<and> map fst trail = take (length trail) ts"
  using assms
proof (induction ts arbitrary: cs c trail)
  case (Cons t ts)
  obtain x "is" cs1 c1 where turn: "cron_turn F repr C R P rd nc (uids t) t cs c = ((x, is, cs1), c1)"
    by (metis prod.collapse)
  show ?case
  proof (cases x)
    case (Inl e)
    then show ?thesis using Cons.prems(1) turn by simp
  next
    case (Inr d)
    note ok = cron_turn_ok [OF turn [unfolded Inr]]
    obtain log1 where trail: "trail = (t, is) # log1"
      and rec: "cron_turns F repr C R P rd nc uids ts cs1 c1 = ((r, log1, cs'), c')"
      using Cons.prems(1) turn Inr by (auto split: prod.splits)
    have "k < length (cs_jobs cs1)" using ok(1) Cons.prems(2) by simp
    from Cons.IH [OF rec this] show ?thesis using ok(2-4) [OF Cons.prems(2)] trail by auto
  qed
qed simp

definition times_of :: "nat \<Rightarrow> (datetime \<times> nat list) list \<Rightarrow> datetime list" where
  "times_of k trail = map fst (filter (\<lambda>e. k \<in> set (snd e)) trail)"

text \<open>The state of a job between turns: never enqueued, or the next time is the one computed from the last.\<close>

definition next_of :: "(string \<Rightarrow> datetime \<Rightarrow> datetime res) \<Rightarrow> cron_job \<Rightarrow> datetime \<Rightarrow> datetime res" where
  "next_of nc cj l = get_next_enqueue_time nc l (cj\<lparr>cj_latest := Some l\<rparr>)"

lemma next_of_simps [simp]:
  "next_of nc (cj\<lparr>cj_latest := x\<rparr>) = next_of nc cj" "next_of nc (cj\<lparr>cj_next := y\<rparr>) = next_of nc cj"
  by (simp_all add: next_of_def get_next_enqueue_time_def fun_eq_iff)

definition repeats :: "cron_job \<Rightarrow> bool" where
  "repeats cj \<longleftrightarrow> given_int (cj_interval cj) \<or> given_str (cj_cron cj)"

lemma cron_job_init_repeats: "cron_job_init nc t d = Inr cj \<Longrightarrow> repeats cj"
  by (auto simp: cron_job_init_def repeats_def bindE_Inr_iff split: if_splits option.splits)

lemma set_enqueue_time_next:
  assumes "repeats cj" "fst (set_enqueue_time nc t cj) = Inr ()"
  shows "\<exists>n. next_of nc cj t = Inr n \<and> snd (set_enqueue_time nc t cj) = cj\<lparr>cj_latest := Some t, cj_next := Some n\<rparr>"
proof -
  have "cj_interval cj \<noteq> None \<or> cj_cron cj \<noteq> None" using assms(1) by (auto simp: repeats_def given_int_def given_str_def)
  then show ?thesis using assms(2)
    by (auto simp: set_enqueue_time_def next_of_def Let_def split: sum.splits)
qed

text \<open>\<open>awaits cj n\<close>: the job is enqueued at the first turn from \<open>n\<close> on.\<close>

definition awaits :: "cron_job \<Rightarrow> datetime \<Rightarrow> bool" where
  "awaits cj n \<longleftrightarrow> repeats cj \<and> (cj_latest cj \<noteq> None \<or> given_str (cj_cron cj)) \<and> cj_next cj = Some n"

lemma awaits_run: "awaits cj n \<Longrightarrow> should_run t cj \<longleftrightarrow> n \<le> t"
  by (auto simp: awaits_def should_run_def)

lemma tick_due:
  assumes "should_run t cj" "repeats cj" "fst (set_enqueue_time nc t cj) = Inr ()"
  obtains m where "next_of nc cj t = Inr m" "awaits (tick nc t cj) m" "next_of nc (tick nc t cj) = next_of nc cj"
proof -
  obtain m where m: "next_of nc cj t = Inr m" "tick nc t cj = cj\<lparr>cj_latest := Some t, cj_next := Some m\<rparr>"
    using assms set_enqueue_time_next [OF assms(2,3)] by (auto simp: tick_def)
  then have "awaits (tick nc t cj) m" using assms(2) by (simp add: awaits_def repeats_def)
  with m show thesis by (intro that) simp_all
qed

definition follows :: "(string \<Rightarrow> datetime \<Rightarrow> datetime res) \<Rightarrow> cron_job \<Rightarrow> datetime \<Rightarrow> datetime \<Rightarrow> bool" where
  "follows nc cj a b \<longleftrightarrow> (\<exists>m. next_of nc cj a = Inr m \<and> m \<le> b)"

definition precedes :: "(string \<Rightarrow> datetime \<Rightarrow> datetime res) \<Rightarrow> cron_job \<Rightarrow> datetime \<Rightarrow> datetime \<Rightarrow> bool" where
  "precedes nc cj b a \<longleftrightarrow> (\<exists>m. next_of nc cj a = Inr m \<and> b < m)"

lemma log_ok_spaced:
  assumes "log_ok nc k cj trail" "awaits cj n"
  shows "successively (follows nc cj) (times_of k trail) \<and> (times_of k trail \<noteq> [] \<longrightarrow> n \<le> hd (times_of k trail))"
  using assms
proof (induction trail arbitrary: cj n)
  case (Cons e trail)
  note run = awaits_run [OF Cons.prems(2), of "fst e"]
  show ?case
  proof (cases "n \<le> fst e")
    case True
    then obtain m where m: "next_of nc cj (fst e) = Inr m" "awaits (tick nc (fst e) cj) m"
        "next_of nc (tick nc (fst e) cj) = next_of nc cj"
      using run Cons.prems tick_due [of "fst e" cj nc] by (auto simp: awaits_def)
    from m(3) have f: "follows nc (tick nc (fst e) cj) = follows nc cj" by (simp add: follows_def fun_eq_iff)
    have "successively (follows nc cj) (times_of k trail) \<and> (times_of k trail \<noteq> [] \<longrightarrow> m \<le> hd (times_of k trail))"
      using Cons.IH [OF _ m(2)] Cons.prems(1) f by simp
    moreover have "times_of k (e # trail) = fst e # times_of k trail" using run True Cons.prems(1) by (simp add: times_of_def)
    ultimately show ?thesis using m(1) True by (cases "times_of k trail") (auto simp: follows_def)
  next
    case False
    then have "tick nc (fst e) cj = cj" "times_of k (e # trail) = times_of k trail"
      using run Cons.prems(1) by (simp_all add: tick_def times_of_def)
    then show ?thesis using Cons.IH [OF _ Cons.prems(2)] Cons.prems(1) by simp
  qed
qed (simp add: times_of_def)

lemma log_ok_gap:
  assumes "log_ok nc k cj trail" "awaits cj n" "j < length trail" "k \<notin> set (snd (trail ! j))"
  shows "fst (trail ! j) < n \<or>
    (\<exists>i < j. k \<in> set (snd (trail ! i)) \<and> precedes nc cj (fst (trail ! j)) (fst (trail ! i)))"
  using assms
proof (induction trail arbitrary: cj n j)
  case (Cons e trail)
  note run = awaits_run [OF Cons.prems(2), of "fst e"]
  show ?case
  proof (cases j)
    case 0
    then show ?thesis using run Cons.prems by simp
  next
    case (Suc j')
    then have j': "j' < length trail" "k \<notin> set (snd (trail ! j'))" using Cons.prems by simp_all
    show ?thesis
    proof (cases "n \<le> fst e")
      case True
      then obtain m where m: "next_of nc cj (fst e) = Inr m" "awaits (tick nc (fst e) cj) m"
          "next_of nc (tick nc (fst e) cj) = next_of nc cj"
        using run Cons.prems tick_due [of "fst e" cj nc] by (auto simp: awaits_def)
      then have f: "precedes nc (tick nc (fst e) cj) = precedes nc cj" by (simp add: precedes_def fun_eq_iff)
      have e: "k \<in> set (snd e)" using run True Cons.prems(1) by simp
      consider "fst (trail ! j') < m"
        | i where "i < j'" "k \<in> set (snd (trail ! i))" "precedes nc cj (fst (trail ! j')) (fst (trail ! i))"
        using Cons.IH [OF _ m(2) j'] Cons.prems(1) f by auto
      then show ?thesis
      proof cases
        case 1
        then have "precedes nc cj (fst (trail ! j')) (fst e)" using m(1) by (simp add: precedes_def)
        then show ?thesis using e Suc by (intro disjI2 exI [of _ 0]) simp
      next
        case (2 i)
        then show ?thesis using Suc by (intro disjI2 exI [of _ "Suc i"]) simp
      qed
    next
      case False
      then have "tick nc (fst e) cj = cj" using run by (simp add: tick_def)
      then have "fst (trail ! j') < n \<or>
          (\<exists>i < j'. k \<in> set (snd (trail ! i)) \<and> precedes nc cj (fst (trail ! j')) (fst (trail ! i)))"
        using Cons.IH [OF _ Cons.prems(2) j'] Cons.prems(1) by simp
      then show ?thesis using Suc by (auto intro: exI [of _ "Suc _"])
    qed
  qed
qed simp

text \<open>A job with an interval, fresh from its constructor: due at once, and then every so many seconds.\<close>

lemma next_of_interval:
  assumes "\<not> given_str (cj_cron cj)" "cj_interval cj = Some n" "0 < n"
  shows "next_of nc cj a = Inr m \<Longrightarrow> m = a + nat n * usec"
  using assms by (auto simp: next_of_def get_next_enqueue_time_def given_int_def plus_seconds_def seconds_later_def
      nat_add_distrib nat_mult_distrib split: if_splits)

lemma interval_job_init:
  assumes "cron_job_init nc t d = Inr cj" "given_int (cd_interval d)"
  shows "cj_latest cj = None" "\<not> given_str (cj_cron cj)" "cj_interval cj = cd_interval d" "should_run t' cj"
  using assms by (auto simp: cron_job_init_def bindE_Inr_iff should_run_def split: if_splits option.splits)

lemma cron_job_init_awaits:
  assumes "cron_job_init nc t d = Inr cj" "given_str (cd_cron d)"
  obtains n where "nc (the (cd_cron d)) t = Inr n" "awaits cj n" "cj_cron cj = cd_cron d"
  using assms cron_job_init_repeats [OF assms(1)]
  by (auto simp: cron_job_init_def bindE_Inr_iff awaits_def split: if_splits option.splits)

lemma interval_log:
  assumes "log_ok nc k cj trail" "cron_job_init nc t0 d = Inr cj" "cd_interval d = Some n" "0 < n"
  shows "successively (\<lambda>a b. a + nat n * usec \<le> b) (times_of k trail)"
    "j < length trail \<Longrightarrow> k \<notin> set (snd (trail ! j)) \<Longrightarrow>
      \<exists>i < j. k \<in> set (snd (trail ! i)) \<and> fst (trail ! j) < fst (trail ! i) + nat n * usec"
proof -
  have given: "given_int (cd_interval d)" using assms(3,4) by (simp add: given_int_def)
  note fresh = interval_job_init [OF assms(2) given]
  have step: "follows nc cj a b \<Longrightarrow> a + nat n * usec \<le> b" for a b
    using next_of_interval [of cj n nc a] fresh(2,3) assms(3,4) by (auto simp: follows_def)
  have both: "successively (\<lambda>a b. a + nat n * usec \<le> b) (times_of k trail) \<and>
    (\<forall>j < length trail. k \<notin> set (snd (trail ! j)) \<longrightarrow>
      (\<exists>i < j. k \<in> set (snd (trail ! i)) \<and> fst (trail ! j) < fst (trail ! i) + nat n * usec))"
  proof (cases trail)
    case Nil
    then show ?thesis by (simp add: times_of_def)
  next
    case (Cons e rest)
    have e: "k \<in> set (snd e)" and rest: "log_ok nc k (tick nc (fst e) cj) rest"
      and ok: "fst (set_enqueue_time nc (fst e) cj) = Inr ()"
      using assms(1) fresh(4) Cons by auto
    obtain m where m: "next_of nc cj (fst e) = Inr m" "awaits (tick nc (fst e) cj) m"
        "next_of nc (tick nc (fst e) cj) = next_of nc cj"
      using tick_due [OF fresh(4) cron_job_init_repeats [OF assms(2)] ok] .
    then have f: "follows nc (tick nc (fst e) cj) = follows nc cj" by (simp add: follows_def fun_eq_iff)
    have mv: "m = fst e + nat n * usec" using next_of_interval [OF fresh(2) _ assms(4) m(1)] fresh(3) assms(3) by simp
    have sp: "successively (follows nc cj) (times_of k rest)" "times_of k rest \<noteq> [] \<longrightarrow> m \<le> hd (times_of k rest)"
      using log_ok_spaced [OF rest m(2)] f by simp_all
    have "successively (\<lambda>a b. a + nat n * usec \<le> b) (times_of k rest)"
      using sp(1) step by (rule successively_mono)
    then have "successively (\<lambda>a b. a + nat n * usec \<le> b) (times_of k trail)"
      using sp(2) mv e Cons by (cases "times_of k rest") (auto simp: times_of_def)
    moreover have "\<exists>i < j. k \<in> set (snd (trail ! i)) \<and> fst (trail ! j) < fst (trail ! i) + nat n * usec"
      if j: "j < length trail" "k \<notin> set (snd (trail ! j))" for j
    proof (cases j)
      case 0
      then show ?thesis using j e Cons by simp
    next
      case (Suc j')
      then have j': "j' < length rest" "k \<notin> set (snd (rest ! j'))" using j Cons by simp_all
      have g: "precedes nc (tick nc (fst e) cj) = precedes nc cj" using m(3) by (simp add: precedes_def fun_eq_iff)
      have lt: "precedes nc cj b a \<Longrightarrow> b < a + nat n * usec" for a b
        using next_of_interval [OF fresh(2) _ assms(4), of nc a] fresh(3) assms(3) by (auto simp: precedes_def)
      consider "fst (rest ! j') < m"
        | i where "i < j'" "k \<in> set (snd (rest ! i))" "fst (rest ! j') < fst (rest ! i) + nat n * usec"
        using log_ok_gap [OF rest m(2) j'] g lt by auto
      then show ?thesis
      proof cases
        case 1
        then show ?thesis using e mv Suc Cons by (intro exI [of _ 0]) simp
      next
        case (2 i)
        then show ?thesis using Suc Cons by (intro exI [of _ "Suc i"]) simp
      qed
    qed
    ultimately show ?thesis by blast
  qed
  then show "successively (\<lambda>a b. a + nat n * usec \<le> b) (times_of k trail)" by blast
  show "j < length trail \<Longrightarrow> k \<notin> set (snd (trail ! j)) \<Longrightarrow>
      \<exists>i < j. k \<in> set (snd (trail ! i)) \<and> fst (trail ! j) < fst (trail ! i) + nat n * usec"
    using both by blast
qed

section \<open>Sleeping\<close>

lemma sleep_times: "set (compact (map cj_next cjs)) = {n. \<exists>cj \<in> set cjs. cj_next cj = Some n}"
  by (auto simp: set_compact image_iff eq_commute [of "Some _"])

lemma sleep_bounds:
  "0 \<le> calculate_sleep_interval t cs" "calculate_sleep_interval t cs \<le> 60 * int usec"
proof -
  have "0 \<le> (if b then 60 * int usec else (let d = x in if d \<le> 0 then 0 else min d (60 * int usec)))"
    "(if b then 60 * int usec else (let d = x in if d \<le> 0 then 0 else min d (60 * int usec))) \<le> 60 * int usec" for b x
    by (auto simp: Let_def usec_def)
  then show "0 \<le> calculate_sleep_interval t cs" "calculate_sleep_interval t cs \<le> 60 * int usec"
    by (simp_all only: calculate_sleep_interval_def Let_def)
qed

lemma sleep_wakes:
  assumes "cj \<in> set (cs_jobs cs)" "cj_next cj = Some n"
  shows "calculate_sleep_interval t cs \<le> max 0 (int n - int t)"
proof -
  let ?ns = "set (compact (map cj_next (cs_jobs cs)))"
  have n: "n \<in> ?ns" using assms by (auto simp: sleep_times)
  then have "Min ?ns \<le> n" "compact (map cj_next (cs_jobs cs)) \<noteq> []" by auto
  then show ?thesis by (auto simp: calculate_sleep_interval_def Let_def)
qed

lemma sleep_exact:
  assumes "0 < calculate_sleep_interval t cs" "calculate_sleep_interval t cs < 60 * int usec"
  shows "\<exists>cj \<in> set (cs_jobs cs). \<exists>n. cj_next cj = Some n \<and> int n = int t + calculate_sleep_interval t cs"
proof -
  let ?ns = "compact (map cj_next (cs_jobs cs))"
  have ne: "?ns \<noteq> []" using assms by (auto simp: calculate_sleep_interval_def)
  then have d: "calculate_sleep_interval t cs = int (Min (set ?ns)) - int t"
    using assms by (auto simp: calculate_sleep_interval_def Let_def split: if_splits)
  have "Min (set ?ns) \<in> set ?ns" using ne by (intro Min_in) auto
  then obtain cj where "cj \<in> set (cs_jobs cs)" "cj_next cj = Some (Min (set ?ns))" unfolding sleep_times by blast
  with d show ?thesis by force
qed


text \<open>After a turn every job waits for its next time: one never enqueued and without an expression was due.\<close>

lemma tick_waits: "cj_latest (tick nc t cj) \<noteq> None \<or> given_str (cj_cron (tick nc t cj))"
  by (auto simp: tick_def should_run_def set_enqueue_time_def Let_def split: sum.splits)

lemma tick_run: "should_run t' (tick nc t cj) \<longleftrightarrow> (\<exists>n. cj_next (tick nc t cj) = Some n \<and> n \<le> t')"
  using tick_waits [of nc t cj] by (auto simp: should_run_def split: option.splits)

lemma turn_run:
  assumes "cron_turn F repr C R P rd nc uids t cs c = ((Inr d, is, cs'), c')" "cj \<in> set (cs_jobs cs')"
  shows "should_run t' cj \<longleftrightarrow> (\<exists>n. cj_next cj = Some n \<and> n \<le> t')"
proof -
  obtain k where "k < length (cs_jobs cs')" "cj = cs_jobs cs' ! k" using assms(2) by (metis in_set_conv_nth)
  then show ?thesis using cron_turn_ok(1,2) [OF assms(1)] tick_run by simp
qed

section \<open>Properties\<close>

text \<open>
  C16. The turns of the scheduler, whatever it runs and at whatever instants, enqueue a job that repeats every \<open>n\<close>
  seconds exactly when it is due: never sooner than \<open>n\<close> seconds after the last time, and a turn that does not enqueue
  it comes less than \<open>n\<close> seconds after one that did. So the first turn enqueues it.
\<close>

theorem cron_interval_spacing:
  assumes "cron_turns F repr C R P rd nc uids ts cs c = ((r, trail, cs'), c')"
    and "k < length (cs_jobs cs)" "cron_job_init nc t0 d = Inr (cs_jobs cs ! k)" "cd_interval d = Some n" "0 < n"
  shows "successively (\<lambda>a b. a + nat n * usec \<le> b) (times_of k trail) \<and>
    (\<forall>j < length trail. k \<notin> set (snd (trail ! j)) \<longrightarrow>
      (\<exists>i < j. k \<in> set (snd (trail ! i)) \<and> fst (trail ! j) < fst (trail ! i) + nat n * usec))"
  using interval_log [OF conjunct1 [OF cron_turns_log [OF assms(1,2)]] assms(3-5)] by blast

text \<open>
  C30. A job with a cron expression: two enqueueings in a row are never for the same match of the expression, the first
  is not before the first match after the job was made, and a turn that does not enqueue it comes before the match that follows
  the last enqueueing.
\<close>

theorem cron_expression_slots:
  assumes "cron_turns F repr C R P rd nc uids ts cs c = ((r, trail, cs'), c')"
    and "k < length (cs_jobs cs)" "cron_job_init nc t0 d = Inr (cs_jobs cs ! k)" "cd_cron d = Some e" "e \<noteq> []"
  shows "\<exists>first. nc e t0 = Inr first \<and>
    successively (\<lambda>a b. \<exists>m. nc e a = Inr m \<and> m \<le> b) (times_of k trail) \<and>
    (times_of k trail \<noteq> [] \<longrightarrow> first \<le> hd (times_of k trail)) \<and>
    (\<forall>j < length trail. k \<notin> set (snd (trail ! j)) \<longrightarrow> fst (trail ! j) < first \<or>
      (\<exists>i < j. k \<in> set (snd (trail ! i)) \<and> (\<exists>m. nc e (fst (trail ! i)) = Inr m \<and> fst (trail ! j) < m)))"
proof -
  let ?cj = "cs_jobs cs ! k"
  have given: "given_str (cd_cron d)" using assms(4,5) by (simp add: given_str_def)
  obtain n where n: "nc (the (cd_cron d)) t0 = Inr n" "awaits ?cj n" "cj_cron ?cj = cd_cron d"
    using cron_job_init_awaits [OF assms(3) given] .
  have step: "next_of nc ?cj = nc e" using n(3) assms(4) given by (simp add: next_of_def get_next_enqueue_time_def fun_eq_iff)
  note ok = conjunct1 [OF cron_turns_log [OF assms(1,2)]]
  show ?thesis
    using log_ok_spaced [OF ok n(2)] log_ok_gap [OF ok n(2)] n(1) assms(4)
    unfolding follows_def precedes_def step by auto
qed

text \<open>
  C20. Sleeping: at most a minute, no job is due before the scheduler wakes, and a shorter sleep ends when the first job
  is due.
\<close>

theorem cron_sleep:
  assumes "cron_turn F repr C R P rd nc uids t cs c = ((Inr d, is, cs'), c')"
  shows "0 \<le> d \<and> d \<le> 60 * int usec \<and>
    (\<forall>cj \<in> set (cs_jobs cs'). \<forall>t'. t \<le> t' \<and> int t' < int t + d \<longrightarrow> \<not> should_run t' cj) \<and>
    (0 < d \<and> d < 60 * int usec \<longrightarrow> (\<exists>cj \<in> set (cs_jobs cs'). should_run (nat (int t + d)) cj))"
proof -
  note run = turn_run [OF assms] and d = cron_turn_ok(5) [OF assms]
  have "\<not> should_run t' cj" if "cj \<in> set (cs_jobs cs')" "t \<le> t'" "int t' < int t + d" for cj t'
    using that run [OF that(1)] sleep_wakes [OF that(1), of _ t] d by fastforce
  moreover have "\<exists>cj \<in> set (cs_jobs cs'). should_run (nat (int t + d)) cj" if "0 < d" "d < 60 * int usec"
    using sleep_exact [of t cs'] that run d by fastforce
  ultimately show ?thesis using sleep_bounds [of t cs'] d by blast
qed

section \<open>A scheduler for the examples\<close>

definition sample_cron :: cron_data where
  "sample_cron = \<lparr>cd_queue_name = ''q'', cd_func = Some \<lparr>fn_module = ''m'', fn_name = ''f'', fn_qualname = ''f''\<rparr>, cd_func_name = None,
     cd_args = Some (PTuple [PInt 1]), cd_kwargs = None, cd_interval = Some 60, cd_cron = None, cd_job_timeout = None,
     cd_result_ttl = Some 500, cd_ttl = None, cd_failure_ttl = None, cd_meta = None\<rparr>"

text \<open>Expressions of the examples: every minute.\<close>

definition every_minute :: "string \<Rightarrow> datetime \<Rightarrow> datetime res" where
  "every_minute e t = (if e = ''* * * * *'' then Inr ((t div (60 * usec) + 1) * (60 * usec)) else Inl ValueError)"

definition no_options :: opt_reader where
  "no_options opts ca = (ca, None, False, False)"

definition made :: "cron_data \<Rightarrow> cron_job" where
  "made d = (case cron_job_init every_minute 0 d of Inr cj \<Rightarrow> cj | Inl e \<Rightarrow> undefined)"

definition scheduler_of :: "cron_job list \<Rightarrow> cron_scheduler" where
  "scheduler_of cjs = (new_cron_scheduler ''host'' 7 ''abcdef'' 0 ''cron'')\<lparr>cs_jobs := cjs\<rparr>"

text \<open>The call a job of the examples makes, whatever its times are.\<close>

definition like_sample :: "cron_job \<Rightarrow> bool" where
  "like_sample cj \<longleftrightarrow> (\<exists>i e l n. cj = \<lparr>cj_queue_name = ''q'', cj_func = Some \<lparr>fn_module = ''m'', fn_name = ''f'', fn_qualname = ''f''\<rparr>,
     cj_func_name = ''m.f'', cj_args = PTuple [PInt 1], cj_kwargs = PDict [], cj_interval = i, cj_cron = e,
     cj_job_timeout = None, cj_result_ttl = Some 500, cj_ttl = None, cj_failure_ttl = None, cj_meta = None,
     cj_latest = l, cj_next = n\<rparr>)"

lemma like_sample_tick: "like_sample cj \<Longrightarrow> like_sample (snd (set_enqueue_time nc t cj))"
  by (auto simp: like_sample_def set_enqueue_time_def Let_def split: sum.splits)

lemma sample_enqueue:
  assumes "like_sample cj"
  shows "\<exists>j c'. cron_enqueue (\<lambda>_. []) sample_codec mem_redis sample_py no_options t ''a'' cj c = (Inr j, c')"
proof -
  obtain ca where call: "cron_call no_options cj = Inr (ca, None, False, False)" "cj_queue_name cj = ''q''"
    and ca: "ca = cron_create_args cj \<lparr>fn_module = ''m'', fn_name = ''f'', fn_qualname = ''f''\<rparr> (Some (PTuple [PInt 1])) (Some [])"
    using assms by (auto simp: like_sample_def cron_call_def py_items_def pv_dict_def parse_args_def option_keys_def given_args_def given_kwargs_def)
  have "valid_id ''a''" by code_simp
  then obtain j where j: "create_job (\<lambda>_. []) sample_codec (default_queue ''q'')
      (ca\<lparr>ca_status := Some QUEUED, ca_group_id := None\<rparr>) None ''a'' t = Inr j"
    "j_func_name j \<noteq> UNEVALUATED" "ttl_ok j" "j_dependency_ids j = []" "j_status j = QUEUED"
    using assms unfolding ca
    by (auto simp: like_sample_def cron_create_args_def create_job_def queue_limits_def create_def create_core_def set_id_def
        set_callbacks_def resolve_callback_def set_extras_def process_dependencies_def ensure_job_list_def set_retry_def opt_timeout_def
        set_repeat_def validate_job_id_iff ttl_ok_def new_job_def default_queue_def
        job_call_string_def py_items_def truthy_def get_func_name_def get_args_def get_kwargs_def lazy_get_def)
  let ?j = "j\<lparr>j_origin := ''q''\<rparr>" and ?q = "default_queue ''q''"
  obtain fs j2 where td: "to_dict sample_codec True True (prepare_for_queue ?q t ?j) = Inr (fs, j2)"
    by (rule sample_to_dict [of "prepare_for_queue ?q t ?j"]) (simp add: prepare_for_queue_def j(2))
  have "ttl_ok ?j" using j(3) by (simp add: ttl_ok_def)
  note run = enqueue_async_eq(2) [OF td this, of mem_redis False]
  obtain s buf where c: "c = (s, buf)" by (cases c)
  show ?thesis unfolding c
    by (simp add: cron_enqueue_def call bindO_def enqueue_call_def j enqueue_job_def setup_dependencies_def seqO_def enqueue_now_def run)
qed

definition sample_times :: "cron_job \<Rightarrow> bool" where
  "sample_times cj \<longleftrightarrow> like_sample cj \<and>
     (cj_interval cj = Some 60 \<and> cj_cron cj = None \<or> cj_interval cj = None \<and> cj_cron cj = Some ''* * * * *'')"

lemma sample_times_set:
  assumes "sample_times cj" "t \<le> 10 ^ 15"
  shows "fst (set_enqueue_time every_minute t cj) = Inr ()" "sample_times (tick every_minute t cj)"
proof -
  have small: "\<not> int datetime_max < int t + 60 * int usec" using assms(2) by (simp add: datetime_max_def usec_def)
  show "fst (set_enqueue_time every_minute t cj) = Inr ()"
    using assms(1) small by (auto simp: sample_times_def set_enqueue_time_def Let_def get_next_enqueue_time_def given_str_def
        given_int_def plus_seconds_def every_minute_def)
  show "sample_times (tick every_minute t cj)"
    using assms(1) like_sample_tick [of cj every_minute t]
    by (auto simp: sample_times_def tick_def set_enqueue_time_def Let_def split: sum.splits)
qed

lemma sample_turn:
  assumes "sample_times cj" "t \<le> 10 ^ 15"
  shows "\<exists>d is c'. cron_turn no_floats (\<lambda>_. []) sample_codec mem_redis sample_py no_options every_minute (\<lambda>_. ''a'') t
      (scheduler_of [cj]) c = ((Inr d, is, scheduler_of [tick every_minute t cj]), c')"
proof -
  obtain s buf where c: "c = (s, buf)" by (cases c)
  obtain j c1 where j: "cron_enqueue (\<lambda>_. []) sample_codec mem_redis sample_py no_options t ''a'' cj c = (Inr j, c1)"
    using sample_enqueue assms(1) by (fastforce simp: sample_times_def)
  obtain cj1 where set: "set_enqueue_time every_minute t cj = (Inr (), cj1)"
    using sample_times_set(1) [OF assms] by (cases "set_enqueue_time every_minute t cj") auto
  obtain s1 buf1 where c1: "c1 = (s1, buf1)" by (cases c1)
  show ?thesis
    by (cases "should_run t cj")
      (simp_all add: cron_turn_def enqueue_jobs_def scheduler_of_def j [unfolded c c1] set tick_def c)
qed

lemma sample_turns:
  assumes "sample_times cj" "\<forall>t \<in> set ts. t \<le> 10 ^ 15"
  shows "\<exists>trail cs' c'. cron_turns no_floats (\<lambda>_. []) sample_codec mem_redis sample_py no_options every_minute (\<lambda>_ _. ''a'') ts
      (scheduler_of [cj]) c = ((Inr (), trail, cs'), c') \<and> map fst trail = ts"
  using assms
proof (induction ts arbitrary: cj c)
  case (Cons t ts)
  have t: "t \<le> 10 ^ 15" using Cons.prems by simp
  obtain d "is" c1 where turn: "cron_turn no_floats (\<lambda>_. []) sample_codec mem_redis sample_py no_options every_minute (\<lambda>_. ''a'') t
      (scheduler_of [cj]) c = ((Inr d, is, scheduler_of [tick every_minute t cj]), c1)"
    using sample_turn [OF Cons.prems(1) t] by blast
  obtain trail cs' c' where "cron_turns no_floats (\<lambda>_. []) sample_codec mem_redis sample_py no_options every_minute (\<lambda>_ _. ''a'') ts
      (scheduler_of [tick every_minute t cj]) c1 = ((Inr (), trail, cs'), c')" "map fst trail = ts"
    using Cons.IH [OF sample_times_set(2) [OF Cons.prems(1) t], of c1] Cons.prems(2) by auto
  with turn show ?case by simp
qed simp

lemma made_sample:
  "cron_job_init every_minute 0 sample_cron = Inr (made sample_cron)" "sample_times (made sample_cron)"
  "cron_job_init every_minute 0 (sample_cron\<lparr>cd_interval := None, cd_cron := Some ''* * * * *''\<rparr>) =
     Inr (made (sample_cron\<lparr>cd_interval := None, cd_cron := Some ''* * * * *''\<rparr>))"
  "sample_times (made (sample_cron\<lparr>cd_interval := None, cd_cron := Some ''* * * * *''\<rparr>))"
  by (simp_all add: made_def sample_cron_def cron_job_init_def given_int_def given_str_def dotted_name_def or_empty_def truthy_def
      every_minute_def sample_times_def like_sample_def)

theorem cron_interval_spacing_witness:
  "\<exists>trail cs' c'. cron_turns no_floats (\<lambda>_. []) sample_codec mem_redis sample_py no_options every_minute (\<lambda>_ _. ''a'')
       [0, 30 * usec, 60 * usec] (scheduler_of [made sample_cron]) (mem_empty, []) = ((Inr (), trail, cs'), c') \<and>
     map fst trail = [0, 30 * usec, 60 * usec] \<and>
     successively (\<lambda>a b. a + 60 * usec \<le> b) (times_of 0 trail) \<and> 0 \<in> set (snd (trail ! 0))"
proof -
  obtain trail cs' c' where run: "cron_turns no_floats (\<lambda>_. []) sample_codec mem_redis sample_py no_options every_minute (\<lambda>_ _. ''a'')
       [0, 30 * usec, 60 * usec] (scheduler_of [made sample_cron]) (mem_empty, []) = ((Inr (), trail, cs'), c')"
    and times: "map fst trail = [0, 30 * usec, 60 * usec]"
    using sample_turns [OF made_sample(2), of "[0, 30 * usec, 60 * usec]" "(mem_empty, [])"] by (auto simp: usec_def)
  from times have "length (map fst trail) = 3" by simp
  then have "0 < length trail" by simp
  then show ?thesis
    using run times cron_interval_spacing [OF run, of 0 0 sample_cron 60] made_sample(1)
    by (fastforce simp: scheduler_of_def sample_cron_def)
qed

theorem cron_expression_slots_witness:
  "\<exists>trail cs' c'. cron_turns no_floats (\<lambda>_. []) sample_codec mem_redis sample_py no_options every_minute (\<lambda>_ _. ''a'')
       [0, 60 * usec, 90 * usec] (scheduler_of [made (sample_cron\<lparr>cd_interval := None, cd_cron := Some ''* * * * *''\<rparr>)]) (mem_empty, []) =
         ((Inr (), trail, cs'), c') \<and>
     map fst trail = [0, 60 * usec, 90 * usec] \<and>
     successively (\<lambda>a b. \<exists>m. every_minute ''* * * * *'' a = Inr m \<and> m \<le> b) (times_of 0 trail)"
proof -
  let ?d = "sample_cron\<lparr>cd_interval := None, cd_cron := Some ''* * * * *''\<rparr>"
  obtain trail cs' c' where run: "cron_turns no_floats (\<lambda>_. []) sample_codec mem_redis sample_py no_options every_minute (\<lambda>_ _. ''a'')
       [0, 60 * usec, 90 * usec] (scheduler_of [made ?d]) (mem_empty, []) = ((Inr (), trail, cs'), c')"
    and times: "map fst trail = [0, 60 * usec, 90 * usec]"
    using sample_turns [OF made_sample(4), of "[0, 60 * usec, 90 * usec]" "(mem_empty, [])"] by (auto simp: usec_def)
  have "successively (\<lambda>a b. \<exists>m. every_minute ''* * * * *'' a = Inr m \<and> m \<le> b) (times_of 0 trail)"
    using cron_expression_slots [OF run, of 0 0 ?d "''* * * * *''"] made_sample(3) by (auto simp: scheduler_of_def)
  with run times show ?thesis by (intro exI conjI)
qed

theorem cron_sleep_witness:
  "\<exists>d is c'. cron_turn no_floats (\<lambda>_. []) sample_codec mem_redis sample_py no_options every_minute (\<lambda>_. ''a'') 0
      (scheduler_of [made sample_cron]) (mem_empty, []) = ((Inr d, is, scheduler_of [tick every_minute 0 (made sample_cron)]), c') \<and>
    0 \<le> d \<and> d \<le> 60 * int usec"
proof -
  obtain d "is" c' where run: "cron_turn no_floats (\<lambda>_. []) sample_codec mem_redis sample_py no_options every_minute (\<lambda>_. ''a'') 0
      (scheduler_of [made sample_cron]) (mem_empty, []) = ((Inr d, is, scheduler_of [tick every_minute 0 (made sample_cron)]), c')"
    using sample_turn [OF made_sample(2), of 0 "(mem_empty, [])"] by auto
  from run cron_sleep [OF run] show ?thesis by (intro exI conjI) blast+
qed

end
