(* ===== verification/CronStore.thy ===== *)
theory CronStore
  imports CronTurns
begin

text \<open>
  The cron scheduler on the server: its hash reads back, its name in the registry while it runs, heartbeats and the
  removal of schedulers that stopped sending them.
\<close>

section \<open>A scheduler read back\<close>

text \<open>
  A job of which nothing is lost in the hash: its arguments are JSON, \<open>result_ttl\<close> is given (an option left out reads
  as the default), and a job with an expression has a next time. The function itself is never stored.
\<close>

definition json_dict :: "floats \<Rightarrow> pyval \<Rightarrow> bool" where
  "json_dict F v \<longleftrightarrow> (case v of PDict kvs \<Rightarrow> jsonable F v | _ \<Rightarrow> False)"

definition cron_storable :: "floats \<Rightarrow> cron_job \<Rightarrow> bool" where
  "cron_storable F cj \<longleftrightarrow>
     cj_func_name cj \<noteq> [] \<and> (given_int (cj_interval cj) \<longleftrightarrow> \<not> given_str (cj_cron cj)) \<and>
     (case cj_args cj of PTuple xs \<Rightarrow> list_all (jsonable F) xs | _ \<Rightarrow> False) \<and> json_dict F (cj_kwargs cj) \<and>
     (case cj_meta cj of None \<Rightarrow> True | Some m \<Rightarrow> json_dict F m) \<and> cj_result_ttl cj \<noteq> None \<and>
     (case cj_latest cj of None \<Rightarrow> True | Some t \<Rightarrow> year_of t \<le> 9999) \<and>
     (case cj_next cj of None \<Rightarrow> \<not> given_str (cj_cron cj) | Some t \<Rightarrow> year_of t \<le> 9999)"

lemma item_dict [simp]:
  "map_of (cron_job_dict F cj) ''queue_name'' = Some (PStr (cj_queue_name cj))"
  "map_of (cron_job_dict F cj) ''func_name'' = Some (PStr (cj_func_name cj))"
  "item (cron_job_dict F cj) ''args'' = (if truthy (cj_args cj) then PStr (safe_json_dumps F (cj_args cj)) else PNone)"
  "item (cron_job_dict F cj) ''kwargs'' = (if truthy (cj_kwargs cj) then PStr (safe_json_dumps F (cj_kwargs cj)) else PNone)"
  "item (cron_job_dict F cj) ''interval'' = pv_opt_int (cj_interval cj)"
  "item (cron_job_dict F cj) ''cron'' = pv_opt_str (cj_cron cj)"
  "item (cron_job_dict F cj) ''latest_enqueue_time'' = pv_opt_time (cj_latest cj)"
  "item (cron_job_dict F cj) ''next_enqueue_time'' = pv_opt_time (cj_next cj)"
  "item (cron_job_dict F cj) ''job_timeout'' = pv_opt_int (cj_job_timeout cj)"
  "map_of (cron_job_dict F cj) ''result_ttl'' = map_option PInt (cj_result_ttl cj)"
  "item (cron_job_dict F cj) ''ttl'' = pv_opt_int (cj_ttl cj)"
  "item (cron_job_dict F cj) ''failure_ttl'' = pv_opt_int (cj_failure_ttl cj)"
  "item (cron_job_dict F cj) ''meta'' = (case cj_meta cj of None \<Rightarrow> PNone | Some m \<Rightarrow> PStr (safe_json_dumps F m))"
  by (auto simp: item_def cron_job_dict_def opt_item_def pv_opt_int_def split: option.splits)

lemma cron_job_dict_jsonable: "jsonable F (PDict (cron_job_dict F cj))"
  by (auto simp: cron_job_dict_def opt_item_def pv_opt_int_def pv_opt_str_def pv_opt_time_def split: option.splits)

lemma as_opt_simps [simp]:
  "as_opt_int (PInt i) = Inr (Some i)" "as_opt_str (PStr x) = Inr (Some x)"
  "as_opt_int (pv_opt_int n) = Inr n" "as_opt_str (pv_opt_str s) = Inr s"
  "(case t of None \<Rightarrow> True | Some x \<Rightarrow> year_of x \<le> 9999) \<Longrightarrow> as_opt_time (pv_opt_time t) = Inr t"
  by (auto simp: as_opt_int_def pv_opt_int_def as_opt_str_def pv_opt_str_def as_opt_time_def pv_opt_time_def
      utcparse_utcformat split: option.splits)

lemma load_json:
  assumes "jsonable F v" "\<exists>c cs. jtext F v = c # cs \<and> c \<noteq> CHR ''<''"
  shows "load_text F post (PStr (jtext F v)) = bindE (post v) (\<lambda>y. Inr (Some y))"
  using assms by (auto simp: load_text_def truthy_def not_json_serializable_def json_loads_text)

lemma load_args:
  assumes "list_all (jsonable F) xs"
  shows "load_text F as_tuple (if truthy (PTuple xs) then PStr (safe_json_dumps F (PTuple xs)) else PNone) =
    Inr (if xs = [] then None else Some (PTuple xs))"
proof -
  have "list_all serialisable xs" using assms jsonable_serialisable by (auto simp: list_all_iff)
  then have "safe_json_dumps F (PTuple xs) = jtext F (PList xs)" by (simp add: safe_json_dumps_def json_dumps_def)
  moreover have "load_text F as_tuple (PStr (jtext F (PList xs))) = Inr (Some (PTuple xs))"
    using assms by (subst load_json) (auto simp: json_list_def as_tuple_def py_items_def)
  moreover have "load_text F as_tuple PNone = Inr None" by (simp add: load_text_def truthy_def)
  moreover have "truthy (PTuple xs) \<longleftrightarrow> xs \<noteq> []" by (simp add: truthy_def)
  ultimately show ?thesis by (cases xs) simp_all
qed

lemma load_text_None: "load_text F post PNone = Inr None"
  by (simp add: load_text_def truthy_def)

lemma load_dict:
  assumes "json_dict F v"
  shows "load_text F Inr (PStr (safe_json_dumps F v)) = Inr (Some v)"
proof -
  obtain kvs where v: "v = PDict kvs" "jsonable F v" using assms by (auto simp: json_dict_def split: pyval.splits)
  then have "safe_json_dumps F v = jtext F v" by (simp add: safe_json_dumps_def json_dumps_jsonable del: jtext.simps)
  moreover have "\<exists>c cs. jtext F v = c # cs \<and> c \<noteq> CHR ''<''" using v by simp
  ultimately show ?thesis using v(2) by (simp add: load_json)
qed

lemma load_kwargs:
  assumes "json_dict F (PDict kvs)"
  shows "load_text F Inr (if truthy (PDict kvs) then PStr (safe_json_dumps F (PDict kvs)) else PNone) =
    Inr (if kvs = [] then None else Some (PDict kvs))"
proof -
  have "load_text F Inr PNone = Inr None" by (simp add: load_text_def truthy_def)
  moreover have "truthy (PDict kvs) \<longleftrightarrow> kvs \<noteq> []" by (simp add: truthy_def)
  ultimately show ?thesis using load_dict [OF assms] by (cases kvs) simp_all
qed

lemma cron_job_back:
  assumes "cron_storable F cj" "given_str (cj_cron cj) \<longrightarrow> (\<exists>n. nc (the (cj_cron cj)) t = Inr n)"
  shows "cron_job_from_dict F nc t (PDict (cron_job_dict F cj)) = Inr (cj\<lparr>cj_func := None\<rparr>)"
proof -
  obtain xs where xs: "cj_args cj = PTuple xs" "list_all (jsonable F) xs"
    using assms(1) by (auto simp: cron_storable_def split: pyval.splits)
  obtain kvs where kvs: "cj_kwargs cj = PDict kvs" "json_dict F (cj_kwargs cj)"
    using assms(1) by (auto simp: cron_storable_def json_dict_def split: pyval.splits)
  obtain ttl where ttl: "cj_result_ttl cj = Some ttl" using assms(1) by (auto simp: cron_storable_def)
  have args: "load_text F as_tuple (item (cron_job_dict F cj) ''args'') = Inr (if xs = [] then None else Some (PTuple xs))"
    unfolding item_dict xs(1) by (rule load_args [OF xs(2)])
  have kw: "load_text F Inr (item (cron_job_dict F cj) ''kwargs'') = Inr (if kvs = [] then None else Some (PDict kvs))"
    unfolding item_dict kvs(1) by (rule load_kwargs) (use kvs in simp)
  have "\<forall>m. cj_meta cj = Some m \<longrightarrow> json_dict F m" using assms(1) by (auto simp: cron_storable_def)
  then have meta: "load_text F Inr (item (cron_job_dict F cj) ''meta'') = Inr (cj_meta cj)"
    by (cases "cj_meta cj") (simp_all add: load_dict load_text_None)
  define d where "d = \<lparr>cd_queue_name = cj_queue_name cj, cd_func = None, cd_func_name = Some (cj_func_name cj),
    cd_args = (if xs = [] then None else Some (PTuple xs)), cd_kwargs = (if kvs = [] then None else Some (PDict kvs)),
    cd_interval = cj_interval cj, cd_cron = cj_cron cj, cd_job_timeout = cj_job_timeout cj, cd_result_ttl = Some ttl,
    cd_ttl = cj_ttl cj, cd_failure_ttl = cj_failure_ttl cj, cd_meta = cj_meta cj\<rparr>"
  have data: "cron_data_of F (cron_job_dict F cj) = Inr d"
    unfolding cron_data_of_def args kw meta by (simp add: d_def need_def ttl)
  have times: "as_opt_time (pv_opt_time (cj_latest cj)) = Inr (cj_latest cj)"
    "as_opt_time (pv_opt_time (cj_next cj)) = Inr (cj_next cj)"
    using assms(1) by (auto simp: cron_storable_def split: option.splits)
  have one: "given_int (cj_interval cj) \<longleftrightarrow> \<not> given_str (cj_cron cj)" "cj_func_name cj \<noteq> []"
    "given_str (cj_cron cj) \<Longrightarrow> cj_next cj \<noteq> None"
    using assms(1) by (auto simp: cron_storable_def split: option.splits)
  have empties: "or_empty (if xs = [] then None else Some (PTuple xs)) (PTuple []) = cj_args cj"
    "or_empty (if kvs = [] then None else Some (PDict kvs)) (PDict []) = cj_kwargs cj"
    using xs kvs by (simp_all add: or_empty_def truthy_def)
  obtain first where f: "(if given_str (cj_cron cj) then bindE (nc (the (cj_cron cj)) t) (\<lambda>n. Inr (Some n)) else Inr None) = Inr first"
    "first = None \<or> given_str (cj_cron cj)"
    using assms(2) by (cases "given_str (cj_cron cj)") auto
  have name: "given_str (Some (cj_func_name cj))" using one(2) by (simp add: given_str_def)
  have "cron_job_init nc t d = Inr \<lparr>cj_queue_name = cj_queue_name cj, cj_func = None, cj_func_name = cj_func_name cj,
      cj_args = cj_args cj, cj_kwargs = cj_kwargs cj, cj_interval = cj_interval cj, cj_cron = cj_cron cj,
      cj_job_timeout = cj_job_timeout cj, cj_result_ttl = cj_result_ttl cj, cj_ttl = cj_ttl cj,
      cj_failure_ttl = cj_failure_ttl cj, cj_meta = cj_meta cj, cj_latest = None, cj_next = first\<rparr>"
    using one(1) f(1) name empties ttl by (auto simp: cron_job_init_def d_def)
  moreover have "\<dots> = Inr (cj\<lparr>cj_func := None, cj_latest := None, cj_next := first\<rparr>)" by simp
  ultimately have "cron_job_init nc t d = Inr (cj\<lparr>cj_func := None, cj_latest := None, cj_next := first\<rparr>)" by (rule trans)
  then show ?thesis using one(3) f(2) by (auto simp: cron_job_from_dict_def data times)
qed

text \<open>The whole scheduler: what its hash says, and its entry in the registry.\<close>

definition cs_storable :: "floats \<Rightarrow> (string \<Rightarrow> datetime \<Rightarrow> datetime res) \<Rightarrow> datetime \<Rightarrow> cron_scheduler \<Rightarrow> bool" where
  "cs_storable F nc t cs \<longleftrightarrow> year_of (cs_created_at cs) \<le> 9999 \<and>
     (\<forall>cj \<in> set (cs_jobs cs). cron_storable F cj \<and> (given_str (cj_cron cj) \<longrightarrow> (\<exists>n. nc (the (cj_cron cj)) t = Inr n)))"

definition as_read :: "cron_scheduler \<Rightarrow> cron_scheduler" where
  "as_read cs = cs\<lparr>cs_jobs := map (\<lambda>cj. cj\<lparr>cj_func := None\<rparr>) (cs_jobs cs)\<rparr>"

lemma read_jobs_text:
  assumes "cs_storable F nc t cs"
  shows "read_cron_jobs F nc t (jobs_text F cs) = Inr (map (\<lambda>cj. cj\<lparr>cj_func := None\<rparr>) (cs_jobs cs))"
proof -
  have "jsonable F (PList (map (\<lambda>cj. PDict (cron_job_dict F cj)) (cs_jobs cs)))"
    using cron_job_dict_jsonable [of F] by (simp add: list_all_iff del: jsonable.simps(6)) 
  then have "json_loads F (jobs_text F cs) = Some (PList (map (\<lambda>cj. PDict (cron_job_dict F cj)) (cs_jobs cs)))"
    unfolding jobs_text_def by (rule json_loads_text)
  moreover have "mapE (cron_job_from_dict F nc t) (map (\<lambda>cj. PDict (cron_job_dict F cj)) cjs) =
      Inr (map (\<lambda>cj. cj\<lparr>cj_func := None\<rparr>) cjs)"
    if "set cjs \<subseteq> set (cs_jobs cs)" for cjs
    using that assms by (induction cjs) (auto simp: cs_storable_def cron_job_back)
  ultimately show ?thesis by (simp add: read_cron_jobs_def py_items_def)
qed

lemma jobs_text_nonempty: "jobs_text F cs \<noteq> []"
  by (simp add: jobs_text_def json_list_def)

lemma cron_restore_dict:
  assumes "cs_storable F nc t cs" "map_of obj = h ++ map_of (cron_to_dict F cs)"
  shows "cron_restore F nc t obj cs0 = Inr (as_read cs)"
proof -
  have "map_of obj ''hostname'' = Some (cs_hostname cs)" "map_of obj ''pid'' = Some (str_of_int (cs_pid cs))"
    "map_of obj ''name'' = Some (cs_name cs)" "map_of obj ''created_at'' = Some (utcformat (cs_created_at cs))"
    "map_of obj ''config_file'' = Some (cs_config_file cs)" "map_of obj ''cron_jobs'' = Some (jobs_text F cs)"
    by (simp_all add: assms(2) cron_to_dict_def map_add_def)
  moreover have "str_to_date (utcformat (cs_created_at cs)) = Inr (cs_created_at cs)"
    using assms(1) by (simp add: str_to_date_def utcparse_utcformat cs_storable_def)
  ultimately show ?thesis using read_jobs_text [OF assms(1)]
    by (simp add: cron_restore_def need_field_def to_int_def fget_def jobs_text_nonempty as_read_def)
qed

context redis_server
begin

lemma birth_run:
  obtains s' where "cron_register_birth F R t cs (s, buf) = (Inr (), (s', buf))"
    "hget R s' (cs_key cs) = hget R s (cs_key cs) ++ map_of (cron_to_dict F cs)"
    "zscore R s' crons_key = (if zscore R s crons_key (cs_name cs) = None
       then (zscore R s crons_key)(cs_name cs \<mapsto> Fin (int t)) else zscore R s crons_key)"
proof -
  let ?s = "run_all R (ZAdd ZNX crons_key (cs_name cs) (Fin (int t)) # cron_save F cs) s"
  have "distinct (map fst (cron_to_dict F cs))" by (simp add: cron_to_dict_def)
  then have rev: "map_of (rev (cron_to_dict F cs)) = map_of (cron_to_dict F cs)" by (rule map_of_rev_distinct)
  show thesis
  proof (rule that [of ?s])
    show "cron_register_birth F R t cs (s, buf) = (Inr (), (?s, buf))"
      by (simp add: cron_register_birth_def cron_registry_register_def new_pipe_def bindO_def seqO_def)
    show "hget R ?s (cs_key cs) = hget R s (cs_key cs) ++ map_of (cron_to_dict F cs)"
      by (simp add: cron_save_def hash_run rev)
    show "zscore R ?s crons_key = (if zscore R s crons_key (cs_name cs) = None
       then (zscore R s crons_key)(cs_name cs \<mapsto> Fin (int t)) else zscore R s crons_key)"
      by (simp add: cron_save_def zset_run)
  qed
qed

lemma cron_names_iff: "n \<in> set (cron_names R s) \<longleftrightarrow> zscore R s crons_key n \<noteq> None"
proof -
  have "rank_range 0 (- 1) xs = xs" for xs :: "string list" by (cases xs) (auto simp: rank_range_def)
  then have "set (cron_names R s) = fst ` set (r_zset R s crons_key)" by (simp add: cron_names_def zrange_def)
  then show ?thesis by (auto simp: zscore_def map_of_eq_None_iff)
qed

lemma death_run:
  "fst (cron_register_death R False cs (s, buf)) = (if zscore R s crons_key (cs_name cs) = None then Inl SchedulerNotFound else Inr ())"
  "zscore R (fst (snd (cron_register_death R False cs (s, buf)))) crons_key = (zscore R s crons_key)(cs_name cs := None)"
  by (auto simp: cron_register_death_def cron_registry_unregister_def bindO_def seqO_def zset_run restrict_map_def)

lemma birth_fetch:
  assumes "cs_storable F nc t' cs"
  shows "\<exists>s'. cron_register_birth F R t cs (s, buf) = (Inr (), (s', buf)) \<and>
    cron_fetch F nc R s' t' host pid uid (cs_name cs) = Inr (as_read cs) \<and> cs_name cs \<in> set (cron_names R s') \<and>
    (\<exists>s''. cron_register_death R False cs (s', buf) = (Inr (), (s'', buf)) \<and> cs_name cs \<notin> set (cron_names R s'') \<and>
      fst (cron_register_death R False cs (s'', buf)) = Inl SchedulerNotFound)"
proof -
  obtain s' where birth: "cron_register_birth F R t cs (s, buf) = (Inr (), (s', buf))"
    and h: "hget R s' (cs_key cs) = hget R s (cs_key cs) ++ map_of (cron_to_dict F cs)"
    and z: "zscore R s' crons_key (cs_name cs) \<noteq> None"
    by (rule birth_run [of F t cs s buf]) (simp split: if_splits)
  have "map_of (r_hash R s' (cs_key cs)) = hget R s (cs_key cs) ++ map_of (cron_to_dict F cs)" using h by (simp add: hget_def)
  moreover have "hget R s' (cs_key cs) ''name'' \<noteq> None" using h by (simp add: cron_to_dict_def)
  then have "r_hash R s' (cron_key (cs_name cs)) \<noteq> []" by (auto simp: hget_def cs_key_def)
  ultimately have "cron_fetch F nc R s' t' host pid uid (cs_name cs) = Inr (as_read cs)"
    using cron_restore_dict [OF assms] by (simp add: cron_fetch_def cs_key_def)
  moreover obtain s'' where "cron_register_death R False cs (s', buf) = (Inr (), (s'', buf))"
    "zscore R s'' crons_key (cs_name cs) = None"
    using death_run [of cs s' buf] z by (auto simp: cron_register_death_def cron_registry_unregister_def bindO_def seqO_def)
  ultimately show ?thesis using birth z death_run(1) [of cs _ buf] by (auto simp: cron_names_iff)
qed

text \<open>A second scheduler of the same name, with and without a pipeline.\<close>

lemma duplicate_run:
  assumes "zscore R s crons_key (cs_name cs) = Some x"
  shows "fst (cron_registry_register R False t cs (s, buf)) = Inl DuplicateSchedulerError"
    "\<exists>s'. cron_register_birth F R t cs (s, buf) = (Inr (), (s', buf)) \<and> zscore R s' crons_key = zscore R s crons_key \<and>
      hget R s' (cs_key cs) = hget R s (cs_key cs) ++ map_of (cron_to_dict F cs)"
proof -
  show "fst (cron_registry_register R False t cs (s, buf)) = Inl DuplicateSchedulerError"
    using assms by (simp add: cron_registry_register_def bindO_def seqO_def)
  show "\<exists>s'. cron_register_birth F R t cs (s, buf) = (Inr (), (s', buf)) \<and> zscore R s' crons_key = zscore R s crons_key \<and>
      hget R s' (cs_key cs) = hget R s (cs_key cs) ++ map_of (cron_to_dict F cs)"
    by (rule birth_run [of F t cs s buf]) (use assms in auto)
qed

text \<open>Heartbeats and the cleanup of the registry.\<close>

lemma heartbeat_score:
  "zscore R (run_all R (cron_heartbeat t cs) s) crons_key =
    (if zscore R s crons_key (cs_name cs) = None then zscore R s crons_key
     else (zscore R s crons_key)(cs_name cs \<mapsto> Fin (int t)))"
  by (simp add: cron_heartbeat_def zset_run)

lemma cleanup_score:
  "zscore R (run_all R (cron_cleanup t n) s) crons_key =
    (\<lambda>v. case zscore R s crons_key v of None \<Rightarrow> None
       | Some x \<Rightarrow> if Fin 0 \<le> x \<and> x \<le> Fin (int t - n * int usec) then None else Some x)"
  by (simp add: cron_cleanup_def zset_run)

end

lemma turn_name: "cron_turn F repr C R P rd nc u t cs c = ((x, is, cs1), c1) \<Longrightarrow> cs_name cs1 = cs_name cs"
  by (auto simp: cron_turn_def enqueue_jobs_def split: prod.splits sum.splits)

lemma turns_name:
  "cron_turns F repr C R P rd nc uids ts cs c = ((r, trail, cs'), c') \<Longrightarrow> cs_name cs' = cs_name cs"
proof (induction ts arbitrary: cs c trail)
  case (Cons t ts)
  obtain x "is" cs1 c1 where turn: "cron_turn F repr C R P rd nc (uids t) t cs c = ((x, is, cs1), c1)"
    by (metis prod.collapse)
  show ?case
  proof (cases x)
    case (Inl e)
    then show ?thesis using Cons.prems turn turn_name [OF turn] by simp
  next
    case (Inr d)
    then obtain trail1 where "cron_turns F repr C R P rd nc uids ts cs1 c1 = ((r, trail1, cs'), c')"
      using Cons.prems turn by (auto split: prod.splits)
    then show ?thesis using Cons.IH turn_name [OF turn] by metis
  qed
qed simp

section \<open>Properties of the registry\<close>

text \<open>
  C19. A scheduler that registered is found by its name, with its host, process, configuration file, creation time and
  every job with its times, though without the functions, whatever an older hash at that key said; its name is in the registry. When it
  dies its name leaves the registry, and a second death raises SchedulerNotFound.
\<close>

theorem cron_fetch_after_birth:
  assumes "redis_server R" "cs_storable F nc t' cs"
  shows "\<exists>s'. cron_register_birth F R t cs (s, buf) = (Inr (), (s', buf)) \<and>
    cron_fetch F nc R s' t' host pid uid (cs_name cs) = Inr (as_read cs) \<and> cs_name cs \<in> set (cron_names R s') \<and>
    (\<exists>s''. cron_register_death R False cs (s', buf) = (Inr (), (s'', buf)) \<and> cs_name cs \<notin> set (cron_names R s'') \<and>
      fst (cron_register_death R False cs (s'', buf)) = Inl SchedulerNotFound)"
  by (rule redis_server.birth_fetch [OF assms])

theorem cron_fetch_after_birth_witness:
  "\<exists>s'. cron_register_birth no_floats mem_redis 5 (scheduler_of [made sample_cron]) (mem_empty, []) = (Inr (), (s', [])) \<and>
    cron_fetch no_floats every_minute mem_redis s' 9 ''other'' 8 ''012345'' ''cron'' = Inr (as_read (scheduler_of [made sample_cron]))"
proof -
  have "cs_storable no_floats every_minute 9 (scheduler_of [made sample_cron])"
    by (simp add: cs_storable_def scheduler_of_def new_cron_scheduler_def cron_storable_def made_def sample_cron_def
        cron_job_init_def given_int_def given_str_def dotted_name_def or_empty_def truthy_def json_dict_def)
  from cron_fetch_after_birth [OF mem.redis_server_axioms this, of 5 mem_empty "[]" "''other''" 8 "''012345''"]
  show ?thesis by (auto simp: scheduler_of_def new_cron_scheduler_def)
qed

text \<open>
  A second scheduler of the same name: on the connection the registry refuses it, but \<open>register_birth\<close> asks on a
  pipeline, where nothing is refused. It raises nothing, overwrites every field of the hash of the scheduler that is running, and
  leaves that one's entry in the registry, which both then share.
\<close>

theorem cron_duplicate_unnoticed:
  assumes "redis_server R" "zscore R s crons_key (cs_name cs) = Some x"
  shows "fst (cron_registry_register R False t cs (s, buf)) = Inl DuplicateSchedulerError \<and>
    (\<exists>s'. cron_register_birth F R t cs (s, buf) = (Inr (), (s', buf)) \<and> zscore R s' crons_key = zscore R s crons_key \<and>
      hget R s' (cs_key cs) = hget R s (cs_key cs) ++ map_of (cron_to_dict F cs))"
  using redis_server.duplicate_run [OF assms] by blast

theorem cron_duplicate_unnoticed_witness:
  "\<exists>s s'. zscore mem_redis s crons_key ''cron'' = Some (Fin 5) \<and>
    cron_register_birth no_floats mem_redis 9 (scheduler_of []) (s, []) = (Inr (), (s', [])) \<and>
    zscore mem_redis s' crons_key ''cron'' = Some (Fin 5)"
proof -
  let ?s = "r_run mem_redis (ZAdd ZAny crons_key ''cron'' (Fin 5)) mem_empty"
  have name: "cs_name (scheduler_of []) = ''cron''" by (simp add: scheduler_of_def new_cron_scheduler_def)
  have z: "zscore mem_redis ?s crons_key ''cron'' = Some (Fin 5)" by (simp add: mem.zset_run)
  from cron_duplicate_unnoticed [OF mem.redis_server_axioms, of ?s "scheduler_of []" "Fin 5" 9 "[]" no_floats] name z
  obtain s' where "cron_register_birth no_floats mem_redis 9 (scheduler_of []) (?s, []) = (Inr (), (s', []))"
    "zscore mem_redis s' crons_key = zscore mem_redis ?s crons_key"
    by auto
  with z show ?thesis by (intro exI [of _ ?s] exI [of _ s'] conjI) simp_all
qed

text \<open>
  Who counts as alive: after a cleanup with a threshold of \<open>n\<close> seconds, a scheduler that was registered and sent its
  heartbeat at \<open>t0\<close> is in the registry exactly when that was less than \<open>n\<close> seconds ago, and a heartbeat never brings a
  scheduler back that has left the registry.
\<close>

theorem cron_alive_exactly:
  assumes "redis_server R"
  shows "(cs_name cs \<in> set (cron_names R (run_all R (cron_heartbeat t0 cs @ cron_cleanup t n) s)) \<longleftrightarrow>
      cs_name cs \<in> set (cron_names R s) \<and> int t - n * int usec < int t0) \<and>
    (cs_name cs \<notin> set (cron_names R s) \<longrightarrow>
      set (cron_names R (run_all R (cron_heartbeat t0 cs) s)) = set (cron_names R s))"
proof -
  note names = redis_server.cron_names_iff [OF assms]
    and z = redis_server.heartbeat_score [OF assms] redis_server.cleanup_score [OF assms]
  have "set (cron_names R (run_all R (cron_heartbeat t0 cs) s)) = set (cron_names R s)" if "cs_name cs \<notin> set (cron_names R s)"
    using that by (auto simp: names z)
  then show ?thesis by (auto simp: names z split: option.splits if_splits)
qed

theorem cron_alive_exactly_witness:
  "let cs = scheduler_of []; s = r_run mem_redis (ZAdd ZAny crons_key ''cron'' (Fin 5)) mem_empty in
   ''cron'' \<in> set (cron_names mem_redis (run_all mem_redis (cron_heartbeat usec cs @ cron_cleanup (120 * usec) 120) s)) \<and>
   ''cron'' \<notin> set (cron_names mem_redis (run_all mem_redis (cron_heartbeat usec cs @ cron_cleanup (121 * usec) 120) s))"
proof -
  let ?cs = "scheduler_of []" and ?s = "r_run mem_redis (ZAdd ZAny crons_key ''cron'' (Fin 5)) mem_empty"
  have name: "cs_name ?cs = ''cron''" by (simp add: scheduler_of_def new_cron_scheduler_def)
  have "''cron'' \<in> set (cron_names mem_redis ?s)" by (simp add: redis_server.cron_names_iff [OF mem.redis_server_axioms] mem.zset_run)
  then show ?thesis
    using cron_alive_exactly [OF mem.redis_server_axioms, of ?cs usec "120 * usec" 120 ?s]
      cron_alive_exactly [OF mem.redis_server_axioms, of ?cs usec "121 * usec" 120 ?s] name
    by (simp add: Let_def usec_def)
qed

text \<open>
  However the loop of the scheduler ends, by a signal or by an exception of one of its turns, its name is no longer in the
  registry.
\<close>

theorem cron_start_unregisters:
  assumes "redis_server R"
  shows "cs_name cs \<notin> set (cron_names R (fst (snd (cron_start F repr C R P rd nc uids t0 ts cs (s, buf)))))"
proof -
  obtain s1 where birth: "cron_register_birth F R t0 cs (s, buf) = (Inr (), (s1, buf))"
    by (rule redis_server.birth_run [OF assms, of F t0 cs s buf])
  obtain r trail cs' s2 buf2 where turns: "cron_turns F repr C R P rd nc uids ts cs (s1, buf) = ((r, trail, cs'), (s2, buf2))"
    by (metis prod.collapse)
  obtain x s3 buf3 where death: "cron_register_death R False cs' (s2, buf2) = (x, (s3, buf3))" by (metis prod.collapse)
  have "zscore R s3 crons_key (cs_name cs) = None"
    using redis_server.death_run(2) [OF assms, of cs' s2 buf2] turns_name [OF turns] death by simp
  then show ?thesis
    by (cases x) (simp_all add: redis_server.cron_names_iff [OF assms] cron_start_def birth turns death)
qed

theorem cron_start_unregisters_witness:
  "''cron'' \<notin> set (cron_names mem_redis (fst (snd (cron_start no_floats (\<lambda>_. []) sample_codec mem_redis sample_py no_options every_minute
     (\<lambda>_ _. ''a'') 0 [0, 30 * usec] (scheduler_of [made sample_cron]) (mem_empty, [])))))"
  using cron_start_unregisters [OF mem.redis_server_axioms, of "scheduler_of [made sample_cron]" no_floats "\<lambda>_. []" sample_codec
      sample_py no_options every_minute "\<lambda>_ _. ''a''" 0 "[0, 30 * usec]" mem_empty "[]"]
  by (simp add: scheduler_of_def new_cron_scheduler_def)

end
