(* ===== verification/Timeouts.thy ===== *)
theory Timeouts
  imports Prelude
begin

text \<open>
  The limits on running times (\<open>rq/timeouts.py\<close>). A body is a list of what it does: be busy for some time, fail, or
  run another body under a limit of its own; times are in seconds. \<open>run_alarm\<close> runs a body under \<open>UnixSignalDeathPenalty\<close>,
  with the one alarm and the one handler a process has, \<open>run_timers\<close> under \<open>TimerDeathPenalty\<close>, with a timer of
  its own for each limit. The exception of a timer is taken to reach the thread at once.
\<close>

section \<open>Bodies\<close>

datatype timeout_exception = BaseTimeoutException | JobTimeoutException | HorseMonitorTimeoutException

datatype 'e action = Busy nat | Fails 'e | Limited int timeout_exception "'e action list"

datatype 'e outcome = Returns | Failed 'e | TimedOut timeout_exception | Overflow | Killed

fun flat_action :: "'e action \<Rightarrow> bool" where
  "flat_action (Limited n x b) = False"
| "flat_action _ = True"

section \<open>The alarm of the process\<close>

text \<open>\<open>cl_handler\<close> is what SIGALRM calls, None for the default, which ends the process.\<close>

record alarm_clock =
  cl_now :: nat
  cl_handler :: "timeout_exception option"
  cl_due :: "nat option"

text \<open>
  \<open>signal.alarm\<close> takes a C int, with an OverflowError for what is none, and hands it to \<open>alarm\<close> as an unsigned number of
  32 bits, where 0 cancels the alarm that is set.
\<close>

definition c_int :: "int \<Rightarrow> bool" where
  "c_int n \<longleftrightarrow> - (2 ^ 31) \<le> n \<and> n < 2 ^ 31"

definition set_alarm :: "int \<Rightarrow> alarm_clock \<Rightarrow> alarm_clock" where
  "set_alarm n c =
     (let k = nat (n mod 2 ^ 32) in c\<lparr>cl_due := (if k = 0 then None else Some (cl_now c + k))\<rparr>)"

definition setup_alarm :: "int \<Rightarrow> timeout_exception \<Rightarrow> alarm_clock \<Rightarrow> alarm_clock" where
  "setup_alarm n x c = set_alarm n (c\<lparr>cl_handler := Some x\<rparr>)"

definition cancel_alarm :: "alarm_clock \<Rightarrow> alarm_clock" where
  "cancel_alarm c = (set_alarm 0 c)\<lparr>cl_handler := None\<rparr>"

definition fire_alarm :: "nat \<Rightarrow> alarm_clock \<Rightarrow> 'e outcome \<times> alarm_clock" where
  "fire_alarm d c =
     (case cl_handler c of None \<Rightarrow> Killed | Some x \<Rightarrow> TimedOut x, c\<lparr>cl_now := max d (cl_now c), cl_due := None\<rparr>)"

text \<open>A \<open>with\<close> block: the limit is set up, and cancelled however the body ends; a number that \<open>alarm\<close> refuses leaves the handler.\<close>

fun run_alarm :: "'e action list \<Rightarrow> alarm_clock \<Rightarrow> 'e outcome \<times> alarm_clock" where
  "run_alarm [] c = (Returns, c)"
| "run_alarm (Busy n # as) c =
     (case cl_due c of
        None \<Rightarrow> run_alarm as (c\<lparr>cl_now := cl_now c + n\<rparr>)
      | Some d \<Rightarrow> if d \<le> cl_now c + n then fire_alarm d c else run_alarm as (c\<lparr>cl_now := cl_now c + n\<rparr>))"
| "run_alarm (Fails e # as) c = (Failed e, c)"
| "run_alarm (Limited n x b # as) c =
     (if c_int n then
        (case run_alarm b (setup_alarm n x c) of
           (Returns, c1) \<Rightarrow> run_alarm as (cancel_alarm c1)
         | (Killed, c1) \<Rightarrow> (Killed, c1)
         | (r, c1) \<Rightarrow> (r, cancel_alarm c1))
      else (Overflow, c\<lparr>cl_handler := Some x\<rparr>))"

section \<open>Timers\<close>

text \<open>The timers of the limits around, innermost first; None for one that has fired or was never started.\<close>

record timers =
  tm_now :: nat
  tm_stack :: "(nat option \<times> timeout_exception) list"

definition setup_timer :: "int \<Rightarrow> timeout_exception \<Rightarrow> timers \<Rightarrow> timers" where
  "setup_timer n x t = t\<lparr>tm_stack := (if n \<le> 0 then None else Some (tm_now t + nat n), x) # tm_stack t\<rparr>"

definition cancel_timer :: "timers \<Rightarrow> timers" where
  "cancel_timer t = t\<lparr>tm_stack := tl (tm_stack t)\<rparr>"

text \<open>The first timer that is due up to a time, its exception, and the timers that are left running.\<close>

fun earliest :: "nat \<Rightarrow> (nat option \<times> timeout_exception) list \<Rightarrow> nat option" where
  "earliest u [] = None"
| "earliest u ((d, x) # ts) =
     (case d of
        None \<Rightarrow> earliest u ts
      | Some d \<Rightarrow> if d \<le> u then Some (case earliest u ts of None \<Rightarrow> d | Some k \<Rightarrow> min d k) else earliest u ts)"

fun fire_timer :: "nat \<Rightarrow> (nat option \<times> timeout_exception) list \<Rightarrow> timeout_exception \<times> (nat option \<times> timeout_exception) list" where
  "fire_timer k [] = (BaseTimeoutException, [])"
| "fire_timer k ((d, x) # ts) =
     (if d = Some k then (x, (None, x) # ts) else (case fire_timer k ts of (y, us) \<Rightarrow> (y, (d, x) # us)))"

fun run_timers :: "'e action list \<Rightarrow> timers \<Rightarrow> 'e outcome \<times> timers" where
  "run_timers [] t = (Returns, t)"
| "run_timers (Busy n # as) t =
     (case earliest (tm_now t + n) (tm_stack t) of
        None \<Rightarrow> run_timers as (t\<lparr>tm_now := tm_now t + n\<rparr>)
      | Some k \<Rightarrow>
          (case fire_timer k (tm_stack t) of (x, ts) \<Rightarrow> (TimedOut x, t\<lparr>tm_now := max k (tm_now t), tm_stack := ts\<rparr>)))"
| "run_timers (Fails e # as) t = (Failed e, t)"
| "run_timers (Limited n x b # as) t =
     (case run_timers b (setup_timer n x t) of
        (Returns, t1) \<Rightarrow> run_timers as (cancel_timer t1)
      | (r, t1) \<Rightarrow> (r, cancel_timer t1))"

section \<open>A limit on a body without further limits\<close>

text \<open>How long such a body runs when nothing stops it, and how it ends.\<close>

fun needs :: "'e action list \<Rightarrow> nat" where
  "needs [] = 0"
| "needs (Busy n # as) = n + needs as"
| "needs (a # as) = 0"

fun ends_in :: "'e action list \<Rightarrow> 'e outcome" where
  "ends_in [] = Returns"
| "ends_in (Fails e # as) = Failed e"
| "ends_in (a # as) = ends_in as"

lemma ends_in_flat: "list_all flat_action b \<Longrightarrow> ends_in b = Returns \<or> (\<exists>e. ends_in b = Failed e)"
  by (induction b rule: ends_in.induct) auto

text \<open>
  What the two classes promise: while nothing is due a body goes on, at the time of the limit its exception comes, and a
  block that ends leaves nothing behind. \<open>armed\<close> is the limit that is set, \<open>spent\<close> a limit whose exception has come.
\<close>

locale death_penalty =
  fixes run :: "'e action list \<Rightarrow> 's \<Rightarrow> 'e outcome \<times> 's"
    and now :: "'s \<Rightarrow> nat"
    and armed :: "'s \<Rightarrow> (nat \<times> timeout_exception) option"
    and spent :: "'s \<Rightarrow> bool"
    and idle :: "'s \<Rightarrow> bool"
    and arm :: "int \<Rightarrow> timeout_exception \<Rightarrow> 's \<Rightarrow> 's"
    and release :: "'s \<Rightarrow> 's"
  assumes run_nothing: "run [] s = (Returns, s)"
    and run_failure: "run (Fails e # b) s = (Failed e, s)"
    and run_in_time: "armed s = Some (d, x) \<Longrightarrow> now s + m < d \<Longrightarrow>
      \<exists>s'. run (Busy m # b) s = run b s' \<and> now s' = now s + m \<and> armed s' = Some (d, x)"
    and run_too_long: "armed s = Some (d, x) \<Longrightarrow> now s < d \<Longrightarrow> d \<le> now s + m \<Longrightarrow>
      \<exists>s'. run (Busy m # b) s = (TimedOut x, s') \<and> now s' = d \<and> spent s'"
    and run_limited: "0 < n \<Longrightarrow> n < 2 ^ 31 \<Longrightarrow> run b (arm n x s) = (r, s1) \<Longrightarrow> r \<noteq> Killed \<Longrightarrow>
      run [Limited n x b] s = (r, release s1)"
    and arm_sets: "idle s \<Longrightarrow> 0 < n \<Longrightarrow> n < 2 ^ 31 \<Longrightarrow>
      armed (arm n x s) = Some (now s + nat n, x) \<and> now (arm n x s) = now s"
    and release_idle: "armed s \<noteq> None \<or> spent s \<Longrightarrow> idle (release s) \<and> now (release s) = now s"
begin

text \<open>Busy for no time is nothing: the limit of the moment does not wait for it.\<close>

lemma run_flat:
  assumes "list_all flat_action b" "armed s = Some (d, x)" "now s < d"
  shows "\<exists>s'. run b s = (if now s + needs b < d then ends_in b else TimedOut x, s') \<and> now s' = min (now s + needs b) d \<and>
    (armed s' \<noteq> None \<or> spent s')"
  using assms
proof (induction b arbitrary: s)
  case (Cons a b)
  show ?case
  proof (cases a)
    case (Busy n)
    show ?thesis
    proof (cases "now s + n < d")
      case True
      then obtain s1 where "run (Busy n # b) s = run b s1" "now s1 = now s + n" "armed s1 = Some (d, x)"
        using run_in_time Cons.prems(2) by blast
      with Cons.IH [of s1] Cons.prems(1) True Busy show ?thesis by (auto simp: add.assoc)
    next
      case False
      then obtain s1 where "run (Busy n # b) s = (TimedOut x, s1)" "now s1 = d" "spent s1"
        using run_too_long [of s d x n b] Cons.prems(2,3) by auto
      with False Busy show ?thesis by (auto simp: min_def)
    qed
  qed (use Cons.prems run_failure in auto)
qed (use run_nothing in auto)

lemma limit_exact:
  assumes "list_all flat_action b" "0 < n" "n < 2 ^ 31" "idle s"
  shows "\<exists>s'. run [Limited n x b] s = (if int (needs b) < n then ends_in b else TimedOut x, s') \<and> idle s' \<and>
    now s' = now s + min (needs b) (nat n)"
proof -
  have n: "int (needs b) < n \<longleftrightarrow> now s + needs b < now s + nat n" "now s < now s + nat n" using assms(2) by linarith+
  note a = arm_sets [OF assms(4,2,3), of x]
  obtain s1 where s1: "run b (arm n x s) = (if int (needs b) < n then ends_in b else TimedOut x, s1)"
    "now s1 = min (now s + needs b) (now s + nat n)" "armed s1 \<noteq> None \<or> spent s1"
    using run_flat [OF assms(1), of "arm n x s" "now s + nat n" x] a n by auto
  have "run [Limited n x b] s = (if int (needs b) < n then ends_in b else TimedOut x, release s1)"
    using ends_in_flat [OF assms(1)] by (intro run_limited [OF assms(2,3) s1(1)]) auto
  then show ?thesis using release_idle [OF s1(3)] s1(2) by (auto simp: min_add_distrib_right)
qed

end

text \<open>The alarm of the process, and the timers, when no other limit is around.\<close>

definition alarm_armed :: "alarm_clock \<Rightarrow> (nat \<times> timeout_exception) option" where
  "alarm_armed c = (case (cl_due c, cl_handler c) of (Some d, Some x) \<Rightarrow> Some (d, x) | _ \<Rightarrow> None)"

definition alarm_idle :: "alarm_clock \<Rightarrow> bool" where
  "alarm_idle c \<longleftrightarrow> cl_due c = None \<and> cl_handler c = None"

definition timer_armed :: "timers \<Rightarrow> (nat \<times> timeout_exception) option" where
  "timer_armed t = (case tm_stack t of [(Some d, x)] \<Rightarrow> Some (d, x) | _ \<Rightarrow> None)"

definition timer_spent :: "timers \<Rightarrow> bool" where
  "timer_spent t \<longleftrightarrow> map fst (tm_stack t) = [None]"

definition timers_idle :: "timers \<Rightarrow> bool" where
  "timers_idle t \<longleftrightarrow> tm_stack t = []"

lemma run_alarm_free:
  assumes "list_all flat_action b" "cl_due c = None"
  shows "run_alarm b c = (ends_in b, c\<lparr>cl_now := cl_now c + needs b\<rparr>)"
  using assms by (induction b c rule: run_alarm.induct) (auto simp: add.assoc)

lemma alarm_set:
  assumes "0 < n" "n < 2 ^ 31"
  shows "setup_alarm n x c = c\<lparr>cl_handler := Some x, cl_due := Some (cl_now c + nat n)\<rparr>"
  using assms by (simp add: setup_alarm_def set_alarm_def Let_def)

lemma alarm_cancelled: "cancel_alarm c = c\<lparr>cl_due := None, cl_handler := None\<rparr>"
  by (simp add: cancel_alarm_def set_alarm_def Let_def)

interpretation alarm: death_penalty run_alarm cl_now alarm_armed "\<lambda>_. True" alarm_idle setup_alarm cancel_alarm
proof
  fix c :: alarm_clock and d n :: nat and x b assume "alarm_armed c = Some (d, x)"
  then have c: "cl_due c = Some d" "cl_handler c = Some x" by (auto simp: alarm_armed_def split: option.splits)
  show "\<exists>c'. run_alarm (Busy n # b) c = run_alarm b c' \<and> cl_now c' = cl_now c + n \<and> alarm_armed c' = Some (d, x)" if "cl_now c + n < d"
    using that c by (intro exI [of _ "c\<lparr>cl_now := cl_now c + n\<rparr>"]) (simp add: alarm_armed_def)
  show "\<exists>c'. run_alarm (Busy n # b) c = (TimedOut x, c') \<and> cl_now c' = d \<and> True" if "cl_now c < d" "d \<le> cl_now c + n"
    using that c by (simp add: fire_alarm_def max_def)
next
  fix n :: int and b x c c1 and r :: "'a outcome"
  assume "0 < n" "n < 2 ^ 31" "run_alarm b (setup_alarm n x c) = (r, c1)" "r \<noteq> Killed"
  then show "run_alarm [Limited n x b] c = (r, cancel_alarm c1)" by (cases r) (simp_all add: c_int_def)
qed (auto simp: alarm_set alarm_cancelled alarm_armed_def alarm_idle_def)

interpretation timer: death_penalty run_timers tm_now timer_armed timer_spent timers_idle setup_timer cancel_timer
proof
  fix t :: timers and d n :: nat and x b assume "timer_armed t = Some (d, x)"
  then have t: "tm_stack t = [(Some d, x)]" by (auto simp: timer_armed_def split: list.splits option.splits)
  show "\<exists>t'. run_timers (Busy n # b) t = run_timers b t' \<and> tm_now t' = tm_now t + n \<and> timer_armed t' = Some (d, x)" if "tm_now t + n < d"
    using that t by (intro exI [of _ "t\<lparr>tm_now := tm_now t + n\<rparr>"]) (simp add: timer_armed_def)
  show "\<exists>t'. run_timers (Busy n # b) t = (TimedOut x, t') \<and> tm_now t' = d \<and> timer_spent t'" if "tm_now t < d" "d \<le> tm_now t + n"
    using that t by (simp add: timer_spent_def max_def)
next
  fix n :: int and b x t t1 and r :: "'a outcome"
  assume "run_timers b (setup_timer n x t) = (r, t1)"
  then show "run_timers [Limited n x b] t = (r, cancel_timer t1)" by (cases r) simp_all
next
  fix t assume "timer_armed t \<noteq> None \<or> timer_spent t"
  then show "timers_idle (cancel_timer t) \<and> tm_now (cancel_timer t) = tm_now t"
    by (auto simp: timer_armed_def timer_spent_def timers_idle_def cancel_timer_def split: list.splits option.splits)
qed (auto simp: timer_armed_def timers_idle_def setup_timer_def)



text \<open>
  A limit within a limit, of the class for Unix, takes the outer one with it: once the inner block has ended, nothing
  stops the rest of the outer body, however long it runs. With timers the outer limit stays.
\<close>

theorem inner_limit_disarms:
  assumes "list_all flat_action b" "0 < n" "n < 2 ^ 31" "c_int m"
  shows "fst (run_alarm [Limited n x (Limited m y [] # b)] \<lparr>cl_now = t, cl_handler = None, cl_due = None\<rparr>) = ends_in b \<and>
    fst (run_timers [Limited n x (Limited m y [] # b)] \<lparr>tm_now = t, tm_stack = []\<rparr>) =
      (if int (needs b) < n then ends_in b else TimedOut x)"
proof -
  have ci: "c_int n" using assms(2,3) by (simp add: c_int_def)
  have free: "run_alarm b (cancel_alarm c) = (ends_in b, (cancel_alarm c)\<lparr>cl_now := cl_now c + needs b\<rparr>)" for c
    using run_alarm_free [OF assms(1), of "cancel_alarm c"] by (simp add: alarm_cancelled)
  have timer: "cancel_timer (setup_timer m y t') = t'" for t' by (simp add: setup_timer_def cancel_timer_def)
  have one: "fst (run_timers [Limited n x (Limited m y [] # b)] \<lparr>tm_now = t, tm_stack = []\<rparr>) =
      fst (run_timers [Limited n x b] \<lparr>tm_now = t, tm_stack = []\<rparr>)"
    by (simp add: timer)
  show ?thesis
    using ends_in_flat [OF assms(1)] timer.limit_exact [OF assms(1-3), of "\<lparr>tm_now = t, tm_stack = []\<rparr>" x] one assms(4) ci
    by (auto simp: free timers_idle_def)
qed

theorem inner_limit_disarms_witness:
  "fst (run_alarm [Limited 10 JobTimeoutException [Limited 60 JobTimeoutException [], Busy 1000000]]
      \<lparr>cl_now = 3, cl_handler = None, cl_due = None\<rparr>) = (Returns :: unit outcome) \<and>
   fst (run_timers [Limited 10 JobTimeoutException [Limited 60 JobTimeoutException [], Busy 1000000]]
      \<lparr>tm_now = 3, tm_stack = []\<rparr>) = (TimedOut JobTimeoutException :: unit outcome)"
proof -
  have "list_all flat_action [Busy 1000000]" by simp
  from inner_limit_disarms [OF this, where n = 10 and m = 60 and t = 3 and 'a = unit]
  show ?thesis by (simp only: c_int_def) simp
qed

end
