(* ===== verification/Frontends.thy ===== *)
theory Frontends
  imports Work
begin

text \<open>
  The ways a program meets the queue: \<open>Queue.enqueue\<close> and \<open>prepare_data\<close> (\<open>rq/queue.py\<close>), the \<open>job\<close> decorator
  (\<open>rq/decorators.py\<close>), the functions and views of \<open>rq/job.py\<close> that take an id or look at a job, and the stack behind
  \<open>get_current_job\<close> (\<open>rq/local.py\<close>).

  The options of RQ that a call gives are a record of their own (\<open>create_args\<close> with the flags \<open>at_front\<close> and \<open>unique\<close> and
  the repeat); \<open>pos\<close> and \<open>kw\<close> are its positional and its other keyword arguments.
\<close>

section \<open>Calls\<close>

definition with_arguments :: "bool \<Rightarrow> create_args \<Rightarrow> pyval list \<Rightarrow> (string \<times> pyval) list \<Rightarrow> create_args res" where
  "with_arguments from_main opts pos kw =
     bindE (parse_args from_main pos kw) (\<lambda>(_, a, k).
     bindE (given_kwargs k) (\<lambda>k1. Inr (opts\<lparr>ca_args := given_args a, ca_kwargs := k1\<rparr>)))"

definition queue_enqueue ::
  "(pyval \<Rightarrow> string) \<Rightarrow> codec \<Rightarrow> 's redis \<Rightarrow> py \<Rightarrow> datetime \<Rightarrow> queue \<Rightarrow> bool \<Rightarrow> bool \<Rightarrow> bool \<Rightarrow> bool \<Rightarrow> create_args \<Rightarrow>
   rpt option \<Rightarrow> pyval list \<Rightarrow> (string \<times> pyval) list \<Rightarrow> string \<Rightarrow> ('s, job) op" where
  "queue_enqueue repr C R P t q piped front unique from_main opts rpt pos kw uid =
     bindO (liftE (with_arguments from_main opts pos kw)) (\<lambda>a. enqueue_call repr C R P t q piped front unique a rpt uid)"

definition prepare_data :: "create_args \<Rightarrow> bool \<Rightarrow> rpt option \<Rightarrow> bool \<Rightarrow> enqueue_data" where
  "prepare_data a front rpt unique = \<lparr>ed_args = a, ed_repeat = rpt, ed_at_front = front, ed_unique = unique\<rparr>"

text \<open>The decorator: a queue or its name, and the options of every call.\<close>

record decorator =
  dc_queue :: "string + queue"
  dc_options :: create_args
  dc_at_front :: bool

definition no_options_given :: create_args where
  "no_options_given =
     \<lparr>ca_func = FOther, ca_args = None, ca_kwargs = None, ca_result_ttl = TNone, ca_ttl = TNone, ca_status = None,
      ca_description = None, ca_depends_on = None, ca_timeout = TNone, ca_retry = None, ca_id = None, ca_origin = [],
      ca_meta = None, ca_failure_ttl = TNone, ca_group_id = None, ca_on_success = CbNone, ca_on_failure = CbNone,
      ca_on_stopped = CbNone\<rparr>"

text \<open>\<open>given\<close> says which options the decorator was given; a result ttl that it was not is 500.\<close>

definition new_decorator :: "string + queue \<Rightarrow> bool \<Rightarrow> (create_args \<Rightarrow> create_args) \<Rightarrow> decorator" where
  "new_decorator q front given =
     \<lparr>dc_queue = q, dc_options = given (no_options_given\<lparr>ca_result_ttl := TInt default_result_ttl\<rparr>), dc_at_front = front\<rparr>"

definition delay_args ::
  "decorator \<Rightarrow> func_ref \<Rightarrow> dep_item one_or_many option \<Rightarrow> string option \<Rightarrow> pyval list \<Rightarrow> (string \<times> pyval) list \<Rightarrow> create_args" where
  "delay_args d f deps ident pos kw =
     (dc_options d)\<lparr>ca_func := f, ca_args := Some (PTuple pos), ca_kwargs := Some kw, ca_id := ident,
       ca_depends_on := (if has_depends (no_options_given\<lparr>ca_depends_on := deps\<rparr>) then deps else ca_depends_on (dc_options d))\<rparr>"

definition queue_of :: "string + queue \<Rightarrow> queue" where
  "queue_of q = (case q of Inl name \<Rightarrow> default_queue name | Inr q \<Rightarrow> q)"

text \<open>\<open>f.delay(*pos, **kw)\<close>, with the three keywords that \<open>delay\<close> takes for itself.\<close>

definition delay ::
  "(pyval \<Rightarrow> string) \<Rightarrow> codec \<Rightarrow> 's redis \<Rightarrow> py \<Rightarrow> datetime \<Rightarrow> decorator \<Rightarrow> func_ref \<Rightarrow> dep_item one_or_many option \<Rightarrow>
   string option \<Rightarrow> bool \<Rightarrow> pyval list \<Rightarrow> (string \<times> pyval) list \<Rightarrow> string \<Rightarrow> ('s, job) op" where
  "delay repr C R P t d f deps ident front pos kw uid =
     enqueue_call repr C R P t (queue_of (dc_queue d)) False (front \<or> dc_at_front d) False
       (delay_args d f deps ident pos kw) None uid"

section \<open>Jobs by their id, and what is read off a job\<close>

definition fetch_job :: "codec \<Rightarrow> 's redis \<Rightarrow> datetime \<Rightarrow> string \<Rightarrow> ('s, job) op" where
  "fetch_job C R t i = ask (\<lambda>s. fetch C R s t i)"

definition cancel_job :: "codec \<Rightarrow> 's redis \<Rightarrow> py \<Rightarrow> datetime \<Rightarrow> string \<Rightarrow> bool \<Rightarrow> ('s, job) op" where
  "cancel_job C R P t i deps = bindO (fetch_job C R t i) (cancel C R P t False deps False)"

definition requeue_job :: "codec \<Rightarrow> 's redis \<Rightarrow> py \<Rightarrow> datetime \<Rightarrow> string \<Rightarrow> ('s, job) op" where
  "requeue_job C R P t i = bindO (fetch_job C R t i) (job_requeue C R P t False)"

definition get_position :: "'s redis \<Rightarrow> 's \<Rightarrow> job \<Rightarrow> nat option" where
  "get_position R s j = (if j_origin j = [] then None else get_job_position R s (j_origin j) (j_id j))"

text \<open>\<open>is_finished\<close>, \<open>is_queued\<close> and the rest of them.\<close>

definition has_status :: "'s redis \<Rightarrow> 's \<Rightarrow> job_status \<Rightarrow> job \<Rightarrow> bool res" where
  "has_status R s st j = bindE (get_status R s (j_id j)) (\<lambda>x. Inr (x = st))"

definition first_dependency :: "codec \<Rightarrow> 's redis \<Rightarrow> 's \<Rightarrow> datetime \<Rightarrow> job \<Rightarrow> job option res" where
  "first_dependency C R s t j =
     (case j_dependency_ids j of [] \<Rightarrow> Inr None | i # is \<Rightarrow> bindE (fetch C R s t i) (\<lambda>d. Inr (Some d)))"

text \<open>\<open>result\<close>, with its fall back on the field that older versions wrote.\<close>

definition job_result :: "codec \<Rightarrow> 's redis \<Rightarrow> 's \<Rightarrow> job \<Rightarrow> pyval res" where
  "job_result C R s j =
     bindE (fetch_latest C R s (j_id j)) (\<lambda>r.
       if (case r of None \<Rightarrow> False | Some x \<Rightarrow> rs_type x = SUCCESSFUL) then Inr (rs_return_value (the r))
       else if j_result j \<noteq> PNone then Inr (j_result j)
       else
         (case hget R s (job_key (j_id j)) ''result'' of
            None \<Rightarrow> Inr PNone
          | Some d \<Rightarrow> (case loads C d of None \<Rightarrow> Inl SerializerError | Some v \<Rightarrow> Inr v)))"

section \<open>The current job\<close>

text \<open>\<open>LocalStack\<close>: a stack for each context (thread or greenlet), which is gone from the storage when it is empty.\<close>

type_synonym 'a local_stack = "nat \<Rightarrow> 'a list option"

definition local_push :: "nat \<Rightarrow> 'a \<Rightarrow> 'a local_stack \<Rightarrow> 'a local_stack" where
  "local_push c x ls = ls(c := Some (opt_default [] (ls c) @ [x]))"

definition local_pop :: "nat \<Rightarrow> 'a local_stack \<Rightarrow> 'a option res \<times> 'a local_stack" where
  "local_pop c ls =
     (case ls c of
        None \<Rightarrow> (Inr None, ls)
      | Some xs \<Rightarrow>
          if length xs = 1 then (Inr (Some (last xs)), ls(c := None))
          else if xs = [] then (Inl IndexError, ls)
          else (Inr (Some (last xs)), ls(c := Some (butlast xs))))"

definition local_top :: "nat \<Rightarrow> 'a local_stack \<Rightarrow> 'a option" where
  "local_top c ls = (case ls c of None \<Rightarrow> None | Some xs \<Rightarrow> if xs = [] then None else Some (last xs))"

text \<open>
  What the code of a job does with it: ask for the current job, run another job in its own process, as a queue that is
  not asynchronous does (a failure of that job is caught there), or raise. \<open>run_code\<close> gives the answers in their order and
  whether the code raised; \<open>perform\<close> pushes the job, runs its code and takes it off again, however the code ends.
\<close>

datatype action = AskCurrent | RunJob string "action list" | Raises

fun run_code :: "nat \<Rightarrow> action list \<Rightarrow> string local_stack \<Rightarrow> (string option list \<times> bool) res \<times> string local_stack" where
  "run_code c [] ls = (Inr ([], False), ls)"
| "run_code c (AskCurrent # as) ls =
     (case run_code c as ls of
        (Inl e, ls1) \<Rightarrow> (Inl e, ls1)
      | (Inr (xs, r), ls1) \<Rightarrow> (Inr (local_top c ls # xs, r), ls1))"
| "run_code c (Raises # as) ls = (Inr ([], True), ls)"
| "run_code c (RunJob i b # as) ls =
     (case run_code c b (local_push c i ls) of
        (Inl e, ls1) \<Rightarrow> (Inl e, ls1)
      | (Inr (xs, _), ls1) \<Rightarrow>
          (case local_pop c ls1 of
             (Inl e, ls2) \<Rightarrow> (Inl e, ls2)
           | (Inr y, ls2) \<Rightarrow>
               if y \<noteq> Some i then (Inl AssertionError, ls2)
               else (case run_code c as ls2 of (Inl e, ls3) \<Rightarrow> (Inl e, ls3) | (Inr (ys, r), ls3) \<Rightarrow> (Inr (xs @ ys, r), ls3))))"

text \<open>The answers as they should be: always the innermost job around the question.\<close>

fun innermost :: "string option \<Rightarrow> action list \<Rightarrow> string option list" where
  "innermost cur [] = []"
| "innermost cur (AskCurrent # as) = cur # innermost cur as"
| "innermost cur (Raises # as) = []"
| "innermost cur (RunJob i b # as) = innermost (Some i) b @ innermost cur as"

fun raises :: "action list \<Rightarrow> bool" where
  "raises [] = False"
| "raises (Raises # as) = True"
| "raises (a # as) = raises as"

definition stacks_ok :: "'a local_stack \<Rightarrow> bool" where
  "stacks_ok ls \<longleftrightarrow> (\<forall>c. ls c \<noteq> Some [])"

lemma pop_push:
  assumes "stacks_ok ls"
  shows "local_pop c (local_push c x ls) = (Inr (Some x), ls)" "stacks_ok (local_push c x ls)" "local_top c (local_push c x ls) = Some x"
  using assms by (cases "ls c"; fastforce simp: local_pop_def local_push_def local_top_def stacks_ok_def fun_eq_iff)+

lemma run_code_innermost:
  "stacks_ok ls \<Longrightarrow> run_code c as ls = (Inr (innermost (local_top c ls) as, raises as), ls)"
proof (induction c as ls rule: run_code.induct)
  case (4 c i b as ls)
  then show ?case by (simp add: pop_push)
qed simp_all

section \<open>Properties\<close>

lemma with_arguments_plain:
  assumes "\<forall>k \<in> set (map fst kw). k \<notin> set option_names \<and> k \<noteq> ''args'' \<and> k \<noteq> ''kwargs''"
  shows "with_arguments from_main opts pos kw =
    (if from_main then Inl ValueError else Inr (opts\<lparr>ca_args := Some (PTuple pos), ca_kwargs := Some kw\<rparr>))"
proof -
  have f: "filter (\<lambda>p. fst p \<notin> set option_names) kw = kw" using assms by (auto simp: filter_id_conv)
  have m: "map_of kw ''args'' = None" "map_of kw ''kwargs'' = None" using assms by (auto simp: map_of_eq_None_iff)
  show ?thesis by (simp add: with_arguments_def parse_args_def Let_def f m given_args_def given_kwargs_def)
qed

text \<open>
  Calling \<open>delay\<close> of a decorated function is \<open>enqueue\<close> of the function with the decorator's options, where the
  call's own \<open>depends_on\<close>, \<open>job_id\<close> and \<open>at_front\<close> take the place of the decorator's when they are set; only that
  \<open>enqueue\<close> refuses a function of the main module.
\<close>

theorem delay_is_enqueue:
  assumes "\<forall>k \<in> set (map fst kw). k \<notin> set option_names \<and> k \<noteq> ''args'' \<and> k \<noteq> ''kwargs''"
  shows "queue_enqueue repr C R P t (queue_of (dc_queue d)) False (front \<or> dc_at_front d) False from_main
      (delay_args d f deps ident [] []) None pos kw uid (s, buf) =
    (if from_main then (Inl ValueError, (s, buf)) else delay repr C R P t d f deps ident front pos kw uid (s, buf))"
  by (cases "dc_options d") (simp add: queue_enqueue_def with_arguments_plain [OF assms] delay_def delay_args_def)

theorem delay_is_enqueue_witness:
  "delay (\<lambda>_. []) sample_codec mem_redis sample_py 7 (new_decorator (Inl ''low'') False (\<lambda>a. a\<lparr>ca_timeout := TInt 5\<rparr>))
      (FFunction ''m'' ''add'') None None False [PInt 3, PInt 4] [(''x'', PInt 1)] ''u'' (mem_empty, []) =
   queue_enqueue (\<lambda>_. []) sample_codec mem_redis sample_py 7 (default_queue ''low'') False False False False
      (no_options_given\<lparr>ca_func := FFunction ''m'' ''add'', ca_result_ttl := TInt 500, ca_timeout := TInt 5,
         ca_args := Some (PTuple []), ca_kwargs := Some []\<rparr>) None [PInt 3, PInt 4] [(''x'', PInt 1)] ''u'' (mem_empty, [])"
proof -
  let ?d = "new_decorator (Inl ''low'') False (\<lambda>a. a\<lparr>ca_timeout := TInt 5\<rparr>)"
  have a: "delay_args ?d (FFunction ''m'' ''add'') None None [] [] =
      no_options_given\<lparr>ca_func := FFunction ''m'' ''add'', ca_result_ttl := TInt 500, ca_timeout := TInt 5,
         ca_args := Some (PTuple []), ca_kwargs := Some []\<rparr>"
    by (simp add: delay_args_def new_decorator_def no_options_given_def has_depends_def default_result_ttl_def)
  have "\<forall>k \<in> set (map fst [(''x'', PInt 1)]). k \<notin> set option_names \<and> k \<noteq> ''args'' \<and> k \<noteq> ''kwargs''"
    by (simp add: option_names_def)
  from delay_is_enqueue [OF this, where d = ?d and f = "FFunction ''m'' ''add''" and deps = None and ident = None and front = False
      and from_main = False and pos = "[PInt 3, PInt 4]" and s = mem_empty and buf = "[]", unfolded a]
  show ?thesis by (simp add: new_decorator_def queue_of_def)
qed

text \<open>
  \<open>get_current_job\<close> always answers with the innermost job around the call, in whatever way jobs run one another
  and raise, and once a job is over the stack of its context, and of every other one, is as before; no job finds
  another one in its place when it takes itself off.
\<close>

theorem current_job_innermost:
  assumes "stacks_ok ls"
  shows "run_code c as ls = (Inr (innermost (local_top c ls) as, raises as), ls)"
  by (rule run_code_innermost [OF assms])

theorem current_job_innermost_witness:
  "run_code 1 [AskCurrent, RunJob ''a'' [AskCurrent, RunJob ''b'' [AskCurrent, Raises, AskCurrent], AskCurrent], AskCurrent] (\<lambda>_. None) =
     (Inr ([None, Some ''a'', Some ''b'', Some ''a'', None], False), \<lambda>_. None)"
  using current_job_innermost [of "\<lambda>_. None" 1
      "[AskCurrent, RunJob ''a'' [AskCurrent, RunJob ''b'' [AskCurrent, Raises, AskCurrent], AskCurrent], AskCurrent]"]
  by (simp add: stacks_ok_def local_top_def)

end
