(* ===== verification/Locals.thy ===== *)
theory Locals
  imports Frontends
begin

text \<open>
  Objects that belong to a context, a thread or a greenlet (\<open>rq/local.py\<close>): the attributes of a \<open>Local\<close>, the stack that
  \<open>LocalStack\<close> keeps in the attribute \<open>stack\<close> of one, the manager that empties several, and the proxies that stand for what is
  bound at the moment. The stack of theory \<open>Frontends\<close>, which is that of the current job, is its abstraction:
  \<open>stack_of\<close>. A context is its identifier, the result of \<open>get_ident\<close>.
\<close>

section \<open>Attributes by context\<close>

text \<open>The storage: a dict by context of dicts by name.\<close>

type_synonym 'v storage = "(nat \<times> (string \<times> 'v) list) list"

definition new_local :: "'v storage" where
  "new_local = []"

definition local_items :: "'v storage \<Rightarrow> (nat \<times> (string \<times> 'v) list) list" where
  "local_items L = L"

definition local_getattr :: "nat \<Rightarrow> string \<Rightarrow> 'v storage \<Rightarrow> 'v res" where
  "local_getattr c n L =
     (case map_of L c of
        None \<Rightarrow> Inl AttributeError
      | Some d \<Rightarrow> (case map_of d n of None \<Rightarrow> Inl AttributeError | Some v \<Rightarrow> Inr v))"

definition local_setattr :: "nat \<Rightarrow> string \<Rightarrow> 'v \<Rightarrow> 'v storage \<Rightarrow> 'v storage" where
  "local_setattr c n v L =
     (case map_of L c of
        None \<Rightarrow> AList.update c [(n, v)] L
      | Some d \<Rightarrow> AList.update c (AList.update n v d) L)"

definition local_delattr :: "nat \<Rightarrow> string \<Rightarrow> 'v storage \<Rightarrow> unit res \<times> 'v storage" where
  "local_delattr c n L =
     (case map_of L c of
        None \<Rightarrow> (Inl AttributeError, L)
      | Some d \<Rightarrow>
          if map_of d n = None then (Inl AttributeError, L) else (Inr (), AList.update c (AList.delete n d) L))"

definition release_local :: "nat \<Rightarrow> 'v storage \<Rightarrow> 'v storage" where
  "release_local c L = AList.delete c L"

section \<open>The stack\<close>

definition stack_push :: "nat \<Rightarrow> 'a \<Rightarrow> 'a list storage \<Rightarrow> 'a list storage" where
  "stack_push c x L =
     (case local_getattr c ''stack'' L of
        Inl _ \<Rightarrow> local_setattr c ''stack'' [x] L
      | Inr rv \<Rightarrow> local_setattr c ''stack'' (rv @ [x]) L)"

definition stack_pop :: "nat \<Rightarrow> 'a list storage \<Rightarrow> 'a option res \<times> 'a list storage" where
  "stack_pop c L =
     (case local_getattr c ''stack'' L of
        Inl _ \<Rightarrow> (Inr None, L)
      | Inr stack \<Rightarrow>
          if length stack = 1 then (Inr (Some (last stack)), release_local c L)
          else if stack = [] then (Inl IndexError, L)
          else (Inr (Some (last stack)), local_setattr c ''stack'' (butlast stack) L))"

definition stack_top :: "nat \<Rightarrow> 'a list storage \<Rightarrow> 'a option" where
  "stack_top c L =
     (case bindE (local_getattr c ''stack'' L) (\<lambda>stack. py_index stack (- 1)) of Inl _ \<Rightarrow> None | Inr x \<Rightarrow> Some x)"

definition stack_len :: "nat \<Rightarrow> 'a list storage \<Rightarrow> nat" where
  "stack_len c L = (case local_getattr c ''stack'' L of Inl _ \<Rightarrow> 0 | Inr stack \<Rightarrow> length stack)"

section \<open>The manager\<close>

text \<open>What it is made of: nothing, a \<open>Local\<close>, or several locals and stacks; one stack alone cannot be listed. The identifiers it may set are the contexts given to the operations.\<close>

definition manager_locals :: "'l one_or_many option \<Rightarrow> 'l list" where
  "manager_locals ls = (case ls of None \<Rightarrow> [] | Some (Single l) \<Rightarrow> [l] | Some (Several l) \<Rightarrow> l)"

definition manager_cleanup :: "nat \<Rightarrow> 'v storage list \<Rightarrow> 'v storage list" where
  "manager_cleanup c = map (release_local c)"

section \<open>Proxies\<close>

text \<open>
  A proxy is made by calling a local with a name, by calling a stack, on which no \<open>None\<close> is pushed, or of any function. What an operator or a special method does to an
  object is a parameter: its result, or its exception.
\<close>

datatype 'v proxy = OfLocal string | OfStack | OfFunction "'v res"

definition current_object :: "nat \<Rightarrow> 'v storage \<Rightarrow> 'v list storage \<Rightarrow> 'v proxy \<Rightarrow> 'v res" where
  "current_object c L S p =
     (case p of
        OfLocal n \<Rightarrow> (case local_getattr c n L of Inl AttributeError \<Rightarrow> Inl RuntimeError | r \<Rightarrow> r)
      | OfStack \<Rightarrow> (case stack_top c S of None \<Rightarrow> Inl RuntimeError | Some x \<Rightarrow> Inr x)
      | OfFunction r \<Rightarrow> r)"

text \<open>The methods that forward whatever comes: to the operator, the special method, \<open>getattr\<close>, \<open>setattr\<close> and so on.\<close>

definition proxy_forward :: "nat \<Rightarrow> 'v storage \<Rightarrow> 'v list storage \<Rightarrow> ('v \<Rightarrow> 'r res) \<Rightarrow> 'v proxy \<Rightarrow> 'r res" where
  "proxy_forward c L S method p = bindE (current_object c L S p) method"

definition proxy_getattr ::
  "nat \<Rightarrow> 'v storage \<Rightarrow> 'v list storage \<Rightarrow> ('v \<Rightarrow> 'r res) \<Rightarrow> (string \<Rightarrow> 'v \<Rightarrow> 'r res) \<Rightarrow> string \<Rightarrow> 'v proxy \<Rightarrow> 'r res" where
  "proxy_getattr c L S dir attr n p =
     (if n = ''__members__'' then proxy_forward c L S dir p else proxy_forward c L S (attr n) p)"

definition forwarded :: "string list" where
  "forwarded =
     [''__getattr__'', ''__setitem__'', ''__delitem__'', ''__setattr__'', ''__delattr__'', ''__str__'', ''__lt__'', ''__le__'', ''__eq__'',
      ''__ne__'', ''__gt__'', ''__ge__'', ''__hash__'', ''__call__'', ''__len__'', ''__getitem__'', ''__iter__'', ''__contains__'',
      ''__add__'', ''__sub__'', ''__mul__'', ''__floordiv__'', ''__mod__'', ''__divmod__'', ''__pow__'', ''__lshift__'', ''__rshift__'',
      ''__and__'', ''__xor__'', ''__or__'', ''__div__'', ''__truediv__'', ''__neg__'', ''__pos__'', ''__abs__'', ''__invert__'',
      ''__complex__'', ''__int__'', ''__float__'', ''__oct__'', ''__hex__'', ''__index__'', ''__enter__'', ''__exit__'']"

text \<open>Those that answer for an unbound proxy, too.\<close>

definition proxy_dict :: "nat \<Rightarrow> 'v storage \<Rightarrow> 'v list storage \<Rightarrow> ('v \<Rightarrow> 'r res) \<Rightarrow> 'v proxy \<Rightarrow> 'r res" where
  "proxy_dict c L S dict p =
     (case bindE (current_object c L S p) dict of Inl RuntimeError \<Rightarrow> Inl AttributeError | r \<Rightarrow> r)"

definition proxy_repr :: "nat \<Rightarrow> 'v storage \<Rightarrow> 'v list storage \<Rightarrow> ('v \<Rightarrow> string res) \<Rightarrow> 'v proxy \<Rightarrow> string res" where
  "proxy_repr c L S repr p =
     (case current_object c L S p of Inl RuntimeError \<Rightarrow> Inr ''<LocalProxy unbound>'' | Inl e \<Rightarrow> Inl e | Inr x \<Rightarrow> repr x)"

definition proxy_dir :: "nat \<Rightarrow> 'v storage \<Rightarrow> 'v list storage \<Rightarrow> ('v \<Rightarrow> string list res) \<Rightarrow> 'v proxy \<Rightarrow> string list res" where
  "proxy_dir c L S dir p =
     (case bindE (current_object c L S p) dir of Inl RuntimeError \<Rightarrow> Inr [] | r \<Rightarrow> r)"

text \<open>
  The truth value of a proxy: Python asks \<open>__bool__\<close>, then \<open>__len__\<close>, and takes an object with neither for true. A proxy has only the
  second, whatever the object behind it has.
\<close>

definition object_truth :: "('v \<Rightarrow> bool res) option \<Rightarrow> ('v \<Rightarrow> nat res) option \<Rightarrow> 'v \<Rightarrow> bool res" where
  "object_truth bool_method len_method x =
     (case (bool_method, len_method) of
        (Some b, _) \<Rightarrow> b x
      | (None, Some l) \<Rightarrow> bindE (l x) (\<lambda>n. Inr (n \<noteq> 0))
      | (None, None) \<Rightarrow> Inr True)"

definition proxy_truth :: "nat \<Rightarrow> 'v storage \<Rightarrow> 'v list storage \<Rightarrow> ('v \<Rightarrow> nat res) option \<Rightarrow> 'v proxy \<Rightarrow> bool res" where
  "proxy_truth c L S len_method p =
     object_truth (if ''__bool__'' \<in> set forwarded then Some (\<lambda>_. Inr True) else None)
       (Some (proxy_forward c L S (\<lambda>x. case len_method of None \<Rightarrow> Inl TypeError | Some l \<Rightarrow> l x))) p"

section \<open>What holds of them\<close>

lemma getattr_setattr:
  "local_getattr c n (local_setattr c' n' v L) = (if c = c' \<and> n = n' then Inr v else local_getattr c n L)"
  by (auto simp: local_getattr_def local_setattr_def update_conv' split: option.splits)

lemma getattr_release: "local_getattr c n (release_local c' L) = (if c = c' then Inl AttributeError else local_getattr c n L)"
  by (auto simp: local_getattr_def release_local_def delete_conv')

lemma getattr_delattr:
  "local_delattr c n L = (Inr (), L') \<Longrightarrow>
   local_getattr c' n' L' = (if c' = c \<and> n' = n then Inl AttributeError else local_getattr c' n' L)"
  by (auto simp: local_delattr_def local_getattr_def update_conv' delete_conv' split: option.splits if_splits)

text \<open>The stack of each context, as \<open>Frontends\<close> has it.\<close>

definition stack_of :: "'a list storage \<Rightarrow> 'a local_stack" where
  "stack_of L = (\<lambda>c. case local_getattr c ''stack'' L of Inl _ \<Rightarrow> None | Inr xs \<Rightarrow> Some xs)"

text \<open>The operations on the attribute implement those on the abstract stacks.\<close>

theorem local_stack_refines:
  "stack_of (stack_push c x L) = local_push c x (stack_of L)"
  "stack_of (snd (stack_pop c L)) = snd (local_pop c (stack_of L))"
  "fst (stack_pop c L) = fst (local_pop c (stack_of L))"
  "stack_top c L = local_top c (stack_of L)"
proof -
  show "stack_of (stack_push c x L) = local_push c x (stack_of L)"
    by (auto simp: stack_of_def stack_push_def local_push_def getattr_setattr opt_default_def fun_eq_iff split: sum.splits)
  show "stack_of (snd (stack_pop c L)) = snd (local_pop c (stack_of L))"
    by (auto simp: stack_of_def stack_pop_def local_pop_def getattr_setattr getattr_release fun_eq_iff split: sum.splits)
  show "fst (stack_pop c L) = fst (local_pop c (stack_of L))"
    by (auto simp: stack_of_def stack_pop_def local_pop_def split: sum.splits)
  show "stack_top c L = local_top c (stack_of L)"
    by (auto simp: stack_top_def stack_of_def local_top_def py_index_def last_conv_nth nat_diff_distrib Suc_le_eq split: sum.splits)
qed

text \<open>After a cleanup nothing of the context is left in the locals of the manager, and everything of the others.\<close>

theorem manager_cleanup_exact:
  "i < length Ls \<Longrightarrow>
   local_getattr c' n (manager_cleanup c Ls ! i) = (if c' = c then Inl AttributeError else local_getattr c' n (Ls ! i))"
  by (simp add: manager_cleanup_def getattr_release)

text \<open>A proxy is the object that is bound at the moment, in this context.\<close>

lemma proxy_of_bound:
  "proxy_forward c (local_setattr c n x L) S method (OfLocal n) = method x"
  "proxy_forward c L (stack_push c x S) method OfStack = method x"
proof -
  show "proxy_forward c (local_setattr c n x L) S method (OfLocal n) = method x"
    by (simp add: proxy_forward_def current_object_def getattr_setattr)
  have "stack_top c (stack_push c x S) = Some x"
    unfolding local_stack_refines by (simp add: local_top_def local_push_def)
  then show "proxy_forward c L (stack_push c x S) method OfStack = method x"
    by (simp add: proxy_forward_def current_object_def)
qed

text \<open>A proxy of an object without a length has no truth value, although every such object has one.\<close>

theorem proxy_without_truth:
  assumes "current_object c L S p = Inr x"
  shows "proxy_truth c L S None p = Inl TypeError"
  using assms by (simp add: proxy_truth_def object_truth_def forwarded_def proxy_forward_def)

end
