(* ===== verification/Races.thy ===== *)
theory Races
  imports Work
begin

text \<open>
  Transactions under WATCH. Two of RQ's operations read the server, queue commands and execute them only if the keys they
  watched have not changed since, trying again otherwise: the end of a job, which enqueues the jobs that depend on it
  (\<open>handle_job_success\<close> of \<open>rq/worker/base.py\<close>), and the enqueueing of a job with dependencies (\<open>setup_dependencies\<close> of
  \<open>rq/queue.py\<close>). Here one attempt of each is split from its execution, and the two run against each other and
  against whatever else happens on the server; no dependent is forgotten.

  The reads of one attempt are taken to happen at one moment. An execution may also be refused although nothing changed,
  which covers the further keys that an attempt watches.
\<close>

section \<open>One attempt\<close>

text \<open>What \<open>handle_job_success\<close> does before it executes its pipeline.\<close>

definition success_attempt ::
  "codec \<Rightarrow> 's redis \<Rightarrow> py \<Rightarrow> datetime \<Rightarrow> int \<Rightarrow> queue \<Rightarrow> job \<Rightarrow> worker \<Rightarrow> ('s, worker \<times> job) op" where
  "success_attempt C R P u zone q j w =
     (let ttl = get_result_ttl j (w_default_result_ttl w) in
      seqO (enqueue_dependents C R P u q True None True j)
        (seqO (send R True (increment_successful_job_count w @ working_time_cmds j w))
          (bindO (if ttl \<noteq> 0 then handle_success C R u ttl (w_name w) (worker_exec j w) j else ret j) (\<lambda>j1.
           bindO (if (case j_repeats_left j1 of None \<Rightarrow> False | Some n \<Rightarrow> 0 < n)
                  then schedule_repeat C R P u zone q True j1
                  else cleanup C R u True (Some ttl) False j1) (\<lambda>j2.
             seqO (send R True (cleanup_execution j2 w)) (ret (w\<lparr>w_execution := None\<rparr>, j2)))))))"

lemma handle_job_success_attempt:
  "handle_job_success C R P u zone q j w =
     new_pipe (bindO (success_attempt C R P u zone q j w) (\<lambda>r. seqO (execute R) (ret r)))"
  by (simp add: handle_job_success_def success_attempt_def Let_def bindO_assoc bindO_seqO) (simp add: bindO_def ret_def)

text \<open>The loop of \<open>setup_dependencies\<close>: None when no dependency is unfinished.\<close>

definition defer_attempt :: "codec \<Rightarrow> 's redis \<Rightarrow> datetime \<Rightarrow> job \<Rightarrow> ('s, job option) op" where
  "defer_attempt C R t j =
     bindO (ask (\<lambda>s. fetch_dependencies C R s t j)) (\<lambda>deps.
       if \<exists>d \<in> set deps. j_status d \<noteq> FINISHED
       then
         bindO (set_status_on R True DEFERRED j) (\<lambda>j1.
         seqO (send R True (register_dependency t j1))
           (bindO (save_on C R True True True j1) (\<lambda>j2.
            bindO (cleanup C R t True (j_ttl j2) True j2) (\<lambda>j3. ret (Some j3)))))
       else ret None)"

lemma setup_dependencies_attempt:
  "j_dependency_ids j \<noteq> [] \<Longrightarrow>
   setup_dependencies C R t False j =
     new_pipe (bindO (defer_attempt C R t j) (\<lambda>r. case r of None \<Rightarrow> ret j | Some j2 \<Rightarrow> seqO (execute R) (ret j2)))"
  by (auto simp: setup_dependencies_def defer_attempt_def own_pipe_def new_pipe_def bindO_def seqO_def ask_def fun_eq_iff ret_def
      split: prod.splits sum.splits)

section \<open>The race\<close>

text \<open>A job that ends, on its worker, and a job that names it as its dependency and is being enqueued.\<close>

record scene =
  sn_parent :: job
  sn_worker :: worker
  sn_queue :: queue
  sn_zone :: int
  sn_child :: job
  sn_child_queue :: queue

text \<open>
  Where one of the two is: about to read; with what it read, the state then, and its commands; decided, which for the
  child means that nothing keeps it from its queue; through.
\<close>

datatype 's stage = Fresh | Pending 's "cmd list" | Decided | Over

definition same_key :: "'s redis \<Rightarrow> key \<Rightarrow> 's \<Rightarrow> 's \<Rightarrow> bool" where
  "same_key R k s s' \<longleftrightarrow>
     r_list R s k = r_list R s' k \<and> r_set R s k = r_set R s' k \<and> r_zset R s k = r_zset R s' k \<and>
     r_hash R s k = r_hash R s' k \<and> r_str R s k = r_str R s' k \<and> r_stream R s k = r_stream R s' k"

text \<open>Anything else that happens on the server: it leaves the two jobs' links, the child's hash and the parent's status alone.\<close>

definition leaves_alone :: "'s redis \<Rightarrow> scene \<Rightarrow> 's \<Rightarrow> 's \<Rightarrow> bool" where
  "leaves_alone R N s s' \<longleftrightarrow>
     (let p = j_id (sn_parent N); c = j_id (sn_child N); l = queue_key (q_name (sn_child_queue N)) in
      sset R s' (dependents_key p) = sset R s (dependents_key p) \<and>
      sset R s' (dependencies_key c) = sset R s (dependencies_key c) \<and>
      hget R s' (job_key c) = hget R s (job_key c) \<and>
      hget R s' (job_key p) ''status'' = hget R s (job_key p) ''status'' \<and>
      (c \<in> set (r_list R s l) \<longrightarrow> c \<in> set (r_list R s' l)))"

inductive race_step ::
  "codec \<Rightarrow> 's redis \<Rightarrow> py \<Rightarrow> scene \<Rightarrow> 's \<times> 's stage \<times> 's stage \<Rightarrow> 's \<times> 's stage \<times> 's stage \<Rightarrow> bool" for C R P N where
  end_reads: "success_attempt C R P u (sn_zone N) (sn_queue N) (sn_parent N) (sn_worker N) (s, []) = (Inr r, (s1, cs)) \<Longrightarrow>
     race_step C R P N (s, Fresh, y) (s1, Pending s cs, y)"
| end_executes: "same_key R (dependents_key (j_id (sn_parent N))) s0 s \<Longrightarrow>
     race_step C R P N (s, Pending s0 cs, y) (run_all R cs s, Over, y)"
| end_refused: "race_step C R P N (s, Pending s0 cs, y) (s, Fresh, y)"
| child_waits: "defer_attempt C R t (sn_child N) (s, []) = (Inr (Some j), (s1, cs)) \<Longrightarrow>
     race_step C R P N (s, x, Fresh) (s1, x, Pending s cs)"
| child_free: "defer_attempt C R t (sn_child N) (s, []) = (Inr None, (s1, cs)) \<Longrightarrow>
     race_step C R P N (s, x, Fresh) (s1, x, Decided)"
| child_executes: "same_key R (dependencies_key (j_id (sn_child N))) s0 s \<Longrightarrow>
     \<forall>i \<in> set (j_dependency_ids (sn_child N)). same_key R (job_key i) s0 s \<Longrightarrow>
     race_step C R P N (s, x, Pending s0 cs) (run_all R cs s, x, Over)"
| child_refused: "race_step C R P N (s, x, Pending s0 cs) (s, x, Fresh)"
| child_enqueues: "enqueue_now C R P t (sn_child_queue N) False front False (sn_child N) (s, []) = (Inr j, (s1, buf)) \<Longrightarrow>
     race_step C R P N (s, x, Decided) (s1, x, Over)"
| other: "leaves_alone R N s s1 \<Longrightarrow> race_step C R P N (s, x, y) (s1, x, y)"

section \<open>What the attempts queue\<close>

definition ending_ok :: "codec \<Rightarrow> job \<Rightarrow> worker \<Rightarrow> bool" where
  "ending_ok C j w \<longleftrightarrow> j_repeats_left j = None \<and> 0 < get_result_ttl j (w_default_result_ttl w) \<and>
     (\<exists>fs j1. to_dict C False False (j\<lparr>j_status := FINISHED\<rparr>) = Inr (fs, j1)) \<and>
     (\<exists>cs. create_result C (j_id j) SUCCESSFUL (Some (get_result_ttl j (w_default_result_ttl w))) (j_result j) None (w_name w)
        (worker_exec j w) = Inr cs)"

definition waiting_ok :: "codec \<Rightarrow> job \<Rightarrow> bool" where
  "waiting_ok C j \<longleftrightarrow> valid_id (j_id j) \<and> ttl_ok j \<and> storable C (j\<lparr>j_status := DEFERRED\<rparr>) \<and>
     (\<exists>d j1. get_data C (j\<lparr>j_status := DEFERRED\<rparr>) = Inr (d, j1) \<and> zip_keeps C d)"

definition scene_ok :: "codec \<Rightarrow> scene \<Rightarrow> bool" where
  "scene_ok C N \<longleftrightarrow> ending_ok C (sn_parent N) (sn_worker N) \<and> waiting_ok C (sn_child N) \<and> valid_id (j_id (sn_parent N)) \<and>
     j_id (sn_parent N) \<noteq> j_id (sn_child N) \<and> j_dependency_ids (sn_child N) = [j_id (sn_parent N)] \<and>
     j_origin (sn_child N) = q_name (sn_child_queue N) \<and> q_is_async (sn_queue N) \<and> q_is_async (sn_child_queue N)"

definition ending_cmds :: "codec \<Rightarrow> scene \<Rightarrow> datetime \<Rightarrow> cmd list \<Rightarrow> bool" where
  "ending_cmds C N u cs \<longleftrightarrow>
     (let p = sn_parent N; w = sn_worker N; ttl = get_result_ttl p (w_default_result_ttl w) in
      \<exists>fs j1 rc. to_dict C False False (p\<lparr>j_status := FINISHED\<rparr>) = Inr (fs, j1) \<and>
        create_result C (j_id p) SUCCESSFUL (Some ttl) (j_result p) None (w_name w) (worker_exec p w) = Inr rc \<and>
        cs = success_cmds u ttl fs rc p w)"

lemma success_attempt_eq:
  assumes "enqueue_dependents C R P u q True None True j (s, []) = (Inr (), (s, pre))"
    and "j_repeats_left j = None" "get_result_ttl j (w_default_result_ttl w) = ttl" "0 < ttl"
    and td: "to_dict C False False (j\<lparr>j_status := FINISHED\<rparr>) = Inr (fs, j3)"
    and rc: "create_result C (j_id j) SUCCESSFUL (Some ttl) (j_result j) None (w_name w) (worker_exec j w) = Inr rc"
  shows "success_attempt C R P u zone q j w (s, []) = (Inr (w\<lparr>w_execution := None\<rparr>, j3), (s, pre @ success_cmds u ttl fs rc j w))"
proof -
  obtain d where d: "get_data C (j\<lparr>j_status := FINISHED\<rparr>) = Inr (d, j3)" using td by (rule to_dict_Inr)
  have same: "j_id j3 = j_id j" "j_origin j3 = j_origin j" "j_result j3 = j_result j" "j_repeats_left j3 = j_repeats_left j"
    by (subst get_data_fields [OF d], simp)+
  show ?thesis
    using assms(1-4) td rc same
    by (simp add: success_attempt_def new_pipe_def bindO_def seqO_def handle_success_def
        set_status_on_def set_status_def save_on_def save_def cleanup_def success_cmds_def
        expire_keys_same [OF same(1)] cleanup_execution_same [OF same(2)])
qed

lemma end_attempt:
  assumes "scene_ok C N" "success_attempt C R P u (sn_zone N) (sn_queue N) (sn_parent N) (sn_worker N) (s, []) = (Inr r, (s1, cs))"
    and "enqueue_dependents C R P u (sn_queue N) True None True (sn_parent N) (s, []) = (Inr (), (s, pre))"
  shows "s1 = s \<and> (\<exists>e. ending_cmds C N u e \<and> cs = pre @ e)"
proof -
  let ?p = "sn_parent N" and ?w = "sn_worker N"
  let ?ttl = "get_result_ttl ?p (w_default_result_ttl ?w)"
  obtain fs j1 rc where "j_repeats_left ?p = None" "0 < ?ttl"
    and x: "to_dict C False False (?p\<lparr>j_status := FINISHED\<rparr>) = Inr (fs, j1)"
      "create_result C (j_id ?p) SUCCESSFUL (Some ?ttl) (j_result ?p) None (w_name ?w) (worker_exec ?p ?w) = Inr rc"
    using assms(1) by (auto simp: scene_ok_def ending_ok_def)
  from success_attempt_eq [OF assms(3) this(1) refl this(2) x, where zone = "sn_zone N"] assms(2)
  show ?thesis using x unfolding ending_cmds_def Let_def by auto
qed

definition defer_cmds :: "fields \<Rightarrow> datetime \<Rightarrow> job \<Rightarrow> cmd list" where
  "defer_cmds fs t j =
     [HSet (job_key (j_id j)) [(''status'', status_text DEFERRED)]] @ register_dependency t (j\<lparr>j_status := DEFERRED\<rparr>) @
     [HSet (job_key (j_id j)) fs] @ ttl_cmds j"

lemma waiting_fields:
  assumes "waiting_ok C j"
  obtains d m j2 where "get_data C (j\<lparr>j_status := DEFERRED\<rparr>) = Inr (d, j2)" "zip_keeps C d"
    "dump_meta C True j2 = Inr m" "to_dict C True True (j\<lparr>j_status := DEFERRED\<rparr>) = Inr (present (job_table C True d m j2), j2)"
proof -
  obtain d j2 where d: "get_data C (j\<lparr>j_status := DEFERRED\<rparr>) = Inr (d, j2)" "zip_keeps C d" "storable C (j\<lparr>j_status := DEFERRED\<rparr>)"
    using assms by (auto simp: waiting_ok_def)
  obtain cs where "save C True True (j\<lparr>j_status := DEFERRED\<rparr>) = Inr (cs, j2)" using save_succeeds [OF d(1,3)] by blast
  then obtain fs where "to_dict C True True (j\<lparr>j_status := DEFERRED\<rparr>) = Inr (fs, j2)" by (auto simp: save_def bindE_Inr_iff)
  then show ?thesis using that d(1,2) by (auto simp: to_dict_def bindE_Inr_iff)
qed

lemma child_attempt:
  assumes "waiting_ok C j" "defer_attempt C R t j (s, []) = (Inr r, (s1, cs))"
  shows "s1 = s" "r = None \<or> (\<exists>fs j2. to_dict C True True (j\<lparr>j_status := DEFERRED\<rparr>) = Inr (fs, j2) \<and> cs = defer_cmds fs t j)"
    "\<exists>deps. fetch_dependencies C R s t j = Inr deps \<and> (r = None \<longleftrightarrow> (\<forall>d \<in> set deps. j_status d = FINISHED))"
proof -
  obtain d m j2 where td: "to_dict C True True (j\<lparr>j_status := DEFERRED\<rparr>) = Inr (present (job_table C True d m j2), j2)"
    using assms(1) by (rule waiting_fields)
  note same = to_dict_same [OF td]
  have ttl: "ttl_ok j" using assms(1) by (simp add: waiting_ok_def)
  have ok: "ttl_ok j2" using ttl same by (simp add: ttl_ok_def)
  have cm: "ttl_cmds j2 = ttl_cmds j" using same by (simp add: ttl_cmds_def expire_keys_def split: option.split)
  obtain deps where deps: "fetch_dependencies C R s t j = Inr deps"
    using assms(2) by (auto simp: defer_attempt_def bindO_def split: sum.splits)
  have "s1 = s \<and> (r = None \<or> cs = defer_cmds (present (job_table C True d m j2)) t j) \<and> (r = None \<longleftrightarrow> (\<forall>d \<in> set deps. j_status d = FINISHED))"
    using assms(2) deps td
    by (auto simp: defer_attempt_def bindO_def seqO_def set_status_on_def set_status_def save_on_def save_def
        cleanup_ttl_ok [OF ok] cm defer_cmds_def split: if_splits)
  then show "s1 = s" "r = None \<or> (\<exists>fs j2. to_dict C True True (j\<lparr>j_status := DEFERRED\<rparr>) = Inr (fs, j2) \<and> cs = defer_cmds fs t j)"
    "\<exists>deps. fetch_dependencies C R s t j = Inr deps \<and> (r = None \<longleftrightarrow> (\<forall>d \<in> set deps. j_status d = FINISHED))"
    using td deps by blast+
qed

section \<open>What they change\<close>

lemma restore_status:
  assumes "restore C t obj j = Inr j'" "map_of obj ''status'' = Some (status_text st)"
  shows "j_status j' = st"
proof -
  have 1: "restore_ttls C obj k = Inr k' \<Longrightarrow> j_status k' = st" for k k'
    using assms(2) by (cases st) (auto simp: restore_ttls_def bindE_Inr_iff fget_def read_opt_def)
  have 2: "restore_callbacks obj k = Inr k' \<Longrightarrow> j_status k' = j_status k" "restore_deps C obj k = Inr k' \<Longrightarrow> j_status k' = j_status k"
    "restore_retries C obj k = Inr k' \<Longrightarrow> j_status k' = j_status k" for k k'
    by (auto simp: restore_callbacks_def restore_deps_def restore_retries_def bindE_Inr_iff)
  show ?thesis using assms(1) by (auto simp: restore_def bindE_Inr_iff split: option.splits dest!: 1 2)
qed

lemma fetch_dependencies_status:
  assumes "j_dependency_ids j = [i]" "valid_id i" "hget R s (job_key i) ''status'' = Some (status_text st)"
    and "fetch_dependencies C R s t j = Inr deps"
  shows "\<exists>d. deps = [d] \<and> j_status d = st"
proof -
  have "r_hash R s (job_key i) \<noteq> []" "map_of (r_hash R s (job_key i)) ''status'' = Some (status_text st)"
    using assms(3) by (auto simp: hget_def)
  then show ?thesis
    using assms(1,2,4)
    by (auto simp: fetch_dependencies_def fetch_many_def parse_job_id_valid fetch_one_def Let_def bindE_Inr_iff dest!: restore_status)
qed

context redis_server
begin

lemma success_frame:
  fixes s :: 's
  assumes "0 < ttl" and rc: "create_result C (j_id j) SUCCESSFUL (Some ttl) v None wn ei = Inr rc"
    and k: "k \<noteq> job_key (j_id j)" "k \<noteq> results_key (j_id j)" "k \<noteq> registry_key Finished (j_origin j)"
      "fam k \<notin> {''worker'', ''wip'', ''execution'', ''executions''}"
  shows "sset R (run_all R (success_cmds u ttl fs rc j w) s) k = sset R s k"
    "hget R (run_all R (success_cmds u ttl fs rc j w) s) k = hget R s k"
proof -
  let ?a = "increment_successful_job_count w @ working_time_cmds j w @
     [HSet (job_key (j_id j)) [(''status'', status_text FINISHED)], HSet (job_key (j_id j)) fs] @ rc @
     reg_add Finished (j_origin j) (j_id j) ttl False u"
  have a: "\<forall>c \<in> set ?a. k \<notin> set (touches c)"
    using k create_result_cmds [OF rc]
    by (auto simp: increment_successful_job_count_def working_time_cmds_def increment_total_working_time_def reg_add_def
        split: option.splits)
  have b: "\<forall>c \<in> set (cleanup_execution j w). k \<notin> set (touches c)" using k(4) by (auto dest!: cleanup_execution_touches)
  have split: "run_all R (success_cmds u ttl fs rc j w) s =
      run_all R (cleanup_execution j w) (run_all R (expire_keys j ttl) (run_all R ?a s))"
    by (simp add: success_cmds_def)
  show "sset R (run_all R (success_cmds u ttl fs rc j w) s) k = sset R s k"
    "hget R (run_all R (success_cmds u ttl fs rc j w) s) k = hget R s k"
    unfolding split run_all_frame(2,4) [OF b] expire_keys_run(2,4) [OF assms(1)] run_all_frame(2,4) [OF a] by (rule refl)+
qed

lemma ending_run:
  fixes s :: 's
  assumes "scene_ok C N" "ending_cmds C N u cs"
  shows "r_list R (run_all R cs s) (queue_key l) = r_list R s (queue_key l)"
    "hget R (run_all R cs s) (job_key (j_id (sn_parent N))) ''status'' = Some (status_text FINISHED)"
    "hget R (run_all R cs s) (job_key (j_id (sn_child N))) = hget R s (job_key (j_id (sn_child N)))"
    "sset R (run_all R cs s) (dependents_key i) = sset R s (dependents_key i)"
    "sset R (run_all R cs s) (dependencies_key i) = sset R s (dependencies_key i)"
proof -
  let ?p = "sn_parent N" and ?w = "sn_worker N"
  let ?ttl = "get_result_ttl ?p (w_default_result_ttl ?w)"
  obtain fs j1 rc where cs: "to_dict C False False (?p\<lparr>j_status := FINISHED\<rparr>) = Inr (fs, j1)" "cs = success_cmds u ?ttl fs rc ?p ?w"
    and rc: "create_result C (j_id ?p) SUCCESSFUL (Some ?ttl) (j_result ?p) None (w_name ?w) (worker_exec ?p ?w) = Inr rc"
    using assms(2) by (auto simp: ending_cmds_def Let_def)
  have ttl: "0 < ?ttl" using assms(1) by (simp add: scene_ok_def ending_ok_def)
  have st: "map_of (rev fs) ''status'' = Some (status_text FINISHED)" using to_dict_status_any [OF cs(1)] by simp
  have ids: "valid_id (j_id ?p)" "j_id ?p \<noteq> j_id (sn_child N)" "valid_id (j_id (sn_child N))"
    using assms(1) by (simp_all add: scene_ok_def waiting_ok_def)
  note eff = success_run [OF ttl rc st, where s = s and u = u and w = ?w]
  show "r_list R (run_all R cs s) (queue_key l) = r_list R s (queue_key l)" using eff(5) by (simp add: cs(2))
  show "hget R (run_all R cs s) (job_key (j_id ?p)) ''status'' = Some (status_text FINISHED)"
    using eff(1) by (auto simp: cs(2) get_status_def status_of_Inr split: option.splits if_splits)
  note fr = success_frame [OF ttl rc, where fs = fs and u = u and w = ?w and s = s]
  show "hget R (run_all R cs s) (job_key (j_id (sn_child N))) = hget R s (job_key (j_id (sn_child N)))"
    unfolding cs(2) by (rule fr(2)) (use ids in simp_all)
  show "sset R (run_all R cs s) (dependents_key i) = sset R s (dependents_key i)" using fr(1) [of "dependents_key i"] ids(1) by (simp add: cs(2) valid_id_job_key_neq)
  show "sset R (run_all R cs s) (dependencies_key i) = sset R s (dependencies_key i)" using fr(1) [of "dependencies_key i"] ids(1) by (simp add: cs(2) valid_id_job_key_neq)
qed

end

section \<open>The states of the child\<close>

definition unsaved :: "'s redis \<Rightarrow> scene \<Rightarrow> 's \<Rightarrow> bool" where
  "unsaved R N s \<longleftrightarrow> hget R s (job_key (j_id (sn_child N))) = Map.empty \<and>
     sset R s (dependencies_key (j_id (sn_child N))) = {} \<and> sset R s (dependents_key (j_id (sn_parent N))) = {}"

definition deferred :: "codec \<Rightarrow> 's redis \<Rightarrow> scene \<Rightarrow> 's \<Rightarrow> bool" where
  "deferred C R N s \<longleftrightarrow> sset R s (dependents_key (j_id (sn_parent N))) = {j_id (sn_child N)} \<and>
     sset R s (dependencies_key (j_id (sn_child N))) = {j_id (sn_parent N)} \<and>
     (\<exists>fs j. to_dict C True True ((sn_child N)\<lparr>j_status := DEFERRED\<rparr>) = Inr (fs, j) \<and> hget R s (job_key (j_id (sn_child N))) = map_of fs)"

definition on_queue :: "'s redis \<Rightarrow> scene \<Rightarrow> 's \<Rightarrow> bool" where
  "on_queue R N s \<longleftrightarrow> j_id (sn_child N) \<in> set (r_list R s (queue_key (q_name (sn_child_queue N)))) \<and>
     hget R s (job_key (j_id (sn_child N))) ''status'' = Some (status_text QUEUED) \<and> sset R s (dependents_key (j_id (sn_parent N))) = {}"

lemma deferred_fetch:
  assumes "waiting_ok C (sn_child N)" "deferred C R N s"
  obtains d where "\<And>u. fetch_one C R s u (j_id (sn_child N)) = Inr (Some (persisted d ((sn_child N)\<lparr>j_status := DEFERRED\<rparr>)))"
proof -
  let ?c = "sn_child N" and ?j = "(sn_child N)\<lparr>j_status := DEFERRED\<rparr>"
  obtain d m j2 where w: "get_data C ?j = Inr (d, j2)" "zip_keeps C d" "dump_meta C True j2 = Inr m"
    "to_dict C True True ?j = Inr (present (job_table C True d m j2), j2)"
    using assms(1) by (rule waiting_fields)
  have h: "hget R s (job_key (j_id ?c)) = map_of (present (job_table C True d m j2))" using assms(2) w(4) by (auto simp: deferred_def)
  then have m: "map_of (r_hash R s (job_key (j_id ?c))) = map_of (present (job_table C True d m j2))" by (simp add: hget_def)
  then have ne: "r_hash R s (job_key (j_id ?c)) \<noteq> []" using job_dict_nonempty by (metis map_of_eq_empty_iff)
  have st: "storable C j2" using assms(1) storable_get_data [OF w(1)] by (simp add: waiting_ok_def)
  have id: "j_id j2 = j_id ?c" using get_data_id [OF w(1)] by simp
  have "fetch_one C R s u (j_id ?c) = Inr (Some (persisted d ?j))" for u
  proof -
    have "restore C u (r_hash R s (job_key (j_id ?c))) (new_job (j_id ?c) u) = Inr (persisted d ?j)"
      using restore_dict [OF st w(2,3), of u] restore_cong [OF m, of C u] persisted_get_data [OF w(1)] id by simp
    then show ?thesis
      using ne assms(1) by (simp add: fetch_one_def job_init_def waiting_ok_def validate_job_id_def valid_id_def)
  qed
  then show ?thesis using that by blast
qed

lemma persisted_deferred [simp]:
  "j_id (persisted d j) = j_id j" "j_origin (persisted d j) = j_origin j" "j_dependency_ids (persisted d j) = j_dependency_ids j"
  "ttl_ok j \<Longrightarrow> ttl_ok (persisted d j)" "j_data (persisted d j) = Val d"
  by (auto simp: persisted_def set_data_def ttl_ok_def split: option.splits)

lemma deferred_enqueuable:
  assumes "waiting_ok C j"
  shows "enqueuable C u q (persisted d (j\<lparr>j_status := DEFERRED\<rparr>))"
proof -
  let ?d = "persisted d (j\<lparr>j_status := DEFERRED\<rparr>)"
  let ?p = "prepare_for_queue (origin_queue q ?d) u ?d"
  have "get_data C ?p = Inr (d, ?p)" by (simp add: get_data_def prepare_for_queue_def)
  moreover have "\<exists>m. dump_meta C True ?p = Inr m"
    using assms
    by (auto simp: dump_meta_def waiting_ok_def storable_def codec_keeps_def prepare_for_queue_def persisted_def set_data_def
        truthy_def split: option.splits)
  moreover have "ttl_ok j" using assms by (simp add: waiting_ok_def)
  then have "ttl_ok (j\<lparr>j_status := DEFERRED\<rparr>)" by (simp add: ttl_ok_def)
  ultimately show ?thesis by (auto simp: enqueuable_def to_dict_def)
qed

context redis_server
begin

lemma defer_effect:
  fixes s :: 's and t fs N
  assumes ok: "scene_ok C N" "unsaved R N s" and td: "to_dict C True True ((sn_child N)\<lparr>j_status := DEFERRED\<rparr>) = Inr (fs, j)"
  defines "s' \<equiv> run_all R (defer_cmds fs t (sn_child N)) s"
  shows "deferred C R N s'" "hget R s' (job_key (j_id (sn_parent N))) = hget R s (job_key (j_id (sn_parent N)))"
proof -
  let ?c = "sn_child N" and ?p = "j_id (sn_parent N)"
  have ids: "?p \<noteq> j_id ?c" "j_dependency_ids ?c = [?p]" "ttl_ok ?c" "valid_id (j_id ?c)" "valid_id ?p"
    using ok(1) by (simp_all add: scene_ok_def waiting_ok_def)
  have st: "map_of (rev fs) ''status'' = Some (status_text DEFERRED)" using to_dict_status [OF td] by simp
  obtain d m where "fs = present (job_table C True d m j)" using td by (rule to_dict_Inr)
  then have rev: "map_of (rev fs) = map_of fs" using map_of_rev_distinct [OF present_distinct [OF distinct_job_table]] by simp
  have ttl: "sset R (run_all R (ttl_cmds ?c) u) = sset R u" "hget R (run_all R (ttl_cmds ?c) u) = hget R u" for u
    using ids(3) by (auto simp: ttl_cmds_def ttl_ok_def expire_keys_def set_run hash_run split: option.splits)
  have sets: "sset R s' (dependents_key ?p) = {j_id ?c}" "sset R s' (dependencies_key (j_id ?c)) = {?p}"
    using ok(2) ids by (simp_all add: s'_def defer_cmds_def register_dependency_def deferred_add_def ttl set_run unsaved_def)
  have h: "hget R s' = (hget R s)(job_key (j_id ?c) := [''status'' \<mapsto> status_text DEFERRED] ++ map_of (rev fs))"
    using ok(2) ids(2)
    by (simp add: s'_def defer_cmds_def register_dependency_def deferred_add_def ttl hash_hset hash_run unsaved_def)
  have "[''status'' \<mapsto> status_text DEFERRED] ++ map_of (rev fs) = map_of fs"
    using st unfolding rev by (auto simp: map_add_def fun_eq_iff split: option.splits)
  then show "deferred C R N s'" using sets h td by (auto simp: deferred_def)
  show "hget R s' (job_key ?p) = hget R s (job_key ?p)" using h ids(1) by simp
qed

lemma no_dependents:
  fixes s :: 's
  shows "sset R s (dependents_key (j_id j)) = {} \<Longrightarrow> enqueue_dependents C R P u q True None True j (s, []) = (Inr (), (s, []))"
  by (simp add: enqueue_dependents_def bindO_def dependent_ids_def set_empty_iff)

lemma one_dependent:
  fixes s :: 's
  assumes ok: "scene_ok C N" "deferred C R N s"
    and st: "hget R s (job_key (j_id (sn_parent N))) ''status'' = Some (status_text STARTED)"
  obtains d fs where "j_id d = j_id (sn_child N)" "j_origin d = q_name (sn_child_queue N)" "ttl_ok d"
    "map_of (rev fs) ''status'' = Some (status_text QUEUED)"
    "enqueue_dependents C R P u (sn_queue N) True None True (sn_parent N) (s, []) =
       (Inr (), (s, dependent_cmds fs d @ [Del [dependents_key (j_id (sn_parent N))]]))"
proof -
  let ?c = "sn_child N" and ?p = "j_id (sn_parent N)" and ?q = "sn_queue N"
  have w: "waiting_ok C ?c" "j_dependency_ids ?c = [?p]" "valid_id (j_id ?c)" "q_is_async ?q" "j_origin ?c = q_name (sn_child_queue N)"
    using ok(1) by (simp_all add: scene_ok_def waiting_ok_def)
  obtain dd where f: "\<And>u. fetch_one C R s u (j_id ?c) = Inr (Some (persisted dd (?c\<lparr>j_status := DEFERRED\<rparr>)))"
    using deferred_fetch [OF w(1) ok(2)] by blast
  let ?d = "persisted dd (?c\<lparr>j_status := DEFERRED\<rparr>)"
  have e: "enqueuable C u ?q ?d" by (rule deferred_enqueuable [OF w(1)])
  have one: "dependent_ids R s ?p = [j_id ?c]" "dependency_ids R s (j_id ?c) = [?p]"
    using ok(2) set_distinct by (auto simp: dependent_ids_def dependency_ids_def deferred_def sset_def intro!: single_member)
  have ready: "ready_dependents C R u (sn_parent N) None True [j_id ?c] s = Inr [?d]"
    using st w(2,3) f one(2)
    by (simp add: ready_dependents_def fetch_many_def parse_job_id_valid dependencies_are_met_def get_status_def)
  have "enqueue_dependents C R P u ?q True None True (sn_parent N) (s, []) =
      (Inr (), (s, dependent_cmds (enqueued_fields C u ?q ?d) ?d @ [Del [dependents_key ?p]]))"
    by (simp add: enqueue_dependents_def bindO_def seqO_def one(1) ready enqueue_one_eq [OF e w(4)])
  moreover have "ttl_ok ?d" using e by (simp add: enqueuable_def)
  ultimately show ?thesis using that [of ?d] enqueued_fields_status [OF e] w(5) by simp
qed

lemma end_effect_deferred:
  fixes s :: 's and fs d e N
  assumes ok: "scene_ok C N" "ending_cmds C N u e" "deferred C R N s"
    and d: "j_id d = j_id (sn_child N)" "j_origin d = q_name (sn_child_queue N)" "ttl_ok d"
      "map_of (rev fs) ''status'' = Some (status_text QUEUED)"
  defines "s' \<equiv> run_all R (dependent_cmds fs d @ [Del [dependents_key (j_id (sn_parent N))]] @ e) s"
  shows "on_queue R N s'" "hget R s' (job_key (j_id (sn_parent N))) ''status'' = Some (status_text FINISHED)"
proof -
  let ?p = "j_id (sn_parent N)"
  let ?s1 = "run_all R (dependent_cmds fs d) s"
  let ?s2 = "r_run R (Del [dependents_key ?p]) ?s1"
  have s': "s' = run_all R e ?s2" by (simp add: s'_def)
  have ids: "valid_id (j_id (sn_child N))" using ok(1) by (simp add: scene_ok_def waiting_ok_def)
  note one = dependent_cmds_run [OF d(3,4), where s = s]
  have "j_id (sn_child N) \<in> set (r_list R ?s2 (queue_key (q_name (sn_child_queue N))))"
    using one(1) d(1,2) by (auto simp: list_run wipe_def)
  moreover have "hget R ?s2 (job_key (j_id (sn_child N))) ''status'' = Some (status_text QUEUED)"
    using one(5) d(1) ids by (simp add: hash_run wipe_def valid_id_job_key_neq)
  moreover have "sset R ?s2 (dependents_key ?p) = {}" by (simp add: set_run wipe_def)
  ultimately show "on_queue R N s'"
    by (simp add: on_queue_def s' ending_run [OF ok(1,2)])
  show "hget R s' (job_key ?p) ''status'' = Some (status_text FINISHED)" by (simp add: s' ending_run [OF ok(1,2)])
qed

lemma end_effect_unsaved:
  fixes s :: 's
  assumes "scene_ok C N" "ending_cmds C N u e" "unsaved R N s"
  shows "unsaved R N (run_all R e s)" "hget R (run_all R e s) (job_key (j_id (sn_parent N))) ''status'' = Some (status_text FINISHED)"
  using assms(3) by (simp_all add: unsaved_def ending_run [OF assms(1,2)])

end

lemma enqueue_async_dict:
  assumes "enqueue_async_job C R t q False front False j (s, buf) = (Inr j1, c)"
  shows "\<exists>fs j2. to_dict C True True (prepare_for_queue q t j) = Inr (fs, j2)"
proof (rule ccontr)
  have st: "(prepare_for_queue q t j)\<lparr>j_status := QUEUED\<rparr> = prepare_for_queue q t j" by (simp add: prepare_for_queue_def)
  assume "\<not> ?thesis"
  then obtain e where "to_dict C True True ((prepare_for_queue q t j)\<lparr>j_status := QUEUED\<rparr>) = Inl e"
    unfolding st by (cases "to_dict C True True (prepare_for_queue q t j)") auto
  then show False
    using assms
    by (auto simp: enqueue_async_job_def own_pipe_def new_pipe_def persist_job_def bindO_def seqO_def set_status_on_def set_status_def
        save_on_def save_def split: if_splits)
qed

context redis_server
begin

lemma child_effect:
  fixes s :: 's
  assumes ok: "scene_ok C N" "unsaved R N s"
    and run: "enqueue_now C R P t (sn_child_queue N) False front False (sn_child N) (s, []) = (Inr j, (s1, buf))"
  shows "on_queue R N s1" "hget R s1 (job_key (j_id (sn_parent N))) = hget R s (job_key (j_id (sn_parent N)))"
proof -
  let ?c = "sn_child N" and ?q = "sn_child_queue N" and ?p = "j_id (sn_parent N)"
  have w: "ttl_ok ?c" "q_is_async ?q" "j_id ?c \<noteq> ?p" using ok(1) by (auto simp: scene_ok_def waiting_ok_def)
  have async: "enqueue_async_job C R t ?q False front False ?c (s, []) = (Inr j, (s1, buf))" using run w(2) by (simp add: enqueue_now_def)
  obtain fs j2 where td: "to_dict C True True (prepare_for_queue ?q t ?c) = Inr (fs, j2)" using enqueue_async_dict [OF async] by blast
  note eff = enqueue_async_effect [OF td w(1) async]
  have "hget R s1 (job_key (j_id ?c)) ''status'' = Some (status_text QUEUED)"
    using eff(2) by (auto simp: get_status_def status_of_Inr split: option.splits if_splits)
  then show "on_queue R N s1" using ok(2) eff(1,5) by (simp add: on_queue_def unsaved_def)
  show "hget R s1 (job_key ?p) = hget R s (job_key ?p)"
    using async w(3) by (auto simp: enqueue_async_eq(2) [OF td w(1)] push_run persist_run [OF w(1)] reg_remove_run)
qed

end

section \<open>The invariant of the race\<close>

definition end_ready :: "codec \<Rightarrow> 's redis \<Rightarrow> scene \<Rightarrow> 's \<Rightarrow> cmd list \<Rightarrow> bool" where
  "end_ready C R N s0 cs \<longleftrightarrow>
     (\<exists>u e. ending_cmds C N u e \<and>
        (sset R s0 (dependents_key (j_id (sn_parent N))) = {} \<and> cs = e \<or>
         sset R s0 (dependents_key (j_id (sn_parent N))) = {j_id (sn_child N)} \<and>
         (\<exists>d fs. j_id d = j_id (sn_child N) \<and> j_origin d = q_name (sn_child_queue N) \<and> ttl_ok d \<and>
            map_of (rev fs) ''status'' = Some (status_text QUEUED) \<and>
            cs = dependent_cmds fs d @ [Del [dependents_key (j_id (sn_parent N))]] @ e)))"

definition child_ready :: "codec \<Rightarrow> 's redis \<Rightarrow> scene \<Rightarrow> 's \<Rightarrow> cmd list \<Rightarrow> bool" where
  "child_ready C R N s0 cs \<longleftrightarrow>
     hget R s0 (job_key (j_id (sn_parent N))) ''status'' \<noteq> Some (status_text FINISHED) \<and>
     (\<exists>fs j t. to_dict C True True ((sn_child N)\<lparr>j_status := DEFERRED\<rparr>) = Inr (fs, j) \<and> cs = defer_cmds fs t (sn_child N))"

definition end_stage_ok :: "codec \<Rightarrow> 's redis \<Rightarrow> scene \<Rightarrow> 's \<Rightarrow> 's stage \<Rightarrow> bool" where
  "end_stage_ok C R N s x \<longleftrightarrow>
     hget R s (job_key (j_id (sn_parent N))) ''status'' = Some (status_text (if x = Over then FINISHED else STARTED)) \<and>
     x \<noteq> Decided \<and> (\<forall>s0 cs. x = Pending s0 cs \<longrightarrow> end_ready C R N s0 cs)"

definition child_stage_ok :: "codec \<Rightarrow> 's redis \<Rightarrow> scene \<Rightarrow> 's \<Rightarrow> bool \<Rightarrow> 's stage \<Rightarrow> bool" where
  "child_stage_ok C R N s ended y \<longleftrightarrow>
     (case y of
        Fresh \<Rightarrow> unsaved R N s
      | Pending s0 cs \<Rightarrow> unsaved R N s \<and> child_ready C R N s0 cs
      | Decided \<Rightarrow> unsaved R N s \<and> ended
      | Over \<Rightarrow> if ended then on_queue R N s else deferred C R N s)"

definition race_ok :: "codec \<Rightarrow> 's redis \<Rightarrow> scene \<Rightarrow> 's \<times> 's stage \<times> 's stage \<Rightarrow> bool" where
  "race_ok C R N c \<longleftrightarrow> (case c of (s, x, y) \<Rightarrow> end_stage_ok C R N s x \<and> child_stage_ok C R N s (x = Over) y)"

lemma child_stage_dependents:
  "child_stage_ok C R N s False y \<Longrightarrow>
   sset R s (dependents_key (j_id (sn_parent N))) = {} \<and> unsaved R N s \<and> y \<noteq> Over \<and> y \<noteq> Decided \<or>
   sset R s (dependents_key (j_id (sn_parent N))) = {j_id (sn_child N)} \<and> deferred C R N s \<and> y = Over"
  by (cases y) (auto simp: child_stage_ok_def unsaved_def deferred_def)

lemma same_key_views: "same_key R k s s' \<Longrightarrow> sset R s k = sset R s' k \<and> hget R s k = hget R s' k"
  by (simp add: same_key_def sset_def hget_def)

context redis_server
begin

lemma end_reads_ok:
  fixes s :: 's
  assumes ok: "scene_ok C N" "end_stage_ok C R N s Fresh" "child_stage_ok C R N s False y"
    and att: "success_attempt C R P u (sn_zone N) (sn_queue N) (sn_parent N) (sn_worker N) (s, []) = (Inr r, (s1, cs))"
  shows "s1 = s \<and> end_ready C R N s cs"
proof -
  have st: "hget R s (job_key (j_id (sn_parent N))) ''status'' = Some (status_text STARTED)" using ok(2) by (simp add: end_stage_ok_def)
  consider "sset R s (dependents_key (j_id (sn_parent N))) = {}" | "deferred C R N s" "sset R s (dependents_key (j_id (sn_parent N))) = {j_id (sn_child N)}"
    using child_stage_dependents [OF ok(3)] by blast
  then show ?thesis
  proof cases
    case 1
    from end_attempt [OF ok(1) att no_dependents [OF 1]] 1 show ?thesis by (auto simp: end_ready_def)
  next
    case 2
    obtain d fs where d: "j_id d = j_id (sn_child N)" "j_origin d = q_name (sn_child_queue N)" "ttl_ok d"
      "map_of (rev fs) ''status'' = Some (status_text QUEUED)"
      and run: "enqueue_dependents C R P u (sn_queue N) True None True (sn_parent N) (s, []) =
       (Inr (), (s, dependent_cmds fs d @ [Del [dependents_key (j_id (sn_parent N))]]))"
      using one_dependent [OF ok(1) 2(1) st] by blast
    from end_attempt [OF ok(1) att run] obtain e where
      "s1 = s" "ending_cmds C N u e" "cs = dependent_cmds fs d @ [Del [dependents_key (j_id (sn_parent N))]] @ e" by auto
    then show ?thesis unfolding end_ready_def using 2(2) d by blast
  qed
qed

lemma end_executes_ok:
  fixes s s0 :: 's
  assumes ok: "scene_ok C N" "end_ready C R N s0 cs" "child_stage_ok C R N s False y"
    and same: "same_key R (dependents_key (j_id (sn_parent N))) s0 s"
  shows "end_stage_ok C R N (run_all R cs s) Over \<and> child_stage_ok C R N (run_all R cs s) True y"
proof -
  obtain u e where e: "ending_cmds C N u e"
    and cs: "sset R s0 (dependents_key (j_id (sn_parent N))) = {} \<and> cs = e \<or>
         sset R s0 (dependents_key (j_id (sn_parent N))) = {j_id (sn_child N)} \<and>
         (\<exists>d fs. j_id d = j_id (sn_child N) \<and> j_origin d = q_name (sn_child_queue N) \<and> ttl_ok d \<and>
            map_of (rev fs) ''status'' = Some (status_text QUEUED) \<and>
            cs = dependent_cmds fs d @ [Del [dependents_key (j_id (sn_parent N))]] @ e)"
    using ok(2) unfolding end_ready_def by blast
  show ?thesis
  proof (cases "sset R s (dependents_key (j_id (sn_parent N))) = {}")
    case True
    then have "cs = e" using cs same_key_views [OF same] by auto
    moreover have "unsaved R N s" "y \<noteq> Over" "y \<noteq> Decided" using True child_stage_dependents [OF ok(3)] by auto
    ultimately show ?thesis
      using end_effect_unsaved [OF ok(1) e] ok(3) by (cases y) (auto simp: end_stage_ok_def child_stage_ok_def)
  next
    case False
    then have y: "deferred C R N s" "y = Over" using child_stage_dependents [OF ok(3)] by auto
    obtain d fs where d: "j_id d = j_id (sn_child N)" "j_origin d = q_name (sn_child_queue N)" "ttl_ok d"
      "map_of (rev fs) ''status'' = Some (status_text QUEUED)"
      "cs = dependent_cmds fs d @ [Del [dependents_key (j_id (sn_parent N))]] @ e"
      using False cs same_key_views [OF same] by auto
    from end_effect_deferred [OF ok(1) e y(1) d(1-4)] show ?thesis
      by (simp add: end_stage_ok_def child_stage_ok_def y(2) d(5))
  qed
qed

lemma child_reads_ok:
  fixes s :: 's
  assumes ok: "scene_ok C N" "end_stage_ok C R N s x"
    and att: "defer_attempt C R t (sn_child N) (s, []) = (Inr r, (s1, cs))"
  shows "s1 = s \<and> (if r = None then x = Over else child_ready C R N s cs)"
proof -
  have w: "waiting_ok C (sn_child N)" "j_dependency_ids (sn_child N) = [j_id (sn_parent N)]" "valid_id (j_id (sn_parent N))"
    using ok(1) by (simp_all add: scene_ok_def)
  note a = child_attempt [OF w(1) att]
  obtain deps where deps: "fetch_dependencies C R s t (sn_child N) = Inr deps" "r = None \<longleftrightarrow> (\<forall>d \<in> set deps. j_status d = FINISHED)"
    using a(3) by blast
  have "hget R s (job_key (j_id (sn_parent N))) ''status'' = Some (status_text (if x = Over then FINISHED else STARTED))"
    using ok(2) by (simp add: end_stage_ok_def)
  from fetch_dependencies_status [OF w(2,3) this deps(1)] deps(2) have "r = None \<longleftrightarrow> x = Over" by (auto split: if_splits)
  then show ?thesis using a(1,2) ok(2) by (auto simp: child_ready_def end_stage_ok_def)
qed

lemma leaves_alone_ok:
  fixes s s1 :: 's
  assumes "leaves_alone R N s s1"
  shows "end_stage_ok C R N s x \<Longrightarrow> end_stage_ok C R N s1 x" "child_stage_ok C R N s b y \<Longrightarrow> child_stage_ok C R N s1 b y"
  using assms
  by (auto simp: leaves_alone_def Let_def end_stage_ok_def child_stage_ok_def unsaved_def deferred_def on_queue_def split: stage.splits if_splits)

lemma race_step_ok:
  assumes "race_step C R P N c c'" "scene_ok C N" "race_ok C R N c"
  shows "race_ok C R N c'"
  using assms
proof (induction rule: race_step.induct)
  case (end_reads u s r s1 cs y)
  then show ?case using end_reads_ok [OF end_reads.prems(1) _ _ end_reads.hyps] by (auto simp: race_ok_def end_stage_ok_def)
next
  case (end_executes s0 s cs y)
  then show ?case using end_executes_ok [OF end_executes.prems(1) _ _ end_executes.hyps] by (auto simp: race_ok_def end_stage_ok_def)
next
  case (end_refused s s0 cs y)
  then show ?case by (auto simp: race_ok_def end_stage_ok_def)
next
  case (child_waits t s j s1 cs x)
  then show ?case using child_reads_ok [OF child_waits.prems(1) _ child_waits.hyps] by (auto simp: race_ok_def child_stage_ok_def)
next
  case (child_free t s s1 cs x)
  then show ?case using child_reads_ok [OF child_free.prems(1) _ child_free.hyps] by (auto simp: race_ok_def child_stage_ok_def)
next
  case (child_executes s0 s x cs)
  then obtain fs j t where d: "unsaved R N s" "to_dict C True True ((sn_child N)\<lparr>j_status := DEFERRED\<rparr>) = Inr (fs, j)"
    "cs = defer_cmds fs t (sn_child N)" "hget R s0 (job_key (j_id (sn_parent N))) ''status'' \<noteq> Some (status_text FINISHED)"
    by (auto simp: race_ok_def child_stage_ok_def child_ready_def)
  have "same_key R (job_key (j_id (sn_parent N))) s0 s" using child_executes by (simp add: scene_ok_def)
  then have "x \<noteq> Over" using d(4) child_executes.prems(2) by (auto simp: race_ok_def end_stage_ok_def dest!: same_key_views)
  then show ?case
    using defer_effect [OF child_executes.prems(1) d(1,2), of t] child_executes.prems(2)
    by (auto simp: race_ok_def child_stage_ok_def end_stage_ok_def d(3))
next
  case (child_refused s x s0 cs)
  then show ?case by (auto simp: race_ok_def child_stage_ok_def)
next
  case (child_enqueues t front s j s1 buf x)
  then have "unsaved R N s" "x = Over" by (simp_all add: race_ok_def child_stage_ok_def)
  then show ?case
    using child_effect [OF child_enqueues.prems(1) _ child_enqueues.hyps] child_enqueues.prems(2)
    by (auto simp: race_ok_def child_stage_ok_def end_stage_ok_def)
next
  case (other s s1 x y)
  then show ?case using leaves_alone_ok [OF other.hyps] by (auto simp: race_ok_def)
qed

lemma race_reachable_ok:
  "(race_step C R P N)\<^sup>*\<^sup>* c c' \<Longrightarrow> scene_ok C N \<Longrightarrow> race_ok C R N c \<Longrightarrow> race_ok C R N c'"
  by (induction rule: rtranclp_induct) (auto dest: race_step_ok)

end

section \<open>A run with a conflict\<close>

lemma end_attempt_returns:
  assumes "scene_ok C N" "enqueue_dependents C R P u (sn_queue N) True None True (sn_parent N) (s, []) = (Inr (), (s, pre))"
  shows "\<exists>r cs. success_attempt C R P u (sn_zone N) (sn_queue N) (sn_parent N) (sn_worker N) (s, []) = (Inr r, (s, cs))"
proof -
  let ?p = "sn_parent N" and ?w = "sn_worker N"
  let ?ttl = "get_result_ttl ?p (w_default_result_ttl ?w)"
  obtain fs j1 rc where "j_repeats_left ?p = None" "0 < ?ttl" "to_dict C False False (?p\<lparr>j_status := FINISHED\<rparr>) = Inr (fs, j1)"
      "create_result C (j_id ?p) SUCCESSFUL (Some ?ttl) (j_result ?p) None (w_name ?w) (worker_exec ?p ?w) = Inr rc"
    using assms(1) by (auto simp: scene_ok_def ending_ok_def)
  from success_attempt_eq [OF assms(2) this(1) refl this(2-4), where zone = "sn_zone N"] show ?thesis by blast
qed

lemma child_attempt_returns:
  assumes "waiting_ok C j" "fetch_dependencies C R s t j = Inr deps" "d \<in> set deps" "j_status d \<noteq> FINISHED"
  shows "\<exists>j2 cs. defer_attempt C R t j (s, []) = (Inr (Some j2), (s, cs))"
proof -
  obtain d' m j2 where td: "to_dict C True True (j\<lparr>j_status := DEFERRED\<rparr>) = Inr (present (job_table C True d' m j2), j2)"
    using assms(1) by (rule waiting_fields)
  have "ttl_ok j2" using to_dict_same [OF td] assms(1) by (simp add: ttl_ok_def waiting_ok_def)
  then show ?thesis
    using assms(2-4) td
    by (auto simp: defer_attempt_def bindO_def seqO_def set_status_on_def set_status_def save_on_def save_def cleanup_ttl_ok)
qed

context redis_server
begin

text \<open>The job that ends reads first, the child defers itself, and the end, refused, reads again.\<close>

lemma race_with_conflict:
  fixes s :: 's
  assumes ok: "scene_ok C N" "race_ok C R N (s, Fresh, Fresh)" and deps: "fetch_dependencies C R s t (sn_child N) = Inr deps"
  shows "\<exists>s'. (race_step C R P N)\<^sup>*\<^sup>* (s, Fresh, Fresh) (s', Over, Over)"
proof -
  let ?p = "j_id (sn_parent N)"
  have w: "waiting_ok C (sn_child N)" "j_dependency_ids (sn_child N) = [?p]" "valid_id ?p" using ok(1) by (simp_all add: scene_ok_def)
  have st: "hget R s (job_key ?p) ''status'' = Some (status_text STARTED)" and u: "unsaved R N s"
    using ok(2) by (simp_all add: race_ok_def end_stage_ok_def child_stage_ok_def)
  have none: "enqueue_dependents C R P 0 (sn_queue N) True None True (sn_parent N) (s, []) = (Inr (), (s, []))"
    using u by (intro no_dependents) (simp add: unsaved_def)
  obtain r cs where "success_attempt C R P 0 (sn_zone N) (sn_queue N) (sn_parent N) (sn_worker N) (s, []) = (Inr r, (s, cs))"
    using end_attempt_returns [OF ok(1) none] by blast
  then have 1: "race_step C R P N (s, Fresh, Fresh) (s, Pending s cs, Fresh)" by (rule end_reads)
  obtain d where "deps = [d]" "j_status d = STARTED" using fetch_dependencies_status [OF w(2,3) st deps] by blast
  then obtain j cs2 where "defer_attempt C R t (sn_child N) (s, []) = (Inr (Some j), (s, cs2))"
    using child_attempt_returns [OF w(1) deps, of d] by auto
  then have 2: "race_step C R P N (s, Pending s cs, Fresh) (s, Pending s cs, Pending s cs2)" by (rule child_waits)
  let ?s = "run_all R cs2 s"
  have 3: "race_step C R P N (s, Pending s cs, Pending s cs2) (?s, Pending s cs, Over)"
    by (rule child_executes) (simp_all add: same_key_def)
  have 4: "race_step C R P N (?s, Pending s cs, Over) (?s, Fresh, Over)" by (rule end_refused)
  have path: "(race_step C R P N)\<^sup>*\<^sup>* (s, Fresh, Fresh) (?s, Fresh, Over)"
    using 1 2 3 4 by (meson converse_rtranclp_into_rtranclp rtranclp.rtrancl_refl)
  from race_reachable_ok [OF path ok] have inv: "deferred C R N ?s" "hget R ?s (job_key ?p) ''status'' = Some (status_text STARTED)"
    by (simp_all add: race_ok_def end_stage_ok_def child_stage_ok_def)
  obtain pre where one: "enqueue_dependents C R P 0 (sn_queue N) True None True (sn_parent N) (?s, []) = (Inr (), (?s, pre))"
    using one_dependent [OF ok(1) inv] by metis
  obtain r cs3 where "success_attempt C R P 0 (sn_zone N) (sn_queue N) (sn_parent N) (sn_worker N) (?s, []) = (Inr r, (?s, cs3))"
    using end_attempt_returns [OF ok(1) one] by blast
  then have 5: "race_step C R P N (?s, Fresh, Over) (?s, Pending ?s cs3, Over)" by (rule end_reads)
  have 6: "race_step C R P N (?s, Pending ?s cs3, Over) (run_all R cs3 ?s, Over, Over)"
    by (rule end_executes) (simp add: same_key_def)
  show ?thesis using path 5 6 by (meson rtranclp.rtrancl_into_rtrancl)
qed

end

section \<open>Properties\<close>

text \<open>
  C2. No dependent is forgotten: when a job finishes while a job that depends on it is being enqueued, then, however the
  reads and the transactions of the two and everything else on the server interleave and however often either is refused and tries
  again, once both are through the dependent is on its queue with the status queued and nobody waits for it any more.
\<close>

theorem dependent_not_forgotten:
  assumes "redis_server R" "scene_ok C N" "unsaved R N s"
    and "hget R s (job_key (j_id (sn_parent N))) ''status'' = Some (status_text STARTED)"
    and "(race_step C R P N)\<^sup>*\<^sup>* (s, Fresh, Fresh) (s', Over, Over)"
  shows "j_id (sn_child N) \<in> set (r_list R s' (queue_key (q_name (sn_child_queue N)))) \<and>
    get_status R s' (j_id (sn_child N)) = Inr QUEUED \<and> sset R s' (dependents_key (j_id (sn_parent N))) = {}"
proof -
  have "race_ok C R N (s, Fresh, Fresh)" using assms(3,4) by (simp add: race_ok_def end_stage_ok_def child_stage_ok_def)
  from redis_server.race_reachable_ok [OF assms(1,5,2) this] have "on_queue R N s'" by (simp add: race_ok_def child_stage_ok_def)
  then show ?thesis by (simp add: on_queue_def get_status_def)
qed

definition sample_scene :: scene where
  "sample_scene = \<lparr>sn_parent = parent_job STARTED, sn_worker = sample_worker, sn_queue = sample_queue, sn_zone = 0,
     sn_child = waiting_child CREATED, sn_child_queue = sample_queue\<rparr>"

lemma sample_scene_ok: "scene_ok sample_codec sample_scene"
proof -
  have c: "(waiting_child CREATED)\<lparr>j_status := DEFERRED\<rparr> = waiting_child DEFERRED" by (simp add: waiting_child_def)
  have "storable sample_codec (waiting_child DEFERRED)" "\<exists>j. get_data sample_codec (waiting_child DEFERRED) = Inr (''p'', j)"
    using sample_family(9) [of DEFERRED] by (simp_all add: storable_sample_def get_data_def sample_codec_def)
  then have "waiting_ok sample_codec (waiting_child CREATED)" using sample_storable(2) by (auto simp: waiting_ok_def c)
  moreover have "ending_ok sample_codec (parent_job STARTED) sample_worker"
  proof -
    obtain fs j where "to_dict sample_codec False False ((parent_job STARTED)\<lparr>j_status := FINISHED\<rparr>) = Inr (fs, j)"
      by (rule sample_to_dict [of "(parent_job STARTED)\<lparr>j_status := FINISHED\<rparr>"]) (simp_all add: parent_job_def sample_job_def new_job_def)
    moreover obtain rc where "create_result sample_codec ''a'' SUCCESSFUL (Some 500) (j_result (parent_job STARTED)) None ''w''
        (worker_exec (parent_job STARTED) sample_worker) = Inr rc" by (rule sample_result)
    moreover have "get_result_ttl (parent_job STARTED) 500 = 500" "j_repeats_left (parent_job STARTED) = None"
      by (simp_all add: get_result_ttl_def parent_job_def sample_job_def new_job_def)
    ultimately show ?thesis by (simp add: ending_ok_def)
  qed
  ultimately show ?thesis
    by (simp add: scene_ok_def sample_scene_def sample_queue_def waiting_child_def sample_job_def new_job_def)
qed

theorem dependent_not_forgotten_witness:
  "\<exists>s'. (race_step sample_codec mem_redis sample_py sample_scene)\<^sup>*\<^sup>* (saved (parent_job STARTED), Fresh, Fresh) (s', Over, Over) \<and>
     ''b'' \<in> set (r_list mem_redis s' (queue_key ''q'')) \<and> get_status mem_redis s' ''b'' = Inr QUEUED"
proof -
  let ?s = "saved (parent_job STARTED)"
  have n: "sn_parent sample_scene = parent_job STARTED" "sn_child sample_scene = waiting_child CREATED"
    "q_name (sn_child_queue sample_scene) = ''q''" by (simp_all add: sample_scene_def sample_queue_def)
  note p = saved_props [of "parent_job STARTED", simplified]
  have u: "unsaved mem_redis sample_scene ?s" by (simp add: unsaved_def n p)
  have st: "hget mem_redis ?s (job_key (j_id (sn_parent sample_scene))) ''status'' = Some (status_text STARTED)" by (simp add: n p)
  have "race_ok sample_codec mem_redis sample_scene (?s, Fresh, Fresh)"
    using u st by (simp add: race_ok_def end_stage_ok_def child_stage_ok_def)
  then obtain s' where run: "(race_step sample_codec mem_redis sample_py sample_scene)\<^sup>*\<^sup>* (?s, Fresh, Fresh) (s', Over, Over)"
    using mem.race_with_conflict [OF sample_scene_ok, of ?s 0 "[persisted ''p'' (parent_job STARTED)]" sample_py]
      fetch_saved_dependency [of STARTED 0 CREATED] by (auto simp: n)
  from dependent_not_forgotten [OF mem.redis_server_axioms sample_scene_ok u st run] run show ?thesis by (auto simp: n)
qed

end
