(* ===== verification/Outages.thy ===== *)
theory Outages
  imports Work
begin

text \<open>
  Connections that break while a worker waits for a job or records a failure (\<open>dequeue_job_and_maintain_ttl\<close>,
  \<open>_pubsub_exception_handler\<close> and \<open>handle_job_failure\<close> of \<open>rq/worker/base.py\<close>). The loop of theory \<open>Work\<close> is the case without an outage: \<open>polls_without_outages\<close>. When the connection
  breaks the worker sleeps, each time twice as long as before but at most a minute, and begins anew.

  Where the connection breaks in a poll is given by its number: before or in the heartbeat, in the maintenance, of which some was
  done by then, in the dequeue, which the server may have done, or in the question for the server's version that
  follows a job.
\<close>

section \<open>The loop\<close>

datatype 's outage = InHeartbeat | InMaintenance "'s \<Rightarrow> 's" | InDequeue bool | InVersion

definition next_wait :: "nat \<Rightarrow> nat" where
  "next_wait wait = min (2 * wait) 60"

definition broken_maintenance :: "'s outage option \<Rightarrow> datetime \<Rightarrow> worker \<Rightarrow> ('s \<Rightarrow> 's) option" where
  "broken_maintenance b t w =
     (case b of Some (InMaintenance f) \<Rightarrow> if should_run_maintenance_tasks t w then Some f else None | _ \<Rightarrow> None)"

text \<open>
  The version is asked for once by a connection, and with one queue already in \<open>dequeue_any\<close>; \<open>known\<close> tells whether it
  is known before the loop.
\<close>

definition asks_version :: "bool \<Rightarrow> worker \<Rightarrow> bool" where
  "asks_version known w \<longleftrightarrow> \<not> known \<and> length (w_ordered w) \<noteq> 1"

text \<open>
  \<open>found\<close> is the variable \<open>result\<close> of the code: a job that was taken before the connection broke stays in it until the next
  dequeue replies. \<open>slept\<close> are the sleeps so far, in seconds.
\<close>

fun polls_with_outages ::
  "codec \<Rightarrow> 's redis \<Rightarrow> py \<Rightarrow> 's world \<Rightarrow> (nat \<Rightarrow> 's outage option) \<Rightarrow> bool \<Rightarrow> int option \<Rightarrow> datetime \<Rightarrow> nat \<Rightarrow> nat \<Rightarrow> int option \<Rightarrow> int option \<Rightarrow>
   nat \<Rightarrow> nat list \<Rightarrow> (job \<times> string) option \<Rightarrow> worker \<Rightarrow> ('s, (nat \<times> (job \<times> string) option \<times> worker \<times> nat list) option) op" where
  "polls_with_outages C R P W B known max_idle since 0 k timeout idle_left wait slept found w = ret None"
| "polls_with_outages C R P W B known max_idle since (Suc n) k timeout idle_left wait slept found w =
     seqO (others W k)
       (case B k of
          Some InHeartbeat \<Rightarrow>
            polls_with_outages C R P W B known max_idle since n (Suc k) timeout idle_left (next_wait wait) (slept @ [wait]) found w
        | _ \<Rightarrow>
       bindO (worker_heartbeat_on R False None (wd_clock W k) w) (\<lambda>w1.
         case broken_maintenance (B k) (wd_clock W k) w1 of
           Some f \<Rightarrow>
             seqO (act (\<lambda>s. (Inr (), f s)))
               (polls_with_outages C R P W B known max_idle since n (Suc k) timeout idle_left (next_wait wait) (slept @ [wait]) found w1)
         | None \<Rightarrow>
        bindO (maintain C R P (wd_clock W k) w1) (\<lambda>w2.
          let timeout1 = (case (timeout, idle_left) of (Some a, Some b) \<Rightarrow> Some (min a b) | _ \<Rightarrow> timeout);
              again = polls_with_outages C R P W B known max_idle since n (Suc k) timeout1 idle_left (next_wait wait) (slept @ [wait])
          in
          case B k of
            Some (InDequeue done) \<Rightarrow>
              seqO (if done then catchO (bindO (take_job C R W (wd_clock W k) timeout1 w2) (\<lambda>_. ret ())) (\<lambda>_. Some (ret ()))
                    else ret ())
                (again found w2)
          | _ \<Rightarrow>
          bindO (catchO (bindO (take_job C R W (wd_clock W k) timeout1 w2) (\<lambda>r. ret (Some r)))
                   (\<lambda>e. if e = DequeueTimeout then Some (ret None) else None)) (\<lambda>r.
            case r of
              Some None \<Rightarrow> ret (Some (Suc k, None, w2, slept))
            | Some (Some (j, q)) \<Rightarrow>
                bindO (liftE (reorder_queues (wd_shuffle W) q w2)) (\<lambda>w3.
                  case B k of
                    Some InVersion \<Rightarrow>
                      if asks_version known w3 then again (Some (j, q)) w3 else ret (Some (Suc k, Some (j, q), w3, slept))
                  | _ \<Rightarrow> ret (Some (Suc k, Some (j, q), w3, slept)))
            | None \<Rightarrow>
                (case max_idle of
                   None \<Rightarrow> polls_with_outages C R P W B known max_idle since n (Suc k) timeout1 idle_left wait slept found w2
                 | Some m \<Rightarrow>
                     let left = ceildiv (m * int usec - (int (wd_clock W k) - int since)) (int usec) in
                     if left \<le> 0 then ret (Some (Suc k, found, w2, slept))
                     else polls_with_outages C R P W B known max_idle since n (Suc k) timeout1 (Some left) wait slept found w2)))))"

text \<open>The whole method: \<open>begins_broken\<close> and \<open>ends_broken\<close> tell whether the connection breaks outside of the loop, where nothing catches it.\<close>

definition dequeue_with_outages ::
  "codec \<Rightarrow> 's redis \<Rightarrow> py \<Rightarrow> 's world \<Rightarrow> (nat \<Rightarrow> 's outage option) \<Rightarrow> bool \<Rightarrow> bool \<Rightarrow> bool \<Rightarrow> int option \<Rightarrow> int option \<Rightarrow> nat \<Rightarrow> nat \<Rightarrow> worker \<Rightarrow>
   ('s, (nat \<times> (job \<times> string) option \<times> worker) option) op" where
  "dequeue_with_outages C R P W B known begins_broken ends_broken timeout max_idle n k w =
     (if begins_broken then raiseO ConnectionError
      else
        bindO (set_state_on R False ''idle'' w) (\<lambda>w1.
        bindO (polls_with_outages C R P W B known max_idle (wd_clock W k) n k timeout max_idle 1 [] None w1) (\<lambda>r.
          case r of
            None \<Rightarrow> ret None
          | Some (k1, found, w2, slept) \<Rightarrow>
              if ends_broken then raiseO ConnectionError
              else bindO (worker_heartbeat_on R False None (wd_clock W k1) w2) (\<lambda>w3. ret (Some (k1, found, w3))))))"

text \<open>The thread that listens for commands sleeps for two seconds and goes on; every other exception ends it.\<close>

definition pubsub_exception_handler :: "err \<Rightarrow> nat res" where
  "pubsub_exception_handler e = (if e = ConnectionError then Inr 2 else Inl e)"

section \<open>Without an outage\<close>

lemma polls_without_outages:
  "polls_with_outages C R P W (\<lambda>_. None) known max_idle since n k timeout idle_left wait slept None w =
     bindO (dequeue_polls C R P W max_idle since n k timeout idle_left w) (\<lambda>r.
       ret (map_option (\<lambda>(k1, found, w1). (k1, found, w1, slept)) r))"
proof (induction n arbitrary: k timeout idle_left w)
  case (Suc n)
  have none: "polls_with_outages C R P W (\<lambda>_. None) known None since n k timeout idle_left wait slept None w =
      bindO (dequeue_polls C R P W None since n k timeout idle_left w) (\<lambda>r. ret (map_option (\<lambda>(k1, found, w1). (k1, found, w1, slept)) r))"
    if "max_idle = None" for k timeout idle_left w using Suc.IH that by blast
  have some: "polls_with_outages C R P W (\<lambda>_. None) known (Some m) since n k timeout idle_left wait slept None w =
      bindO (dequeue_polls C R P W (Some m) since n k timeout idle_left w) (\<lambda>r. ret (map_option (\<lambda>(k1, found, w1). (k1, found, w1, slept)) r))"
    if "max_idle = Some m" for m k timeout idle_left w using Suc.IH that by blast
  show ?case
    by (cases max_idle)
      (auto simp: broken_maintenance_def none some fun_eq_iff Let_def bindO_def seqO_def split: prod.splits sum.splits option.splits)
qed (simp add: bindO_def fun_eq_iff)

section \<open>The sleeps\<close>

lemma next_wait_iter: "(next_wait ^^ i) 1 = min (2 ^ i) 60"
  by (induction i) (auto simp: next_wait_def)

lemma broken_heartbeats:
  assumes "\<forall>i < m. B (k + i) = Some InHeartbeat"
  shows "polls_with_outages C R P W B known max_idle since (m + n) k timeout idle_left wait slept found w (s, buf) =
    polls_with_outages C R P W B known max_idle since n (k + m) timeout idle_left ((next_wait ^^ m) wait)
      (slept @ map (\<lambda>i. (next_wait ^^ i) wait) [0..<m]) found w (fold (\<lambda>i. wd_others W (k + i)) [0..<m] s, buf)"
  using assms
proof (induction m arbitrary: k wait slept s)
  case (Suc m)
  have now: "B k = Some InHeartbeat" using Suc.prems by (metis add_0_right zero_less_Suc)
  have later: "\<forall>i < m. B (Suc k + i) = Some InHeartbeat" using Suc.prems by (metis Suc_less_eq add_Suc_right add_Suc)
  have sleeps: "map (\<lambda>i. (next_wait ^^ i) wait) [0..<Suc m] = wait # map (\<lambda>i. (next_wait ^^ i) (next_wait wait)) [0..<m]"
    by (simp add: upt_rec [of 0 "Suc m"] map_Suc_upt [symmetric] funpow_swap1 del: upt_Suc)
  have rest: "fold (\<lambda>i. wd_others W (k + i)) [0..<Suc m] s = fold (\<lambda>i. wd_others W (Suc k + i)) [0..<m] (wd_others W k s)"
    by (simp add: upt_rec [of 0 "Suc m"] map_Suc_upt [symmetric] fold_map comp_def del: upt_Suc)
  have step: "polls_with_outages C R P W B known max_idle since (Suc m + n) k timeout idle_left wait slept found w (s, buf) =
      polls_with_outages C R P W B known max_idle since (m + n) (Suc k) timeout idle_left (next_wait wait) (slept @ [wait]) found w
        (wd_others W k s, buf)"
    using now by (simp add: others_def seqO_def bindO_def act_def)
  show ?case unfolding step Suc.IH [OF later] sleeps rest by (simp add: funpow_swap1)
qed simp

lemma polls_congruent:
  assumes "\<And>i. k \<le> i \<Longrightarrow> B i = B' i"
  shows "polls_with_outages C R P W B known max_idle since n k timeout idle_left wait slept found w =
    polls_with_outages C R P W B' known max_idle since n k timeout idle_left wait slept found w"
  using assms
proof (induction n arbitrary: k timeout idle_left wait slept found w)
  case (Suc n)
  have now: "B k = B' k" using Suc.prems by simp
  have rec: "polls_with_outages C R P W B known max_idle since n (Suc k) timeout idle_left wait slept =
      polls_with_outages C R P W B' known max_idle since n (Suc k) timeout idle_left wait slept" for timeout idle_left wait slept
    using Suc.prems by (intro ext Suc.IH) auto
  show ?case by (simp only: polls_with_outages.simps now rec)
qed simp

text \<open>
  C11. An outage only delays: a worker that cannot reach the server tries again after 1, 2, 4 and so on up to 60 seconds, and once
  the server can be reached it takes what it would have taken had it begun then, from what the others have left there.
\<close>

theorem outage_only_delays:
  assumes "\<forall>i < m. B (k + i) = Some InHeartbeat" "\<forall>i \<ge> k + m. B i = None"
  shows "polls_with_outages C R P W B known max_idle since (m + n) k timeout idle_left 1 [] None w (s, buf) =
    bindO (dequeue_polls C R P W max_idle since n (k + m) timeout idle_left w)
      (\<lambda>r. ret (map_option (\<lambda>(k1, found, w1). (k1, found, w1, map (\<lambda>i. min (2 ^ i) 60) [0..<m])) r))
      (fold (\<lambda>i. wd_others W (k + i)) [0..<m] s, buf)"
proof -
  have "polls_with_outages C R P W B known max_idle since n (k + m) timeout idle_left wait slept None w =
      polls_with_outages C R P W (\<lambda>_. None) known max_idle since n (k + m) timeout idle_left wait slept None w" for wait slept
    using assms(2) by (intro polls_congruent) simp
  then show ?thesis by (simp add: broken_heartbeats [OF assms(1)] polls_without_outages next_wait_iter [unfolded One_nat_def])
qed

theorem outage_only_delays_witness:
  "polls_with_outages sample_codec mem_redis sample_py paused_world (\<lambda>i. if i < 3 then Some InHeartbeat else None) False None 0 (3 + 1) 0 (Some 5) None
     1 [] None sample_worker (mem_empty, []) =
   bindO (dequeue_polls sample_codec mem_redis sample_py paused_world None 0 1 3 (Some 5) None sample_worker)
     (\<lambda>r. ret (map_option (\<lambda>(k1, found, w1). (k1, found, w1, [1, 2, 4])) r))
     (wd_others paused_world 2 (wd_others paused_world 1 (wd_others paused_world 0 mem_empty)), [])"
  using outage_only_delays [of 3 "\<lambda>i. if i < 3 then Some InHeartbeat else None" 0 sample_codec mem_redis sample_py paused_world False None 0 1 "Some 5" None
      sample_worker mem_empty "[]"]
  by (simp add: upt_rec numeral_eq_Suc del: dequeue_polls.simps polls_with_outages.simps)

section \<open>Outages that cost a job\<close>

lemma version_outage_step:
  assumes "B k = Some InVersion" "asks_version known w1"
    and "dequeue_polls C R P W None since 1 k None None w c = (Inr (Some (k1, Some (j, q), w1)), c1)"
  shows "polls_with_outages C R P W B known None since (Suc n) k None None wait slept found w c =
    polls_with_outages C R P W B known None since n (Suc k) None None (next_wait wait) (slept @ [wait]) (Some (j, q)) w1 c1"
  using assms
  by (auto simp: broken_maintenance_def Let_def bindO_def seqO_def split: prod.splits sum.splits option.splits)

lemma empty_poll_forgets:
  assumes "B k = None" "dequeue_polls C R P W None since 1 k None None w c = (Inr (Some (k1, None, w1)), c1)"
  shows "polls_with_outages C R P W B known None since (Suc n) k None None wait slept found w c = (Inr (Some (k1, None, w1, slept)), c1)"
  using assms
  by (auto simp: broken_maintenance_def Let_def bindO_def seqO_def split: prod.splits sum.splits option.splits)

text \<open>
  The question for the version comes after the job was taken, and in the same \<open>try\<close>: when the connection breaks there, the next
  dequeue replaces the job that was taken, which with several queues has left no trace on the server. A burst worker that finds nothing else ends without it.
\<close>

theorem version_outage_forgets:
  assumes "B k = Some InVersion" "B (Suc k) = None" "asks_version known w1"
    and "dequeue_polls C R P W None since 1 k None None w c = (Inr (Some (k1, Some (j, q), w1)), c1)"
    and "dequeue_polls C R P W None since 1 (Suc k) None None w1 c1 = (Inr (Some (k2, None, w2)), c2)"
  shows "polls_with_outages C R P W B known None since (Suc (Suc n)) k None None 1 [] None w c = (Inr (Some (k2, None, w2, [1])), c2)"
  using version_outage_step [where B = B and n = "Suc n" and wait = 1 and slept = "[]" and found = None, OF assms(1,3,4)]
    empty_poll_forgets [where B = B and n = n and slept = "[1]", OF assms(2,5)]
  by (simp only: append_Nil)

text \<open>The heartbeat after the loop is outside of the \<open>try\<close>: when it fails, the job that was taken is not returned.\<close>

lemma last_heartbeat_raises:
  "fst (dequeue_with_outages C R P W B known b True timeout max_idle n k w c) \<noteq> Inr (Some r)"
  by (simp add: dequeue_with_outages_def)
    (simp add: bindO_def split: prod.splits sum.splits option.splits)

section \<open>A failure that is not written\<close>

text \<open>
  \<open>handle_job_failure\<close> over a connection that may break in its transactions: \<open>first\<close> and \<open>second\<close> tell whether it does, and then
  whether the server has carried out the transaction all the same. The pipeline is empty afterwards. The first error is suppressed, the
  second logged.
\<close>

definition broken_execute :: "'s redis \<Rightarrow> bool option \<Rightarrow> ('s, unit) op" where
  "broken_execute R b =
     (case b of
        None \<Rightarrow> execute R
      | Some done \<Rightarrow> seqO (if done then execute R else (\<lambda>(s, buf). (Inr (), (s, [])))) (raiseO ConnectionError))"

definition handle_job_failure_with_outage ::
  "codec \<Rightarrow> 's redis \<Rightarrow> py \<Rightarrow> datetime \<Rightarrow> queue \<Rightarrow> bool option \<Rightarrow> bool option \<Rightarrow> string \<Rightarrow> job \<Rightarrow> worker \<Rightarrow> ('s, worker \<times> job) op" where
  "handle_job_failure_with_outage C R P u q first second exc j w =
     (let stopped = (w_stopped_job_id w = Some (j_id j));
          again = (should_retry j \<and> \<not> stopped);
          w1 = w\<lparr>w_stopped_job_id := (if stopped then None else w_stopped_job_id w), w_execution := None\<rparr>
      in new_pipe
        (bindO (if stopped then set_status_on R True STOPPED j
                else if again then ret j else set_status_on R True FAILED j) (\<lambda>j1.
         seqO (send R True (cleanup_execution j1 w))
           (bindO (if \<not> w_disable_default_handler w \<and> \<not> again
                   then bindO (handle_failure C R u exc (w_name w) (worker_exec j1 w) j1) (\<lambda>j2.
                     seqO (catchO (broken_execute R first) (\<lambda>e. if e = ConnectionError then Some (ret ()) else None)) (ret j2))
                   else ret j1) (\<lambda>j2.
            seqO (send R True (increment_failed_job_count w @ working_time_cmds j2 w))
              (bindO (if again then retry_job C R P u q j2 else ret j2) (\<lambda>j3.
                seqO
                  (catchO
                    (seqO (broken_execute R second)
                      (if \<not> again then enqueue_dependents C R P u q False None True j3 else ret ()))
                    (\<lambda>e. Some (ret ())))
                  (ret (w1, j3)))))))))"

lemma failure_without_outage: "handle_job_failure_with_outage C R P u q None None exc j w = handle_job_failure C R P u q exc j w"
proof -
  have ok: "broken_execute R None = execute R" by (simp add: broken_execute_def)
  have "catchO (execute R) (\<lambda>e. if e = ConnectionError then Some (ret ()) else None) = execute R"
    by (simp add: catchO_def execute_def fun_eq_iff)
  then show ?thesis by (simp only: handle_job_failure_with_outage_def handle_job_failure_def finish_failure_def ok)
qed

context redis_server
begin

lemma lost_failure_run:
  fixes s :: 's
  assumes "fails_as st j w" "sset R s (dependents_key (j_id j)) = {}"
    and n: "n = opt_default default_failure_ttl (j_failure_ttl j)" "0 < n"
    and td: "to_dict C False False (j\<lparr>j_status := st, j_exc_info := Some exc\<rparr>) = Inr (fs, j3)"
    and rc: "create_failure C (j_id j) (j_failure_ttl j) exc (w_name w) (worker_exec j w) = Inr rc"
  shows "handle_job_failure_with_outage C R P u q (Some False) None exc j w (s, buf) =
    (Inr (w\<lparr>w_stopped_job_id := (if w_stopped_job_id w = Some (j_id j) then None else w_stopped_job_id w), w_execution := None\<rparr>, j3),
     (run_all R (increment_failed_job_count w @ working_time_cmds j w) s, buf))"
proof -
  obtain d where d: "get_data C (j\<lparr>j_status := st, j_exc_info := Some exc\<rparr>) = Inr (d, j3)" using td by (rule to_dict_Inr)
  have same: "j_id j3 = j_id j" "j_origin j3 = j_origin j" "j_failure_ttl j3 = j_failure_ttl j"
    "j_started_at j3 = j_started_at j" "j_ended_at j3 = j_ended_at j"
    by (subst get_data_fields [OF d], simp)+
  let ?tail = "increment_failed_job_count w @ working_time_cmds j w"
  have touch: "\<forall>c \<in> set ?tail. dependents_key (j_id j) \<notin> set (touches c)"
    by (auto simp: increment_failed_job_count_def working_time_cmds_def increment_total_working_time_def w_key_def split: option.split)
  have "dependent_ids R (run_all R ?tail s) (j_id j) = []"
    using run_all_frame(2) [OF touch, of s] assms(2) by (simp add: dependent_ids_def set_empty_iff)
  then have fin: "catchO (seqO (execute R) (enqueue_dependents C R P u q False None True j3)) (\<lambda>e. Some (ret ())) (s, ?tail) =
      (Inr (), (run_all R ?tail s, []))"
    by (simp add: catchO_def bindO_def seqO_def enqueue_dependents_def own_pipe_def new_pipe_def same)
  have ok: "w_stopped_job_id w = Some (j_id j) \<or> \<not> should_retry j" "\<not> w_disable_default_handler w"
    "st = (if w_stopped_job_id w = Some (j_id j) then STOPPED else FAILED)"
    using assms(1) by (auto simp: fails_as_def split: if_splits)
  have fa: "failed_add C R u True (j_failure_ttl j) exc (j\<lparr>j_status := st\<rparr>) (s, b) =
      (Inr j3, (s, b @ HSet (job_key (j_id j)) fs # expire_keys j n @
        [ZAdd ZAny (registry_key Failed (j_origin j)) (j_id j) (Fin (current_timestamp u + n))]))" for b
    using td n by (simp add: failed_add_def Let_def save_on_def save_def bindO_def seqO_def cleanup_def same
        expire_keys_same [OF same(1)])
  have status_step: "(if w_stopped_job_id w = Some (j_id j) then set_status_on R True STOPPED j
      else if should_retry j \<and> w_stopped_job_id w \<noteq> Some (j_id j) then ret j else set_status_on R True FAILED j) = set_status_on R True st j"
    using ok by auto
  have again: "(should_retry j \<and> w_stopped_job_id w \<noteq> Some (j_id j)) = False" using ok(1) by blast
  have ex: "worker_exec (j\<lparr>j_status := st\<rparr>) w = worker_exec j w" by (simp add: worker_exec_def)
  have tail: "working_time_cmds j3 w = working_time_cmds j w" by (rule working_time_same) (simp_all add: same)
  show ?thesis
    unfolding handle_job_failure_with_outage_def Let_def status_step unfolding again
    using ok(2) rc fin
    by (simp add: Let_def new_pipe_def bindO_def seqO_def set_status_on_def set_status_def broken_execute_def
        handle_failure_def fa ex catchO_def cleanup_execution_same [of "j\<lparr>j_status := st\<rparr>" j] tail same)
qed

text \<open>
  A failure whose first transaction is lost goes unseen: the job is left as it was, in its status, with its execution among the started jobs and
  on no registry of failed jobs, while the worker counts the failure and gives up the execution. Only the cleanup of the started
  jobs finds it, when the execution has expired.
\<close>

theorem lost_failure_unseen:
  fixes s :: 's
  assumes "fails_as st j w" "sset R s (dependents_key (j_id j)) = {}"
    and "n = opt_default default_failure_ttl (j_failure_ttl j)" "0 < n"
    and "to_dict C False False (j\<lparr>j_status := st, j_exc_info := Some exc\<rparr>) = Inr (fs, j3)"
    and "create_failure C (j_id j) (j_failure_ttl j) exc (w_name w) (worker_exec j w) = Inr rc"
  shows "\<exists>w' j' s'. handle_job_failure_with_outage C R P u q (Some False) None exc j w (s, buf) = (Inr (w', j'), (s', buf)) \<and>
    w_execution w' = None \<and> hget R s' (job_key (j_id j)) = hget R s (job_key (j_id j)) \<and>
    (\<forall>k p. zscore R s' (registry_key k p) = zscore R s (registry_key k p))"
proof -
  let ?tail = "increment_failed_job_count w @ working_time_cmds j w"
  have touch: "\<forall>c \<in> set ?tail. job_key (j_id j) \<notin> set (touches c)" "\<forall>c \<in> set ?tail. registry_key k p \<notin> set (touches c)" for k p
    by (auto simp: increment_failed_job_count_def working_time_cmds_def increment_total_working_time_def w_key_def split: option.split)
  have kept: "hget R (run_all R ?tail s) (job_key (j_id j)) = hget R s (job_key (j_id j))"
    "\<forall>k p. zscore R (run_all R ?tail s) (registry_key k p) = zscore R s (registry_key k p)"
    using run_all_frame(4) [OF touch(1)] run_all_frame(3) [OF touch(2)] by blast+
  show ?thesis unfolding lost_failure_run [OF assms] by (intro exI conjI, rule refl, simp, rule kept, rule kept)
qed

end

end
