(* ===== verification/Burst.thy ===== *)
theory Burst
  imports Work
begin

text \<open>
  What a worker in burst mode leaves behind (\<open>work(burst=True)\<close> of \<open>rq/worker/base.py\<close>): it stops by itself only when none of its
  queues has an id left. The rounds of \<open>work\<close>
  are those of theory \<open>Work\<close>; that they end is proved there.
\<close>

context redis_server
begin

text \<open>When nothing is taken without blocking, all queues are empty.\<close>

lemma take_job_empty:
  assumes "take_job C R W t None w (s, buf) = (Inr None, (s', buf'))" "distinct (map q_name (w_ordered w))"
  shows "waiting R (map (queue_key \<circ> q_name) (w_ordered w)) s' = []"
proof -
  let ?qs = "map q_name (w_ordered w)" and ?n = "Suc (length (waiting R (map (queue_key \<circ> q_name) (w_ordered w)) s))"
  have keys: "map queue_key ?qs = map (queue_key \<circ> q_name) (w_ordered w)" by simp
  obtain r s1 where d: "dequeue_loop C R t (wd_version W) ?n (map queue_key ?qs) None s = Some (r, s1)"
    and r: "case dropWhile (missing C R s t) (waiting R (map queue_key ?qs) s) of
       [] \<Rightarrow> r = (if (None :: int option) = None then Inr None else Inl DequeueTimeout) \<and> waiting R (map queue_key ?qs) s1 = []
     | i # rest \<Rightarrow> waiting R (map queue_key ?qs) s1 = rest \<and> (\<exists>q \<in> set ?qs. r = bindE (fetch C R s t i) (\<lambda>j. Inr (Some (j, q))))"
    using dequeue_loop_result [OF option.distinct(1) assms(2), of s ?n C t "wd_version W", unfolded keys, OF lessI] unfolding keys by blast
  have "r = Inr None" "s1 = s'" using assms(1) d by (simp_all add: take_job_def act_def dequeue_any_def keys del: dequeue_loop.simps)
  have none: "bindE (fetch C R s t i) (\<lambda>j. Inr (Some (j, q))) \<noteq> Inr None" for i and q :: string
    by (cases "fetch C R s t i") simp_all
  show ?thesis
  proof (cases "dropWhile (missing C R s t) (waiting R (map queue_key ?qs) s)")
    case Nil
    with r \<open>s1 = s'\<close> show ?thesis by (simp only: list.case keys)
  next
    case (Cons i rest)
    with r \<open>r = Inr None\<close> obtain q :: string where "Inr None = bindE (fetch C R s t i) (\<lambda>j. Inr (Some (j, q)))" by auto
    then show ?thesis using none [of i q] by metis
  qed
qed

lemma polls_empty:
  assumes "dequeue_polls C R P W max_idle since n k None left w c = (Inr (Some (k1, None, w1)), (s', buf'))"
    and "distinct (map q_name (w_ordered w1))"
  shows "waiting R (map (queue_key \<circ> q_name) (w_ordered w1)) s' = []"
proof (cases n)
  case (Suc n')
  from assms(1) obtain s2 b2 t where "take_job C R W t None w1 (s2, b2) = (Inr None, (s', buf'))"
    using take_job_not [of C R W "wd_clock W k"]
    by (auto simp: Suc seqO_def bindO_def catchO_def split: prod.splits sum.splits option.splits if_splits)
  then show ?thesis using assms(2) by (rule take_job_empty)
qed (use assms(1) in simp)

lemma heartbeat_keeps:
  assumes "worker_heartbeat_on R False None t w (s, buf) = (Inr w', (s', buf'))"
  shows "w_ordered w' = w_ordered w" "w_stop_requested w' = w_stop_requested w"
    "waiting R (map (queue_key \<circ> q_name) qs) s' = waiting R (map (queue_key \<circ> q_name) qs) s"
proof -
  have touch: "\<forall>c \<in> set (fst (worker_heartbeat None t w)). queue_key q \<notin> set (touches c)" for q
    by (auto simp: worker_heartbeat_def Let_def w_key_def)
  have "s' = run_all R (fst (worker_heartbeat None t w)) s"
    using assms by (auto simp: worker_heartbeat_on_def seqO_def bindO_def worker_heartbeat_def Let_def)
  then show "waiting R (map (queue_key \<circ> q_name) qs) s' = waiting R (map (queue_key \<circ> q_name) qs) s"
    by (simp add: waiting_def run_all_frame(1) [OF touch] comp_def)
  show "w_ordered w' = w_ordered w" "w_stop_requested w' = w_stop_requested w"
    using assms by (auto simp: worker_heartbeat_on_def seqO_def bindO_def worker_heartbeat_def Let_def)
qed

lemma dequeue_empty:
  assumes "dequeue_job_and_maintain_ttl C R P W None max_idle n k w c = (Inr (Some (k1, None, w1)), (s', buf'))"
    and "distinct (map q_name (w_ordered w1))"
  shows "waiting R (map (queue_key \<circ> q_name) (w_ordered w1)) s' = []"
proof -
  obtain c1 w0 w2 s2 b2 where polls: "dequeue_polls C R P W max_idle (wd_clock W k) n k None max_idle w0 c1 = (Inr (Some (k1, None, w2)), (s2, b2))"
    and beat: "worker_heartbeat_on R False None (wd_clock W k1) w2 (s2, b2) = (Inr w1, (s', buf'))"
    using assms(1) by (auto simp: dequeue_job_and_maintain_ttl_def bindO_def split: prod.splits sum.splits option.splits)
  have "w_ordered w2 = w_ordered w1" using heartbeat_keeps(1) [OF beat] by simp
  then show ?thesis using polls_empty [OF polls] heartbeat_keeps(3) [OF beat, of "w_ordered w1"] assms(2) by simp
qed

lemma idle_round_empty:
  assumes "work_round C R P W True max_idle n k w c = (Inr (Some (k1, False, w1)), (s', buf'))"
    and "\<not> w_stop_requested w1" "distinct (map q_name (w_ordered w1))"
  shows "waiting R (map (queue_key \<circ> q_name) (w_ordered w1)) s' = []"
proof -
  obtain w2 c2 k2 where "dequeue_job_and_maintain_ttl C R P W None max_idle n k2 w2 c2 = (Inr (Some (k1, None, w1)), (s', buf'))"
    using assms(1,2) by (auto simp: work_round_def bindO_def split: prod.splits sum.splits option.splits if_splits)
  then show ?thesis using assms(3) by (rule dequeue_empty)
qed

text \<open>A round of a worker that has nothing to do.\<close>

lemma take_job_idle:
  assumes "waiting R (map (queue_key \<circ> q_name) (w_ordered w)) s = []" "distinct (map q_name (w_ordered w))"
  shows "\<exists>s'. take_job C R W t None w (s, buf) = (Inr None, (s', buf))"
proof -
  have keys: "map queue_key (map q_name (w_ordered w)) = map (queue_key \<circ> q_name) (w_ordered w)" by simp
  obtain s' where "dequeue_loop C R t (wd_version W) 1 (map (queue_key \<circ> q_name) (w_ordered w)) None s = Some (Inr None, s')"
    using dequeue_loop_result [OF option.distinct(1) assms(2), of s 1 C t "wd_version W"] by (auto simp: keys assms(1))
  then show ?thesis by (simp add: take_job_def act_def dequeue_any_def assms(1) del: dequeue_loop.simps)
qed

lemma worker_key_keeps:
  assumes "set (touches c) \<subseteq> {w_key w}"
  shows "waiting R (map (queue_key \<circ> q_name) qs) (r_run R c s) = waiting R (map (queue_key \<circ> q_name) qs) s"
    "key_exists R (r_run R c s) suspended_key = key_exists R s suspended_key"
proof -
  have frame: "queue_key q \<notin> set (touches c)" "suspended_key \<notin> set (touches c)" for q using assms by (auto simp: w_key_def)
  show "waiting R (map (queue_key \<circ> q_name) qs) (r_run R c s) = waiting R (map (queue_key \<circ> q_name) qs) s"
    by (simp add: waiting_def run_frame frame comp_def)
  show "key_exists R (r_run R c s) suspended_key = key_exists R s suspended_key" by (rule key_exists_frame [OF frame(2)])
qed

lemmas beat_defs = worker_heartbeat_on_def worker_heartbeat_def set_state_on_def set_state_def seqO_def bindO_def Let_def others_def act_def

lemma dequeue_idle:
  assumes "\<And>i s. wd_others W i s = s" "\<not> w_stop_requested w" "\<And>i. \<not> should_run_maintenance_tasks (wd_clock W i) w"
    and "waiting R (map (queue_key \<circ> q_name) (w_ordered w)) s = []" "distinct (map q_name (w_ordered w))"
  shows "\<exists>w' c'. dequeue_job_and_maintain_ttl C R P W None max_idle (Suc n) k w (s, buf) = (Inr (Some (Suc k, None, w')), c') \<and>
    \<not> w_stop_requested w' \<and> w_ordered w' = w_ordered w"
proof -
  let ?w = "w\<lparr>w_state := ''idle'', w_last_heartbeat := Some (wd_clock W k)\<rparr>"
  let ?s = "run_all R [HSet (w_key w) [(''state'', ''idle'')], HSet (w_key w) [(''last_heartbeat'', utcformat (wd_clock W k))],
    Expire (w_key w) (w_ttl w + 60)] s"
  have due: "\<not> should_run_maintenance_tasks (wd_clock W i) ?w" for i
    using assms(3) [of i] by (simp add: should_run_maintenance_tasks_def split: option.splits)
  have "waiting R (map (queue_key \<circ> q_name) (w_ordered ?w)) ?s = []" using assms(4) by (simp add: worker_key_keeps)
  then obtain s' where "take_job C R W (wd_clock W k) None ?w (?s, buf) = (Inr None, (s', buf))"
    using take_job_idle [of ?w] assms(5) by fastforce
  then show ?thesis
    using assms(2) by (simp add: dequeue_job_and_maintain_ttl_def beat_defs assms(1) due maintain_def w_key_def catchO_def)
qed

lemma idle_round:
  assumes "\<not> key_exists R s suspended_key" "\<And>i s. wd_others W i s = s" "\<not> w_stop_requested w"
    and "\<And>i. \<not> should_run_maintenance_tasks (wd_clock W i) w"
    and "waiting R (map (queue_key \<circ> q_name) (w_ordered w)) s = []" "distinct (map q_name (w_ordered w))"
  shows "\<exists>k1 w' c'. work_round C R P W True max_idle (Suc n) k w (s, buf) = (Inr (Some (k1, False, w')), c') \<and>
    \<not> w_stop_requested w' \<and> w_ordered w' = w_ordered w"
proof -
  let ?w = "w\<lparr>w_last_heartbeat := Some (wd_clock W k)\<rparr>"
  let ?s = "run_all R [HSet (w_key w) [(''last_heartbeat'', utcformat (wd_clock W k))], Expire (w_key w) (w_ttl w + 60)] s"
  have due: "\<not> should_run_maintenance_tasks (wd_clock W i) ?w" for i
    using assms(4) [of i] by (simp add: should_run_maintenance_tasks_def split: option.splits)
  have "waiting R (map (queue_key \<circ> q_name) (w_ordered ?w)) ?s = []" using assms(5) by (simp add: worker_key_keeps)
  then obtain w' c' where "dequeue_job_and_maintain_ttl C R P W None max_idle (Suc n) (Suc k) ?w (?s, buf) = (Inr (Some (Suc (Suc k), None, w')), c')"
    "\<not> w_stop_requested w'" "w_ordered w' = w_ordered w"
    using dequeue_idle [of W ?w ?s C P max_idle n "Suc k" buf] assms(2,3,6) due by auto
  then show ?thesis
    using assms(1,3) by (cases c')
      (simp add: work_round_def check_for_suspension_def is_suspended_def beat_defs assms(2) worker_key_keeps due maintain_def)
qed

lemma death_keeps:
  assumes "register_death R t w (s, buf) = (Inr (), (s', buf'))"
  shows "waiting R (map (queue_key \<circ> q_name) qs) s' = waiting R (map (queue_key \<circ> q_name) qs) s"
proof -
  let ?cs = "unregister w @ [HSet (w_key w) [(''death'', utcformat t)], Expire (w_key w) 60]"
  have touch: "\<forall>c \<in> set ?cs. queue_key q \<notin> set (touches c)" for q by (auto simp: unregister_def w_key_def)
  have "s' = run_all R ?cs s" using assms by (auto simp: register_death_def)
  then show ?thesis by (simp only: waiting_def run_all_frame(1) [OF touch] comp_def list.map_comp)
qed

lemma birth_keeps:
  assumes "register_birth R t w (s, buf) = (Inr w1, (s', buf'))"
  shows "waiting R (map (queue_key \<circ> q_name) qs) s' = waiting R (map (queue_key \<circ> q_name) qs) s"
    "key_exists R s' suspended_key = key_exists R s suspended_key"
    "w1 = w\<lparr>w_birth_date := Some t, w_last_heartbeat := Some t\<rparr>"
proof -
  let ?w = "w\<lparr>w_birth_date := Some t, w_last_heartbeat := Some t\<rparr>"
  obtain fs where s': "s' = run_all R ([Del [w_key w], HSet (w_key w) fs] @ register ?w @ [Expire (w_key w) (w_ttl w + 60)]) s"
      (is "s' = run_all R (?cs fs) s") and w1: "w1 = ?w"
    using assms by (auto simp: register_birth_def bindO_def seqO_def Let_def split: sum.splits if_splits)
  have touch: "\<forall>c \<in> set (?cs fs). queue_key q \<notin> set (touches c)" "\<forall>c \<in> set (?cs fs). suspended_key \<notin> set (touches c)" for q
    by (auto simp: register_def w_key_def)
  show "waiting R (map (queue_key \<circ> q_name) qs) s' = waiting R (map (queue_key \<circ> q_name) qs) s"
    by (simp only: s' waiting_def run_all_frame(1) [OF touch(1)] comp_def list.map_comp)
  show "key_exists R s' suspended_key = key_exists R s suspended_key" unfolding s' by (rule run_all_frame(7) [OF touch(2)])
  show "w1 = ?w" by (rule w1)
qed

end

text \<open>
  The rounds of a worker: each does one job, and the last one, \<open>ends_idle\<close>, comes back with none and without an exception. What
  \<open>work_loop\<close> gives for them.
\<close>

inductive job_rounds ::
  "codec \<Rightarrow> 's redis \<Rightarrow> py \<Rightarrow> 's world \<Rightarrow> int option \<Rightarrow> nat \<Rightarrow> nat \<Rightarrow> nat \<times> worker \<times> 's conn \<Rightarrow> nat \<times> worker \<times> 's conn \<Rightarrow> bool"
  for C R P W max_idle where
  no_job: "job_rounds C R P W max_idle n 0 x x"
| a_job: "work_round C R P W True max_idle (n + Suc m) k w c = (Inr (Some (k1, True, w1)), c1) \<Longrightarrow>
    job_rounds C R P W max_idle n m (k1, w1, c1) y \<Longrightarrow> job_rounds C R P W max_idle n (Suc m) (k, w, c) y"

lemma loop_of_rounds:
  assumes "job_rounds C R P W max_idle n m (k, w, c) (k1, w1, c1)"
    and "work_round C R P W True max_idle n k1 w1 c1 = (Inr (Some (k2, False, w2)), c2)"
  shows "work_loop C R P W True None max_idle (Suc (n + m)) k done w c = (Inr (Some (k2, done + m, w2)), c2)"
  using assms
proof (induction n m "(k, w, c)" "(k1, w1, c1)" arbitrary: k w c "done" rule: job_rounds.induct)
  case (no_job n)
  then show ?case by (simp add: bindO_def catchO_def)
next
  case (a_job n m k w c k' w' c')
  have "work_loop C R P W True None max_idle (Suc (n + m)) k' (Suc done) w' c' = (Inr (Some (k2, Suc done + m, w2)), c2)"
    using a_job.hyps(3) a_job.prems by blast
  with a_job.hyps(1) show ?case unfolding add_Suc_right by (subst work_loop.simps(2)) (simp add: bindO_def catchO_def del: work_loop.simps)
qed

section \<open>Properties\<close>

text \<open>
  C10. A worker in burst mode leaves nothing behind: when its rounds did \<open>m\<close> jobs and the next one came back with none, without an
  exception and without a request to stop, \<open>work\<close> tells whether there was a job, and every queue of the worker is empty.
\<close>

theorem burst_leaves_nothing:
  assumes "redis_server R" "register_birth R (wd_clock W 0) w c = (Inr w1, c1)" "set_state_on R False ''started'' w1 c1 = (Inr w2, c2)"
    and "job_rounds C R P W max_idle n m (0, w2, c2) (k, w3, c3)"
    and "work_round C R P W True max_idle n k w3 c3 = (Inr (Some (k1, False, w4)), c4)"
    and "\<not> w_stop_requested w4" "distinct (map q_name (w_ordered w4))"
  shows "\<exists>s' buf'. work C R P W True None max_idle (Suc (n + m)) w c = (Inr (Some (0 < m)), (s', buf')) \<and>
    (\<forall>q \<in> set (w_ordered w4). r_list R s' (queue_key (q_name q)) = [])"
proof -
  obtain s4 b4 where c4: "c4 = (s4, b4)" by (cases c4)
  have empty: "waiting R (map (queue_key \<circ> q_name) (w_ordered w4)) s4 = []"
    by (rule redis_server.idle_round_empty [OF assms(1) assms(5) [unfolded c4] assms(6,7)])
  obtain s' buf' where death: "register_death R (wd_clock W k1) w4 (s4, b4) = (Inr (), (s', buf'))"
    by (auto simp: register_death_def)
  have "work C R P W True None max_idle (Suc (n + m)) w c = (Inr (Some (0 < m)), (s', buf'))"
    using loop_of_rounds [OF assms(4,5), of 0] by (simp add: work_def bindO_def seqO_def assms(2,3) c4 death del: work_loop.simps)
  moreover have "waiting R (map (queue_key \<circ> q_name) (w_ordered w4)) s' = []" by (rule trans [OF redis_server.death_keeps [OF assms(1) death] empty])
  ultimately show ?thesis by (auto simp: waiting_def)
qed

definition calm_world :: "mem world" where
  "calm_world = paused_world\<lparr>wd_clock := (\<lambda>_. 0), wd_others := (\<lambda>_ s. s)\<rparr>"

theorem burst_leaves_nothing_witness:
  "\<exists>w s' buf'. map q_name (w_ordered w) = [''q''] \<and>
     work sample_codec mem_redis sample_py calm_world True None None 2 w (mem_empty, []) = (Inr (Some False), (s', buf')) \<and>
     r_list mem_redis s' (queue_key ''q'') = []"
proof -
  let ?w = "(new_worker Simple ''w'' [default_queue ''q''] None ''3'')\<lparr>w_pid := Some 1, w_hostname := Some ''h'', w_last_cleaned_at := Some 0\<rparr>"
  have "registrable ?w" by (simp add: registrable_def new_worker_def default_queue_def default_worker_ttl_def)
  then obtain s1 where birth: "register_birth mem_redis (wd_clock calm_world 0) ?w (mem_empty, []) =
      (Inr (?w\<lparr>w_birth_date := Some 0, w_last_heartbeat := Some 0\<rparr>), (s1, []))" (is "_ = (Inr ?w1, _)")
    using mem.register_birth_run [of ?w mem_empty 0 _ "[]"] by (auto simp: serialize_def new_worker_def calm_world_def)
  note kept = mem.birth_keeps [OF this]
  define s2 where s2: "s2 = r_run mem_redis (HSet (w_key ?w1) [(''state'', ''started'')]) s1"
  have state: "set_state_on mem_redis False ''started'' ?w1 (s1, []) = (Inr (?w1\<lparr>w_state := ''started''\<rparr>), (s2, []))"
      (is "_ = (Inr ?w2, _)") unfolding s2 by (simp add: set_state_on_def set_state_def seqO_def bindO_def)
  have qs: "w_ordered ?w2 = [default_queue ''q'']" by (simp add: new_worker_def)
  have "\<exists>k1 w' c'. work_round sample_codec mem_redis sample_py calm_world True None (Suc 0) 0 ?w2 (s2, []) = (Inr (Some (k1, False, w')), c') \<and>
    \<not> w_stop_requested w' \<and> w_ordered w' = w_ordered ?w2"
  proof (rule mem.idle_round [unfolded One_nat_def])
    show "\<not> key_exists mem_redis s2 suspended_key" "waiting mem_redis (map (queue_key \<circ> q_name) (w_ordered ?w2)) s2 = []"
      using kept(2) kept(1) [of "[default_queue ''q'']"] by (simp_all add: s2 new_worker_def waiting_def mem.list_run mem.key_exists_frame w_key_def)
    show "\<not> should_run_maintenance_tasks (wd_clock calm_world i) ?w2" for i
      by (simp add: should_run_maintenance_tasks_def calm_world_def new_worker_def)
  qed (simp_all add: calm_world_def new_worker_def)
  then obtain k1 w4 c4 where "work_round sample_codec mem_redis sample_py calm_world True None 1 0 ?w2 (s2, []) = (Inr (Some (k1, False, w4)), c4)"
    "\<not> w_stop_requested w4" "w_ordered w4 = [default_queue ''q'']" unfolding qs by auto
  from burst_leaves_nothing [OF mem.redis_server_axioms birth state job_rounds.no_job this(1,2)] this(3)
  show ?thesis by (intro exI [of _ ?w]) (auto simp: new_worker_def default_queue_def numeral_eq_Suc)
qed

end
