(* ===== verification/Cli.thy ===== *)
theory Cli
  imports Worker Serializers
begin

text \<open>
  The command line (\<open>rq/cli/cli.py\<close>, \<open>rq/cli/helpers.py\<close>): how the arguments of a job are read, and the commands
  that change the server: enqueueing, requeueing failed jobs, emptying queues, pausing and resuming the workers.

  Reading a file and \<open>ast.literal_eval\<close> are parameters: \<open>files\<close> gives a file's text or the exception of
  \<open>open\<close>, \<open>le\<close> a Python value or nothing when it raises. What the commands print is left out.
\<close>

section \<open>Arguments of a job\<close>

datatype parsing_mode = PlainText | JsonMode | LiteralEval

definition find_char :: "char \<Rightarrow> string \<Rightarrow> nat option" where
  "find_char c s = (if c \<in> set s then Some (length (takeWhile (\<lambda>d. d \<noteq> c) s)) else None)"

text \<open>The first part of \<open>parse_function_arg\<close>: how the value is written, its keyword, and its text.\<close>

definition split_arg :: "string \<Rightarrow> parsing_mode \<times> string option \<times> string" where
  "split_arg a =
     (if take 1 a = '':'' then (JsonMode, None, drop 1 a)
      else if take 1 a = ''%'' then (LiteralEval, None, drop 1 a)
      else
        case find_char CHR ''='' a of
          None \<Rightarrow> (PlainText, None, a)
        | Some i \<Rightarrow>
            if i = 0 then (PlainText, None, a)
            else if map_option Suc (find_char CHR '':'' a) = Some i then (JsonMode, Some (take (i - 1) a), drop (i + 1) a)
            else if map_option Suc (find_char CHR ''%'' a) = Some i then (LiteralEval, Some (take (i - 1) a), drop (i + 1) a)
            else (PlainText, Some (take i a), drop (i + 1) a))"

definition arg_text :: "(string \<Rightarrow> string res) \<Rightarrow> string \<Rightarrow> string res" where
  "arg_text files v =
     (if take 1 v = ''@'' then
        (case files (drop 1 v) of
           Inl e \<Rightarrow> Inl (if e = FileNotFoundError then FileError else e)
         | Inr s \<Rightarrow> Inr s)
      else Inr v)"

definition parse_json_value :: "floats \<Rightarrow> string \<Rightarrow> pyval res" where
  "parse_json_value F s = (case json_loads F s of None \<Rightarrow> Inl BadParameter | Some v \<Rightarrow> Inr v)"

definition parse_literal_eval_value :: "(string \<Rightarrow> pyval option) \<Rightarrow> string \<Rightarrow> pyval res" where
  "parse_literal_eval_value le s = (case le s of None \<Rightarrow> Inl BadParameter | Some v \<Rightarrow> Inr v)"

definition parse_function_arg ::
  "floats \<Rightarrow> (string \<Rightarrow> string res) \<Rightarrow> (string \<Rightarrow> pyval option) \<Rightarrow> string \<Rightarrow> (string option \<times> pyval) res" where
  "parse_function_arg F files le a =
     (case split_arg a of
        (mode, keyword, v) \<Rightarrow>
          bindE (arg_text files v) (\<lambda>s.
          bindE (case mode of
                   PlainText \<Rightarrow> Inr (PStr s)
                 | JsonMode \<Rightarrow> parse_json_value F s
                 | LiteralEval \<Rightarrow> parse_literal_eval_value le s) (\<lambda>x. Inr (keyword, x))))"

definition add_arg ::
  "string option \<times> pyval \<Rightarrow> pyval list \<times> (string \<times> pyval) list \<Rightarrow> (pyval list \<times> (string \<times> pyval) list) res" where
  "add_arg kv ak =
     (case (kv, ak) of
        ((None, v), args, kwargs) \<Rightarrow> Inr (args @ [v], kwargs)
      | ((Some k, v), args, kwargs) \<Rightarrow> if k \<in> fst ` set kwargs then Inl BadParameter else Inr (args, kwargs @ [(k, v)]))"

fun parse_args_from ::
  "floats \<Rightarrow> (string \<Rightarrow> string res) \<Rightarrow> (string \<Rightarrow> pyval option) \<Rightarrow> string list \<Rightarrow> pyval list \<times> (string \<times> pyval) list \<Rightarrow>
   (pyval list \<times> (string \<times> pyval) list) res" where
  "parse_args_from F files le [] ak = Inr ak"
| "parse_args_from F files le (a # as) ak =
     bindE (parse_function_arg F files le a) (\<lambda>kv. bindE (add_arg kv ak) (parse_args_from F files le as))"

definition parse_function_args ::
  "floats \<Rightarrow> (string \<Rightarrow> string res) \<Rightarrow> (string \<Rightarrow> pyval option) \<Rightarrow> string list \<Rightarrow> (pyval list \<times> (string \<times> pyval) list) res" where
  "parse_function_args F files le as = parse_args_from F files le as ([], [])"

section \<open>Options\<close>

text \<open>
  \<open>parse_schedule\<close>: the time, and whether it is a local one. The format of \<open>--schedule-at\<close> is that of
  \<open>strptime\<close> of theory \<open>Timefmt\<close> without the Z at the end.
\<close>

definition parse_schedule :: "datetime \<Rightarrow> string option \<Rightarrow> string option \<Rightarrow> (bool \<times> datetime) option res" where
  "parse_schedule t schedule_in schedule_at =
     (case schedule_in of
        Some d \<Rightarrow>
          if schedule_at \<noteq> None then Inl BadArgumentUsage
          else
            bindE (parse_timeout (TStr d)) (\<lambda>n.
              case n of None \<Rightarrow> Inl TypeError | Some n \<Rightarrow> Inr (Some (False, nat (int t + n * int usec))))
      | None \<Rightarrow>
          (case schedule_at of
             None \<Rightarrow> Inr None
           | Some a \<Rightarrow>
               (case strptime False (a @ ''Z'') of None \<Rightarrow> Inl ValueError | Some u \<Rightarrow> Inr (Some (True, u)))))"

fun first_scale :: "int list \<Rightarrow> int \<Rightarrow> int" where
  "first_scale [] x = x"
| "first_scale (c # cs) x = (if x \<le> c then c else first_scale cs x)"

definition get_scale :: "int \<Rightarrow> int" where
  "get_scale x = first_scale [20, 50, 100, 200, 400, 600, 800, 1000] x"

section \<open>Commands\<close>

record cli_options =
  co_queue :: string
  co_timeout :: "string option"
  co_result_ttl :: "string option"
  co_ttl :: "string option"
  co_failure_ttl :: "string option"
  co_description :: "string option"
  co_depends_on :: "string list"
  co_job_id :: "string option"
  co_at_front :: bool
  co_retry_max :: int
  co_retry_interval :: "int list"
  co_schedule_in :: "string option"
  co_schedule_at :: "string option"

definition text_timeout :: "string option \<Rightarrow> timeout" where
  "text_timeout s = (case s of None \<Rightarrow> TNone | Some x \<Rightarrow> TStr x)"

definition cli_create_args :: "cli_options \<Rightarrow> string \<Rightarrow> pyval list \<Rightarrow> (string \<times> pyval) list \<Rightarrow> string option \<Rightarrow> retry option \<Rightarrow> create_args" where
  "cli_create_args opts function args kwargs description retry =
     \<lparr>ca_func = FName function, ca_args = Some (PList args), ca_kwargs = Some kwargs,
      ca_result_ttl = text_timeout (co_result_ttl opts), ca_ttl = text_timeout (co_ttl opts), ca_status = None,
      ca_description = description, ca_depends_on = Some (Several (map (\<lambda>i. DRef (RId i)) (co_depends_on opts))),
      ca_timeout = text_timeout (co_timeout opts), ca_retry = retry, ca_id = co_job_id opts, ca_origin = co_queue opts,
      ca_meta = None, ca_failure_ttl = text_timeout (co_failure_ttl opts), ca_group_id = None, ca_on_success = CbNone,
      ca_on_failure = CbNone, ca_on_stopped = CbNone\<rparr>"

text \<open>\<open>zone\<close> is the offset of the local time, which a time of \<open>--schedule-at\<close> is given in.\<close>

definition cli_enqueue ::
  "floats \<Rightarrow> (string \<Rightarrow> string res) \<Rightarrow> (string \<Rightarrow> pyval option) \<Rightarrow> (pyval \<Rightarrow> string) \<Rightarrow> codec \<Rightarrow> 's redis \<Rightarrow> py \<Rightarrow> datetime \<Rightarrow>
   int \<Rightarrow> cli_options \<Rightarrow> string \<Rightarrow> string list \<Rightarrow> string \<Rightarrow> ('s, job) op" where
  "cli_enqueue F files le repr C R P t zone opts function arguments uid =
     bindO (liftE (parse_function_args F files le arguments)) (\<lambda>(args, kwargs).
     bindO (liftE (if 0 < co_retry_max opts
                   then bindE (make_retry (co_retry_max opts) (IList (co_retry_interval opts)) False) (\<lambda>r. Inr (Some r))
                   else Inr None)) (\<lambda>retry.
     bindO (liftE (parse_schedule t (co_schedule_in opts) (co_schedule_at opts))) (\<lambda>sch.
       let description = (if opt_default [] (co_description opts) = [] then get_call_string repr (Some function) args kwargs None
                          else co_description opts);
           a = cli_create_args opts function args kwargs description retry;
           q = default_queue (co_queue opts)
       in
       case sch of
         None \<Rightarrow> enqueue_call repr C R P t q False (co_at_front opts) False a None uid
       | Some (local, dt) \<Rightarrow>
           bindO (liftE (create_job repr C q (a\<lparr>ca_status := Some SCHEDULED\<rparr>) None uid t))
             (schedule_job C R t q (if local then Some zone else None) dt False False))))"

text \<open>The result of \<open>requeue\<close> is the number of jobs that could not be requeued.\<close>

fun requeue_each ::
  "codec \<Rightarrow> 's redis \<Rightarrow> py \<Rightarrow> datetime \<Rightarrow> string \<Rightarrow> string list \<Rightarrow> nat \<Rightarrow> ('s, nat) op" where
  "requeue_each C R P t q [] n = ret n"
| "requeue_each C R P t q (i # is) n =
     bindO (catchO (bindO (requeue_id C R P t Failed q False i) (\<lambda>_. ret n))
             (\<lambda>e. if e = InvalidJobOperationError then Some (ret (Suc n)) else None))
       (requeue_each C R P t q is)"

definition cli_requeue ::
  "codec \<Rightarrow> 's redis \<Rightarrow> py \<Rightarrow> datetime \<Rightarrow> string \<Rightarrow> bool \<Rightarrow> string list \<Rightarrow> ('s, nat) op" where
  "cli_requeue C R P t q everything ids =
     bindO (if everything then act (\<lambda>s. get_job_ids R s Failed q 0 (- 1) False t) else ret ids) (\<lambda>is.
       if is = [] then raiseO SystemExit else requeue_each C R P t q is 0)"

text \<open>The queues that were emptied, with the number of jobs each of them had.\<close>

fun empty_each :: "'s redis \<Rightarrow> string list \<Rightarrow> ('s, (string \<times> nat) list) op" where
  "empty_each R [] = ret []"
| "empty_each R (q # qs) =
     bindO (act (\<lambda>s. (Inr (length (r_list R s (queue_key q))), empty R q s))) (\<lambda>n.
     bindO (empty_each R qs) (\<lambda>r. ret ((q, n) # r)))"

definition cli_empty :: "'s redis \<Rightarrow> bool \<Rightarrow> string list \<Rightarrow> ('s, (string \<times> nat) list) op" where
  "cli_empty R everything names =
     bindO (if everything then ask (\<lambda>s. all_queues R s) else ret names) (\<lambda>qs.
       if qs = [] then raiseO SystemExit else empty_each R qs)"

definition cli_suspend :: "'s redis \<Rightarrow> int option \<Rightarrow> ('s, unit) op" where
  "cli_suspend R duration =
     (case duration of
        None \<Rightarrow> send R False (suspend None)
      | Some n \<Rightarrow> if n < 1 then raiseO SystemExit else send R False (suspend (Some n)))"

definition cli_resume :: "'s redis \<Rightarrow> ('s, unit) op" where
  "cli_resume R = send R False resume"

section \<open>Reading back what was written\<close>

lemma find_char_append: "c \<notin> set k \<Longrightarrow> find_char c (k @ c # r) = Some (length k)"
  by (induction k) (auto simp: find_char_def)

text \<open>The text of a value is not taken for the name of a file.\<close>

lemma at_is_no_json: "json_loads F (CHR ''@'' # r) = None"
  by (simp add: json_loads_def skip_ws_def is_space_def read_word_def read_number_def whole_part_def is_digit_def)

lemma jtext_no_file: "jsonable F v \<Longrightarrow> take 1 (jtext F v) \<noteq> ''@''"
  using json_loads_text [of F v] at_is_no_json [of F] by (cases "jtext F v") auto

text \<open>An argument as a user writes it: a colon and JSON, after a keyword and before an equals sign if it has one.\<close>

definition json_arg :: "floats \<Rightarrow> pyval \<Rightarrow> string" where
  "json_arg F v = CHR '':'' # jtext F v"

definition json_kwarg :: "floats \<Rightarrow> string \<times> pyval \<Rightarrow> string" where
  "json_kwarg F kv = fst kv @ '':='' @ jtext F (snd kv)"

definition keyword_ok :: "string \<Rightarrow> bool" where
  "keyword_ok k \<longleftrightarrow> k \<noteq> [] \<and> CHR '':'' \<notin> set k \<and> CHR ''='' \<notin> set k \<and> hd k \<noteq> CHR ''%''"

lemma parse_json_arg: "jsonable F v \<Longrightarrow> parse_function_arg F files le (json_arg F v) = Inr (None, v)"
  using jtext_no_file [of F v]
  by (simp add: parse_function_arg_def json_arg_def split_arg_def arg_text_def parse_json_value_def json_loads_text)

lemma split_kwarg:
  assumes "keyword_ok k"
  shows "split_arg (k @ '':='' @ r) = (JsonMode, Some k, r)"
proof -
  obtain c cs where k: "k = c # cs" "c \<noteq> CHR '':''" "c \<noteq> CHR ''%''"
    using assms by (cases k) (auto simp: keyword_ok_def)
  have eq: "find_char CHR ''='' (k @ '':='' @ r) = Some (Suc (length k))"
    using assms find_char_append [of "CHR ''=''" "k @ '':''" r] by (simp add: keyword_ok_def)
  have colon: "find_char CHR '':'' (k @ '':='' @ r) = Some (length k)"
    using assms find_char_append [of "CHR '':''" k "CHR ''='' # r"] by (simp add: keyword_ok_def)
  have first: "take 1 (k @ '':='' @ r) = [c]" by (simp add: k)
  show ?thesis
    unfolding split_arg_def eq colon first using k by simp
qed

lemma parse_json_kwarg:
  "jsonable F (snd kv) \<Longrightarrow> keyword_ok (fst kv) \<Longrightarrow> parse_function_arg F files le (json_kwarg F kv) = Inr (Some (fst kv), snd kv)"
  using jtext_no_file [of F "snd kv"]
  by (simp add: parse_function_arg_def json_kwarg_def split_kwarg [simplified] arg_text_def parse_json_value_def json_loads_text)

lemma parse_json_args:
  "list_all (jsonable F) vs \<Longrightarrow>
   parse_args_from F files le (map (json_arg F) vs @ as) (args, kwargs) = parse_args_from F files le as (args @ vs, kwargs)"
  by (induction vs arbitrary: args) (auto simp: parse_json_arg add_arg_def)

lemma parse_json_kwargs:
  "list_all (\<lambda>kv. jsonable F (snd kv) \<and> keyword_ok (fst kv)) kvs \<Longrightarrow> distinct (map fst (kwargs @ kvs)) \<Longrightarrow>
   parse_args_from F files le (map (json_kwarg F) kvs @ as) (args, kwargs) = parse_args_from F files le as (args, kwargs @ kvs)"
proof (induction kvs arbitrary: kwargs)
  case (Cons kv kvs)
  obtain k v where kv: "kv = (k, v)" by (cases kv)
  have "parse_args_from F files le (map (json_kwarg F) kvs @ as) (args, kwargs @ [(k, v)]) =
      parse_args_from F files le as (args, (kwargs @ [(k, v)]) @ kvs)"
    using Cons.prems by (intro Cons.IH) (auto simp: kv)
  then show ?case using Cons.prems by (auto simp: kv parse_json_kwarg add_arg_def)
qed simp


definition plain_options :: cli_options where
  "plain_options =
     \<lparr>co_queue = ''q'', co_timeout = None, co_result_ttl = None, co_ttl = None, co_failure_ttl = None, co_description = Some ''d'',
      co_depends_on = [], co_job_id = None, co_at_front = True, co_retry_max = 0, co_retry_interval = [0], co_schedule_in = None,
      co_schedule_at = None\<rparr>"


text \<open>
  \<open>rq requeue\<close> means to count the jobs that are not in the registry of failed jobs and to go on, but catches an exception that
  nothing raises: the first such job ends the command, and no job that follows it is requeued.
\<close>

theorem requeue_command_stops:
  assumes "redis_server R" "fetch C R s t i = Inr j" "zscore R s (registry_key Failed q) (j_id j) = None"
  shows "\<exists>s'. cli_requeue C R P t q False (i # rest) (s, buf) = (Inl InvalidJobOperation, (s', buf)) \<and>
    r_list R s' = r_list R s \<and> hget R s' = hget R s"
proof -
  have "requeue C R P t Failed q False j (s, buf) = (Inl InvalidJobOperation, (run_all R (reg_remove Failed q (j_id j)) s, buf))"
    using redis_server.requeue_missing [OF assms(1,3)] .
  then show ?thesis
    using assms(2) redis_server.reg_remove_run(1,3) [OF assms(1)]
    by (simp add: cli_requeue_def requeue_id_def bindO_def catchO_def)
qed

theorem requeue_command_stops_witness:
  "\<exists>s'. cli_requeue sample_codec mem_redis sample_py 7 ''q'' False [''a'', ''b''] (saved (parent_job FINISHED), []) =
     (Inl InvalidJobOperation, (s', []))"
  using requeue_command_stops [OF mem.redis_server_axioms, where s = "saved (parent_job FINISHED)" and C = sample_codec and t = 7 and i = "''a''"
      and q = "''q''" and P = sample_py and rest = "[''b'']" and buf = "[]"] saved_props(1,5) [of "parent_job FINISHED"]
  by fastforce

text \<open>A job to be scheduled is made without its \<open>--at-front\<close>: the option has no effect on it.\<close>

theorem schedule_drops_at_front:
  assumes "co_schedule_in opts \<noteq> None \<or> co_schedule_at opts \<noteq> None"
  shows "cli_enqueue F files le repr C R P t zone (opts\<lparr>co_at_front := b\<rparr>) f as uid =
    cli_enqueue F files le repr C R P t zone opts f as uid"
proof -
  have "parse_schedule t (co_schedule_in opts) (co_schedule_at opts) \<noteq> Inr None"
    using assms by (auto simp: parse_schedule_def bindE_def split: option.splits sum.splits)
  then show ?thesis
    by (auto simp: cli_enqueue_def cli_create_args_def fun_eq_iff Let_def bindO_def liftE_def split: sum.splits option.splits prod.splits)
qed

theorem schedule_drops_at_front_witness:
  "cli_enqueue no_floats (\<lambda>_. Inl FileNotFoundError) (\<lambda>_. None) (\<lambda>_. []) sample_codec mem_redis sample_py 7 0
       ((plain_options\<lparr>co_schedule_in := Some ''10''\<rparr>)\<lparr>co_at_front := False\<rparr>) ''m.f'' [] ''u'' =
   cli_enqueue no_floats (\<lambda>_. Inl FileNotFoundError) (\<lambda>_. None) (\<lambda>_. []) sample_codec mem_redis sample_py 7 0
       (plain_options\<lparr>co_schedule_in := Some ''10''\<rparr>) ''m.f'' [] ''u''"
  by (rule schedule_drops_at_front) simp

lemma get_scale_least: "x \<le> get_scale x" "c \<in> {20, 50, 100, 200, 400, 600, 800, 1000} \<Longrightarrow> x \<le> c \<Longrightarrow> get_scale x \<le> c"
  by (auto simp: get_scale_def)

end
