(* ===== verification/Settings.thy ===== *)
theory Settings
  imports Cli
begin

text \<open>
  What is around the commands: the options every command shares and the connection they lead to (\<open>CliConfig\<close> and the
  functions before it in \<open>rq/cli/helpers.py\<close>), the classes that are named by their path (\<open>rq/utils.py\<close>), and the log
  handlers and colours of \<open>rq/logutils.py\<close>.

  The interpreter's modules are those of theory \<open>Utils\<close>; which of their objects are classes, and of which kind, is a
  parameter, too. What is asked of the client library is a value of the type \<open>client\<close>.
\<close>

section \<open>Classes that are given by name\<close>

record 'o class_kinds =
  ck_class :: "'o \<Rightarrow> bool"
  ck_worker :: "'o \<Rightarrow> bool"
  ck_job :: "'o \<Rightarrow> bool"
  ck_queue :: "'o \<Rightarrow> bool"

definition import_class :: "'o modules \<Rightarrow> 'o class_kinds \<Rightarrow> ('o \<Rightarrow> bool) \<Rightarrow> string \<Rightarrow> 'o res" where
  "import_class M K sub name =
     bindE (import_attribute M name) (\<lambda>c. if \<not> ck_class K c then Inl ValueError else if \<not> sub c then Inl ValueError else Inr c)"

definition import_worker_class :: "'o modules \<Rightarrow> 'o class_kinds \<Rightarrow> string \<Rightarrow> 'o res" where
  "import_worker_class M K name = import_class M K (ck_worker K) name"

definition import_job_class :: "'o modules \<Rightarrow> 'o class_kinds \<Rightarrow> string \<Rightarrow> 'o res" where
  "import_job_class M K name = import_class M K (ck_job K) name"

definition import_queue_class :: "'o modules \<Rightarrow> 'o class_kinds \<Rightarrow> string \<Rightarrow> 'o res" where
  "import_queue_class M K name = import_class M K (ck_queue K) name"

text \<open>An override is a name or an object; without one it is the attribute of the holder.\<close>

definition backend_class :: "'o modules \<Rightarrow> 'o \<Rightarrow> (string + 'o) option \<Rightarrow> 'o res" where
  "backend_class M held override =
     (case override of None \<Rightarrow> Inr held | Some (Inl name) \<Rightarrow> import_attribute M name | Some (Inr c) \<Rightarrow> Inr c)"

section \<open>Settings and connections\<close>

text \<open>\<open>dict.get\<close> with a default, and \<open>str.upper\<close> for ASCII.\<close>

definition dget :: "(string \<times> pyval) list \<Rightarrow> string \<Rightarrow> pyval \<Rightarrow> pyval" where
  "dget d k v = opt_default v (map_of d k)"

definition upper :: "char \<Rightarrow> char" where
  "upper c = (let n = of_char c :: nat in if 97 \<le> n \<and> n \<le> 122 then char_of (n - 32) else c)"

text \<open>\<open>imported\<close> is the dictionary of the module, or the exception of its import.\<close>

definition read_config_file :: "(string \<times> pyval) list res \<Rightarrow> (string \<times> pyval) list res" where
  "read_config_file imported = bindE imported (\<lambda>d. Inr (filter (\<lambda>(k, v). map upper k = k) d))"

datatype client =
    FromUrl pyval
  | SentinelMaster pyval pyval "(string \<times> pyval) list" pyval
  | Direct "(string \<times> pyval) list"

definition ssl_setting :: "pyval \<Rightarrow> pyval res" where
  "ssl_setting v =
     (case v of
        PStr s \<Rightarrow>
          if map lower s \<in> {''y'', ''yes'', ''t'', ''true''} then Inr (PBool True)
          else if map lower s \<in> {''n'', ''no'', ''f'', ''false'', ''''} then Inr (PBool False)
          else Inl ValueError
      | _ \<Rightarrow> Inr v)"

text \<open>
  \<open>get\<close> of anything but a dict is an AttributeError. \<open>CONNECTION_KWARGS\<close> is expected to be a dict; the exceptions that
  other values meet in \<open>update\<close> are all a TypeError here.
\<close>

definition sentinel_client :: "pyval \<Rightarrow> client res" where
  "sentinel_client v =
     (case v of
        PDict d \<Rightarrow>
          let kws = [(''db'', dget d ''DB'' (PInt 0)), (''username'', dget d ''USERNAME'' PNone),
                     (''password'', dget d ''PASSWORD'' PNone), (''socket_timeout'', dget d ''SOCKET_TIMEOUT'' PNone),
                     (''ssl'', dget d ''SSL'' (PBool False))]
          in
          (case dget d ''CONNECTION_KWARGS'' (PDict []) of
             PDict extra \<Rightarrow>
               let all = fold (\<lambda>(k, x). AList.update k x) extra kws in
               if ''instances'' \<in> set (map fst all) \<or> ''sentinel_kwargs'' \<in> set (map fst all) then Inl TypeError
               else Inr (SentinelMaster (dget d ''INSTANCES'' (PList [PTuple [PStr ''localhost'', PInt 26379]]))
                           (dget d ''SENTINEL_KWARGS'' (PDict [])) all (dget d ''MASTER_NAME'' (PStr ''mymaster'')))
           | _ \<Rightarrow> Inl TypeError)
      | _ \<Rightarrow> Inl AttributeError)"

definition get_redis_from_config :: "(string \<times> pyval) list \<Rightarrow> client res" where
  "get_redis_from_config settings =
     (if dget settings ''REDIS_URL'' PNone \<noteq> PNone then Inr (FromUrl (dget settings ''REDIS_URL'' PNone))
      else if dget settings ''SENTINEL'' PNone \<noteq> PNone then sentinel_client (dget settings ''SENTINEL'' PNone)
      else
        bindE (ssl_setting (dget settings ''REDIS_SSL'' (PBool False))) (\<lambda>ssl.
          Inr (Direct
            [(''host'', dget settings ''REDIS_HOST'' (PStr ''localhost'')), (''port'', dget settings ''REDIS_PORT'' (PInt 6379)),
             (''db'', dget settings ''REDIS_DB'' (PInt 0)), (''password'', dget settings ''REDIS_PASSWORD'' PNone), (''ssl'', ssl),
             (''ssl_ca_certs'', dget settings ''REDIS_SSL_CA_CERTS'' PNone),
             (''ssl_cert_reqs'', dget settings ''REDIS_SSL_CERT_REQS'' (PStr ''required'')),
             (''ssl_ca_data'', dget settings ''REDIS_SSL_CA_DATA'' PNone), (''ssl_keyfile'', dget settings ''REDIS_SSL_KEYFILE'' PNone),
             (''ssl_certfile'', dget settings ''REDIS_SSL_CERTFILE'' PNone)])))"

text \<open>The shared options; a connection is made when it is first asked for, and kept.\<close>

record 'o cli_config =
  cc_url :: "string option"
  cc_config :: "string option"
  cc_worker_class :: 'o
  cc_job_class :: 'o
  cc_death_penalty_class :: 'o
  cc_queue_class :: 'o
  cc_connection_class :: 'o
  cc_connection :: "client option"

definition class_option :: "'o res \<Rightarrow> 'o res" where
  "class_option r = (case r of Inl e \<Rightarrow> Inl (if e = ImportError \<or> e = AttributeError then BadParameter else e) | Inr c \<Rightarrow> Inr c)"

definition new_cli_config ::
  "'o modules \<Rightarrow> 'o class_kinds \<Rightarrow> string option \<Rightarrow> string option \<Rightarrow> string \<Rightarrow> string \<Rightarrow> string \<Rightarrow> string \<Rightarrow> string \<Rightarrow> 'o cli_config res" where
  "new_cli_config M K url config w j d q c =
     bindE (class_option (import_worker_class M K w)) (\<lambda>wc.
     bindE (class_option (import_job_class M K j)) (\<lambda>jc.
     bindE (class_option (import_attribute M d)) (\<lambda>dc.
     bindE (class_option (import_attribute M q)) (\<lambda>qc.
     bindE (class_option (import_attribute M c)) (\<lambda>cc.
       Inr \<lparr>cc_url = url, cc_config = config, cc_worker_class = wc, cc_job_class = jc, cc_death_penalty_class = dc,
            cc_queue_class = qc, cc_connection_class = cc, cc_connection = None\<rparr>)))))"

text \<open>\<open>read\<close> reads a settings module; \<open>environ\<close> is the environment of the process. A connection is always a true value.\<close>

definition config_client :: "(string \<Rightarrow> (string \<times> pyval) list res) \<Rightarrow> (string \<times> string) list \<Rightarrow> 'o cli_config \<Rightarrow> client res" where
  "config_client read environ cc =
     (if opt_default [] (cc_url cc) \<noteq> [] then Inr (FromUrl (PStr (opt_default [] (cc_url cc))))
      else if opt_default [] (cc_config cc) \<noteq> [] then bindE (read_config_file (read (opt_default [] (cc_config cc)))) get_redis_from_config
      else get_redis_from_config (map (\<lambda>(k, v). (k, PStr v)) environ))"

definition config_connection ::
  "(string \<Rightarrow> (string \<times> pyval) list res) \<Rightarrow> (string \<times> string) list \<Rightarrow> 'o cli_config \<Rightarrow> client res \<times> 'o cli_config" where
  "config_connection read environ cc =
     (case cc_connection cc of
        Some c \<Rightarrow> (Inr c, cc)
      | None \<Rightarrow> (case config_client read environ cc of Inl e \<Rightarrow> (Inl e, cc) | Inr c \<Rightarrow> (Inr c, cc\<lparr>cc_connection := Some c\<rparr>)))"

section \<open>Logging\<close>

text \<open>
  The two handlers of the library take what is below, and what is at least, the level ERROR. A logger comes with those above
  it, from its parent to the root.
\<close>

datatype log_handler = ToStdout | ToStderr | OtherHandler

record logger =
  lg_handlers :: "log_handler list"
  lg_level :: int

definition level_error :: int where
  "level_error = 40"

definition handler_takes :: "log_handler \<Rightarrow> int \<Rightarrow> bool" where
  "handler_takes h lv = (case h of ToStdout \<Rightarrow> lv < level_error | ToStderr \<Rightarrow> level_error \<le> lv | OtherHandler \<Rightarrow> True)"

fun has_effective_handler :: "logger \<Rightarrow> logger list \<Rightarrow> bool" where
  "has_effective_handler l [] \<longleftrightarrow> lg_handlers l \<noteq> []"
| "has_effective_handler l (p # ps) \<longleftrightarrow> lg_handlers l \<noteq> [] \<or> has_effective_handler p ps"

text \<open>The names of the levels in \<open>logging\<close>; another name is refused.\<close>

definition level_of_name :: "string \<Rightarrow> int res" where
  "level_of_name n =
     (case map_of [(''CRITICAL'', 50), (''FATAL'', 50), (''ERROR'', 40), (''WARN'', 30), (''WARNING'', 30), (''INFO'', 20),
                   (''DEBUG'', 10), (''NOTSET'', 0)] n of
        None \<Rightarrow> Inl ValueError
      | Some lv \<Rightarrow> Inr lv)"

definition setup_loghandlers :: "(int + string) option \<Rightarrow> logger list \<Rightarrow> logger \<Rightarrow> unit res \<times> logger" where
  "setup_loghandlers level parents l =
     (let l1 = (if has_effective_handler l parents then l else l\<lparr>lg_handlers := lg_handlers l @ [ToStdout, ToStderr]\<rparr>) in
      case level of
        None \<Rightarrow> (Inr (), l1)
      | Some (Inl n) \<Rightarrow> (Inr (), l1\<lparr>lg_level := n\<rparr>)
      | Some (Inr s) \<Rightarrow> (case level_of_name (map upper s) of Inl e \<Rightarrow> (Inl e, l1) | Inr n \<Rightarrow> (Inr (), l1\<lparr>lg_level := n\<rparr>)))"

definition level_from_args :: "bool \<Rightarrow> bool \<Rightarrow> string option res" where
  "level_from_args verbose quiet =
     (if verbose \<and> quiet then Inl RuntimeError
      else Inr (if verbose then Some ''DEBUG'' else if quiet then Some ''WARNING'' else None))"

definition setup_loghandlers_from_args :: "bool \<Rightarrow> bool \<Rightarrow> logger list \<Rightarrow> logger \<Rightarrow> unit res \<times> logger" where
  "setup_loghandlers_from_args verbose quiet parents l =
     (case level_from_args verbose quiet of
        Inl e \<Rightarrow> (Inl e, l)
      | Inr level \<Rightarrow> setup_loghandlers (map_option Inr level) parents l)"

subsection \<open>Colours\<close>

definition esc :: string where
  "esc = CHR 0x1B # ''[''"

definition dark_colors :: "string list" where
  "dark_colors = [''black'', ''darkred'', ''darkgreen'', ''brown'', ''darkblue'', ''purple'', ''teal'', ''lightgray'']"

definition light_colors :: "string list" where
  "light_colors = [''darkgray'', ''red'', ''green'', ''yellow'', ''blue'', ''fuchsia'', ''turquoise'', ''white'']"

text \<open>The loop over the pairs of a dark and a light colour, from the code \<open>x\<close> on.\<close>

fun color_pairs :: "nat \<Rightarrow> (string \<times> string) list \<Rightarrow> (string \<times> string) list" where
  "color_pairs x [] = []"
| "color_pairs x ((dark, light) # ps) =
     (dark, esc @ str_of_nat x @ ''m'') # (light, esc @ str_of_nat x @ '';01m'') # color_pairs (Suc x) ps"

definition color_codes :: "(string \<times> string) list" where
  "color_codes =
     (let plain = [('''', ''''), (''reset'', esc @ ''39;49;00m''), (''bold'', esc @ ''01m''), (''faint'', esc @ ''02m''),
                   (''standout'', esc @ ''03m''), (''underline'', esc @ ''04m''), (''blink'', esc @ ''05m''), (''overline'', esc @ ''06m'')];
          cs = fold (\<lambda>(k, v). AList.update k v) (color_pairs 30 (zip dark_colors light_colors)) plain;
          copy = (\<lambda>to src ds. AList.update to (opt_default [] (map_of ds src)) ds)
      in copy ''white'' ''bold'' (copy ''fuscia'' ''fuchsia'' (copy ''darkyellow'' ''brown'' (copy ''darkteal'' ''turquoise'' cs))))"

definition colorize :: "bool \<Rightarrow> string \<Rightarrow> string \<Rightarrow> string res" where
  "colorize notty color t =
     (if notty then Inr t
      else
        (case (map_of color_codes color, map_of color_codes ''reset'') of
           (Some a, Some b) \<Rightarrow> Inr (a @ t @ b)
         | _ \<Rightarrow> Inl KeyError))"

text \<open>\<open>ColorizingStreamHandler.format\<close>, on the message that \<open>logging\<close> has formatted.\<close>

definition split_once :: "char \<Rightarrow> string \<Rightarrow> string list" where
  "split_once c s = (case find_char c s of None \<Rightarrow> [s] | Some i \<Rightarrow> [take i s, drop (i + 1) s])"

definition stream_format :: "bool \<Rightarrow> string \<Rightarrow> string res" where
  "stream_format tty message =
     (if \<not> tty then Inr message
      else
        let parts = split_once (CHR 0x0A) message;
            words = split_once CHR '' '' (hd parts)
        in bindE (py_index words 0) (\<lambda>a. bindE (py_index words 1) (\<lambda>b.
             Inr (join [CHR 0x0A] (join '' '' [a, b] # tl parts)))))"

section \<open>What holds of them\<close>

lemma import_attribute_error: "import_attribute M n = Inl e \<Longrightarrow> e = ValueError"
  by (auto simp: import_attribute_def Let_def split: prod.splits option.splits)

lemma import_class_error: "import_class M K sub n = Inl e \<Longrightarrow> e = ValueError"
  by (auto simp: import_class_def bindE_Inl_iff split: if_splits dest: import_attribute_error)

lemma class_option_error: "class_option r = Inl e \<Longrightarrow> r = Inl ValueError \<or> e = BadParameter \<or> r = Inl e"
  by (auto simp: class_option_def split: sum.splits if_splits)

text \<open>
  The shared options mean to turn a class that cannot be found into a usage error. \<open>import_attribute\<close> raises neither of the
  exceptions they catch: the user gets a ValueError.
\<close>

theorem missing_class_raises:
  assumes "new_cli_config M K url config w j d q c = Inl e"
  shows "e = ValueError"
proof -
  have "class_option r = Inl e' \<Longrightarrow> (\<And>e''. r = Inl e'' \<Longrightarrow> e'' = ValueError) \<Longrightarrow> e' = ValueError" for r :: "'a res" and e'
    by (auto simp: class_option_def split: sum.splits if_splits)
  note option = this [OF _ import_attribute_error] this [OF _ import_class_error]
  show ?thesis
    using assms unfolding new_cli_config_def import_worker_class_def import_job_class_def
    by (auto simp: bindE_Inl_iff dest: option)
qed

theorem missing_class_raises_witness:
  "new_cli_config \<lparr>import_module = \<lambda>_. None, attribute = \<lambda>_ _. None, builtin = \<lambda>_. None\<rparr>
     \<lparr>ck_class = \<lambda>_. True, ck_worker = \<lambda>_. True, ck_job = \<lambda>_. True, ck_queue = \<lambda>_. True\<rparr> None None
     ''no.Worker'' ''j'' ''d'' ''q'' ''c'' = (Inl ValueError :: nat cli_config res)"
proof -
  let ?M = "\<lparr>import_module = \<lambda>_. None, attribute = \<lambda>_ _. None, builtin = \<lambda>_. None\<rparr> :: nat modules"
  let ?K = "\<lparr>ck_class = \<lambda>_. True, ck_worker = \<lambda>_. True, ck_job = \<lambda>_. True, ck_queue = \<lambda>_. True\<rparr> :: nat class_kinds"
  have none: "fst (import_loop ?M bs as) = None" for bs as by (induction bs arbitrary: as) simp_all
  then have "import_attribute ?M n = Inl ValueError" for n
    by (auto simp: import_attribute_def Let_def split: prod.splits option.splits dest: arg_cong [where f = fst])
  then have "\<exists>e. new_cli_config ?M ?K None None ''no.Worker'' ''j'' ''d'' ''q'' ''c'' = Inl e"
    by (simp add: new_cli_config_def import_worker_class_def import_class_def class_option_def)
  with missing_class_raises show ?thesis by blast
qed

lemma url_first:
  "opt_default [] (cc_url cc) \<noteq> [] \<Longrightarrow> config_client read environ cc = Inr (FromUrl (PStr (opt_default [] (cc_url cc))))"
  by (simp add: config_client_def)

lemma connection_kept: "config_connection read environ cc = (Inr c, cc') \<Longrightarrow> config_connection read' environ' cc' = (Inr c, cc')"
  by (auto simp: config_connection_def split: option.splits sum.splits)

lemma map_of_environ: "map_of (map (\<lambda>(k, v). (k, PStr v)) env) k = map_option PStr (map_of env k)"
  by (induction env) auto

text \<open>Without a URL and without a settings module the environment counts, where a variable SENTINEL is a string and no dict.\<close>

lemma environment_sentinel_raises:
  assumes "opt_default [] (cc_url cc) = []" "opt_default [] (cc_config cc) = []" "map_of environ ''REDIS_URL'' = None"
    "map_of environ ''SENTINEL'' = Some v"
  shows "config_client read environ cc = Inl AttributeError"
  using assms by (simp add: config_client_def get_redis_from_config_def dget_def map_of_environ sentinel_client_def opt_default_def)

text \<open>With the handlers of the library alone, every record is shown on exactly one stream; setting up again changes nothing.\<close>

theorem one_stream_per_record:
  assumes "\<not> has_effective_handler l parents" "setup_loghandlers level parents l = (Inr (), l1)"
  shows "length (filter (\<lambda>h. handler_takes h lv) (lg_handlers l1)) = 1 \<and> setup_loghandlers None parents l1 = (Inr (), l1)"
proof -
  have "lg_handlers l = []" using assms(1) by (cases parents) auto
  then have "lg_handlers l1 = [ToStdout, ToStderr]"
    using assms by (auto simp: setup_loghandlers_def Let_def split: option.splits sum.splits)
  moreover have "has_effective_handler l1 parents" using calculation by (cases parents) auto
  ultimately show ?thesis by (simp add: handler_takes_def setup_loghandlers_def)
qed

theorem one_stream_per_record_witness:
  "length (filter (\<lambda>h. handler_takes h 30) [ToStdout, ToStderr]) = 1"
  using one_stream_per_record [of "\<lparr>lg_handlers = [], lg_level = 0\<rparr>" "[]" "Some (Inl 20)" _ 30] by (simp add: setup_loghandlers_def)

lemma split_once_join: "join [c] (split_once c s) = s"
proof (cases "c \<in> set s")
  case True
  then obtain a b where s: "s = a @ c # b" "c \<notin> set a" using split_list_first by metis
  then show ?thesis by (simp add: split_once_def find_char_append)
qed (simp add: split_once_def find_char_def)

lemma split_once_two: "length (split_once c s) = 2 \<longleftrightarrow> c \<in> set s"
  by (auto simp: split_once_def find_char_def)

text \<open>On a terminal a message is shown as it is, but one whose first line is a single word raises.\<close>

theorem stream_format_total:
  "stream_format tty message =
     (if tty \<and> CHR '' '' \<notin> set (hd (split_once (CHR 0x0A) message)) then Inl IndexError else Inr message)"
proof -
  have words: "split_once CHR '' '' w = (if CHR '' '' \<in> set w then [hd (split_once CHR '' '' w), split_once CHR '' '' w ! 1] else [w])" for w
    by (auto simp: split_once_def find_char_def)
  let ?p = "split_once (CHR 0x0A) message"
  have p: "hd ?p # tl ?p = ?p" by (simp add: split_once_def split: option.split)
  show ?thesis
  proof (cases "CHR '' '' \<in> set (hd ?p)")
    case True
    then obtain a b where ab: "split_once CHR '' '' (hd ?p) = [a, b]" using words by metis
    then have "join '' '' [a, b] = hd ?p" using split_once_join [of "CHR '' ''" "hd ?p"] by simp
    then show ?thesis using True p split_once_join [of "CHR 0x0A" message] by (simp add: stream_format_def ab py_index_def Let_def)
  next
    case False
    then have "split_once CHR '' '' (hd ?p) = [hd ?p]" using words by metis
    with False show ?thesis by (simp add: stream_format_def py_index_def Let_def)
  qed
qed

text \<open>The colours that the library makes colorizers for have a code.\<close>

lemma named_colors: "list_all (\<lambda>c. map_of color_codes c \<noteq> None) [''darkgreen'', ''darkyellow'', ''darkblue'', ''darkred'', ''reset'']"
  by code_simp

end
