(* ===== verification/Views.thy ===== *)
theory Views
  imports Work
begin

text \<open>
  What the objects of the library show of themselves: registries as they are read, with the cleanup that goes before
  (\<open>rq/registry.py\<close>), what a queue shows beside its list, the callbacks of a job, the connection settings that are handed to
  another process (\<open>rq/connections.py\<close>), how a worker starts (\<open>bootstrap\<close>), and the horse that \<open>SpawnWorker\<close> starts instead of
  a fork: a process that finds its worker through the server.

  A registry other than that of the started jobs is cleaned by its own commands alone (theory \<open>Registry\<close>); here are the
  operations for every registry.
\<close>

section \<open>Registries\<close>

text \<open>The handlers of a cleanup are those it is given; reading a registry gives none.\<close>

definition registry_cleanup :: "codec \<Rightarrow> 's redis \<Rightarrow> py \<Rightarrow> datetime \<Rightarrow> reg_kind \<Rightarrow> string \<Rightarrow> int option \<Rightarrow> handler list \<Rightarrow> ('s, unit) op" where
  "registry_cleanup C R P t d q ts hs =
     (let score = (case ts of None \<Rightarrow> current_timestamp t | Some n \<Rightarrow> n) in
      if d = Started then started_cleanup C R (P\<lparr>py_handlers := hs\<rparr>) t q score
      else send R False (expire_entries d q score))"

definition registry_job_count :: "codec \<Rightarrow> 's redis \<Rightarrow> py \<Rightarrow> datetime \<Rightarrow> reg_kind \<Rightarrow> string \<Rightarrow> bool \<Rightarrow> ('s, nat) op" where
  "registry_job_count C R P t d q clean =
     seqO (if clean then registry_cleanup C R P t d q None [] else ret ())
       (ask (\<lambda>s. Inr (length (r_zset R s (registry_key d q)))))"

definition registry_count :: "codec \<Rightarrow> 's redis \<Rightarrow> py \<Rightarrow> datetime \<Rightarrow> reg_kind \<Rightarrow> string \<Rightarrow> ('s, nat) op" where
  "registry_count C R P t d q = registry_job_count C R P t d q True"

definition registry_job_ids ::
  "codec \<Rightarrow> 's redis \<Rightarrow> py \<Rightarrow> datetime \<Rightarrow> reg_kind \<Rightarrow> string \<Rightarrow> int \<Rightarrow> int \<Rightarrow> bool \<Rightarrow> bool \<Rightarrow> ('s, string list) op" where
  "registry_job_ids C R P t d q start stop desc clean =
     seqO (if clean then registry_cleanup C R P t d q None [] else ret ()) (ask (\<lambda>s. reg_job_ids R s d q start stop desc))"

definition started_job_and_execution_ids ::
  "codec \<Rightarrow> 's redis \<Rightarrow> py \<Rightarrow> datetime \<Rightarrow> string \<Rightarrow> int \<Rightarrow> int \<Rightarrow> bool \<Rightarrow> bool \<Rightarrow> ('s, (string \<times> string) list) op" where
  "started_job_and_execution_ids C R P t q start stop desc clean =
     seqO (if clean then registry_cleanup C R P t Started q None [] else ret ())
       (ask (\<lambda>s. get_job_and_execution_ids R s q start stop desc))"

text \<open>\<open>add\<close> and \<open>remove\<close>, which the registry of started jobs refuses.\<close>

definition registry_add :: "'s redis \<Rightarrow> bool \<Rightarrow> reg_kind \<Rightarrow> string \<Rightarrow> string \<Rightarrow> int \<Rightarrow> bool \<Rightarrow> datetime \<Rightarrow> ('s, unit) op" where
  "registry_add R piped d q i ttl xx t =
     (if d = Started then raiseO NotImplementedError
      else if d = Deferred then send R piped (deferred_add q i xx t)
      else send R piped (reg_add d q i ttl xx t))"

text \<open>
  A job that is to be deleted is fetched when only its id is given; on a pipeline the fetch gets the pipeline itself as the
  reply, which is no dict.
\<close>

definition registry_remove ::
  "codec \<Rightarrow> 's redis \<Rightarrow> datetime \<Rightarrow> bool \<Rightarrow> reg_kind \<Rightarrow> string \<Rightarrow> job + string \<Rightarrow> bool \<Rightarrow> ('s, unit) op" where
  "registry_remove C R t piped d q job_or_id delete_job =
     (if d = Started then raiseO NotImplementedError
      else
        seqO (send R piped (reg_remove d q (case job_or_id of Inl j \<Rightarrow> j_id j | Inr i \<Rightarrow> i)))
          (if \<not> delete_job then ret ()
           else
             bindO (case job_or_id of
                      Inl j \<Rightarrow> ret j
                    | Inr i \<Rightarrow> if piped then raiseO AttributeError else ask (\<lambda>s. fetch C R s t i))
               (\<lambda>j. bindO (delete C R t False True False j) (\<lambda>_. ret ()))))"

section \<open>Connections\<close>

text \<open>
  The settings of a connection pool are a dict; \<open>plain v\<close> says that the type of \<open>v\<close> is \<open>object\<close> itself, the mark of a
  setting that was not given.
\<close>

definition runtime_connection_kwargs :: "string list" where
  "runtime_connection_kwargs =
     [''maint_notifications_config'', ''maint_notifications_pool_handler'', ''event_dispatcher'', ''orig_host_address'',
      ''orig_socket_timeout'', ''orig_socket_connect_timeout'']"

definition get_connection_kwargs :: "('v \<Rightarrow> bool) \<Rightarrow> (string \<times> 'v) list \<Rightarrow> (string \<times> 'v) list" where
  "get_connection_kwargs plain kws = filter (\<lambda>(k, v). k \<notin> set runtime_connection_kwargs \<and> \<not> plain v) kws"

record 'v connection =
  cn_class :: string
  cn_pool_class :: string
  cn_kwargs :: "(string \<times> 'v) list"

definition parse_connection :: "('v \<Rightarrow> bool) \<Rightarrow> 'v connection \<Rightarrow> string \<times> string \<times> (string \<times> 'v) list" where
  "parse_connection plain c = (cn_class c, cn_pool_class c, get_connection_kwargs plain (cn_kwargs c))"

definition dict_eq :: "(string \<times> 'v) list \<Rightarrow> (string \<times> 'v) list \<Rightarrow> bool" where
  "dict_eq a b \<longleftrightarrow> length a = length b \<and> list_all (\<lambda>(k, v). map_of b k = Some v) a"

definition registry_eq :: "('v \<Rightarrow> bool) \<Rightarrow> string \<times> 'v connection \<Rightarrow> string \<times> 'v connection \<Rightarrow> bool" where
  "registry_eq plain x y \<longleftrightarrow>
     fst x = fst y \<and> dict_eq (get_connection_kwargs plain (cn_kwargs (snd x))) (get_connection_kwargs plain (cn_kwargs (snd y)))"

text \<open>The connection another process makes of what it is handed, as \<open>RQScheduler.connection\<close> does.\<close>

definition rebuilt_connection :: "string \<times> string \<times> (string \<times> 'v) list \<Rightarrow> 'v connection" where
  "rebuilt_connection = (\<lambda>(c, p, kws). \<lparr>cn_class = c, cn_pool_class = p, cn_kwargs = kws\<rparr>)"

section \<open>Queues and jobs\<close>

text \<open>Another object is None.\<close>

definition queue_equal :: "queue \<Rightarrow> queue option \<Rightarrow> bool res" where
  "queue_equal q other = (case other of None \<Rightarrow> Inl TypeError | Some r \<Rightarrow> Inr (q_name q = q_name r))"

definition queue_less :: "queue \<Rightarrow> queue option \<Rightarrow> bool res" where
  "queue_less q other = (case other of None \<Rightarrow> Inl TypeError | Some r \<Rightarrow> Inr (q_name q < q_name r))"

definition scheduler_pid :: "'s redis \<Rightarrow> 's \<Rightarrow> string \<Rightarrow> int option res" where
  "scheduler_pid R s q =
     (case r_str R s (scheduler_lock_key q) of
        None \<Rightarrow> Inr None
      | Some v \<Rightarrow> (case int_of_str v of None \<Rightarrow> Inl ValueError | Some n \<Rightarrow> Inr (Some n)))"

text \<open>A callback that was not looked up yet is None as \<open>cached\<close>.\<close>

definition named_callback :: "'o modules \<Rightarrow> 'o option \<Rightarrow> string option \<Rightarrow> 'o option res" where
  "named_callback M cached name =
     (case cached of
        Some f \<Rightarrow> Inr (Some f)
      | None \<Rightarrow>
          if opt_default [] name = [] then Inr None
          else bindE (import_attribute M (opt_default [] name)) (\<lambda>f. Inr (Some f)))"

definition success_callback :: "'o modules \<Rightarrow> 'o option \<Rightarrow> job \<Rightarrow> 'o option res" where
  "success_callback M cached j = named_callback M cached (j_success_callback_name j)"

definition failure_callback :: "'o modules \<Rightarrow> 'o option \<Rightarrow> job \<Rightarrow> 'o option res" where
  "failure_callback M cached j = named_callback M cached (j_failure_callback_name j)"

definition stopped_callback :: "'o modules \<Rightarrow> 'o option \<Rightarrow> job \<Rightarrow> 'o option res" where
  "stopped_callback M cached j = named_callback M cached (j_stopped_callback_name j)"

section \<open>Workers\<close>

text \<open>The socket timeout that \<open>_set_connection\<close> leaves a connection with.\<close>

definition set_connection :: "worker \<Rightarrow> int option \<Rightarrow> int" where
  "set_connection w current =
     (case current of
        None \<Rightarrow> connection_timeout w
      | Some n \<Rightarrow> if n < connection_timeout w then connection_timeout w else n)"

text \<open>The listener for commands, which \<open>bootstrap\<close> starts too, is the steps of theory \<open>Signals\<close>.\<close>

definition bootstrap :: "'s redis \<Rightarrow> datetime \<Rightarrow> worker \<Rightarrow> ('s, worker) op" where
  "bootstrap R t w = bindO (register_birth R t w) (set_state_on R False ''started'')"

lemma work_bootstraps:
  "work C R P W burst max_jobs max_idle n w =
     bindO (bootstrap R (wd_clock W 0) w) (\<lambda>w2.
     bindO (work_loop C R P W burst max_jobs max_idle n 0 0 w2) (\<lambda>r.
       case r of
         None \<Rightarrow> ret None
       | Some (k, done, w3) \<Rightarrow> seqO (register_death R (wd_clock W k) w3) (ret (Some (0 < done)))))"
  by (simp add: work_def bootstrap_def bindO_def fun_eq_iff split: sum.splits prod.splits)

text \<open>
  What \<open>main_work_horse\<close> exits with. The horse of a \<open>SpawnWorker\<close> is a new interpreter: it makes its worker from the hash
  on the server, with whatever else the constructor sets by itself, fetches job and execution, and goes on as any horse. An exception outside of
  \<open>main_work_horse\<close> ends the interpreter with 1, too. \<open>eid\<close> is the variable \<open>RQ_EXECUTION_ID\<close>.
\<close>

definition main_work_horse ::
  "codec \<Rightarrow> 's redis \<Rightarrow> py \<Rightarrow> (pyval \<Rightarrow> retry option) \<Rightarrow> datetime \<Rightarrow> datetime \<Rightarrow> int \<Rightarrow> queue \<Rightarrow> job \<Rightarrow> worker \<Rightarrow> ('s, nat) op" where
  "main_work_horse C R P as_retry t u zone q j w =
     catchO (bindO (perform_job C R P as_retry t u zone q j w) (\<lambda>_. ret 0)) (\<lambda>e. Some (ret 1))"

definition spawned_horse ::
  "codec \<Rightarrow> 's redis \<Rightarrow> py \<Rightarrow> (pyval \<Rightarrow> retry option) \<Rightarrow> datetime \<Rightarrow> datetime \<Rightarrow> int \<Rightarrow> string \<Rightarrow> string \<Rightarrow> string \<Rightarrow> string \<Rightarrow> key \<Rightarrow>
   ('s, nat) op" where
  "spawned_horse C R P as_retry t u zone pyver eid q i wkey =
     catchO
       (bindO (act (find_by_key R Forking pyver wkey)) (\<lambda>found.
          case found of
            None \<Rightarrow> ret 1
          | Some w \<Rightarrow>
              bindO (ask (\<lambda>s. fetch C R s t i)) (\<lambda>j.
              bindO (ask (\<lambda>s. fetch_execution R s t eid i)) (\<lambda>e.
                main_work_horse C R (P\<lparr>py_handlers := []\<rparr>) as_retry t u zone (default_queue q) j (w\<lparr>w_execution := Some e\<rparr>)))))
       (\<lambda>e. Some (ret 1))"

section \<open>What holds of them\<close>

lemma registry_count_plain:
  "d \<noteq> Started \<Longrightarrow>
   registry_count C R P t d q (s, buf) = (case get_job_count R s d q t of (n, s') \<Rightarrow> (Inr n, (s', buf)))"
  by (simp add: registry_count_def registry_job_count_def registry_cleanup_def get_job_count_def Let_def)

lemma connection_kwargs_twice:
  "get_connection_kwargs plain (get_connection_kwargs plain kws) = get_connection_kwargs plain kws"
  by (simp add: get_connection_kwargs_def split_def cong: filter_cong)

lemma dict_eq_refl: "distinct (map fst kws) \<Longrightarrow> dict_eq kws kws"
  by (auto simp: dict_eq_def list_all_iff)

text \<open>A registry on the connection that another process rebuilds equals the registry it was made from.\<close>

theorem rebuilt_registry_equal:
  assumes "distinct (map fst (cn_kwargs c))"
  shows "registry_eq plain (q, c) (q, rebuilt_connection (parse_connection plain c))"
proof -
  have "distinct (map fst (get_connection_kwargs plain (cn_kwargs c)))"
    using assms by (simp add: get_connection_kwargs_def distinct_map_filter)
  then show ?thesis
    by (simp add: registry_eq_def rebuilt_connection_def parse_connection_def connection_kwargs_twice dict_eq_refl)
qed

theorem rebuilt_registry_equal_witness:
  "registry_eq (\<lambda>v. v = 0) (''q'', \<lparr>cn_class = ''R'', cn_pool_class = ''C'', cn_kwargs = [(''host'', 1), (''event_dispatcher'', 2), (''db'', 0 :: nat)]\<rparr>)
     (''q'', \<lparr>cn_class = ''R'', cn_pool_class = ''C'', cn_kwargs = [(''host'', 1)]\<rparr>)"
  using rebuilt_registry_equal [of "\<lparr>cn_class = ''R'', cn_pool_class = ''C'', cn_kwargs = [(''host'', 1), (''event_dispatcher'', 2), (''db'', 0 :: nat)]\<rparr>"
      "\<lambda>v. v = 0" "''q''"]
  by (simp add: rebuilt_connection_def parse_connection_def get_connection_kwargs_def runtime_connection_kwargs_def)

text \<open>A dequeue that blocks ends before the socket does.\<close>

lemma dequeue_within_socket_timeout: "dequeue_timeout w < set_connection w current"
  by (auto simp: set_connection_def connection_timeout_def split: option.split)

text \<open>Each callback is looked up under the name that the job was given, and only when it has one.\<close>

lemma callback_without_name:
  "j_success_callback_name j = None \<Longrightarrow> success_callback M None j = Inr None"
  "j_failure_callback_name j = None \<Longrightarrow> failure_callback M None j = Inr None"
  "j_stopped_callback_name j = None \<Longrightarrow> stopped_callback M None j = Inr None"
  by (simp_all add: success_callback_def failure_callback_def stopped_callback_def named_callback_def opt_default_def)

lemma refresh_fields_settings:
  "refresh_fields pyver data w = Inr w' \<Longrightarrow>
   w_default_result_ttl w' = w_default_result_ttl w \<and> w_disable_default_handler w' = w_disable_default_handler w \<and>
   w_job_monitoring_interval w' = w_job_monitoring_interval w \<and> w_ordered w' = w_ordered w"
  by (auto simp: refresh_fields_def bindE_Inr_iff)

text \<open>
  The horse of a \<open>SpawnWorker\<close> does not know how its worker was set up: whatever result ttl the worker was given and whether or not
  it leaves failed jobs to the user's handlers, the worker that the horse finds keeps results for 500 seconds and registers failures.
\<close>

theorem spawned_horse_forgets:
  assumes "find_by_key R Forking pyver k s = (Inr (Some w), s')" "j_result_ttl j = None"
  shows "get_result_ttl j (w_default_result_ttl w) = 500 \<and> \<not> w_disable_default_handler w"
proof -
  obtain name where "refresh_worker R s pyver (new_worker Forking name [] None pyver) = Inr w"
    using assms(1) by (auto simp: find_by_key_def bindE_Inr_iff split: sum.splits if_splits)
  then have "w_default_result_ttl w = default_result_ttl \<and> \<not> w_disable_default_handler w"
    by (auto simp: refresh_worker_def new_worker_def Let_def split: if_splits dest!: refresh_fields_settings)
  then show ?thesis using assms(2) by (simp add: get_result_ttl_def default_result_ttl_def)
qed

end
