(* ===== verification/Signals.thy ===== *)
theory Signals
  imports Work Serializers
begin

text \<open>
  How a worker is stopped (\<open>rq/worker/base.py\<close>, \<open>rq/worker/worker_classes.py\<close>, \<open>rq/command.py\<close>): the signal
  handlers of the main process and of the work horse, the commands other processes send it through Redis, and
  the loop of \<open>work\<close> taken apart into the steps between which a signal or a command can come.

  The operating system is a list of the live processes, their groups and a list of the signals sent.
  Signals are handled between the steps of the main process; the horse and all other clients may change the
  server at any point.
\<close>

section \<open>Processes and signals\<close>

datatype sig = SIGINT | SIGTERM | SIGKILL | SIGRTMIN | SIGALRM

datatype target = Process int | ProcessGroup int

datatype errno = ESRCH | EPERM

record os =
  os_pid :: int
  os_live :: "int list"
  os_group :: "int \<Rightarrow> int"
  os_refuses :: "int \<Rightarrow> bool"
  os_sent :: "(target \<times> sig) list"

definition alive :: "os \<Rightarrow> int \<Rightarrow> bool" where
  "alive os p \<longleftrightarrow> p \<in> set (os_live os)"

text \<open>\<open>os.getpgid\<close>: 0 stands for the calling process.\<close>

definition getpgid :: "os \<Rightarrow> int \<Rightarrow> errno + int" where
  "getpgid os p =
     (let q = if p = 0 then os_pid os else p in if alive os q then Inr (os_group os q) else Inl ESRCH)"

text \<open>Only SIGKILL has an effect of its own; what the others do is up to the process they reach.\<close>

definition gone :: "(int \<Rightarrow> bool) \<Rightarrow> os \<Rightarrow> os" where
  "gone D os = os\<lparr>os_live := filter (\<lambda>p. \<not> D p) (os_live os)\<rparr>"

definition sent :: "target \<Rightarrow> sig \<Rightarrow> os \<Rightarrow> os" where
  "sent g sg os = os\<lparr>os_sent := os_sent os @ [(g, sg)]\<rparr>"

definition killpg :: "int \<Rightarrow> sig \<Rightarrow> os \<Rightarrow> errno + os" where
  "killpg g sg os =
     (if \<not> list_ex (\<lambda>p. os_group os p = g) (os_live os) then Inl ESRCH
      else if os_refuses os g then Inl EPERM
      else Inr (sent (ProcessGroup g) sg (if sg = SIGKILL then gone (\<lambda>p. os_group os p = g) os else os)))"

definition kill :: "int \<Rightarrow> sig \<Rightarrow> os \<Rightarrow> errno + os" where
  "kill p sg os =
     (if \<not> alive os p then Inl ESRCH
      else if os_refuses os p then Inl EPERM
      else Inr (sent (Process p) sg (if sg = SIGKILL then gone (\<lambda>q. q = p) os else os)))"

text \<open>After a wait for a child, the child is not there any more.\<close>

definition wait_child :: "int \<Rightarrow> os \<Rightarrow> os" where
  "wait_child p os = gone (\<lambda>q. q = p) os"

section \<open>The main process\<close>

text \<open>
  \<open>pr_on_stop\<close> is what SIGINT and SIGTERM call, \<open>pr_horse\<close> is 0 when there is no horse, \<open>pr_scheduler\<close> the
  process of the worker's scheduler, \<open>pr_listening\<close> tells whether the thread that listens for commands runs.
\<close>

datatype handler = RequestStop | RequestForceStop

record proc =
  pr_worker :: worker
  pr_on_stop :: handler
  pr_requested :: "datetime option"
  pr_horse :: int
  pr_scheduler :: "int option"
  pr_listening :: bool
  pr_os :: os

definition kill_horse :: "sig \<Rightarrow> proc \<Rightarrow> proc res" where
  "kill_horse sg p =
     (if w_class (pr_worker p) = Simple then Inr p
      else
        case getpgid (pr_os p) (pr_horse p) of
          Inl e \<Rightarrow> Inr p
        | Inr g \<Rightarrow>
            (case killpg g sg (pr_os p) of
               Inl e \<Rightarrow> if e = ESRCH then Inr p else Inl OSError
             | Inr os \<Rightarrow> Inr (p\<lparr>pr_os := os\<rparr>)))"

definition wait_for_horse :: "proc \<Rightarrow> proc" where
  "wait_for_horse p = (if w_class (pr_worker p) = Simple then p else p\<lparr>pr_os := wait_child (pr_horse p) (pr_os p)\<rparr>)"

definition stop_scheduler :: "proc \<Rightarrow> proc" where
  "stop_scheduler p =
     (case pr_scheduler p of
        None \<Rightarrow> p
      | Some c \<Rightarrow>
          if c = 0 then p
          else p\<lparr>pr_os := wait_child c (case kill c SIGTERM (pr_os p) of Inl e \<Rightarrow> pr_os p | Inr os \<Rightarrow> os)\<rparr>)"

definition set_shutdown_requested_date :: "datetime \<Rightarrow> worker \<Rightarrow> cmd list" where
  "set_shutdown_requested_date t w = [HSet (w_key w) [(''shutdown_requested_date'', utcformat t)]]"

definition shutdown_requested_date :: "'s redis \<Rightarrow> 's \<Rightarrow> worker \<Rightarrow> datetime option res" where
  "shutdown_requested_date R s w =
     (case hget R s (w_key w) ''shutdown_requested_date'' of
        None \<Rightarrow> Inr None
      | Some v \<Rightarrow> bindE (utcparse v) (\<lambda>t. Inr (Some t)))"

definition death_date :: "'s redis \<Rightarrow> 's \<Rightarrow> worker \<Rightarrow> datetime option res" where
  "death_date R s w =
     (case hget R s (w_key w) ''death'' of None \<Rightarrow> Inr None | Some v \<Rightarrow> bindE (utcparse v) (\<lambda>t. Inr (Some t)))"

text \<open>A handler sends commands to the server, may raise, and leaves the process changed.\<close>

type_synonym handled = "cmd list \<times> err option \<times> proc"

definition handle_warm_shutdown_request :: "proc \<Rightarrow> proc res" where
  "handle_warm_shutdown_request p =
     (if w_class (pr_worker p) = Heroku \<and> pr_horse p \<noteq> 0 then kill_horse SIGRTMIN p else Inr p)"

definition shutdown :: "datetime \<Rightarrow> proc \<Rightarrow> handled" where
  "shutdown t p =
     (if w_state (pr_worker p) = ''busy'' then
        (set_shutdown_requested_date t (pr_worker p), None,
         stop_scheduler (p\<lparr>pr_worker := (pr_worker p)\<lparr>w_stop_requested := True\<rparr>\<rparr>))
      else ([], Some StopRequested, stop_scheduler p))"

definition request_stop :: "datetime \<Rightarrow> proc \<Rightarrow> handled" where
  "request_stop t p =
     (let p1 = p\<lparr>pr_requested := Some t, pr_on_stop := RequestForceStop\<rparr> in
      case handle_warm_shutdown_request p1 of
        Inl e \<Rightarrow> ([], Some e, p1)
      | Inr p2 \<Rightarrow> shutdown t p2)"

definition request_force_stop :: "datetime \<Rightarrow> proc \<Rightarrow> handled" where
  "request_force_stop t p =
     (case pr_requested p of
        None \<Rightarrow> ([], Some TypeError, p)
      | Some t0 \<Rightarrow>
          if int t - int t0 < int usec then ([], None, p)
          else if pr_horse p = 0 then ([], Some SystemExit, p)
          else
            case kill_horse SIGKILL p of
              Inl e \<Rightarrow> ([], Some e, p)
            | Inr p1 \<Rightarrow> ([], Some SystemExit, wait_for_horse p1))"

definition on_signal :: "datetime \<Rightarrow> proc \<Rightarrow> handled" where
  "on_signal t p = (case pr_on_stop p of RequestStop \<Rightarrow> request_stop t p | RequestForceStop \<Rightarrow> request_force_stop t p)"

section \<open>Commands\<close>

definition pubsub_channel_name :: "string \<Rightarrow> string" where
  "pubsub_channel_name n = ''rq:pubsub:'' @ n"

text \<open>What is published: the channel and the text.\<close>

definition send_command :: "floats \<Rightarrow> string \<Rightarrow> string \<Rightarrow> (string \<times> pyval) list \<Rightarrow> (string \<times> string) res" where
  "send_command F n command kwargs =
     bindE (json_dumps F (PDict (dict_of ((''command'', PStr command) # kwargs)))) (\<lambda>text. Inr (pubsub_channel_name n, text))"

definition parse_payload :: "floats \<Rightarrow> string \<Rightarrow> pyval res" where
  "parse_payload F text = (case json_loads F text of None \<Rightarrow> Inl JSONDecodeError | Some v \<Rightarrow> Inr v)"

definition send_shutdown_command :: "floats \<Rightarrow> string \<Rightarrow> (string \<times> string) res" where
  "send_shutdown_command F n = send_command F n ''shutdown'' []"

definition send_kill_horse_command :: "floats \<Rightarrow> string \<Rightarrow> (string \<times> string) res" where
  "send_kill_horse_command F n = send_command F n ''kill-horse'' []"

definition send_stop_job_command ::
  "codec \<Rightarrow> 's redis \<Rightarrow> floats \<Rightarrow> 's \<Rightarrow> datetime \<Rightarrow> string \<Rightarrow> (string \<times> string) res" where
  "send_stop_job_command C R F s t i =
     bindE (fetch C R s t i) (\<lambda>j.
       case j_worker_name j of
         None \<Rightarrow> Inl InvalidJobOperation
       | Some n \<Rightarrow>
           if n = [] then Inl InvalidJobOperation else send_command F n ''stop-job'' [(''job_id'', PStr i)])"

text \<open>A handler of a command may raise, and leaves the process changed.\<close>

definition as_handled :: "proc \<Rightarrow> proc res \<Rightarrow> err option \<times> proc" where
  "as_handled p r = (case r of Inl e \<Rightarrow> (Some e, p) | Inr p' \<Rightarrow> (None, p'))"

definition handle_shutdown_command :: "proc \<Rightarrow> err option \<times> proc" where
  "handle_shutdown_command p =
     (case kill (os_pid (pr_os p)) SIGINT (pr_os p) of
        Inl e \<Rightarrow> (Some OSError, p)
      | Inr os \<Rightarrow> (None, p\<lparr>pr_os := os\<rparr>))"

definition handle_kill_worker_command :: "proc \<Rightarrow> err option \<times> proc" where
  "handle_kill_worker_command p = (if pr_horse p \<noteq> 0 then as_handled p (kill_horse SIGKILL p) else (None, p))"

definition handle_stop_job_command :: "'s redis \<Rightarrow> 's \<Rightarrow> pyval option \<Rightarrow> proc \<Rightarrow> err option \<times> proc" where
  "handle_stop_job_command R s job_id p =
     (case job_id of
        Some (PStr i) \<Rightarrow>
          if i \<noteq> [] \<and> get_current_job_id R s (pr_worker p) = Some i
          then (let p1 = p\<lparr>pr_worker := (pr_worker p)\<lparr>w_stopped_job_id := Some i\<rparr>\<rparr> in as_handled p1 (kill_horse SIGKILL p1))
          else (None, p)
      | _ \<Rightarrow> (None, p))"

definition handle_command :: "'s redis \<Rightarrow> 's \<Rightarrow> pyval \<Rightarrow> proc \<Rightarrow> err option \<times> proc" where
  "handle_command R s payload p =
     (case payload of
        PDict kvs \<Rightarrow>
          (case map_of kvs ''command'' of
             None \<Rightarrow> (Some KeyError, p)
           | Some c \<Rightarrow>
               if c = PStr ''stop-job'' then handle_stop_job_command R s (map_of kvs ''job_id'') p
               else if c = PStr ''shutdown'' then handle_shutdown_command p
               else if c = PStr ''kill-horse'' then handle_kill_worker_command p
               else (None, p))
      | _ \<Rightarrow> (Some TypeError, p))"

text \<open>A message that comes in. What the handler raises ends the thread that listens (\<open>_pubsub_exception_handler\<close>).\<close>

definition handle_payload :: "floats \<Rightarrow> 's redis \<Rightarrow> 's \<Rightarrow> string \<Rightarrow> proc \<Rightarrow> proc" where
  "handle_payload F R s text p =
     (case parse_payload F text of
        Inl e \<Rightarrow> p\<lparr>pr_listening := False\<rparr>
      | Inr v \<Rightarrow>
          (case handle_command R s v p of
             (None, p') \<Rightarrow> p'
           | (Some e, p') \<Rightarrow> p'\<lparr>pr_listening := False\<rparr>))"

section \<open>The signals of the work horse\<close>

text \<open>
  \<open>setup_work_horse_signals\<close> and what a signal does to a horse: \<open>hs_alarm\<close> is the number of seconds until
  SIGALRM. The Heroku worker's horse raises ShutDownImminentException in the job.
\<close>

datatype disposition = DefaultAction | Ignored | RequestStopRtmin | RequestForceStopRtmin

record horse_signals =
  hs_on :: "sig \<Rightarrow> disposition"
  hs_alarm :: "int option"

definition imminent_shutdown_delay :: int where
  "imminent_shutdown_delay = 6"

definition setup_work_horse_signals :: "worker_class \<Rightarrow> horse_signals \<Rightarrow> horse_signals" where
  "setup_work_horse_signals cl h =
     h\<lparr>hs_on := (if cl = Heroku then (hs_on h)(SIGRTMIN := RequestStopRtmin, SIGINT := Ignored, SIGTERM := Ignored)
                 else (hs_on h)(SIGINT := Ignored, SIGTERM := DefaultAction))\<rparr>"

definition request_stop_sigrtmin :: "int \<Rightarrow> horse_signals \<Rightarrow> err option \<times> horse_signals" where
  "request_stop_sigrtmin delay h =
     (if delay = 0 then (Some ShutDownImminentException, h)
      else (None, h\<lparr>hs_on := (hs_on h)(SIGRTMIN := RequestForceStopRtmin, SIGALRM := RequestForceStopRtmin),
                    hs_alarm := Some delay\<rparr>))"

text \<open>What a signal makes of a horse that runs a job: it goes on, raises in the job, or dies.\<close>

datatype fate = GoesOn horse_signals | Raises err horse_signals | Dies

definition horse_gets :: "int \<Rightarrow> sig \<Rightarrow> horse_signals \<Rightarrow> fate" where
  "horse_gets delay sg h =
     (if sg = SIGKILL then Dies
      else
        case hs_on h sg of
          DefaultAction \<Rightarrow> Dies
        | Ignored \<Rightarrow> GoesOn h
        | RequestStopRtmin \<Rightarrow>
            (case request_stop_sigrtmin delay h of (None, h') \<Rightarrow> GoesOn h' | (Some e, h') \<Rightarrow> Raises e h')
        | RequestForceStopRtmin \<Rightarrow> Raises ShutDownImminentException h)"

section \<open>The loop of \<open>work\<close>, step by step\<close>

text \<open>
  Where the main process is: before the check for suspension (with the state to come back to), waiting for a
  job, with a job it has taken, with one it has prepared, with one a horse works on (and since when), after the
  end of the horse (with what it makes of its exit), on its way out, and gone.
\<close>

datatype phase =
    Ready "string option" | Waiting | Popped job string | Prepared job string | Forked datetime job string
  | Ended job string "string option" | Leaving | Gone

definition goes_on :: "codec \<Rightarrow> 's redis \<Rightarrow> py \<Rightarrow> datetime \<Rightarrow> worker \<Rightarrow> ('s, phase \<times> worker) op" where
  "goes_on C R P t w =
     bindO (maintain C R P t w) (\<lambda>w1.
       if w_stop_requested w1 then ret (Leaving, w1)
       else bindO (set_state_on R False ''idle'' w1) (\<lambda>w2. ret (Waiting, w2)))"

definition restore_state :: "'s redis \<Rightarrow> string option \<Rightarrow> worker \<Rightarrow> ('s, worker) op" where
  "restore_state R before w =
     (case before of None \<Rightarrow> ret w | Some st \<Rightarrow> if st = [] then ret w else set_state_on R False st w)"

text \<open>One turn of the loop of \<open>check_for_suspension\<close>, and what comes up to \<open>dequeue_job_and_maintain_ttl\<close>.\<close>

definition ready_step ::
  "codec \<Rightarrow> 's redis \<Rightarrow> py \<Rightarrow> bool \<Rightarrow> datetime \<Rightarrow> string option \<Rightarrow> worker \<Rightarrow> ('s, phase \<times> worker) op" where
  "ready_step C R P burst t before w =
     (if w_stop_requested w then bindO (restore_state R before w) (goes_on C R P t)
      else
        bindO (is_suspended R t w) (\<lambda>(b, w1).
          if \<not> b then bindO (restore_state R before w1) (goes_on C R P t)
          else if burst then raiseO StopRequested
          else
            (case before of
               None \<Rightarrow> bindO (set_state_on R False ''suspended'' w1) (\<lambda>w2. ret (Ready (Some (w_state w1)), w2))
             | Some st \<Rightarrow> ret (Ready before, w1))))"

text \<open>One turn of the loop of \<open>dequeue_job_and_maintain_ttl\<close>; \<open>over\<close> tells whether the idle time is used up.\<close>

definition waiting_step ::
  "codec \<Rightarrow> 's redis \<Rightarrow> py \<Rightarrow> 's world \<Rightarrow> datetime \<Rightarrow> int option \<Rightarrow> bool \<Rightarrow> worker \<Rightarrow> ('s, phase \<times> worker) op" where
  "waiting_step C R P W t timeout over w =
     bindO (worker_heartbeat_on R False None t w) (\<lambda>w1.
     bindO (maintain C R P t w1) (\<lambda>w2.
     bindO (catchO (bindO (take_job C R W t timeout w2) (\<lambda>r. ret (Some r)))
              (\<lambda>e. if e = DequeueTimeout then Some (ret None) else None)) (\<lambda>r.
       case r of
         None \<Rightarrow> if over then bindO (worker_heartbeat_on R False None t w2) (\<lambda>w3. ret (Leaving, w3)) else ret (Waiting, w2)
       | Some None \<Rightarrow> bindO (worker_heartbeat_on R False None t w2) (\<lambda>w3. ret (Leaving, w3))
       | Some (Some (j, q)) \<Rightarrow>
           bindO (liftE (reorder_queues (wd_shuffle W) q w2)) (\<lambda>w3.
           bindO (worker_heartbeat_on R False None t w3) (\<lambda>w4. ret (Popped j q, w4))))))"

definition prepare_step :: "'s redis \<Rightarrow> datetime \<Rightarrow> string \<Rightarrow> job \<Rightarrow> string \<Rightarrow> worker \<Rightarrow> ('s, phase \<times> worker) op" where
  "prepare_step R t eid j q w = bindO (prepare_execution R t eid j w) (\<lambda>w1. ret (Prepared j q, w1))"

text \<open>
  After the horse: the rest of \<open>monitor_work_horse\<close> and of \<open>execute_job\<close>. \<open>over\<close> tells whether the number of
  jobs is reached.
\<close>

definition ended_step ::
  "codec \<Rightarrow> 's redis \<Rightarrow> py \<Rightarrow> datetime \<Rightarrow> bool \<Rightarrow> job \<Rightarrow> string \<Rightarrow> string option \<Rightarrow> worker \<Rightarrow> ('s, phase \<times> worker) op" where
  "ended_step C R P t over j q ended w =
     bindO (after_horse C R P t (named_queue w q) j w ended) (\<lambda>w1.
     bindO (set_state_on R False ''idle'' w1) (\<lambda>w2.
     bindO (worker_heartbeat_on R False None t w2) (\<lambda>w3. ret (if over then Leaving else Ready None, w3))))"

text \<open>A step of the main process that calls the server: what it raises ends the loop.\<close>

definition main_step :: "('s, phase \<times> worker) op \<Rightarrow> proc \<Rightarrow> 's \<Rightarrow> phase \<times> proc \<times> 's" where
  "main_step m p s =
     (case m (s, []) of
        (Inl e, s', _) \<Rightarrow> (Leaving, p, s')
      | (Inr (ph, w), s', _) \<Rightarrow> (ph, p\<lparr>pr_worker := w\<rparr>, s'))"

text \<open>\<open>wait_for_horse\<close> timed out: the heartbeats, or the end of a horse that is over its time.\<close>

definition monitor_step ::
  "'s redis \<Rightarrow> datetime \<Rightarrow> datetime \<Rightarrow> job \<Rightarrow> string \<Rightarrow> proc \<Rightarrow> 's \<Rightarrow> phase \<times> proc \<times> 's" where
  "monitor_step R start t j q p s =
     (case monitor_tick R start t j (pr_worker p) (s, []) of
        (Inl e, s', _) \<Rightarrow> (Leaving, p, s')
      | (Inr (late, w), s', _) \<Rightarrow>
          if late then
            (case kill_horse SIGKILL (p\<lparr>pr_worker := w\<rparr>) of
               Inl e \<Rightarrow> (Leaving, p\<lparr>pr_worker := w\<rparr>, s')
             | Inr p1 \<Rightarrow> (Forked start j q, wait_for_horse p1, s'))
          else (Forked start j q, p\<lparr>pr_worker := w\<rparr>, s'))"

text \<open>A signal: what the handler raises ends the loop, or the teardown when the loop has been left already.\<close>

definition signal_step :: "'s redis \<Rightarrow> datetime \<Rightarrow> phase \<Rightarrow> proc \<Rightarrow> 's \<Rightarrow> phase \<times> proc \<times> 's" where
  "signal_step R t ph p s =
     (case on_signal t p of
        (cs, e, p') \<Rightarrow> (if e = None then ph else if ph = Leaving then Gone else Leaving, p', run_all R cs s))"

definition teardown :: "'s redis \<Rightarrow> datetime \<Rightarrow> proc \<Rightarrow> 's \<Rightarrow> phase \<times> proc \<times> 's" where
  "teardown R t p s =
     (Gone, (stop_scheduler p)\<lparr>pr_listening := False\<rparr>, fst (snd (register_death R t (pr_worker p) (s, []))))"

text \<open>
  The steps of a worker that forks. A new horse is in the group of its parent until it makes one of its own;
  when it has ended, whatever the way, the parent finds it gone. (The parent stores a working time of 0
  before it drops the pid of the horse; here this write is the first of the step that follows.)
\<close>

inductive wstep ::
  "codec \<Rightarrow> 's redis \<Rightarrow> py \<Rightarrow> 's world \<Rightarrow> floats \<Rightarrow> bool \<Rightarrow> phase \<times> proc \<times> 's \<Rightarrow> phase \<times> proc \<times> 's \<Rightarrow> bool"
  for C R P W F burst where
  ready: "wstep C R P W F burst (Ready before, p, s) (main_step (ready_step C R P burst t before (pr_worker p)) p s)"
| waiting: "wstep C R P W F burst (Waiting, p, s) (main_step (waiting_step C R P W t timeout over (pr_worker p)) p s)"
| prepare: "wstep C R P W F burst (Popped j q, p, s) (main_step (prepare_step R t eid j q (pr_worker p)) p s)"
| fork: "0 < c \<Longrightarrow> \<not> alive (pr_os p) c \<Longrightarrow> getpgid (pr_os p) 0 = Inr g \<Longrightarrow>
    wstep C R P W F burst (Prepared j q, p, s)
      (Forked t (j\<lparr>j_started_at := Some t\<rparr>) q, p\<lparr>pr_horse := c, pr_os := (pr_os p)\<lparr>os_live := c # os_live (pr_os p), os_group := (os_group (pr_os p))(c := g)\<rparr>\<rparr>, s)"
| group: "alive (pr_os p) (pr_horse p) \<Longrightarrow>
    wstep C R P W F burst (Forked start j q, p, s)
      (Forked start j q,
       p\<lparr>pr_os := (pr_os p)\<lparr>os_group := (os_group (pr_os p))(pr_horse p := pr_horse p)\<rparr>\<rparr>, s)"
| monitor: "wstep C R P W F burst (Forked start j q, p, s) (monitor_step R start t j q p s)"
| reap: "\<not> alive (pr_os p) (pr_horse p) \<Longrightarrow>
    wstep C R P W F burst (Forked start j q, p, s) (Ended j q ended, p\<lparr>pr_horse := 0\<rparr>, s)"
| ended: "wstep C R P W F burst (Ended j q ended, p, s) (main_step (ended_step C R P t over j q ended (pr_worker p)) p s)"
| leaving: "wstep C R P W F burst (Leaving, p, s) (teardown R t p s)"
| signal: "ph \<noteq> Gone \<Longrightarrow> wstep C R P W F burst (ph, p, s) (signal_step R t ph p s)"
| message: "ph \<noteq> Gone \<Longrightarrow> pr_listening p \<Longrightarrow> wstep C R P W F burst (ph, p, s) (ph, handle_payload F R s text p, s)"
| exits: "c \<noteq> os_pid (pr_os p) \<Longrightarrow> wstep C R P W F burst (ph, p, s) (ph, p\<lparr>pr_os := wait_child c (pr_os p)\<rparr>, s)"
| others: "wstep C R P W F burst (ph, p, s) (ph, p, s')"


text \<open>A worker that has its handlers installed, and everything that can follow while it lives.\<close>

definition fresh_proc :: "proc \<Rightarrow> bool" where
  "fresh_proc p \<longleftrightarrow>
     pr_on_stop p = RequestStop \<and> pr_requested p = None \<and> pr_horse p = 0 \<and> pr_listening p \<and>
     w_class (pr_worker p) \<noteq> Simple \<and> w_state (pr_worker p) = ''started'' \<and> \<not> w_stop_requested (pr_worker p)"

definition lives :: "proc \<Rightarrow> bool" where
  "lives p \<longleftrightarrow> alive (pr_os p) (os_pid (pr_os p))"

inductive runs ::
  "codec \<Rightarrow> 's redis \<Rightarrow> py \<Rightarrow> 's world \<Rightarrow> floats \<Rightarrow> bool \<Rightarrow> phase \<times> proc \<times> 's \<Rightarrow> phase \<times> proc \<times> 's \<Rightarrow> bool"
  for C R P W F burst where
  here [simp, intro]: "runs C R P W F burst c c"
| onward: "runs C R P W F burst c (ph, p, s) \<Longrightarrow> lives p \<Longrightarrow> wstep C R P W F burst (ph, p, s) c' \<Longrightarrow> runs C R P W F burst c c'"

section \<open>What a step leaves of the worker\<close>

text \<open>Nothing but the named steps changes the state of a worker, its request to stop or its class.\<close>

definition stays :: "worker \<Rightarrow> worker \<Rightarrow> bool" where
  "stays w w' \<longleftrightarrow> w_state w' = w_state w \<and> w_stop_requested w' = w_stop_requested w \<and> w_class w' = w_class w"

lemma stays_refl [simp]: "stays w w"
  by (simp add: stays_def)

lemma stays_time [simp]: "stays w (w\<lparr>w_current_job_working_time := n\<rparr>)"
  by (simp add: stays_def)

lemma stays_trans: "stays v w \<Longrightarrow> stays w x \<Longrightarrow> stays v x"
  by (simp add: stays_def)

lemma stays_bind:
  "yields (stays w) m \<Longrightarrow> (\<And>w1. stays w w1 \<Longrightarrow> yields (stays w1) (f w1)) \<Longrightarrow> yields (stays w) (bindO m f)"
  by (erule yields_bind, rule yieldsI) (auto dest!: yieldsD intro: stays_trans)

lemma worker_heartbeat_on_stays: "yields (stays w) (worker_heartbeat_on R b n t w)"
  unfolding worker_heartbeat_on_def worker_heartbeat_def by (rule yields_seq) (simp add: stays_def)

lemma handle_job_failure_stays: "yields (\<lambda>r. stays w (fst r)) (handle_job_failure C R P u q exc j w)"
  unfolding handle_job_failure_def Let_def
  by (intro yields_new_pipe yields_bind_any yields_seq) (simp add: stays_def)

lemma thread_stays: "(\<And>x v. yields (stays v) (f x v)) \<Longrightarrow> yields (stays w) (thread f xs w)"
  by (induction xs arbitrary: w) (auto intro!: stays_bind)

lemma intermediate_step_stays: "yields (stays w) (intermediate_step C R P t q i w)"
  unfolding intermediate_step_def
  by (intro yields_bind_any) (auto split: option.split intro!: yields_bind_any yields_seq yields_bind [OF handle_job_failure_stays])

lemma intermediate_cleanup_stays: "yields (stays w) (intermediate_cleanup C R P t q w)"
  unfolding intermediate_cleanup_def by (intro yields_bind_any thread_stays intermediate_step_stays)

lemma clean_queue_stays: "yields (stays w) (clean_queue C R P t q w)"
proof -
  have "yields (stays w) (seqO a (seqO b (bindO (intermediate_cleanup C R P t q w) (\<lambda>w1. seqO (c w1) (ret w1)))))" for a b c
    by (intro yields_seq stays_bind intermediate_cleanup_stays) simp
  then show ?thesis unfolding clean_queue_def by (intro yields_bind_any) simp
qed

lemma maintain_stays: "yields (stays w) (maintain C R P t w)"
  unfolding maintain_def run_maintenance_tasks_def worker_clean_registries_def
  by (auto intro!: stays_bind thread_stays clean_queue_stays yields_seq simp: stays_def)

lemma after_failure_stays: "stays w w1 \<Longrightarrow> yields (stays w) (bindO (handle_job_failure C R P u q exc j w1) (\<lambda>r. ret (fst r)))"
  by (rule yields_bind [OF handle_job_failure_stays]) (auto intro: stays_trans)

lemma after_horse_stays: "yields (stays w) (after_horse C R P u q j w ended)"
  unfolding after_horse_def set_current_job_working_time_def Let_def prod.case
  by (rule yields_seq) (auto split: option.split intro!: yields_bind_any yields_seq after_failure_stays simp: stays_def)

lemma reorder_queues_stays: "yields (stays w) (liftE (reorder_queues sh n w))"
  by (auto simp: reorder_queues_def rotate_queues_def Let_def stays_def split: if_splits option.splits)

lemma maintain_heartbeats_stays: "yields (stays w) (maintain_heartbeats R t j w)"
  unfolding maintain_heartbeats_def worker_heartbeat_def heartbeat_execution_def Let_def
  by (auto split: option.split intro!: yields_bind_any yields_seq simp: stays_def)

lemma stays_flag: "stays w v \<Longrightarrow> yields (stays v) m \<Longrightarrow> yields (\<lambda>r. stays w (snd r)) (bindO m (\<lambda>w2. ret (b, w2)))"
  by (erule yields_bind) (auto intro: stays_trans)

lemma monitor_tick_stays: "yields (\<lambda>r. stays w (snd r)) (monitor_tick R start t j w)"
  unfolding monitor_tick_def set_current_job_working_time_def prod.case
  by (rule yields_seq) (simp add: stays_flag [OF stays_time maintain_heartbeats_stays] stays_flag [OF stays_time worker_heartbeat_on_stays])

lemma set_state_on_yields: "yields (\<lambda>w'. w' = w\<lparr>w_state := st\<rparr>) (set_state_on R b st w)"
  by (auto simp: set_state_on_def set_state_def intro!: yields_seq)

section \<open>What holds of every run\<close>

text \<open>
  The state the worker shows by where it is; \<open>\<not> w_stop_requested\<close> where it waits for a job or has just taken
  one. A request to stop is known to the loop or has ended it.
\<close>

definition phase_ok :: "phase \<Rightarrow> worker \<Rightarrow> bool" where
  "phase_ok ph w \<longleftrightarrow>
     (case ph of
        Ready before \<Rightarrow> w_state w \<noteq> ''busy'' \<and> before \<noteq> Some ''busy''
      | Waiting \<Rightarrow> w_state w = ''idle'' \<and> \<not> w_stop_requested w
      | Popped j q \<Rightarrow> w_state w = ''idle'' \<and> \<not> w_stop_requested w
      | Prepared j q \<Rightarrow> w_state w = ''busy''
      | Forked start j q \<Rightarrow> w_state w = ''busy''
      | Ended j q e \<Rightarrow> w_state w = ''busy''
      | _ \<Rightarrow> True)"

definition on_the_way_out :: "phase \<Rightarrow> bool" where
  "on_the_way_out ph \<longleftrightarrow> ph = Leaving \<or> ph = Gone"

definition is_forked :: "phase \<Rightarrow> bool" where
  "is_forked ph \<longleftrightarrow> (case ph of Forked start j q \<Rightarrow> True | _ \<Rightarrow> False)"

definition proc_ok :: "phase \<Rightarrow> proc \<Rightarrow> bool" where
  "proc_ok ph p \<longleftrightarrow>
     phase_ok ph (pr_worker p) \<and> w_class (pr_worker p) \<noteq> Simple \<and>
     (pr_on_stop p = RequestStop \<longleftrightarrow> pr_requested p = None) \<and>
     (w_stop_requested (pr_worker p) \<longrightarrow> pr_requested p \<noteq> None) \<and>
     (pr_requested p \<noteq> None \<longrightarrow> w_stop_requested (pr_worker p) \<or> on_the_way_out ph) \<and>
     (pr_horse p = 0 \<or> is_forked ph \<or> on_the_way_out ph)"

lemma restore_state_yields:
  assumes "w_state w \<noteq> ''busy''" "before \<noteq> Some ''busy''"
  shows "yields (\<lambda>w'. w_state w' \<noteq> ''busy'' \<and> w_stop_requested w' = w_stop_requested w \<and> w_class w' = w_class w) (restore_state R before w)"
  using assms by (auto simp: restore_state_def set_state_on_def set_state_def split: option.split intro!: yields_seq)

text \<open>What a main step hands on: a phase that fits the worker, which keeps its class and its request.\<close>

definition hands_on :: "worker \<Rightarrow> phase \<times> worker \<Rightarrow> bool" where
  "hands_on w r \<longleftrightarrow>
     phase_ok (fst r) (snd r) \<and> w_stop_requested (snd r) = w_stop_requested w \<and> w_class (snd r) = w_class w \<and>
     \<not> is_forked (fst r)"

lemma hands_on_same: "w_stop_requested w1 = w_stop_requested w \<Longrightarrow> w_class w1 = w_class w \<Longrightarrow> hands_on w1 = hands_on w"
  by (rule ext) (simp add: hands_on_def)

lemma hands_on_bind:
  "yields (stays w) m \<Longrightarrow> (\<And>w1. stays w w1 \<Longrightarrow> yields (hands_on w) (f w1)) \<Longrightarrow> yields (hands_on w) (bindO m f)"
  by (erule yields_bind) blast

lemma hands_on_state:
  "hands_on w (ph, v\<lparr>w_state := st\<rparr>) \<Longrightarrow> yields (hands_on w) (bindO (set_state_on R b st v) (\<lambda>w2. ret (ph, w2)))"
  by (rule yields_bind [OF set_state_on_yields]) simp

lemma goes_on_yields: "w_stop_requested w1 = w_stop_requested w \<Longrightarrow> w_class w1 = w_class w \<Longrightarrow> yields (hands_on w) (goes_on C R P t w1)"
  unfolding goes_on_def
  by (subst hands_on_same [of w1 w, symmetric])
     (auto intro!: hands_on_bind [OF maintain_stays] hands_on_state simp: hands_on_def phase_ok_def is_forked_def stays_def)

lemma ready_step_yields:
  assumes "phase_ok (Ready before) w"
  shows "yields (hands_on w) (ready_step C R P burst t before w)"
proof -
  have ok: "w_state w \<noteq> ''busy''" "before \<noteq> Some ''busy''" using assms by (simp_all add: phase_ok_def)
  have go: "yields (hands_on w) (bindO (restore_state R before v) (goes_on C R P t))" if "stays w v" for v
    by (rule yields_bind [OF restore_state_yields]) (use that ok in \<open>auto simp: stays_def intro: goes_on_yields\<close>)
  have susp: "yields (\<lambda>r. stays w (snd r)) (is_suspended R t w)"
    unfolding is_suspended_def by (rule yields_bind [OF worker_heartbeat_on_stays]) (auto intro: yields_bind_any)
  have out: "hands_on w (Ready (Some (w_state v)), v\<lparr>w_state := ''suspended''\<rparr>)" "before = Some st \<Longrightarrow> hands_on w (Ready (Some st), v)"
    if "stays w v" for v st
    using that ok by (auto simp: hands_on_def phase_ok_def is_forked_def stays_def)
  show ?thesis
    unfolding ready_step_def
    by (auto simp: go out split: option.split intro!: yields_bind [OF susp] hands_on_state)
qed

lemma waiting_step_yields:
  assumes "phase_ok Waiting w"
  shows "yields (hands_on w) (waiting_step C R P W t timeout over w)"
proof -
  have out: "yields (hands_on w) (bindO (worker_heartbeat_on R False None t v) (\<lambda>w3. ret (ph, w3)))"
    if "stays w v" "ph = Leaving \<or> (\<exists>j q. ph = Popped j q)" for v ph
    by (rule yields_bind [OF worker_heartbeat_on_stays])
       (use that assms in \<open>auto simp: hands_on_def phase_ok_def is_forked_def stays_def\<close>)
  have stay: "hands_on w (Waiting, v)" if "stays w v" for v
    using that assms by (auto simp: hands_on_def phase_ok_def is_forked_def stays_def)
  have step: "yields (hands_on w)
      (bindO (liftE (reorder_queues (wd_shuffle W) q v)) (\<lambda>w3. bindO (worker_heartbeat_on R False None t w3) (\<lambda>w4. ret (Popped j q, w4))))"
    if "stays w v" for v j q
    by (rule yields_bind [OF reorder_queues_stays]) (use that in \<open>auto intro: out stays_trans\<close>)
  have found: "yields (hands_on w)
      (case r of
         None \<Rightarrow> if over then bindO (worker_heartbeat_on R False None t v) (\<lambda>w3. ret (Leaving, w3)) else ret (Waiting, v)
       | Some None \<Rightarrow> bindO (worker_heartbeat_on R False None t v) (\<lambda>w3. ret (Leaving, w3))
       | Some (Some (j, q)) \<Rightarrow>
           bindO (liftE (reorder_queues (wd_shuffle W) q v)) (\<lambda>w3.
           bindO (worker_heartbeat_on R False None t w3) (\<lambda>w4. ret (Popped j q, w4))))"
    if "stays w v" for v and r :: "(job \<times> string) option option"
    using that by (simp add: out step stay split: option.split prod.split)
  show ?thesis
    unfolding waiting_step_def
    by (rule hands_on_bind [OF worker_heartbeat_on_stays], rule yields_bind [OF maintain_stays],
        rule yields_bind_any, rule found) (rule stays_trans)
qed

lemma prepare_execution_yields:
  "yields (\<lambda>v. \<exists>x. v = w\<lparr>w_state := ''busy'', w_execution := x\<rparr>) (prepare_execution R t eid j w)"
  unfolding prepare_execution_def set_state_def by (auto split: prod.split intro!: yields_seq)

lemma prepare_step_yields: "yields (hands_on w) (prepare_step R t eid j q w)"
  unfolding prepare_step_def
  by (rule yields_bind [OF prepare_execution_yields]) (auto simp: hands_on_def phase_ok_def is_forked_def)

lemma ended_step_yields: "yields (hands_on w) (ended_step C R P t over j q ended w)"
proof -
  have last: "yields (hands_on w) (bindO (worker_heartbeat_on R False None t (v\<lparr>w_state := ''idle''\<rparr>)) (\<lambda>w3. ret (ph, w3)))"
    if "stays w v" "ph = Leaving \<or> ph = Ready None" for v ph
    by (rule yields_bind [OF worker_heartbeat_on_stays]) (use that in \<open>auto simp: hands_on_def phase_ok_def is_forked_def stays_def\<close>)
  show ?thesis
    unfolding ended_step_def
    by (rule hands_on_bind [OF after_horse_stays], rule yields_bind [OF set_state_on_yields]) (auto intro: last)
qed


lemma kill_horse_Inr: "kill_horse sg p = Inr p' \<Longrightarrow> p' = p\<lparr>pr_os := pr_os p'\<rparr>"
  by (auto simp: kill_horse_def split: if_splits sum.splits)

lemma kill_horse_fields:
  assumes "kill_horse sg p = Inr p'"
  shows "pr_worker p' = pr_worker p" "pr_requested p' = pr_requested p" "pr_horse p' = pr_horse p"
  by (subst kill_horse_Inr [OF assms], simp)+

lemma wait_for_horse_eq: "wait_for_horse p = p\<lparr>pr_os := pr_os (wait_for_horse p)\<rparr>"
  by (simp add: wait_for_horse_def)

lemma stop_scheduler_eq: "stop_scheduler p = p\<lparr>pr_os := pr_os (stop_scheduler p)\<rparr>"
  by (simp add: stop_scheduler_def split: option.split)

lemma stop_scheduler_fields [simp]:
  "pr_worker (stop_scheduler p) = pr_worker p" "pr_on_stop (stop_scheduler p) = pr_on_stop p"
  "pr_requested (stop_scheduler p) = pr_requested p" "pr_horse (stop_scheduler p) = pr_horse p"
  "pr_listening (stop_scheduler p) = pr_listening p"
  by (simp_all add: stop_scheduler_def split: option.split)

lemma wait_for_horse_fields [simp]:
  "pr_worker (wait_for_horse p) = pr_worker p" "pr_requested (wait_for_horse p) = pr_requested p"
  "pr_horse (wait_for_horse p) = pr_horse p"
  by (simp_all add: wait_for_horse_def)

lemma proc_ok_os [simp]: "proc_ok ph (p\<lparr>pr_os := os\<rparr>) = proc_ok ph p"
  by (simp add: proc_ok_def)

lemma proc_ok_wait [simp]: "proc_ok ph (wait_for_horse p) = proc_ok ph p"
  by (subst wait_for_horse_eq) simp

lemma proc_ok_scheduler [simp]: "proc_ok ph (stop_scheduler p) = proc_ok ph p"
  by (subst stop_scheduler_eq) simp

lemma proc_ok_stays: "stays (pr_worker p) w \<Longrightarrow> proc_ok ph p \<Longrightarrow> proc_ok ph (p\<lparr>pr_worker := w\<rparr>)"
  by (auto simp: proc_ok_def phase_ok_def stays_def split: phase.splits)

lemma proc_ok_leaving: "proc_ok ph p \<Longrightarrow> proc_ok Leaving p" "proc_ok ph p \<Longrightarrow> proc_ok Gone p"
  by (auto simp: proc_ok_def phase_ok_def on_the_way_out_def)

lemma proc_ok_kill: "proc_ok ph p \<Longrightarrow> kill_horse sg p = Inr p' \<Longrightarrow> proc_ok ph p'"
  by (metis kill_horse_Inr proc_ok_os)

text \<open>A step keeps \<open>proc_ok\<close>, the request to stop and the process itself.\<close>

definition keeps :: "proc \<Rightarrow> phase \<times> proc \<times> 's \<Rightarrow> bool" where
  "keeps p c \<longleftrightarrow>
     proc_ok (fst c) (fst (snd c)) \<and> (pr_requested p \<noteq> None \<longrightarrow> pr_requested (fst (snd c)) \<noteq> None)"

lemma keepsI: "proc_ok ph p' \<Longrightarrow> pr_requested p' = pr_requested p \<Longrightarrow> keeps p (ph, p', s)"
  by (simp add: keeps_def)

lemma main_step_keeps:
  assumes "proc_ok ph p" "yields (hands_on (pr_worker p)) m" "\<not> is_forked ph" "\<not> on_the_way_out ph"
  shows "keeps p (main_step m p s)"
proof (cases "m (s, [])")
  case (fields r c)
  show ?thesis
  proof (cases r)
    case (Inl e)
    then show ?thesis using fields assms(1) by (auto simp: main_step_def intro!: keepsI intro: proc_ok_leaving)
  next
    case (Inr x)
    then have "hands_on (pr_worker p) x" using fields assms(2) by (blast dest: yieldsD)
    then show ?thesis using Inr fields assms
      by (cases x) (auto simp: main_step_def hands_on_def proc_ok_def intro!: keepsI)
  qed
qed

lemma monitor_step_keeps:
  assumes "proc_ok (Forked start j q) p"
  shows "keeps p (monitor_step R start t j q p s)"
proof (cases "monitor_tick R start t j (pr_worker p) (s, [])")
  case (fields r c)
  show ?thesis
  proof (cases r)
    case (Inl e)
    then show ?thesis using fields assms by (auto simp: monitor_step_def intro!: keepsI intro: proc_ok_leaving)
  next
    case (Inr x)
    obtain late w where x: "x = (late, w)" by (cases x)
    have "stays (pr_worker p) w" using yieldsD [OF monitor_tick_stays] fields Inr x by fastforce
    note ok = proc_ok_stays [OF this assms]
    have "proc_ok (Forked start j q) p1 \<and> pr_requested p1 = pr_requested p"
      if "kill_horse SIGKILL (p\<lparr>pr_worker := w\<rparr>) = Inr p1" for p1
      using proc_ok_kill [OF ok that] kill_horse_fields(2) [OF that] by simp
    then show ?thesis using Inr fields ok x
      by (auto simp: monitor_step_def intro!: keepsI proc_ok_leaving [OF ok] split: sum.split)
  qed
qed

lemma request_stop_ok:
  assumes "request_stop t p = (cs, e, p')" "proc_ok ph p"
  shows "pr_requested p' = Some t" "proc_ok (if e = None then ph else Leaving) p'"
proof -
  let ?p = "p\<lparr>pr_requested := Some t, pr_on_stop := RequestForceStop\<rparr>"
  have out: "proc_ok Leaving ?p" using assms(2) by (auto simp: proc_ok_def phase_ok_def on_the_way_out_def)
  have busy: "proc_ok ph (?p\<lparr>pr_os := os, pr_worker := (pr_worker p)\<lparr>w_stop_requested := True\<rparr>\<rparr>)" if "w_state (pr_worker p) = ''busy''" for os
    using assms(2) that by (auto simp: proc_ok_def phase_ok_def split: phase.splits)
  have "pr_requested p' = Some t \<and> proc_ok (if e = None then ph else Leaving) p'"
  proof (cases "handle_warm_shutdown_request ?p")
    case (Inl x)
    then show ?thesis using assms(1) out by (auto simp: request_stop_def Let_def)
  next
    case (Inr p2)
    then obtain os where p2: "p2 = ?p\<lparr>pr_os := os\<rparr>"
      by (metis (no_types, lifting) Inr_inject handle_warm_shutdown_request_def kill_horse_Inr proc.surjective proc.update_convs(7))
    then show ?thesis using assms(1) out busy Inr
      by (auto simp: request_stop_def shutdown_def Let_def p2 split: if_splits)
  qed
  then show "pr_requested p' = Some t" "proc_ok (if e = None then ph else Leaving) p'" by simp_all
qed

lemma request_force_stop_ok:
  assumes "request_force_stop t p = (cs, e, p')" "proc_ok ph p"
  shows "pr_requested p' = pr_requested p" "proc_ok (if e = None then ph else Leaving) p'"
  using assms proc_ok_leaving(1) [OF assms(2)]
  by (auto simp: request_force_stop_def split: option.splits if_splits sum.splits simp: kill_horse_fields dest: proc_ok_kill)

lemma on_signal_ok:
  assumes "on_signal t p = (cs, e, p')" "proc_ok ph p"
  shows "pr_requested p' \<noteq> None" "proc_ok (if e = None then ph else Leaving) p'"
proof -
  have on: "pr_on_stop p = RequestStop \<longleftrightarrow> pr_requested p = None" using assms(2) by (simp add: proc_ok_def)
  have "pr_requested p' \<noteq> None \<and> proc_ok (if e = None then ph else Leaving) p'"
  proof (cases "pr_on_stop p")
    case RequestStop
    then have "request_stop t p = (cs, e, p')" using assms(1) by (simp add: on_signal_def)
    then show ?thesis using request_stop_ok [OF _ assms(2)] by blast
  next
    case RequestForceStop
    then have "request_force_stop t p = (cs, e, p')" using assms(1) by (simp add: on_signal_def)
    then show ?thesis using request_force_stop_ok [OF _ assms(2)] on RequestForceStop by auto
  qed
  then show "pr_requested p' \<noteq> None" "proc_ok (if e = None then ph else Leaving) p'" by blast+
qed

lemma signal_step_keeps:
  assumes "proc_ok ph p"
  shows "keeps p (signal_step R t ph p s)"
  using on_signal_ok [OF _ assms, of t] proc_ok_leaving(2)
  by (auto simp: signal_step_def keeps_def split: prod.split)

lemma as_handled_ok: "proc_ok ph p \<Longrightarrow> as_handled p (kill_horse sg p) = (e, p') \<Longrightarrow> proc_ok ph p' \<and> pr_requested p' = pr_requested p"
  by (auto simp: as_handled_def split: sum.splits dest: proc_ok_kill kill_horse_fields(2))

lemma handle_command_ok:
  assumes "proc_ok ph p" "handle_command R s v p = (e, p')"
  shows "proc_ok ph p' \<and> pr_requested p' = pr_requested p"
proof -
  have stopped: "proc_ok ph (p\<lparr>pr_worker := (pr_worker p)\<lparr>w_stopped_job_id := i\<rparr>\<rparr>)" for i
    using assms(1) by (intro proc_ok_stays) (simp_all add: stays_def)
  show ?thesis
    using assms(2) assms(1)
    by (auto simp: handle_command_def handle_stop_job_command_def handle_shutdown_command_def handle_kill_worker_command_def Let_def
        split: pyval.splits option.splits if_splits sum.splits dest: as_handled_ok as_handled_ok [OF stopped])
qed

lemma handle_payload_keeps:
  assumes "proc_ok ph p"
  shows "keeps p (ph, handle_payload F R s text p, s)"
proof -
  have deaf: "proc_ok ph (r\<lparr>pr_listening := False\<rparr>) = proc_ok ph r" for r by (simp add: proc_ok_def)
  show ?thesis
    unfolding handle_payload_def
    by (auto split: sum.split prod.split option.split intro!: keepsI simp: deaf assms dest: handle_command_ok [OF assms])
qed

lemma proc_ok_phase: "proc_ok ph p \<Longrightarrow> phase_ok ph (pr_worker p)"
  by (simp add: proc_ok_def)

lemma wstep_keeps:
  assumes "wstep C R P W F burst (ph, p, s) c" "proc_ok ph p"
  shows "keeps p c"
  using assms(1)
proof (cases rule: wstep.cases)
  case (ready before t)
  then show ?thesis using assms(2)
    by (auto intro!: main_step_keeps ready_step_yields dest: proc_ok_phase simp: is_forked_def on_the_way_out_def)
next
  case (waiting t timeout over)
  then show ?thesis using assms(2)
    by (auto intro!: main_step_keeps waiting_step_yields dest: proc_ok_phase simp: is_forked_def on_the_way_out_def)
next
  case (prepare j q t eid)
  then show ?thesis using assms(2)
    by (auto intro!: main_step_keeps prepare_step_yields simp: is_forked_def on_the_way_out_def)
next
  case (ended j q e t over)
  then show ?thesis using assms(2)
    by (auto intro!: main_step_keeps ended_step_yields simp: is_forked_def on_the_way_out_def)
next
  case (fork c g j q t)
  then show ?thesis using assms(2) by (auto simp: proc_ok_def phase_ok_def is_forked_def on_the_way_out_def intro!: keepsI)
next
  case (reap start j q e)
  then show ?thesis using assms(2) by (auto simp: proc_ok_def phase_ok_def is_forked_def on_the_way_out_def intro!: keepsI)
next
  case (leaving t)
  then show ?thesis using proc_ok_leaving(2) [OF assms(2)] by (auto simp: teardown_def proc_ok_def intro!: keepsI)
next
  case (signal t)
  then show ?thesis using signal_step_keeps assms(2) by auto
next
  case (monitor start j q t)
  then show ?thesis using monitor_step_keeps assms(2) by auto
next
  case (message t)
  then show ?thesis using handle_payload_keeps assms(2) by auto
qed (use assms(2) in \<open>auto intro!: keepsI\<close>)

lemma runs_keeps:
  "runs C R P W F burst c0 c \<Longrightarrow> proc_ok (fst c0) (fst (snd c0)) \<Longrightarrow> keeps (fst (snd c0)) c"
proof (induction rule: runs.induct)
  case (onward c ph p s c')
  have "keeps p c'" using wstep_keeps [OF onward.hyps(3)] onward.IH [OF onward.prems] by (simp add: keeps_def)
  then show ?case using onward.IH [OF onward.prems] by (simp add: keeps_def)
qed (simp add: keeps_def)

lemma fresh_ok: "fresh_proc p \<Longrightarrow> proc_ok (Ready None) p"
  by (simp add: fresh_proc_def proc_ok_def phase_ok_def)

section \<open>After a request to stop\<close>


lemma kill_sent: "kill c sg os = Inr os' \<Longrightarrow> os_sent os' = os_sent os @ [(Process c, sg)]"
  by (auto simp: kill_def sent_def gone_def split: if_splits)

lemma stop_scheduler_sent:
  "os_sent (pr_os (stop_scheduler p)) = os_sent (pr_os p) \<or>
   (\<exists>c. pr_scheduler p = Some c \<and> os_sent (pr_os (stop_scheduler p)) = os_sent (pr_os p) @ [(Process c, SIGTERM)])"
  by (auto simp: stop_scheduler_def wait_child_def gone_def split: option.split sum.split dest: kill_sent)

lemma stop_scheduler_live:
  "pr_scheduler p \<noteq> Some c \<Longrightarrow> alive (pr_os (stop_scheduler p)) c = alive (pr_os p) c"
  by (auto simp: stop_scheduler_def wait_child_def gone_def kill_def sent_def alive_def split: option.split sum.split if_splits)

text \<open>
  C23. A first signal, and every signal less than a second after it, leaves the work horse alone: no signal is sent but
  SIGTERM to the scheduler's process, and the later signals do nothing at all. (The Heroku worker tells its horse by
  SIGRTMIN.)
\<close>

theorem warm_stop_spares_horse:
  assumes "pr_on_stop p = RequestStop" "w_class (pr_worker p) \<noteq> Heroku" "on_signal t p = (cs, e, p')"
  shows "(\<exists>xs. os_sent (pr_os p') = os_sent (pr_os p) @ xs \<and> (\<forall>x \<in> set xs. \<exists>c. pr_scheduler p = Some c \<and> x = (Process c, SIGTERM))) \<and>
    (\<forall>c. pr_scheduler p \<noteq> Some c \<longrightarrow> alive (pr_os p') c = alive (pr_os p) c) \<and>
    (\<forall>u. u < t + usec \<longrightarrow> on_signal u p' = ([], None, p'))"
proof -
  let ?p = "p\<lparr>pr_requested := Some t, pr_on_stop := RequestForceStop\<rparr>"
  obtain w where p': "p' = stop_scheduler (?p\<lparr>pr_worker := w\<rparr>)"
  proof (cases "w_state (pr_worker p) = ''busy''")
    case False
    have "?p\<lparr>pr_worker := pr_worker p\<rparr> = ?p" by simp
    with False assms that [of "pr_worker p"] show ?thesis
      by (simp add: on_signal_def request_stop_def handle_warm_shutdown_request_def shutdown_def Let_def)
  qed (use assms that in \<open>auto simp: on_signal_def request_stop_def handle_warm_shutdown_request_def shutdown_def Let_def\<close>)
  have "on_signal u p' = ([], None, p')" if "u < t + usec" for u
    using that by (simp add: p' on_signal_def request_force_stop_def)
  then show ?thesis
    using stop_scheduler_sent [of "?p\<lparr>pr_worker := w\<rparr>"] stop_scheduler_live [of "?p\<lparr>pr_worker := w\<rparr>"]
    by (fastforce simp: p')
qed

text \<open>A horse that runs in a group of its own, and may be killed.\<close>

definition own_group :: "proc \<Rightarrow> bool" where
  "own_group p \<longleftrightarrow>
     w_class (pr_worker p) \<noteq> Simple \<and> 0 < pr_horse p \<and> alive (pr_os p) (pr_horse p) \<and> lives p \<and>
     os_group (pr_os p) (pr_horse p) = pr_horse p \<and> os_group (pr_os p) (os_pid (pr_os p)) \<noteq> pr_horse p \<and>
     \<not> os_refuses (pr_os p) (pr_horse p)"

lemma kill_horse_own:
  assumes "own_group p"
  shows "\<exists>p'. kill_horse SIGKILL p = Inr p' \<and> pr_worker p' = pr_worker p \<and>
    (\<forall>c. alive (pr_os p') c \<longleftrightarrow> alive (pr_os p) c \<and> os_group (pr_os p) c \<noteq> pr_horse p) \<and> lives p'"
  using assms
  by (auto simp: own_group_def kill_horse_def getpgid_def killpg_def alive_def lives_def list_ex_iff sent_def gone_def)

text \<open>
  A second signal a second or more after the first takes the horse down with the worker: the process group of the
  horse is killed, no process outside it, the worker waits for its end and SystemExit leaves the loop.
\<close>

theorem cold_stop_kills_horse:
  assumes "own_group p" "pr_on_stop p = RequestForceStop" "pr_requested p = Some t0" "t0 + usec \<le> t"
  shows "\<exists>p'. on_signal t p = ([], Some SystemExit, p') \<and>
    (\<forall>c. alive (pr_os p') c \<longleftrightarrow> alive (pr_os p) c \<and> os_group (pr_os p) c \<noteq> pr_horse p)"
proof -
  obtain p1 where p1: "kill_horse SIGKILL p = Inr p1"
    and live: "\<forall>c. alive (pr_os p1) c \<longleftrightarrow> alive (pr_os p) c \<and> os_group (pr_os p) c \<noteq> pr_horse p"
    using kill_horse_own [OF assms(1)] by blast
  have "on_signal t p = ([], Some SystemExit, wait_for_horse p1)"
    using assms p1 by (simp add: on_signal_def request_force_stop_def own_group_def)
  moreover have "alive (pr_os (wait_for_horse p1)) c \<longleftrightarrow> alive (pr_os p1) c" for c
    using live assms(1) kill_horse_fields [OF p1]
    by (auto simp: wait_for_horse_def wait_child_def gone_def alive_def own_group_def)
  ultimately show ?thesis using live by blast
qed

section \<open>Commands arrive as they were sent\<close>

lemma parse_sent:
  assumes "send_command F n command kwargs = Inr (ch, text)" "jsonable F (PDict (dict_of ((''command'', PStr command) # kwargs)))"
  shows "ch = pubsub_channel_name n" "parse_payload F text = Inr (PDict (dict_of ((''command'', PStr command) # kwargs)))"
  using assms json_loads_text [OF assms(2)] by (auto simp: send_command_def parse_payload_def json_dumps_def bindE_Inr_iff split: if_splits)

lemma send_stop_job_Inr:
  assumes "send_stop_job_command C R F s t i = Inr (ch, text)"
  obtains j n where "fetch C R s t i = Inr j" "j_worker_name j = Some n" "n \<noteq> []" "ch = pubsub_channel_name n"
    "parse_payload F text = Inr (PDict [(''command'', PStr ''stop-job''), (''job_id'', PStr i)])"
proof -
  have d: "dict_of [(''command'', PStr ''stop-job''), (''job_id'', PStr i)] = [(''command'', PStr ''stop-job''), (''job_id'', PStr i)]"
    by (simp add: dict_of_def)
  obtain j n where j: "fetch C R s t i = Inr j" "j_worker_name j = Some n" "n \<noteq> []"
    and c: "send_command F n ''stop-job'' [(''job_id'', PStr i)] = Inr (ch, text)"
    using assms by (auto simp: send_stop_job_command_def bindE_Inr_iff split: option.splits if_splits)
  from parse_sent [OF c] show ?thesis using j by (intro that) (simp_all add: d)
qed

text \<open>
  C22. A command to stop a job, sent by its id, is published for the worker that the job's hash names. The worker that gets
  it stops that job and no other: if its current job is another one, or none, nothing changes; if it is that job and
  the horse runs in its own group, the job is marked as stopped by the user, the group is killed and the worker lives.
\<close>

theorem stop_command_exact:
  assumes "send_stop_job_command C R F s t i = Inr (ch, text)" "i \<noteq> []"
  shows "\<exists>j n. fetch C R s t i = Inr j \<and> j_worker_name j = Some n \<and> ch = pubsub_channel_name n \<and>
    (\<forall>s' p. get_current_job_id R s' (pr_worker p) \<noteq> Some i \<longrightarrow> handle_payload F R s' text p = p) \<and>
    (\<forall>s' p. get_current_job_id R s' (pr_worker p) = Some i \<and> own_group p \<longrightarrow>
       w_stopped_job_id (pr_worker (handle_payload F R s' text p)) = Some i \<and>
       \<not> alive (pr_os (handle_payload F R s' text p)) (pr_horse p) \<and> lives (handle_payload F R s' text p))"
proof -
  obtain j n where j: "fetch C R s t i = Inr j" "j_worker_name j = Some n" "ch = pubsub_channel_name n"
    and parse: "parse_payload F text = Inr (PDict [(''command'', PStr ''stop-job''), (''job_id'', PStr i)])"
    using assms(1) by (rule send_stop_job_Inr)
  have stop: "w_stopped_job_id (pr_worker (handle_payload F R s' text p)) = Some i \<and>
      \<not> alive (pr_os (handle_payload F R s' text p)) (pr_horse p) \<and> lives (handle_payload F R s' text p)"
    if "get_current_job_id R s' (pr_worker p) = Some i" "own_group p" for s' p
  proof -
    let ?p = "p\<lparr>pr_worker := (pr_worker p)\<lparr>w_stopped_job_id := Some i\<rparr>\<rparr>"
    have o: "own_group ?p" using that(2) by (simp add: own_group_def lives_def)
    obtain p1 where p1: "kill_horse SIGKILL ?p = Inr p1" "pr_worker p1 = pr_worker ?p" "lives p1"
      "\<forall>c. alive (pr_os p1) c \<longleftrightarrow> alive (pr_os ?p) c \<and> os_group (pr_os ?p) c \<noteq> pr_horse ?p"
      using kill_horse_own [OF o] by blast
    have "handle_payload F R s' text p = p1"
      using that p1(1) assms(2)
      by (simp add: handle_payload_def parse handle_command_def handle_stop_job_command_def as_handled_def Let_def)
    then show ?thesis using p1 that(2) by (simp add: own_group_def)
  qed
  show ?thesis
    using j stop by (auto simp: handle_payload_def parse handle_command_def handle_stop_job_command_def intro!: exI [of _ j] exI [of _ n])
qed

text \<open>
  C34. A command to stop a job that reaches a worker between the end of the horse and the handling of its failure finds the
  job still current but no horse: the worker then kills its own process group.
\<close>

theorem late_stop_kills_worker:
  assumes "parse_payload F text = Inr (PDict [(''command'', PStr ''stop-job''), (''job_id'', PStr i)])" "i \<noteq> []"
    and "get_current_job_id R s (pr_worker p) = Some i" "pr_horse p = 0" "w_class (pr_worker p) \<noteq> Simple" "lives p"
    and "\<not> os_refuses (pr_os p) (os_group (pr_os p) (os_pid (pr_os p)))"
  shows "\<not> lives (handle_payload F R s text p)"
  using assms
  by (auto simp: handle_payload_def handle_command_def handle_stop_job_command_def as_handled_def Let_def kill_horse_def
      getpgid_def lives_def killpg_def alive_def list_ex_iff sent_def gone_def)


section \<open>What becomes of the job\<close>

context redis_server
begin

lemma stopped_run:
  fixes s :: 's
  assumes "w_stopped_job_id w = Some (j_id j)" "\<not> w_disable_default_handler w" "j_stopped_callback_name j = None"
    and "sset R s (dependents_key (j_id j)) = {}" "get_status R s (j_id j) = Inr st"
    and n: "n = opt_default default_failure_ttl (j_failure_ttl j)" "0 < n"
    and td: "to_dict C False False (j\<lparr>j_status := STOPPED, j_exc_info := Some ''Job stopped by user, work-horse terminated.''\<rparr>) = Inr (fs, j3)"
    and rc: "create_failure C (j_id j) (j_failure_ttl j) ''Job stopped by user, work-horse terminated.'' (w_name w) (worker_exec j w) = Inr rc"
  shows "\<exists>w' s'. after_horse C R P u q j w (Some exc) (s, []) = (Inr w', s', []) \<and>
    get_status R s' (j_id j) = Inr STOPPED \<and>
    zscore R s' (registry_key Failed (j_origin j)) (j_id j) = Some (Fin (current_timestamp u + n)) \<and>
    (\<forall>p. r_list R s' (queue_key p) = r_list R s (queue_key p)) \<and>
    hget R s' (w_key w) ''current_job'' = None \<and> w_stopped_job_id w' = None \<and> w_execution w' = None"
proof -
  let ?w = "w\<lparr>w_current_job_working_time := 0\<rparr>" and ?j = "j\<lparr>j_status := st\<rparr>"
  let ?s = "run_all R [HSet (w_key w) [(''current_job_working_time'', ''0'')]] s"
  let ?exc = "''Job stopped by user, work-horse terminated.''"
  have as: "fails_as STOPPED ?j ?w" using assms(1,2) by (simp add: fails_as_def)
  have dep: "sset R ?s (dependents_key (j_id ?j)) = {}" using assms(4) by (simp add: set_run)
  have status: "get_status R ?s (j_id j) = Inr st" using assms(5) by (simp add: get_status_def hash_run)
  have ex: "worker_exec ?j ?w = worker_exec j w" by (simp add: worker_exec_def)
  have td': "to_dict C False False (?j\<lparr>j_status := STOPPED, j_exc_info := Some ?exc\<rparr>) = Inr (fs, j3)" using td by simp
  have rc': "create_failure C (j_id ?j) (j_failure_ttl ?j) ?exc (w_name ?w) (worker_exec ?j ?w) = Inr rc" using rc ex by simp
  note fail = handle_job_failure_as [OF as dep _ n(2) td' rc', where u = u and P = P and q = q and buf = "[]"]
  let ?s' = "run_all R (failure_cmds STOPPED u n fs rc ?j ?w) ?s"
  have run: "after_horse C R P u q j w (Some exc) (s, []) =
      (Inr (?w\<lparr>w_stopped_job_id := None, w_execution := None\<rparr>), ?s', [])"
    using fail n(1) assms(1,3) status
    by (simp add: after_horse_def set_current_job_working_time_def bindO_def seqO_def Let_def run_callback_def)
  have st: "map_of (rev fs) ''status'' = Some (status_text STOPPED)" using to_dict_status_any [OF td] by simp
  note eff = failure_run [OF n(2) rc' st, where s = ?s and u = u and w = ?w]
  have key: "w_key ?w = w_key w" by (simp add: w_key_def)
  show ?thesis
    by (rule exI [of _ "?w\<lparr>w_stopped_job_id := None, w_execution := None\<rparr>"], rule exI [of _ ?s'])
       (use run eff(1,2,3,5) key in \<open>simp add: list_run\<close>)
qed

end

context redis_server
begin

lemma srem_views:
  "\<forall>c \<in> set cs. \<exists>k xs. c = SRem k xs \<Longrightarrow>
   r_list R (run_all R cs v) k = r_list R v k \<and> zscore R (run_all R cs v) k = zscore R v k \<and> hget R (run_all R cs v) k = hget R v k"
  by (induction cs arbitrary: v) (auto simp: list_run zset_run hash_run)

lemma death_views:
  fixes s :: 's and u w
  defines "s' \<equiv> fst (snd (register_death R u w (s, [])))"
  shows "r_list R s' = r_list R s" "zscore R s' = zscore R s" "get_status R s' i = get_status R s i"
proof -
  have "\<forall>c \<in> set (unregister w). \<exists>k xs. c = SRem k xs" by (auto simp: unregister_def)
  note reg = srem_views [OF this]
  have s': "s' = run_all R (unregister w @ [HSet (w_key w) [(''death'', utcformat u)], Expire (w_key w) 60]) s"
    by (simp add: s'_def register_death_def)
  have "job_key i \<noteq> w_key w" by (rule fam_neq) simp
  then show "r_list R s' = r_list R s" "zscore R s' = zscore R s" "get_status R s' i = get_status R s i"
    by (auto simp: s' list_run zset_run hash_run reg get_status_def)
qed

end

lemma popped_signal:
  assumes "proc_ok (Popped j q) p" "pr_requested p = None"
  shows "\<exists>p'. signal_step R t (Popped j q) p s = (Leaving, p', s) \<and> pr_worker p' = pr_worker p"
  using assms
  by (auto simp: signal_step_def on_signal_def request_stop_def handle_warm_shutdown_request_def shutdown_def Let_def proc_ok_def
      phase_ok_def is_forked_def on_the_way_out_def)

text \<open>
  C24. A job the worker has been told to stop is not tried again, whatever retries it has left: when its horse has ended,
  its status is stopped, it is in the registry of failed jobs for its failure ttl, and the worker is ready for the next job
  (no stopped callback, no dependents).
\<close>

theorem stop_is_final:
  assumes "redis_server R"
    and "w_stopped_job_id w = Some (j_id j)" "\<not> w_disable_default_handler w" "j_stopped_callback_name j = None"
    and "sset R s (dependents_key (j_id j)) = {}" "get_status R s (j_id j) = Inr st"
    and "n = opt_default default_failure_ttl (j_failure_ttl j)" "0 < n"
    and "to_dict C False False (j\<lparr>j_status := STOPPED, j_exc_info := Some ''Job stopped by user, work-horse terminated.''\<rparr>) = Inr (fs, j3)"
    and "create_failure C (j_id j) (j_failure_ttl j) ''Job stopped by user, work-horse terminated.'' (w_name w) (worker_exec j w) = Inr rc"
  shows "\<exists>w' s'. after_horse C R P u q j w (Some exc) (s, []) = (Inr w', s', []) \<and>
    get_status R s' (j_id j) = Inr STOPPED \<and>
    zscore R s' (registry_key Failed (j_origin j)) (j_id j) = Some (Fin (current_timestamp u + n)) \<and>
    (\<forall>p. r_list R s' (queue_key p) = r_list R s (queue_key p)) \<and>
    hget R s' (w_key w) ''current_job'' = None \<and> w_stopped_job_id w' = None \<and> w_execution w' = None"
  by (rule redis_server.stopped_run [OF assms])

theorem stop_is_final_witness:
  "\<exists>w' s'. after_horse sample_codec mem_redis sample_py 0 sample_queue ((parent_job STARTED)\<lparr>j_retries_left := Some 3\<rparr>)
     (sample_worker\<lparr>w_stopped_job_id := Some ''a''\<rparr>) (Some ''killed'') (saved (parent_job STARTED), []) = (Inr w', s', []) \<and>
     get_status mem_redis s' ''a'' = Inr STOPPED \<and> r_list mem_redis s' (queue_key ''q'') = []"
proof -
  let ?j = "(parent_job STARTED)\<lparr>j_retries_left := Some 3\<rparr>" and ?w = "sample_worker\<lparr>w_stopped_job_id := Some ''a''\<rparr>"
  let ?exc = "''Job stopped by user, work-horse terminated.''"
  have un: "j_data (parent_job STARTED) = UNEVALUATED" "j_func_name (parent_job STARTED) \<noteq> UNEVALUATED"
    "j_stopped_callback_name ?j = None" "j_failure_ttl ?j = None"
    by (simp_all add: parent_job_def sample_job_def new_job_def)
  obtain fs j3 where td: "to_dict sample_codec False False (?j\<lparr>j_status := STOPPED, j_exc_info := Some ?exc\<rparr>) = Inr (fs, j3)"
    by (rule sample_to_dict [of "?j\<lparr>j_status := STOPPED, j_exc_info := Some ?exc\<rparr>"]) (use un in simp)
  obtain rc where rc: "create_failure sample_codec (j_id ?j) (j_failure_ttl ?j) ?exc (w_name ?w) (worker_exec ?j ?w) = Inr rc"
    unfolding create_failure_def by (rule sample_result)
  note props = saved_props [of "parent_job STARTED"]
  have "get_status mem_redis (saved (parent_job STARTED)) ''a'' = Inr STARTED"
    using props(2) by (simp add: get_status_def)
  then have st: "get_status mem_redis (saved (parent_job STARTED)) (j_id ?j) = Inr STARTED" by simp
  have pre: "w_stopped_job_id ?w = Some (j_id ?j)" "\<not> w_disable_default_handler ?w"
    "sset mem_redis (saved (parent_job STARTED)) (dependents_key (j_id ?j)) = {}"
    "default_failure_ttl = opt_default default_failure_ttl (j_failure_ttl ?j)" "0 < default_failure_ttl"
    using props(4) un(4) by (simp_all add: default_failure_ttl_def)
  from stop_is_final [OF mem.redis_server_axioms pre(1,2) un(3) pre(3) st pre(4,5) td rc, of sample_py 0 sample_queue "''killed''"]
  obtain w' s' where run: "after_horse sample_codec mem_redis sample_py 0 sample_queue ?j ?w (Some ''killed'') (saved (parent_job STARTED), []) = (Inr w', s', [])"
    and "get_status mem_redis s' (j_id ?j) = Inr STOPPED"
    and "\<forall>p. r_list mem_redis s' (queue_key p) = r_list mem_redis (saved (parent_job STARTED)) (queue_key p)"
    by (elim exE conjE, intro that)
  then have "get_status mem_redis s' ''a'' = Inr STOPPED" "r_list mem_redis s' (queue_key ''q'') = []" using props(3) by simp_all
  with run show ?thesis by blast
qed

text \<open>
  C35. A request to stop that comes after a job has been taken and before it is prepared ends the loop at once: nothing is
  sent to the server but the notice of the worker's death, so the job is left as it was taken, with its status and the
  queues unchanged. (It is in no queue when the worker has several queues.)
\<close>

theorem stop_leaves_popped:
  assumes "redis_server R" "proc_ok (Popped j q) p" "pr_requested p = None"
  shows "\<exists>p' p'' s'. signal_step R t (Popped j q) p s = (Leaving, p', s) \<and> teardown R u p' s = (Gone, p'', s') \<and>
    r_list R s' = r_list R s \<and> zscore R s' = zscore R s \<and> (\<forall>i. get_status R s' i = get_status R s i)"
proof -
  obtain p' where p': "signal_step R t (Popped j q) p s = (Leaving, p', s)" "pr_worker p' = pr_worker p"
    using popped_signal [OF assms(2,3), where t = t and s = s and R = R] by (elim exE conjE, intro that)
  let ?s = "fst (snd (register_death R u (pr_worker p') (s, [])))"
  show ?thesis
    by (rule exI [of _ p'], rule exI [of _ "(stop_scheduler p')\<lparr>pr_listening := False\<rparr>"], rule exI [of _ ?s], intro conjI allI)
       (rule p'(1), simp add: teardown_def, (rule redis_server.death_views [OF assms(1)])+)
qed

text \<open>The horse of a Heroku worker: neither Ctrl+C nor SIGTERM reaches it, SIGRTMIN gives it six seconds.\<close>

lemma heroku_horse_grace:
  fixes h
  defines "h0 \<equiv> setup_work_horse_signals Heroku h"
  shows "horse_gets imminent_shutdown_delay SIGINT h0 = GoesOn h0" "horse_gets imminent_shutdown_delay SIGTERM h0 = GoesOn h0"
    "\<exists>h1. horse_gets imminent_shutdown_delay SIGRTMIN h0 = GoesOn h1 \<and> hs_alarm h1 = Some 6 \<and>
       horse_gets imminent_shutdown_delay SIGALRM h1 = Raises ShutDownImminentException h1"
  by (simp_all add: h0_def horse_gets_def setup_work_horse_signals_def request_stop_sigrtmin_def imminent_shutdown_delay_def)

text \<open>A message without a command ends the thread that listens: the worker hears no further command.\<close>

lemma nameless_command_deafens:
  "parse_payload F text = Inr (PDict kvs) \<Longrightarrow> map_of kvs ''command'' = None \<Longrightarrow>
   handle_payload F R s text p = p\<lparr>pr_listening := False\<rparr>"
  by (simp add: handle_payload_def handle_command_def)

section \<open>Examples\<close>

text \<open>A worker that forks, process 1 with the horse 7 of its own group, and nothing else.\<close>

definition sample_proc :: "int \<Rightarrow> string \<Rightarrow> proc" where
  "sample_proc h st =
     \<lparr>pr_worker = (new_worker Forking ''w'' [sample_queue] None ''3.12'')\<lparr>w_state := st, w_last_cleaned_at := Some 0\<rparr>,
      pr_on_stop = RequestStop, pr_requested = None, pr_horse = h, pr_scheduler = None, pr_listening = True,
      pr_os = \<lparr>os_pid = 1, os_live = [1, 7], os_group = id, os_refuses = \<lambda>_. False, os_sent = []\<rparr>\<rparr>"

lemma sample_proc_simps [simp]:
  "pr_on_stop (sample_proc h st) = RequestStop" "pr_requested (sample_proc h st) = None" "pr_horse (sample_proc h st) = h"
  "pr_scheduler (sample_proc h st) = None" "w_state (pr_worker (sample_proc h st)) = st"
  "w_class (pr_worker (sample_proc h st)) = Forking" "w_stop_requested (pr_worker (sample_proc h st)) = False"
  "w_key (pr_worker (sample_proc h st)) = worker_key ''w''" "lives (sample_proc h st)" "pr_listening (sample_proc h st)"
  "alive (pr_os (sample_proc h st)) c \<longleftrightarrow> c = 1 \<or> c = 7" "own_group (sample_proc 7 st)"
  "\<not> os_refuses (pr_os (sample_proc h st)) g"
  by (simp_all add: sample_proc_def new_worker_def w_key_def lives_def alive_def own_group_def)

theorem warm_stop_spares_horse_witness:
  "\<exists>cs p'. on_signal 0 (sample_proc 7 ''busy'') = (cs, None, p') \<and> alive (pr_os p') 7 \<and> on_signal 5 p' = ([], None, p')"
proof -
  obtain cs p' where o: "on_signal 0 (sample_proc 7 ''busy'') = (cs, None, p')"
    by (simp add: on_signal_def request_stop_def handle_warm_shutdown_request_def shutdown_def Let_def)
  with warm_stop_spares_horse [OF _ _ o] show ?thesis by (simp add: usec_def)
qed

theorem cold_stop_kills_horse_witness:
  "\<exists>p'. on_signal 3000000 ((sample_proc 7 ''busy'')\<lparr>pr_on_stop := RequestForceStop, pr_requested := Some 0\<rparr>) = ([], Some SystemExit, p') \<and>
     \<not> alive (pr_os p') 7 \<and> alive (pr_os p') 1"
proof -
  let ?p = "(sample_proc 7 ''busy'')\<lparr>pr_on_stop := RequestForceStop, pr_requested := Some 0\<rparr>"
  have o: "own_group ?p" using sample_proc_simps(12) [of "''busy''"] by (simp add: own_group_def lives_def)
  have "os_group (pr_os (sample_proc 7 ''busy'')) = id" by (simp add: sample_proc_def)
  then show ?thesis using cold_stop_kills_horse [OF o, of 0 3000000] by (auto simp: usec_def)
qed

lemma sample_stop_command:
  "\<exists>msg. send_stop_job_command sample_codec mem_redis no_floats (saved ((parent_job STARTED)\<lparr>j_worker_name := Some ''w''\<rparr>)) 0 ''a'' =
     Inr (''rq:pubsub:w'', msg)"
proof -
  let ?j = "(parent_job STARTED)\<lparr>j_worker_name := Some ''w''\<rparr>"
  have "storable_sample ?j"
    using sample_family(8) [of STARTED] by (simp add: storable_sample_def storable_def dates_ok_def)
  then have "fetch sample_codec mem_redis (saved ?j) 0 ''a'' = Inr (persisted ''p'' ?j)"
    using saved_props(1) [of ?j 0] by simp
  moreover have "j_worker_name (persisted ''p'' ?j) = Some ''w''" by (simp add: persisted_def set_data_def text_or_none_def)
  ultimately show ?thesis
    by (simp add: send_stop_job_command_def send_command_def json_dumps_jsonable dict_of_def pubsub_channel_name_def)
qed

theorem stop_command_exact_witness:
  "\<exists>msg. send_stop_job_command sample_codec mem_redis no_floats (saved ((parent_job STARTED)\<lparr>j_worker_name := Some ''w''\<rparr>)) 0 ''a'' =
       Inr (''rq:pubsub:w'', msg) \<and>
     handle_payload no_floats mem_redis mem_empty msg (sample_proc 7 ''busy'') = sample_proc 7 ''busy'' \<and>
     \<not> alive (pr_os (handle_payload no_floats mem_redis (run_all mem_redis [HSet (worker_key ''w'') [(''current_job'', ''a'')]] mem_empty)
       msg (sample_proc 7 ''busy''))) 7"
proof -
  obtain msg where t: "send_stop_job_command sample_codec mem_redis no_floats (saved ((parent_job STARTED)\<lparr>j_worker_name := Some ''w''\<rparr>)) 0 ''a'' =
      Inr (''rq:pubsub:w'', msg)" using sample_stop_command by blast
  have "get_current_job_id mem_redis mem_empty (pr_worker (sample_proc 7 ''busy'')) \<noteq> Some ''a''"
    "get_current_job_id mem_redis (run_all mem_redis [HSet (worker_key ''w'') [(''current_job'', ''a'')]] mem_empty) (pr_worker (sample_proc 7 ''busy'')) = Some ''a''"
    by (simp_all add: get_current_job_id_def mem.hash_run)
  then show ?thesis using stop_command_exact [OF t] t by (intro exI [of _ msg]) fastforce
qed

theorem late_stop_kills_worker_witness:
  "\<exists>msg. \<not> lives (handle_payload no_floats mem_redis (run_all mem_redis [HSet (worker_key ''w'') [(''current_job'', ''a'')]] mem_empty)
     msg (sample_proc 0 ''busy''))"
proof -
  obtain msg where t: "send_stop_job_command sample_codec mem_redis no_floats (saved ((parent_job STARTED)\<lparr>j_worker_name := Some ''w''\<rparr>)) 0 ''a'' =
      Inr (''rq:pubsub:w'', msg)" using sample_stop_command by blast
  then have parse: "parse_payload no_floats msg = Inr (PDict [(''command'', PStr ''stop-job''), (''job_id'', PStr ''a'')])"
    by (rule send_stop_job_Inr)
  have "get_current_job_id mem_redis (run_all mem_redis [HSet (worker_key ''w'') [(''current_job'', ''a'')]] mem_empty) (pr_worker (sample_proc 0 ''busy'')) = Some ''a''"
    by (simp add: get_current_job_id_def mem.hash_run)
  from late_stop_kills_worker [OF parse _ this] show ?thesis by auto
qed

theorem stop_leaves_popped_witness:
  "\<exists>p' s'. signal_step mem_redis 5 (Popped (sample_job ''a'') ''q'') (sample_proc 0 ''idle'') mem_empty = (Leaving, p', mem_empty) \<and>
     teardown mem_redis 6 p' mem_empty = s'"
proof -
  have "proc_ok (Popped (sample_job ''a'') ''q'') (sample_proc 0 ''idle'')" by (simp add: proc_ok_def phase_ok_def)
  from stop_leaves_popped [OF mem.redis_server_axioms this, of 5 mem_empty 6] show ?thesis by auto
qed

lemma sample_ready:
  "\<exists>w s. main_step (ready_step sample_codec mem_redis sample_py False 0 None (pr_worker (sample_proc 0 ''started''))) (sample_proc 0 ''started'') mem_empty =
     (Waiting, (sample_proc 0 ''started'')\<lparr>pr_worker := w\<rparr>, s) \<and> w_state w = ''idle'' \<and> w_class w = Forking"
proof -
  let ?w = "pr_worker (sample_proc 0 ''started'')"
  have "worker_key ''w'' \<noteq> suspended_key" by (rule fam_neq) simp
  then have "\<not> key_exists mem_redis (run_all mem_redis (fst (worker_heartbeat None 0 ?w)) mem_empty) suspended_key"
    by (simp add: worker_heartbeat_def mem.key_exists_frame Let_def)
  moreover have "w_last_cleaned_at ?w = Some 0" "w_maintenance_interval ?w = 600" by (simp_all add: sample_proc_def new_worker_def)
  ultimately show ?thesis
    by (intro exI [of _ "?w\<lparr>w_last_heartbeat := Some 0, w_state := ''idle''\<rparr>"])
       (simp add: main_step_def ready_step_def is_suspended_def restore_state_def goes_on_def maintain_def set_state_on_def set_state_def
        should_run_maintenance_tasks_def worker_heartbeat_on_def worker_heartbeat_def Let_def bindO_def seqO_def)
qed


end
