(* ===== verification/Pool.thy ===== *)
theory Pool
  imports Signals
begin

text \<open>
  The pool of workers (\<open>rq/worker_pool.py\<close>): one process that starts a number of workers as child processes, looks
  every second which of them still run, starts new ones for those that do not, and passes a request to stop on to them.

  The children are processes of the operating system of theory \<open>Signals\<close>. The names and process ids of new
  workers come from \<open>uuid4\<close> and from the operating system; \<open>po_started\<close> lists the process ids of all
  workers that were ever started, which the code does not keep, for the statements about them.
\<close>

section \<open>The pool\<close>

datatype pool_status = PoolIdle | PoolStarted | PoolStopped

text \<open>The dictionary of the workers is a list of names with process ids, in the order of insertion.\<close>

record pool =
  po_name :: string
  po_num_workers :: int
  po_queue_names :: "string list"
  po_worker_class :: worker_class
  po_burst :: bool
  po_status :: pool_status
  po_workers :: "(string \<times> int) list"
  po_os :: os
  po_started :: "int list"

datatype queue_or_name = AQueue queue | AName string

definition parse_names :: "queue_or_name list \<Rightarrow> string list" where
  "parse_names = map (\<lambda>x. case x of AQueue q \<Rightarrow> q_name q | AName n \<Rightarrow> n)"

definition new_pool :: "queue_or_name list \<Rightarrow> int \<Rightarrow> worker_class \<Rightarrow> string \<Rightarrow> os \<Rightarrow> pool" where
  "new_pool qs n cl uid os =
     \<lparr>po_name = uid, po_num_workers = n, po_queue_names = parse_names qs, po_worker_class = cl, po_burst = True,
      po_status = PoolIdle, po_workers = [], po_os = os, po_started = []\<rparr>"

definition pool_queues :: "pool \<Rightarrow> queue list" where
  "pool_queues p = map default_queue (po_queue_names p)"

definition number_of_active_workers :: "pool \<Rightarrow> nat" where
  "number_of_active_workers p = length (po_workers p)"

section \<open>Its workers\<close>

text \<open>\<open>stop_worker\<close>: a worker that is not there any more is no error.\<close>

definition stop_worker :: "int \<Rightarrow> os \<Rightarrow> os res" where
  "stop_worker c os =
     (case kill c SIGINT os of Inl e \<Rightarrow> if e = ESRCH then Inr os else Inl OSError | Inr os' \<Rightarrow> Inr os')"

text \<open>The signals that were sent before one that is refused stay sent.\<close>

primrec stop_each :: "(string \<times> int) list \<Rightarrow> os \<Rightarrow> err option \<times> os" where
  "stop_each [] os = (None, os)"
| "stop_each (d # ds) os = (case stop_worker (snd d) os of Inl e \<Rightarrow> (Some e, os) | Inr os' \<Rightarrow> stop_each ds os')"

definition stop_workers :: "pool \<Rightarrow> err option \<times> pool" where
  "stop_workers p = (case stop_each (po_workers p) (po_os p) of (e, os) \<Rightarrow> (e, p\<lparr>po_os := os\<rparr>))"

definition pool_request_stop :: "pool \<Rightarrow> err option \<times> pool" where
  "pool_request_stop p = stop_workers (p\<lparr>po_status := PoolStopped\<rparr>)"

text \<open>\<open>up c\<close> is what \<open>is_alive\<close> says of the child \<open>c\<close> when it is asked.\<close>

definition handle_dead_worker :: "string \<Rightarrow> pool \<Rightarrow> pool" where
  "handle_dead_worker n p = p\<lparr>po_workers := AList.delete n (po_workers p)\<rparr>"

definition reap_workers :: "(int \<Rightarrow> bool) \<Rightarrow> pool \<Rightarrow> pool" where
  "reap_workers up p = fold (\<lambda>d p. if up (snd d) then p else handle_dead_worker (fst d) p) (po_workers p) p"

definition all_workers_have_stopped :: "(int \<Rightarrow> bool) \<Rightarrow> pool \<Rightarrow> bool \<times> pool" where
  "all_workers_have_stopped up p = (let p1 = reap_workers up p in (number_of_active_workers p1 = 0, p1))"

text \<open>A new child is in the process group of the pool.\<close>

definition start_worker :: "string \<Rightarrow> int \<Rightarrow> pool \<Rightarrow> pool" where
  "start_worker n c p =
     p\<lparr>po_workers := AList.update n c (po_workers p),
       po_os := (po_os p)\<lparr>os_live := c # os_live (po_os p), os_group := (os_group (po_os p))(c := os_group (po_os p) (os_pid (po_os p)))\<rparr>,
       po_started := c # po_started p\<rparr>"

text \<open>How many workers \<open>check_workers\<close> starts once the dead ones are out; \<open>range\<close> of a negative number is empty.\<close>

definition missing_workers :: "bool \<Rightarrow> pool \<Rightarrow> nat" where
  "missing_workers respawn p =
     (if respawn \<and> po_status p \<noteq> PoolStopped then nat (po_num_workers p - int (length (po_workers p))) else 0)"

text \<open>\<open>names\<close> is what \<open>uuid4\<close> and the operating system give: a name and a process id for each new worker.\<close>

definition start_each :: "(string \<times> int) list \<Rightarrow> pool \<Rightarrow> pool" where
  "start_each names p = fold (\<lambda>(n, c). start_worker n c) names p"

definition check_workers :: "(int \<Rightarrow> bool) \<Rightarrow> bool \<Rightarrow> (string \<times> int) list \<Rightarrow> pool \<Rightarrow> pool" where
  "check_workers up respawn names p =
     (let p1 = reap_workers up p in start_each (take (missing_workers respawn p1) names) p1)"

definition start_workers :: "(string \<times> int) list \<Rightarrow> pool \<Rightarrow> pool" where
  "start_workers names p = start_each (take (nat (po_num_workers p)) names) p"

text \<open>What a child does: a worker with the pool's queues under the name it was given (\<open>run_worker\<close>).\<close>

definition run_worker :: "string \<Rightarrow> string \<Rightarrow> pool \<Rightarrow> worker" where
  "run_worker pyver n p = new_worker (po_worker_class p) n (pool_queues p) None pyver"

section \<open>The loop of \<open>start\<close>\<close>

text \<open>
  Where the pool is: starting workers, of which so many are still to come (before the loop and in
  \<open>check_workers\<close>), at the top of the loop, and out of it, with the exception that left it.
\<close>

datatype pool_phase = Starting nat | Looping | Finished "err option"

definition begin_start :: "bool \<Rightarrow> pool \<Rightarrow> pool_phase \<times> pool" where
  "begin_start burst p = (Starting (nat (po_num_workers p)), p\<lparr>po_burst := burst, po_status := PoolStarted\<rparr>)"

text \<open>One turn, up to the first worker it has to start; then what follows the last one.\<close>

definition turn :: "(int \<Rightarrow> bool) \<Rightarrow> pool \<Rightarrow> pool_phase \<times> pool" where
  "turn up p =
     (if po_status p = PoolStopped then
        (case all_workers_have_stopped up p of (b, p1) \<Rightarrow> (if b then Finished None else Looping, p1))
      else (let p1 = reap_workers up p in (Starting (missing_workers (\<not> po_burst p) p1), p1)))"

definition after_check :: "pool \<Rightarrow> pool_phase" where
  "after_check p = (if po_burst p \<and> number_of_active_workers p = 0 then Finished None else Looping)"

text \<open>
  The steps of a pool. \<open>handlers\<close> tells whether the signal handlers are installed, that is whether
  \<open>start_workers\<close> is over; a signal before that ends the pool the default way, which is not modelled. A signal
  may come between any two workers that are started.
\<close>

inductive pool_step :: "bool \<times> pool_phase \<times> pool \<Rightarrow> bool \<times> pool_phase \<times> pool \<Rightarrow> bool" where
  turn: "pool_step (True, Looping, p) (True, turn (alive (po_os p)) p)"
| spawn: "c \<notin> set (po_started p) \<Longrightarrow> \<not> alive (po_os p) c \<Longrightarrow> n \<notin> fst ` set (po_workers p) \<Longrightarrow>
    pool_step (h, Starting (Suc k), p) (h, Starting k, start_worker n c p)"
| checked: "pool_step (True, Starting 0, p) (True, after_check p, p)"
| install: "pool_step (False, Starting 0, p) (True, Looping, p)"
| signal: "(\<forall>e. ph \<noteq> Finished e) \<Longrightarrow> pool_request_stop p = (e, p') \<Longrightarrow>
    pool_step (True, ph, p) (True, if e = None then ph else Finished e, p')"
| exits: "c \<noteq> os_pid (po_os p) \<Longrightarrow> pool_step (h, ph, p) (h, ph, p\<lparr>po_os := wait_child c (po_os p)\<rparr>)"

inductive pool_runs :: "bool \<times> pool_phase \<times> pool \<Rightarrow> bool \<times> pool_phase \<times> pool \<Rightarrow> bool" where
  here [simp, intro]: "pool_runs c c"
| onward: "pool_runs c d \<Longrightarrow> pool_step d e \<Longrightarrow> pool_runs c e"


section \<open>Reaping\<close>

lemma reap_fold:
  "fold (\<lambda>d p. if up (snd d) then p else handle_dead_worker (fst d) p) ds p =
   p\<lparr>po_workers := filter (\<lambda>d. \<forall>x \<in> set ds. fst x = fst d \<longrightarrow> up (snd x)) (po_workers p)\<rparr>"
proof (induction ds arbitrary: p)
  case (Cons d ds)
  then show ?case
    by (auto simp: handle_dead_worker_def AList.delete_eq intro!: arg_cong [where f = "\<lambda>ws. p\<lparr>po_workers := ws\<rparr>"] filter_cong)
qed simp

lemma reap_workers_eq:
  assumes "distinct (map fst (po_workers p))"
  shows "reap_workers up p = p\<lparr>po_workers := filter (\<lambda>d. up (snd d)) (po_workers p)\<rparr>"
proof -
  have "(\<forall>x \<in> set (po_workers p). fst x = fst d \<longrightarrow> up (snd x)) = up (snd d)" if "d \<in> set (po_workers p)" for d
    using assms that by (auto dest: eq_key_imp_eq_value intro: eq_key_imp_eq_value) (metis eq_key_imp_eq_value prod.collapse)
  then show ?thesis
    unfolding reap_workers_def reap_fold
    by (intro arg_cong [where f = "\<lambda>ws. p\<lparr>po_workers := ws\<rparr>"] filter_cong) auto
qed

lemma start_worker_fields: "n \<notin> fst ` set (po_workers p) \<Longrightarrow> po_workers (start_worker n c p) = po_workers p @ [(n, c)]"
  by (simp add: start_worker_def update_fresh)

lemma start_worker_simps [simp]:
  "po_num_workers (start_worker n c p) = po_num_workers p" "po_status (start_worker n c p) = po_status p"
  "po_started (start_worker n c p) = c # po_started p" "po_burst (start_worker n c p) = po_burst p"
  "os_sent (po_os (start_worker n c p)) = os_sent (po_os p)" "os_pid (po_os (start_worker n c p)) = os_pid (po_os p)"
  "alive (po_os (start_worker n c p)) d \<longleftrightarrow> d = c \<or> alive (po_os p) d"
  by (simp_all add: start_worker_def alive_def)


section \<open>What holds of every pool\<close>

definition to_come :: "pool_phase \<Rightarrow> nat" where
  "to_come ph = (case ph of Starting k \<Rightarrow> k | _ \<Rightarrow> 0)"

text \<open>
  The workers have different names and were all started; with those to come they are no more than asked for; a
  started process that lives is among them; and a pool that finished by itself has none.
\<close>

definition pool_ok :: "pool_phase \<Rightarrow> pool \<Rightarrow> bool" where
  "pool_ok ph p \<longleftrightarrow>
     distinct (map fst (po_workers p)) \<and> length (po_workers p) + to_come ph \<le> nat (po_num_workers p) \<and>
     (\<forall>c \<in> set (po_started p). alive (po_os p) c \<longrightarrow> c \<in> snd ` set (po_workers p)) \<and>
     (ph = Finished None \<longrightarrow> po_workers p = [])"

lemma kill_int_live: "kill c SIGINT os = Inr os' \<Longrightarrow> alive os' d = alive os d \<and> os_pid os' = os_pid os"
  by (auto simp: kill_def sent_def alive_def split: if_splits)

lemma stop_worker_live: "stop_worker c os = Inr os' \<Longrightarrow> alive os' d = alive os d \<and> os_pid os' = os_pid os"
  by (auto simp: stop_worker_def kill_int_live split: sum.splits if_splits)

lemma stop_each_live: "stop_each ds os = (e, os') \<Longrightarrow> alive os' d = alive os d \<and> os_pid os' = os_pid os"
  by (induction ds arbitrary: os) (auto dest: stop_worker_live split: sum.splits)

lemma request_stop_fields:
  assumes "pool_request_stop p = (e, p')"
  shows "po_workers p' = po_workers p" "po_num_workers p' = po_num_workers p" "po_started p' = po_started p"
    "po_status p' = PoolStopped" "alive (po_os p') c = alive (po_os p) c"
  using assms stop_each_live [of "po_workers p" "po_os p" e _ c]
  by (auto simp: pool_request_stop_def stop_workers_def split: prod.splits)

lemma reap_ok:
  assumes "pool_ok ph p"
  defines "p' \<equiv> reap_workers (alive (po_os p)) p"
  shows "pool_ok Looping p'" "length (po_workers p') \<le> length (po_workers p)" "po_num_workers p' = po_num_workers p"
proof -
  have p': "p' = p\<lparr>po_workers := filter (\<lambda>d. alive (po_os p) (snd d)) (po_workers p)\<rparr>"
    using assms(1) unfolding p'_def pool_ok_def by (intro reap_workers_eq) simp
  show "length (po_workers p') \<le> length (po_workers p)" "po_num_workers p' = po_num_workers p"
    by (simp_all add: p')
  moreover have "distinct (map fst (filter (\<lambda>d. alive (po_os p) (snd d)) (po_workers p)))"
    using assms(1) by (auto simp: pool_ok_def distinct_map_filter)
  moreover have "\<forall>c \<in> set (po_started p). alive (po_os p) c \<longrightarrow> c \<in> snd ` set (po_workers p')"
    using assms(1) by (fastforce simp: p' pool_ok_def image_iff)
  moreover have "length (po_workers p') \<le> nat (po_num_workers p)"
    using assms(1) \<open>length (po_workers p') \<le> length (po_workers p)\<close> by (simp add: pool_ok_def)
  ultimately show "pool_ok Looping p'" by (simp add: p' pool_ok_def to_come_def)
qed

lemma pool_step_ok:
  assumes "pool_step c d" "pool_ok (fst (snd c)) (snd (snd c))"
  shows "pool_ok (fst (snd d)) (snd (snd d))"
  using assms
proof (cases rule: pool_step.cases)
  case (turn p)
  have ok: "pool_ok Looping p" using turn assms(2) by simp
  note r = reap_ok [OF ok]
  show ?thesis
    using r turn
    by (auto simp: turn_def all_workers_have_stopped_def number_of_active_workers_def missing_workers_def pool_ok_def to_come_def Let_def)
next
  case (spawn c p n h k)
  then show ?thesis using assms(2) by (auto simp: pool_ok_def to_come_def start_worker_fields)
next
  case (checked p)
  then show ?thesis using assms(2) by (auto simp: pool_ok_def to_come_def after_check_def number_of_active_workers_def)
next
  case (install p)
  then show ?thesis using assms(2) by (auto simp: pool_ok_def to_come_def)
next
  case (signal ph p e p')
  then show ?thesis using assms(2) request_stop_fields [OF signal(4)] by (auto simp: pool_ok_def to_come_def)
next
  case (exits c p h ph)
  then show ?thesis using assms(2) by (auto simp: pool_ok_def wait_child_def gone_def alive_def)
qed

lemma pool_step_num:
  assumes "pool_step c d" "pool_ok (fst (snd c)) (snd (snd c))"
  shows "po_num_workers (snd (snd d)) = po_num_workers (snd (snd c))"
  using assms
proof (cases rule: pool_step.cases)
  case (turn p)
  then show ?thesis using reap_ok(3) [of Looping p] assms(2)
    by (auto simp: turn_def all_workers_have_stopped_def Let_def)
qed (use request_stop_fields(2) in auto)

lemma pool_runs_ok: "pool_runs c d \<Longrightarrow> pool_ok (fst (snd c)) (snd (snd c)) \<Longrightarrow> pool_ok (fst (snd d)) (snd (snd d))"
  by (induction rule: pool_runs.induct) (auto intro: pool_step_ok)

lemma begin_ok: "po_workers p = [] \<Longrightarrow> po_started p = [] \<Longrightarrow> pool_ok (fst (begin_start burst p)) (snd (begin_start burst p))"
  by (simp add: begin_start_def pool_ok_def to_come_def)

lemma pool_runs_num:
  "pool_runs c d \<Longrightarrow> pool_ok (fst (snd c)) (snd (snd c)) \<Longrightarrow> po_num_workers (snd (snd d)) = po_num_workers (snd (snd c))"
  by (induction rule: pool_runs.induct) (simp_all add: pool_step_num pool_runs_ok)

text \<open>
  C13. A pool never runs more workers than it was asked for: in every run from its start, whatever dies and whatever
  signals come, the processes it has started and that still live are at most \<open>num_workers\<close>. When it returns by
  itself, none of them lives: every worker has been waited for.
\<close>

theorem pool_bounded:
  assumes "pool_runs (False, begin_start burst (new_pool qs n cl uid os)) (h, ph, p)"
  shows "card {c \<in> set (po_started p). alive (po_os p) c} \<le> nat n \<and>
    (ph = Finished None \<longrightarrow> (\<forall>c \<in> set (po_started p). \<not> alive (po_os p) c))"
proof -
  have start: "pool_ok (fst (begin_start burst (new_pool qs n cl uid os))) (snd (begin_start burst (new_pool qs n cl uid os)))"
    by (rule begin_ok) (simp_all add: new_pool_def)
  then have ok: "pool_ok ph p" using pool_runs_ok [OF assms] by simp
  have "po_num_workers p = n" using pool_runs_num [OF assms] start by (simp add: begin_start_def new_pool_def)
  moreover have "{c \<in> set (po_started p). alive (po_os p) c} \<subseteq> snd ` set (po_workers p)" using ok by (auto simp: pool_ok_def)
  then have "card {c \<in> set (po_started p). alive (po_os p) c} \<le> length (po_workers p)"
    by (meson List.finite_set card_length card_mono finite_imageI le_trans card_image_le)
  ultimately show ?thesis using ok by (auto simp: pool_ok_def)
qed

lemma start_each_workers:
  "distinct (map fst ds) \<Longrightarrow> \<forall>d \<in> set ds. fst d \<notin> fst ` set (po_workers p) \<Longrightarrow> po_workers (start_each ds p) = po_workers p @ ds"
proof (induction ds arbitrary: p)
  case (Cons d ds)
  obtain n c where d: "d = (n, c)" by (cases d)
  have "po_workers (start_each ds (start_worker n c p)) = po_workers (start_worker n c p) @ ds"
    using Cons.prems by (intro Cons.IH) (auto simp: d start_worker_fields)
  then show ?case using Cons.prems by (simp add: d start_each_def start_worker_fields)
qed (simp add: start_each_def)

text \<open>
  A check of the workers makes up the number: the dead ones are out, those that live stay, and the missing ones are
  started, so that the pool has as many workers as it was asked for. A pool in burst mode or one that is stopped starts
  none.
\<close>

theorem check_makes_up:
  assumes "pool_ok ph p" "distinct (map fst names)" "\<forall>d \<in> set names. fst d \<notin> fst ` set (po_workers p)"
    and "nat (po_num_workers p) \<le> length names" "live = filter (\<lambda>d. up (snd d)) (po_workers p)"
  shows "po_workers (check_workers up respawn names p) =
      (if respawn \<and> po_status p \<noteq> PoolStopped then live @ take (nat (po_num_workers p) - length live) names else live) \<and>
    (respawn \<and> po_status p \<noteq> PoolStopped \<longrightarrow>
       int (length (po_workers (check_workers up respawn names p))) = max 0 (po_num_workers p))"
proof -
  have reap: "reap_workers up p = p\<lparr>po_workers := live\<rparr>"
    using assms(1) unfolding assms(5) by (intro reap_workers_eq) (simp add: pool_ok_def)
  have len: "length live \<le> nat (po_num_workers p)"
    using assms(1) length_filter_le [of "\<lambda>d. up (snd d)" "po_workers p"] by (simp add: pool_ok_def assms(5) del: length_filter_le)
  have fresh: "\<forall>d \<in> set (take k names). fst d \<notin> fst ` set live" for k
    using assms(3) by (auto simp: assms(5) dest: in_set_takeD)
  have "po_workers (start_each (take k names) (p\<lparr>po_workers := live\<rparr>)) = live @ take k names" for k
    using assms(2) fresh by (subst start_each_workers) (simp_all add: take_map [symmetric])
  moreover have "missing_workers respawn (p\<lparr>po_workers := live\<rparr>) =
      (if respawn \<and> po_status p \<noteq> PoolStopped then nat (po_num_workers p) - length live else 0)"
    by (auto simp: missing_workers_def)
  ultimately show ?thesis
    using len assms(4) by (auto simp: check_workers_def reap Let_def)
qed

lemma stop_each_sent:
  "stop_each ds os = (None, os') \<Longrightarrow> (\<forall>d \<in> set ds. alive os (snd d) \<longrightarrow> (Process (snd d), SIGINT) \<in> set (os_sent os')) \<and>
     set (os_sent os) \<subseteq> set (os_sent os') \<and> set (os_sent os') \<subseteq> set (os_sent os) \<union> (\<lambda>d. (Process (snd d), SIGINT)) ` set ds"
proof (induction ds arbitrary: os)
  case (Cons d ds)
  then obtain os1 where o: "stop_worker (snd d) os = Inr os1" "stop_each ds os1 = (None, os')" by (auto split: sum.splits)
  have a: "alive os1 c = alive os c" for c using stop_worker_live [OF o(1)] by blast
  have s1: "os_sent os1 = os_sent os \<or> os_sent os1 = os_sent os @ [(Process (snd d), SIGINT)]"
    "alive os (snd d) \<Longrightarrow> (Process (snd d), SIGINT) \<in> set (os_sent os1)"
    using o(1) by (auto simp: stop_worker_def kill_def sent_def split: sum.splits if_splits)
  show ?case using Cons.IH [OF o(2)] s1 a by auto
qed simp

text \<open>Only a signal makes the pool send one.\<close>

lemma only_signals_send:
  assumes "pool_step c d" "\<forall>e p'. pool_request_stop (snd (snd c)) = (e, p') \<longrightarrow> snd (snd d) \<noteq> p'" "pool_ok (fst (snd c)) (snd (snd c))"
  shows "os_sent (po_os (snd (snd d))) = os_sent (po_os (snd (snd c)))"
  using assms
proof (cases rule: pool_step.cases)
  case (turn p)
  have "os_sent (po_os (reap_workers up p)) = os_sent (po_os p)" for up
    using turn assms(3) by (subst reap_workers_eq) (simp_all add: pool_ok_def)
  then show ?thesis using turn by (auto simp: turn_def all_workers_have_stopped_def Let_def)
next
  case (exits c p h ph)
  then show ?thesis by (simp add: wait_child_def gone_def)
qed (use assms(2) in auto)

text \<open>
  A request to stop reaches every worker the pool has, but none that it still has to start: one that comes while dead
  workers are replaced leaves the pool stopped, goes on starting the workers that are missing, and those are never
  told. The pool then waits for them for ever, unless it is signalled again.
\<close>

theorem late_worker_unsignalled:
  assumes "pool_request_stop p = (None, p')"
    and "c \<notin> set (po_started p)" "\<not> alive (po_os p) c" "n \<notin> fst ` set (po_workers p)"
    and "\<forall>d \<in> set (po_workers p). snd d \<noteq> c" "(Process c, SIGINT) \<notin> set (os_sent (po_os p))"
  shows "(\<forall>d \<in> set (po_workers p). alive (po_os p) (snd d) \<longrightarrow> (Process (snd d), SIGINT) \<in> set (os_sent (po_os p'))) \<and>
    pool_step (True, Starting (Suc k), p) (True, Starting (Suc k), p') \<and>
    pool_step (True, Starting (Suc k), p') (True, Starting k, start_worker n c p') \<and>
    po_status (start_worker n c p') = PoolStopped \<and> alive (po_os (start_worker n c p')) c \<and>
    (Process c, SIGINT) \<notin> set (os_sent (po_os (start_worker n c p')))"
proof -
  obtain os' where os': "stop_each (po_workers p) (po_os p) = (None, os')" "p' = p\<lparr>po_status := PoolStopped, po_os := os'\<rparr>"
    using assms(1) by (auto simp: pool_request_stop_def stop_workers_def split: prod.splits)
  note sent = stop_each_sent [OF os'(1)] and f = request_stop_fields [OF assms(1)]
  have "pool_step (True, Starting (Suc k), p) (True, Starting (Suc k), p')"
    using pool_step.signal [OF _ assms(1), of "Starting (Suc k)"] by simp
  moreover have "pool_step (True, Starting (Suc k), p') (True, Starting k, start_worker n c p')"
    by (rule pool_step.spawn) (use assms(2-4) f in simp_all)
  moreover have "(Process c, SIGINT) \<notin> set (os_sent (po_os p'))" using sent assms(5,6) by (auto simp: os'(2))
  ultimately show ?thesis using sent f by (auto simp: os'(2))
qed


section \<open>Examples\<close>

definition sample_os :: os where
  "sample_os = \<lparr>os_pid = 1, os_live = [1], os_group = id, os_refuses = \<lambda>_. False, os_sent = []\<rparr>"

text \<open>A pool of two workers: both are started, one dies, and the other is alone until the next turn.\<close>

definition sample_pool :: pool where
  "sample_pool = new_pool [AName ''q''] 2 Forking ''p'' sample_os"

definition pool_of_two :: pool where
  "pool_of_two = start_worker ''b'' 12 (start_worker ''a'' 11 (snd (begin_start False sample_pool)))"

lemma pool_of_two_simps [simp]:
  "po_workers pool_of_two = [(''a'', 11), (''b'', 12)]" "po_num_workers pool_of_two = 2" "po_status pool_of_two = PoolStarted"
  "po_started pool_of_two = [12, 11]" "os_sent (po_os pool_of_two) = []" "po_burst pool_of_two = False"
  "alive (po_os pool_of_two) c \<longleftrightarrow> c \<in> {1, 11, 12}"
  by (simp_all add: pool_of_two_def sample_pool_def start_worker_def begin_start_def new_pool_def sample_os_def alive_def; blast)+

lemma pool_of_two_runs: "pool_runs (False, begin_start False sample_pool) (False, Starting 0, pool_of_two)"
proof -
  let ?p = "snd (begin_start False sample_pool)"
  have b: "begin_start False sample_pool = (Starting (Suc (Suc 0)), ?p)"
    by (simp add: begin_start_def sample_pool_def new_pool_def)
  have "pool_step (False, Starting (Suc (Suc 0)), ?p) (False, Starting (Suc 0), start_worker ''a'' 11 ?p)"
    by (rule pool_step.spawn) (simp_all add: begin_start_def sample_pool_def new_pool_def sample_os_def alive_def)
  moreover have "pool_step (False, Starting (Suc 0), start_worker ''a'' 11 ?p) (False, Starting 0, pool_of_two)"
    unfolding pool_of_two_def
    by (rule pool_step.spawn) (simp_all add: start_worker_def begin_start_def sample_pool_def new_pool_def sample_os_def alive_def)
  ultimately show ?thesis by (subst b) (rule pool_runs.onward [OF pool_runs.onward [OF pool_runs.here]])
qed

theorem pool_bounded_witness:
  "pool_runs (False, begin_start False sample_pool) (False, Starting 0, pool_of_two) \<and>
   card {c \<in> set (po_started pool_of_two). alive (po_os pool_of_two) c} \<le> 2"
  using pool_of_two_runs pool_bounded [OF pool_of_two_runs [unfolded sample_pool_def]] by simp

lemma pool_of_two_ok: "pool_ok Looping pool_of_two"
  by (simp add: pool_ok_def to_come_def)

theorem check_makes_up_witness:
  "po_workers (check_workers (\<lambda>c. c = 11) True [(''c'', 13), (''d'', 14)] pool_of_two) = [(''a'', 11), (''c'', 13)]"
  using check_makes_up [OF pool_of_two_ok, of "[(''c'', 13), (''d'', 14)]" "[(''a'', 11)]" "\<lambda>c. c = 11" True] by simp

text \<open>The worker \<open>b\<close> has died and its successor is about to be started.\<close>

definition pool_of_one :: pool where
  "pool_of_one = pool_of_two\<lparr>po_workers := [(''a'', 11)], po_os := wait_child 12 (po_os pool_of_two)\<rparr>"

theorem late_worker_unsignalled_witness:
  "\<exists>p'. pool_request_stop pool_of_one = (None, p') \<and> (Process 11, SIGINT) \<in> set (os_sent (po_os p')) \<and>
     alive (po_os (start_worker ''c'' 13 p')) 13 \<and> (Process 13, SIGINT) \<notin> set (os_sent (po_os (start_worker ''c'' 13 p')))"
proof -
  have one: "po_workers pool_of_one = [(''a'', 11)]" "po_started pool_of_one = [12, 11]" "os_sent (po_os pool_of_one) = []"
    "\<And>c. alive (po_os pool_of_one) c \<longleftrightarrow> c \<in> {1, 11}"
    by (auto simp: pool_of_one_def wait_child_def gone_def)
       (use pool_of_two_simps(7) in \<open>auto simp: alive_def\<close>)
  have "\<not> os_refuses (po_os pool_of_one) 11"
    by (simp add: pool_of_one_def pool_of_two_def start_worker_def wait_child_def gone_def sample_pool_def begin_start_def new_pool_def sample_os_def)
  then obtain p' where p': "pool_request_stop pool_of_one = (None, p')"
    using one by (simp add: pool_request_stop_def stop_workers_def stop_worker_def kill_def)
  from late_worker_unsignalled [OF p', of 13 "''c''" 0] p' one show ?thesis by auto
qed

end
