(* ===== verification/Console.thy ===== *)
theory Console
  imports Settings Views Scheduler CronTurns Pool
begin

text \<open>
  The commands of \<open>rq\<close> that only show, and those that start something that goes on by itself (\<open>info\<close> of \<open>rq/cli/cli.py\<close> with the
  functions of \<open>rq/cli/helpers.py\<close> behind it, \<open>rq/cli/workers.py\<close>, \<open>rq/cli/cli_cron.py\<close>). Lines are the bytes of
  their UTF-8 text, names are taken to be ASCII. \<open>style\<close> is the styling of the package click, \<open>bars\<close> the floating point arithmetic of
  the bar chart, \<open>arrange\<close> the order in which a set of workers is gone through.
\<close>

section \<open>Queues\<close>

definition pad :: "nat \<Rightarrow> string \<Rightarrow> string" where
  "pad n s = s @ replicate (n - length s) CHR '' ''"

definition state_symbol :: "(string \<Rightarrow> string \<Rightarrow> string) \<Rightarrow> string \<Rightarrow> string" where
  "state_symbol style st =
     (if st = ''busy'' then style ''red'' ''busy''
      else if st = ''idle'' then style ''green'' ''idle''
      else if st = ''suspended'' then style ''yellow'' ''suspended''
      else st)"

definition block :: string where
  "block = [CHR 0xE2, CHR 0x96, CHR 0x88]"

definition dash :: string where
  "dash = [CHR 0xE2, CHR 0x80, CHR 0x93]"

definition queue_line ::
  "codec \<Rightarrow> 's redis \<Rightarrow> py \<Rightarrow> datetime \<Rightarrow> (string \<Rightarrow> string \<Rightarrow> string) \<Rightarrow> (nat \<Rightarrow> int) \<Rightarrow> bool \<Rightarrow> string \<times> nat \<Rightarrow> ('s, string) op" where
  "queue_line C R P t style bar raw = (\<lambda>(q, n).
     bindO (registry_count C R P t reg_kind.Started q) (\<lambda>started.
     bindO (registry_count C R P t reg_kind.Finished q) (\<lambda>finished.
     bindO (registry_count C R P t reg_kind.Failed q) (\<lambda>failed.
       ret ((if raw then ''queue '' @ q @ '' ''
             else pad 12 q @ '' '' @ style ''green'' (''|'' @ concat (replicate (nat (bar n)) block)) @ '' '') @
            str_of_nat n @ '', '' @ str_of_nat started @ '' executing, '' @ str_of_nat finished @ '' finished, '' @
            str_of_nat failed @ '' failed'')))))"

text \<open>The lengths of the queues are read first, before the cleanups that belong to counting in the registries.\<close>

definition show_queues ::
  "codec \<Rightarrow> 's redis \<Rightarrow> py \<Rightarrow> datetime \<Rightarrow> (string \<Rightarrow> string \<Rightarrow> string) \<Rightarrow> (int \<Rightarrow> int \<Rightarrow> nat \<Rightarrow> int) \<Rightarrow> int \<Rightarrow> bool \<Rightarrow> string list \<Rightarrow>
   ('s, string list) op" where
  "show_queues C R P t style bars termwidth raw qs =
     bindO (ask (\<lambda>s. Inr (map (\<lambda>q. (q, count R s q)) qs))) (\<lambda>counts.
       let scale = get_scale (int (foldr max (map snd counts) 0));
           bar = bars (min 20 (termwidth - 20)) scale
       in
       bindO (map_each (queue_line C R P t style bar raw) counts) (\<lambda>lines.
         ret (if raw then lines
              else lines @ [str_of_nat (length qs) @ '' queues, '' @ str_of_nat (sum_list (map snd counts)) @ '' jobs total''])))"

section \<open>Workers\<close>

text \<open>A set of workers, which are equal when their names are: the one that was added first stays.\<close>

definition add_worker :: "worker \<Rightarrow> worker list \<Rightarrow> worker list" where
  "add_worker w ws = (if w_name w \<in> set (map w_name ws) then ws else ws @ [w])"

definition workers_of :: "'s redis \<Rightarrow> worker_class \<Rightarrow> string \<Rightarrow> string option \<Rightarrow> ('s, worker list) op" where
  "workers_of R cl pyver q = act (all_workers R cl pyver q)"

definition opt_text :: "string option \<Rightarrow> string" where
  "opt_text = opt_default ''None''"

definition worker_line :: "(string \<Rightarrow> string \<Rightarrow> string) \<Rightarrow> bool \<Rightarrow> worker \<Rightarrow> string" where
  "worker_line style raw w =
     (let name = w_name w @ '' ('' @ opt_text (w_hostname w) @ '' '' @ opt_text (w_ip_address w) @ '' '' @
                 opt_text (map_option str_of_int (w_pid w)) @ '')''
      in (if raw then ''worker '' @ name @ '' '' @ w_state w else name @ '': '' @ state_symbol style (w_state w)) @
         '' '' @ join '', '' (queue_names w) @ ''. jobs: '' @ str_of_int (w_successful_job_count w) @ '' finished, '' @
         str_of_int (w_failed_job_count w) @ '' failed'')"

definition workers_by_queue_line :: "(string \<Rightarrow> string \<Rightarrow> string) \<Rightarrow> nat \<Rightarrow> string \<times> worker list \<Rightarrow> string" where
  "workers_by_queue_line style width = (\<lambda>(q, ws).
     pad (width + 1) (q @ '':'') @ '' '' @
     (if ws = [] then dash
      else join '', '' (sort (map (\<lambda>w. w_name w @ '' ('' @ state_symbol style (w_state w) @ '')'') ws))))"

definition show_workers ::
  "'s redis \<Rightarrow> (string \<Rightarrow> string \<Rightarrow> string) \<Rightarrow> worker_class \<Rightarrow> string \<Rightarrow> (worker list \<Rightarrow> worker list) \<Rightarrow> bool \<Rightarrow> bool \<Rightarrow> string list \<Rightarrow>
   ('s, string list) op" where
  "show_workers R style cl pyver arrange raw by_queue qs =
     bindO (if qs = [] then workers_of R cl pyver None
            else bindO (map_each (\<lambda>q. workers_of R cl pyver (Some q)) qs) (\<lambda>found. ret (concat found))) (\<lambda>found.
       let ws = fold add_worker found [];
           summary = (if raw then []
                      else [str_of_nat (length ws) @ '' workers, '' @ str_of_nat (length qs) @ '' queues''])
       in
       if \<not> by_queue then ret (map (worker_line style raw) (arrange ws) @ summary)
       else
         bindO (map_each (\<lambda>q. bindO (workers_of R cl pyver (Some q)) (\<lambda>l. ret (q, l))) qs) (\<lambda>pairs.
           let d = fold (\<lambda>(q, l). AList.update q l) pairs [];
               width = foldr max (map (length \<circ> fst) d) 0
           in ret (map (workers_by_queue_line style width) d @ summary)))"

section \<open>\<open>rq info\<close>\<close>

datatype info_mode = OnlyQueues | OnlyWorkers | Both

definition info_mode :: "bool \<Rightarrow> bool \<Rightarrow> info_mode" where
  "info_mode only_queues only_workers = (if only_queues then OnlyQueues else if only_workers then OnlyWorkers else Both)"

text \<open>\<open>stamp\<close> is the local time as text.\<close>

definition show_both :: "('s, string list) op \<Rightarrow> ('s, string list) op \<Rightarrow> bool \<Rightarrow> string \<Rightarrow> ('s, string list) op" where
  "show_both queues workers raw stamp =
     bindO queues (\<lambda>a. bindO workers (\<lambda>b.
       ret (a @ (if raw then [] else ['''']) @ b @ (if raw then [] else ['''', ''Updated: '' @ stamp]))))"

text \<open>Without an interval one pass; with one, as many passes as there are before the user interrupts it.\<close>

fun refresh :: "nat \<Rightarrow> bool \<Rightarrow> ('s, string list) op \<Rightarrow> ('s, string list) op" where
  "refresh n False f = f"
| "refresh 0 True f = ret []"
| "refresh (Suc n) True f = bindO f (\<lambda>a. bindO (refresh n True f) (\<lambda>b. ret (a @ b)))"

definition clean_shown :: "codec \<Rightarrow> 's redis \<Rightarrow> py \<Rightarrow> datetime \<Rightarrow> string \<Rightarrow> ('s, unit) op" where
  "clean_shown C R P t q =
     seqO (clean_registries C R (P\<lparr>py_handlers := []\<rparr>) t q) (act (\<lambda>s. (Inr (), clean_worker_registry R q s)))"

definition cli_info ::
  "codec \<Rightarrow> 's redis \<Rightarrow> py \<Rightarrow> datetime \<Rightarrow> (string \<Rightarrow> string \<Rightarrow> string) \<Rightarrow> (int \<Rightarrow> int \<Rightarrow> nat \<Rightarrow> int) \<Rightarrow> int \<Rightarrow>
   (worker list \<Rightarrow> worker list) \<Rightarrow> worker_class \<Rightarrow> string \<Rightarrow> string \<Rightarrow> nat \<Rightarrow> bool \<Rightarrow> bool \<Rightarrow> bool \<Rightarrow> info_mode \<Rightarrow> string list \<Rightarrow>
   ('s, string list) op" where
  "cli_info C R P t style bars termwidth arrange cl pyver stamp n interval raw by_queue mode names =
     bindO (if names \<noteq> [] then ret names else ask (\<lambda>s. all_queues R s)) (\<lambda>qs.
       let queues = show_queues C R P t style bars termwidth raw qs;
           workers = show_workers R style cl pyver arrange raw by_queue qs
       in
       seqO (for_each (clean_shown C R P t) qs)
         (refresh n interval
           (case mode of OnlyQueues \<Rightarrow> queues | OnlyWorkers \<Rightarrow> workers | Both \<Rightarrow> show_both queues workers raw stamp)))"

section \<open>\<open>rq worker\<close>\<close>

text \<open>The queues a command names, else those of the settings, which may be a list, or a string that is gone through by character.\<close>

definition settings_queues :: "(string \<times> pyval) list \<Rightarrow> string list \<Rightarrow> string list res" where
  "settings_queues settings names =
     (if names \<noteq> [] then Inr names
      else
        (case dget settings ''QUEUES'' (PList [PStr ''default'']) of
           PList xs \<Rightarrow> mapE (\<lambda>x. case x of PStr q \<Rightarrow> Inr q | _ \<Rightarrow> Inl TypeError) xs
         | PTuple xs \<Rightarrow> mapE (\<lambda>x. case x of PStr q \<Rightarrow> Inr q | _ \<Rightarrow> Inl TypeError) xs
         | PStr q \<Rightarrow> Inr (map (\<lambda>c. [c]) q)
         | _ \<Rightarrow> Inl TypeError))"

text \<open>
  \<open>_set_ip_address\<close>: \<open>clients\<close> are the names and addresses of CLIENT LIST; None when the server knows the command, or CLIENT
  SETNAME, not.
\<close>

definition own_address :: "string \<Rightarrow> bool \<Rightarrow> (string \<times> string) list option \<Rightarrow> string" where
  "own_address name setname clients =
     (if \<not> setname then ''unknown''
      else
        (case clients of
           None \<Rightarrow> ''unknown''
         | Some cs \<Rightarrow> (case filter (\<lambda>(n, a). n = name) cs of [] \<Rightarrow> ''unknown'' | (_, a) # _ \<Rightarrow> a)))"

text \<open>
  \<open>work\<close> with its scheduler, which is started before the loop and outside of what \<open>finally\<close> looks after: an exception there
  leaves the worker registered. The process of the scheduler goes on by itself.
\<close>

definition work_command ::
  "codec \<Rightarrow> 's redis \<Rightarrow> py \<Rightarrow> 's world \<Rightarrow> bool \<Rightarrow> bool \<Rightarrow> int \<Rightarrow> string \<Rightarrow> int option \<Rightarrow> int option \<Rightarrow> nat \<Rightarrow> worker \<Rightarrow>
   ('s, bool option) op" where
  "work_command C R P W burst with_scheduler child strategy max_jobs max_idle n w =
     bindO (bootstrap R (wd_clock W 0) w) (\<lambda>w1.
       let w2 = w1\<lparr>w_strategy := Some strategy\<rparr> in
       seqO (if with_scheduler
             then bindO (start_scheduler C R P (wd_clock W 0) burst (opt_default 0 (w_pid w)) child w2) (\<lambda>_. ret ())
             else ret ())
         (bindO (work_loop C R P W burst max_jobs max_idle n 0 0 w2) (\<lambda>r.
            case r of
              None \<Rightarrow> ret None
            | Some (k, done, w3) \<Rightarrow> seqO (register_death R (wd_clock W k) w3) (ret (Some (0 < done))))))"

record worker_options =
  wo_burst :: bool
  wo_name :: "string option"
  wo_results_ttl :: int
  wo_worker_ttl :: int
  wo_maintenance_interval :: int
  wo_job_monitoring_interval :: int
  wo_verbose :: bool
  wo_quiet :: bool
  wo_exception_handlers :: "string list"
  wo_disable_default_handler :: bool
  wo_max_jobs :: "int option"
  wo_max_idle_time :: "int option"
  wo_with_scheduler :: bool
  wo_dequeue_strategy :: string

text \<open>What the process and its connection know: the class of the worker, the host, process ids, uuids and addresses.\<close>

record process =
  pr_class :: worker_class
  pr_python :: string
  pr_host :: string
  pr_pid :: int
  pr_child :: int
  pr_uuid :: string
  pr_setname :: bool
  pr_clients :: "(string \<times> string) list option"

definition command_worker :: "process \<Rightarrow> worker_options \<Rightarrow> string \<Rightarrow> string list \<Rightarrow> worker" where
  "command_worker E opts name qs =
     (let n = (if name = [] then pr_uuid E else name) in
      (new_worker (pr_class E) n (map default_queue qs) (Some (wo_worker_ttl opts)) (pr_python E))
        \<lparr>w_default_result_ttl := wo_results_ttl opts, w_maintenance_interval := wo_maintenance_interval opts,
         w_job_monitoring_interval := wo_job_monitoring_interval opts,
         w_disable_default_handler := wo_disable_default_handler opts, w_hostname := Some (pr_host E),
         w_pid := Some (pr_pid E), w_ip_address := Some (own_address n (pr_setname E) (pr_clients E))\<rparr>)"

definition setting_name :: "(string \<times> pyval) list \<Rightarrow> string option \<Rightarrow> string" where
  "setting_name settings name =
     (if opt_default [] name \<noteq> [] then opt_default [] name
      else (case dget settings ''NAME'' PNone of PStr n \<Rightarrow> n | _ \<Rightarrow> []))"

text \<open>
  The body of the command's \<open>try\<close>: every exception in it ends the process with status 1. \<open>call\<close> makes a handler of
  what a name stands for. Pid files and the settings of \<open>logging\<close> itself are left out.
\<close>

definition start_worker_command ::
  "codec \<Rightarrow> 's redis \<Rightarrow> py \<Rightarrow> 's world \<Rightarrow> 'o modules \<Rightarrow> ('o \<Rightarrow> Enqueue.handler) \<Rightarrow> process \<Rightarrow> nat \<Rightarrow> worker_options \<Rightarrow> (string \<times> pyval) list \<Rightarrow>
   string list \<Rightarrow> ('s, bool option) op" where
  "start_worker_command C R P W M call E n opts settings names =
     bindO (liftE (mapE (import_attribute M) (wo_exception_handlers opts))) (\<lambda>hs.
     bindO (ask (\<lambda>s. Inr (key_exists R s suspended_key))) (\<lambda>suspended.
       if suspended then raiseO SystemExit
       else
         bindO (liftE (settings_queues settings names)) (\<lambda>qs.
           work_command C R (P\<lparr>py_handlers := init_handlers (if hs = [] then None else Some (Several (map call hs)))\<rparr>) W (wo_burst opts) (wo_with_scheduler opts) (pr_child E)
             (wo_dequeue_strategy opts) (wo_max_jobs opts) (wo_max_idle_time opts) n
             (command_worker E opts (setting_name settings (wo_name opts)) qs))))"

definition cli_worker ::
  "codec \<Rightarrow> 's redis \<Rightarrow> py \<Rightarrow> 's world \<Rightarrow> 'o modules \<Rightarrow> ('o \<Rightarrow> Enqueue.handler) \<Rightarrow> process \<Rightarrow> nat \<Rightarrow> worker_options \<Rightarrow> (string \<times> pyval) list res \<Rightarrow>
   string list \<Rightarrow> ('s, bool option) op" where
  "cli_worker C R P W M call E n opts settings names =
     bindO (liftE (bindE settings (\<lambda>d. read_config_file (Inr d)))) (\<lambda>d.
       if wo_dequeue_strategy opts \<notin> {''default'', ''random'', ''round_robin''} then raiseO SystemExit
       else
         bindO (liftE (level_from_args (wo_verbose opts) (wo_quiet opts))) (\<lambda>_.
           catchO (start_worker_command C R P W M call E n opts d names) (\<lambda>e. Some (raiseO SystemExit))))"

section \<open>\<open>rq worker-pool\<close> and \<open>rq cron\<close>\<close>

text \<open>The pool as it begins to start its workers; what follows is the steps of theory \<open>Pool\<close>.\<close>

definition cli_worker_pool ::
  "worker_class \<Rightarrow> string \<Rightarrow> os \<Rightarrow> bool \<Rightarrow> bool \<Rightarrow> bool \<Rightarrow> int \<Rightarrow> (string \<times> pyval) list res \<Rightarrow> string list \<Rightarrow> (pool_phase \<times> pool) res" where
  "cli_worker_pool cl uid os burst verbose quiet num_workers settings names =
     bindE (bindE settings (\<lambda>d. read_config_file (Inr d))) (\<lambda>d.
     bindE (level_from_args verbose quiet) (\<lambda>_.
     bindE (settings_queues d names) (\<lambda>qs. Inr (begin_start burst (new_pool (map AName qs) num_workers cl uid os)))))"

text \<open>The end of \<open>rq cron\<close> is an interrupt, which is how its turns end here, too.\<close>

definition cli_cron ::
  "floats \<Rightarrow> (pyval \<Rightarrow> string) \<Rightarrow> codec \<Rightarrow> 's redis \<Rightarrow> py \<Rightarrow> opt_reader \<Rightarrow> (string \<Rightarrow> datetime \<Rightarrow> datetime res) \<Rightarrow>
   (nat \<Rightarrow> nat \<Rightarrow> string) \<Rightarrow> datetime \<Rightarrow> datetime list \<Rightarrow> string \<Rightarrow> int \<Rightarrow> string \<Rightarrow> string \<Rightarrow> bool \<Rightarrow> bool \<Rightarrow> bool \<Rightarrow> err option \<times> cron_data list \<Rightarrow>
   ('s, (datetime \<times> nat list) list) op" where
  "cli_cron F repr C R P rd nc uids t0 ts host pid uid path absolute exists is_file imported c =
     (case load_config_from_file nc t0 path absolute exists is_file imported (new_cron_scheduler host pid uid t0 []) of
        (Inl e, _, _) \<Rightarrow> (Inl e, c)
      | (Inr _, cs, _) \<Rightarrow>
          (case cron_start F repr C R P rd nc uids t0 ts cs c of
             ((Inl e, _, _), c1) \<Rightarrow> (Inl e, c1)
           | ((Inr _, trail, _), c1) \<Rightarrow> (Inr trail, c1)))"

section \<open>What holds of them\<close>

lemma catch_all_Inl: "catchO m (\<lambda>e. Some (raiseO x)) c = (Inl e, c') \<Longrightarrow> e = x"
  by (auto simp: catchO_def split: prod.splits sum.splits)

text \<open>Whatever goes wrong while \<open>rq worker\<close> runs, it ends as a process does that was not successful.\<close>

theorem worker_command_exits:
  assumes "cli_worker C R P W M call E n opts (Inr d) names c = (Inl e, c')" "\<not> (wo_verbose opts \<and> wo_quiet opts)"
  shows "e = SystemExit"
  using assms
  by (auto simp: cli_worker_def read_config_file_def level_from_args_def bindO_def dest: catch_all_Inl split: if_splits)

text \<open>While the workers are suspended, \<open>rq worker\<close> starts none and leaves the server as it is.\<close>

theorem suspended_starts_no_worker:
  assumes "key_exists R s suspended_key"
  shows "\<exists>e. cli_worker C R P W M call E n opts settings names (s, buf) = (Inl e, (s, buf))"
  using assms
  by (cases settings; cases "mapE (import_attribute M) (wo_exception_handlers opts)")
     (auto simp: cli_worker_def start_worker_command_def read_config_file_def level_from_args_def bindO_def catchO_def)

theorem suspended_starts_no_worker_witness:
  "\<exists>e. cli_worker sample_codec mem_redis sample_py W M call E 9 opts settings [''q''] (r_run mem_redis (SetStr suspended_key ''1'') mem_empty, []) =
     (Inl e, (r_run mem_redis (SetStr suspended_key ''1'') mem_empty, []))"
  by (rule suspended_starts_no_worker) (simp add: key_exists_def mem.str_run)

text \<open>Without a scheduler the command is the worker's loop, with the strategy set.\<close>

lemma work_command_plain:
  "work_command C R P W burst False child strategy max_jobs max_idle n w =
     bindO (bootstrap R (wd_clock W 0) w) (\<lambda>w1.
     bindO (work_loop C R P W burst max_jobs max_idle n 0 0 (w1\<lparr>w_strategy := Some strategy\<rparr>)) (\<lambda>r.
       case r of
         None \<Rightarrow> ret None
       | Some (k, done, w3) \<Rightarrow> seqO (register_death R (wd_clock W k) w3) (ret (Some (0 < done)))))"
  by (simp add: work_command_def Let_def seqO_def bindO_def fun_eq_iff)

text \<open>What the scheduler's start raises leaves the worker registered: \<open>teardown\<close> belongs to a \<open>try\<close> that begins later.\<close>

lemma failed_scheduler_keeps_worker:
  assumes "bootstrap R (wd_clock W 0) w c = (Inr w1, c1)"
    and "start_scheduler C R P (wd_clock W 0) burst (opt_default 0 (w_pid w)) child (w1\<lparr>w_strategy := Some strategy\<rparr>) c1 = (Inl e, c2)"
  shows "work_command C R P W burst True child strategy max_jobs max_idle n w c = (Inl e, c2)"
  using assms by (simp add: work_command_def Let_def seqO_def bindO_def)

lemma add_worker_names: "distinct (map w_name ws) \<Longrightarrow> distinct (map w_name (add_worker w ws))"
  by (simp add: add_worker_def)

text \<open>Every worker is shown once, on however many of the queues it works.\<close>

lemma workers_shown_once:
  "distinct (map w_name (fold add_worker ws []))" "set (map w_name (fold add_worker ws [])) = set (map w_name ws)"
proof -
  have "distinct (map w_name acc) \<Longrightarrow> distinct (map w_name (fold add_worker ws acc))" for acc
    by (induction ws arbitrary: acc) (simp_all add: add_worker_names)
  then show "distinct (map w_name (fold add_worker ws []))" by simp
  have "set (map w_name (fold add_worker ws acc)) = set (map w_name acc) \<union> set (map w_name ws)" for acc
    by (induction ws arbitrary: acc) (auto simp: add_worker_def)
  then show "set (map w_name (fold add_worker ws [])) = set (map w_name ws)" by simp
qed

lemma pad_length: "length (pad n s) = max n (length s)"
  by (simp add: pad_def)

lemma map_each_length: "map_each f xs c = (Inr ys, c') \<Longrightarrow> length ys = length xs"
  by (induction xs arbitrary: ys c) (auto simp: bindO_def split: prod.splits sum.splits)

text \<open>One line for each queue, and a summary for people.\<close>

lemma queue_lines:
  assumes "show_queues C R P t style bars termwidth raw qs c = (Inr lines, c')"
  shows "length lines = length qs + (if raw then 0 else 1)"
  using assms by (cases c) (auto simp: show_queues_def bindO_def Let_def split: prod.splits sum.splits dest: map_each_length)

end
