(* ===== verification/Spec2Isabelle.thy ===== *)
theory Spec2Isabelle
  imports System CronStore Timeouts Locals Races Outages Burst Console
begin

text \<open>
  RQ: job queues on Redis, for Python. This library models the package \<open>rq\<close> under \<open>src/rq/\<close>: what its operations do to the
  server, in which order, what they return and which exceptions they raise, and proves what makes them correct.

  \<^bold>\<open>The program.\<close> A client creates a job, saves it as a hash and pushes its id on the list of a queue. A worker takes ids from its
  queues, one at a time, through an intermediate list when it has one queue; it prepares the job, registers its
  execution among the started jobs, and runs it in a work horse, a child process. When the horse ends, the job is
  finished, failed or to be tried again, its result is put on a stream, and the jobs that depend on it are enqueued.
  Registries are sorted sets of ids by expiry time. A scheduler process enqueues what is due and holds a lock on each of its queues; a
  cron scheduler enqueues jobs at intervals or by cron expressions. Workers of a pool are child processes that the pool
  replaces. Commands and signals reach a worker from outside. All state that two processes share is on the server.

  \<^bold>\<open>The server.\<close> \<open>Redis\<close> has the commands RQ sends as a datatype, and a server as a record \<open>'s redis\<close> of what can be read and of
  \<open>r_run\<close>. The locale \<open>redis_server\<close> is its contract, the documented effect of each command on each key; \<open>mem_redis\<close>
  is an implementation in memory, on which the locale is interpreted and on which the witnesses run. An operation of the library is a
  function on a connection (\<open>Conn\<close>): the server and the commands that wait in a pipeline. It returns a value or an exception and the new
  connection; \<open>send\<close>, \<open>ask\<close>, \<open>execute\<close>, \<open>new_pipe\<close>, \<open>catchO\<close> and \<open>for_each\<close> are how the code sends, reads, executes, opens
  a pipeline, catches and loops. Exceptions are the values of \<open>err\<close> (\<open>Prelude\<close>; \<open>rq/exceptions.py\<close> and Python's own).

  \<^bold>\<open>The theories\<close>, each opening with what it holds:
  \<^item> \<open>Prelude\<close>, \<open>Text\<close>, \<open>Timefmt\<close>, \<open>Utils\<close>, \<open>Json\<close>: results, text and numbers, dates, \<open>rq/utils.py\<close>, and \<open>json\<close> as it writes and reads.
  \<^item> \<open>Redis\<close>, \<open>Keys\<close>, \<open>Conn\<close>: the server, the names of all keys and when two are equal, connections and pipelines.
  \<^item> \<open>Job\<close>, \<open>JobStore\<close>, \<open>JobOps\<close>: the job object and \<open>Job.create\<close>; \<open>to_dict\<close>, \<open>save\<close>, \<open>restore\<close>, \<open>fetch\<close>; deletion, expiry and
    the registries' part in them (\<open>rq/job.py\<close>).
  \<^item> \<open>Serializers\<close>: \<open>rq/serializers.py\<close>.
  \<^item> \<open>Registry\<close>, \<open>Results\<close>, \<open>Executions\<close>, \<open>Group\<close>: \<open>rq/registry.py\<close>, \<open>rq/results.py\<close>, \<open>rq/executions.py\<close>, \<open>rq/group.py\<close>.
  \<^item> \<open>Queue\<close>, \<open>Scripts\<close>, \<open>Enqueue\<close>: the list of a queue and taking from it, the Lua scripts for unique jobs, enqueueing, deferring and
    dependents (\<open>rq/queue.py\<close>, \<open>rq/scripts.py\<close>).
  \<^item> \<open>Lifecycle\<close>: retries, repeats, requeueing, cancelling, abandoned jobs, the queue's methods that create jobs, batches
    (\<open>rq/queue.py\<close>, \<open>rq/job.py\<close>, \<open>rq/registry.py\<close>, \<open>rq/repeat.py\<close>).
  \<^item> \<open>Worker\<close>, \<open>Work\<close>, \<open>Signals\<close>: the worker's entry on the server; a job on its worker, the horse, maintenance, the loop of
    \<open>work\<close>; signals and commands (\<open>rq/worker/\<close>, \<open>rq/worker_registration.py\<close>, \<open>rq/suspension.py\<close>, \<open>rq/intermediate_queue.py\<close>, \<open>rq/command.py\<close>).
  \<^item> \<open>Outages\<close>, \<open>Burst\<close>: a worker that loses its connection while it waits for a job or records a failure; what a burst worker leaves behind.
  \<^item> \<open>Races\<close>: the two operations that watch keys, split into attempt and execution, against each other.
  \<^item> \<open>Scheduler\<close>, \<open>Cron\<close>, \<open>CronTurns\<close>, \<open>CronStore\<close>, \<open>Pool\<close>: \<open>rq/scheduler.py\<close>, \<open>rq/cron.py\<close>, \<open>rq/cron_scheduler_registry.py\<close>, \<open>rq/worker_pool.py\<close>.
  \<^item> \<open>Timeouts\<close>, \<open>Locals\<close>: \<open>rq/timeouts.py\<close>; \<open>rq/local.py\<close>, whose stack refines that of \<open>Frontends\<close>.
  \<^item> \<open>Frontends\<close>, \<open>Views\<close>: \<open>enqueue\<close> as it is called, the decorator, \<open>get_current_job\<close>; what queues, registries, jobs and connections
    show; the horse of \<open>SpawnWorker\<close>.
  \<^item> \<open>Cli\<close>, \<open>Settings\<close>, \<open>Console\<close>: the commands of \<open>rq\<close>, their shared options, the log handlers (\<open>rq/cli/\<close>, \<open>rq/logutils.py\<close>).
  \<^item> \<open>System\<close>: the operations together.

  \<^bold>\<open>What is proved.\<close>
  \<^item> Of the whole: an abstract board of queues, intermediate lists and statuses that every operation moves by one abstract step, and that
    no queued job is lost in any sequence of operations and crashes (\<open>System\<close>); that no dependent is forgotten when its
    enqueueing and the end of its dependency interleave (\<open>Races\<close>).
  \<^item> Of storage: that what is fetched is what was saved, with a serializer that keeps the payload, and that the JSON serializer
    does; that a cron scheduler is found with its jobs and times.
  \<^item> Of each operation: what the server and the object are after it, on the branches that succeed and those that raise: enqueueing,
    deferring, dependents, taking, success, failure, cancelling, requeueing, unique jobs, batches, due jobs.
  \<^item> Of the loops: that a burst worker and chains of retries end, that a burst worker leaves empty queues and an outage only delays a worker, that a worker asked to stop takes no further job, that a pool never has more
    workers than asked for, that a cron job is enqueued when it is due and only then, that no two schedulers hold one lock,
    that round robin is fair.
  \<^item> Of what goes wrong: commands and signals that come at the wrong moment, limits within limits, locks and executions that outlive
    what they stand for. These are stated as the code behaves.

  \<^bold>\<open>Interfaces.\<close> \<open>redis_server\<close> is extended by \<open>expiring_set\<close> (what the clients of a registry rely on) and \<open>job_queue\<close> (what those of a
  queue do) through \<open>sublocale\<close>, so that one interpretation gives all three. \<open>death_penalty\<close> is the contract of the two classes that
  limit running times; it is interpreted for the alarm and for the timers.

  \<^bold>\<open>Time, order and bounds.\<close> A method that reads the clock several times gets one reading; the readings of different steps are independent
  arguments. \<open>datetime\<close> counts microseconds since 1970. \<open>dequeue_any\<close> is called with as much fuel as there are waiting ids and one more, of which
  each pass uses up one id; a burst worker needs one more than \<open>max_jobs\<close>, which is proved in \<open>Work\<close>, and other loops return
  None when theirs runs out. The loop that reads JSON has the length of the text as fuel, of which every value needs at least one character.
  Turns of the cron scheduler are a list of clock readings. In \<open>Signals\<close> and \<open>Pool\<close> the code is cut where signals and
  deaths of processes matter, and everything may happen between two steps; elsewhere an operation runs undisturbed. The reads of
  one attempt of a transaction happen at one moment, and an execution may be refused at any time.

  \<^bold>\<open>Parameters.\<close> What a job and its callbacks and exception handlers do (\<open>py\<close>), pickle and zlib (\<open>codec\<close>), floating point texts (\<open>floats\<close>), the next
  time of a cron expression, importing modules, \<open>ast.literal_eval\<close>, files, uuids, process ids, the order of Python sets, shuffling, and
  the styling of click are arguments. Where a property needs something of them it is a hypothesis, and its witness names an
  instance.

  \<^bold>\<open>Not modelled.\<close> Connections that fail elsewhere than while a worker waits for a job or records a failure: the commands of \<open>rq\<close>
  print the error, and no other code handles them. What is written to logs. The effects that a user's callbacks and handlers have on the server. Infinities and NaN in JSON, and dates before 1970 or
  after 9999. Keyword arguments of a job that are no dict. What an operator does to the object behind a proxy. \<open>System\<close>
  has workers with one queue, whose taking is LMOVE; taking from several queues is LPOP, which leaves no trace of an id, and is in \<open>Queue\<close> and \<open>Work\<close>.
\<close>

end
